(* ===== verification/Prelude.thy ===== *)
theory Prelude
  imports Main "HOL-Library.AList" "HOL-Library.Char_ord" "HOL-Library.List_Lexorder"
begin

text \<open>
  Shared vocabulary of the development: Go errors and results, Go maps as association lists,
  Go channels and \<open>select\<close> as the list of enabled branches, and the generic rule by which an
  invariant of a step relation holds in every reachable state.
  Go strings are byte strings and are modelled as \<open>string\<close>, a list of 8-bit characters;
  their order (\<open><\<close> on \<open>string\<close>, from \<open>List_Lexorder\<close> and \<open>Char_ord\<close>) is Go's bytewise order.
\<close>

section \<open>Collections of rewrite rules\<close>

named_theorems go_map_simps \<open>lookup and key equations of the Go map operations\<close>
named_theorems chan_simps \<open>the channel operations, unfolded\<close>

section \<open>Errors and results\<close>

text \<open>
  A Go \<open>error\<close> value: the context's error, the sentinel errors the code compares against with
  \<open>errors.Is\<close>, a message, a message wrapping another error (\<open>fmt.Errorf\<close> with \<open>%w\<close>) and the list
  built by \<open>errors.Join\<close>. A function that returns \<open>(T, error)\<close> returns a sum, \<open>Inl\<close> for the error.
\<close>

datatype go_error =
    CtxErr
  | IoEOF
  | StopRetries
  | NotFoundErr
  | ForbiddenErr
  | ExpiredErr
  | ErrMsg string
  | WrapErr string go_error
  | JoinErr "go_error list"

type_synonym 'a result = "go_error + 'a"

text \<open>\<open>errors.Is err target\<close> follows the wrapped errors.\<close>

fun errors_is :: "go_error \<Rightarrow> go_error \<Rightarrow> bool" where
  "errors_is (WrapErr m e) t = (WrapErr m e = t \<or> errors_is e t)"
| "errors_is (JoinErr es) t = (JoinErr es = t \<or> (\<exists>e \<in> set es. errors_is e t))"
| "errors_is e t = (e = t)"

text \<open>\<open>errors.Join\<close> of a list of non-nil errors is nil exactly for the empty list.\<close>

definition errors_join :: "go_error list \<Rightarrow> unit result" where
  "errors_join es = (if es = [] then Inr () else Inl (JoinErr es))"

lemma errors_is_refl: "errors_is e e"
  by (cases e) simp_all

lemma errors_join_Inr [simp]: "errors_join es = Inr u \<longleftrightarrow> es = []"
  by (simp add: errors_join_def)

section \<open>Decimal numbers\<close>

text \<open>\<open>%d\<close> and \<open>strconv.Itoa\<close>.\<close>

definition digit_char :: "nat \<Rightarrow> char" where
  "digit_char d = char_of (48 + d)"

fun string_of_nat :: "nat \<Rightarrow> string" where
  "string_of_nat n = (if n < 10 then [digit_char n] else string_of_nat (n div 10) @ [digit_char (n mod 10)])"

declare string_of_nat.simps [simp del]

definition string_of_int :: "int \<Rightarrow> string" where
  "string_of_int i = (if i < 0 then CHR ''-'' # string_of_nat (nat (- i)) else string_of_nat (nat i))"

section \<open>Go maps\<close>

text \<open>
  A Go map is an association list with distinct keys. Its iteration order is the order of the
  list; Go leaves that order unspecified, so a statement about a loop over a map is meant for
  every list with the same entries.
\<close>

type_synonym ('k, 'v) gomap = "('k \<times> 'v) list"

abbreviation gm_get :: "('k, 'v) gomap \<Rightarrow> 'k \<Rightarrow> 'v option" where
  "gm_get \<equiv> map_of"

abbreviation gm_put :: "'k \<Rightarrow> 'v \<Rightarrow> ('k, 'v) gomap \<Rightarrow> ('k, 'v) gomap" where
  "gm_put \<equiv> AList.update"

abbreviation gm_del :: "'k \<Rightarrow> ('k, 'v) gomap \<Rightarrow> ('k, 'v) gomap" where
  "gm_del \<equiv> AList.delete"

abbreviation gm_keys :: "('k, 'v) gomap \<Rightarrow> 'k list" where
  "gm_keys m \<equiv> map fst m"

definition gm_ok :: "('k, 'v) gomap \<Rightarrow> bool" where
  "gm_ok m \<longleftrightarrow> distinct (gm_keys m)"

lemma gm_get_put [go_map_simps, simp]: "gm_get (gm_put k v m) k' = (if k' = k then Some v else gm_get m k')"
  by (simp add: update_conv')

lemma gm_get_del [go_map_simps, simp]: "gm_get (gm_del k m) k' = (if k' = k then None else gm_get m k')"
  by (simp add: delete_conv')

lemma gm_ok_Nil [simp]: "gm_ok []"
  by (simp add: gm_ok_def)

lemma gm_ok_put [simp]: "gm_ok m \<Longrightarrow> gm_ok (gm_put k v m)"
  by (simp add: gm_ok_def distinct_update)

lemma gm_ok_del [simp]: "gm_ok m \<Longrightarrow> gm_ok (gm_del k m)"
  by (simp add: gm_ok_def distinct_delete)

lemma gm_keys_iff: "k \<in> set (gm_keys m) \<longleftrightarrow> gm_get m k \<noteq> None"
  by (metis map_of_eq_None_iff list.set_map)

lemma gm_get_SomeD: "gm_get m k = Some v \<Longrightarrow> (k, v) \<in> set m"
  by (rule map_of_SomeD)

lemma gm_get_in: "gm_ok m \<Longrightarrow> (k, v) \<in> set m \<Longrightarrow> gm_get m k = Some v"
  by (simp add: gm_ok_def)

section \<open>Channels and select\<close>

text \<open>
  A buffered channel: the queued values, oldest first, its capacity and whether it is closed.
  A receive from a closed, drained channel is enabled too and yields no value; the code modelled
  here receives only from open channels or tests \<open>ok\<close>, and those sites write the case out.
\<close>

record 'a chan =
  chan_buf :: "'a list"
  chan_cap :: nat
  chan_closed :: bool

definition make_chan :: "nat \<Rightarrow> 'a chan" where
  "make_chan n = \<lparr>chan_buf = [], chan_cap = n, chan_closed = False\<rparr>"

definition chan_room :: "'a chan \<Rightarrow> bool" where
  "chan_room ch \<longleftrightarrow> length (chan_buf ch) < chan_cap ch"

definition chan_push :: "'a \<Rightarrow> 'a chan \<Rightarrow> 'a chan" where
  "chan_push x ch = ch\<lparr>chan_buf := chan_buf ch @ [x]\<rparr>"

definition chan_drop :: "'a chan \<Rightarrow> 'a chan" where
  "chan_drop ch = ch\<lparr>chan_buf := tl (chan_buf ch)\<rparr>"

lemmas chan_defs [chan_simps] = make_chan_def chan_room_def chan_push_def chan_drop_def

text \<open>
  One pass of a \<open>select\<close> is the list of the outcomes of its enabled branches: several outcomes
  are Go's random choice, the empty list means the goroutine blocks. An operation that performs
  a send on a closed channel panics.
\<close>

datatype 'r outcome = Returns 'r | Panics string

fun outcome_result :: "'r outcome \<Rightarrow> 'r option" where
  "outcome_result (Returns r) = Some r"
| "outcome_result (Panics _) = None"

lemma Returns_eq_map_outcome [simp]: "Returns x = map_outcome f y \<longleftrightarrow> (\<exists>z. y = Returns z \<and> x = f z)"
  by (cases y) auto

text \<open>The body of a \<open>for { select ... }\<close> loop either leaves the loop or goes round again.\<close>

datatype ('r, 's) loop = Break 'r | Again 's

section \<open>Invariants of step relations\<close>

text \<open>
  The contract of a component that runs by steps: an initial state satisfies the invariant and
  every step keeps it. Every reachable state then satisfies it.
\<close>

locale invariant_system =
  fixes start :: "'s \<Rightarrow> bool"
    and step :: "'s \<Rightarrow> 's \<Rightarrow> bool"
    and inv :: "'s \<Rightarrow> bool"
  assumes inv_start: "start s \<Longrightarrow> inv s"
    and inv_step: "inv s \<Longrightarrow> step s t \<Longrightarrow> inv t"
begin

lemma inv_reach: "step\<^sup>*\<^sup>* s t \<Longrightarrow> inv s \<Longrightarrow> inv t"
  by (induction rule: rtranclp_induct) (auto intro: inv_step)

lemma inv_reachable: "start s \<Longrightarrow> step\<^sup>*\<^sup>* s t \<Longrightarrow> inv t"
  by (blast intro: inv_start inv_reach)

end

text \<open>
  The contract of an operation run over a list of inputs (a fold): each application keeps the
  invariant, so the whole run does.
\<close>

locale invariant_fold =
  fixes op :: "'e \<Rightarrow> 's \<Rightarrow> 's"
    and inv :: "'s \<Rightarrow> bool"
  assumes inv_op: "inv s \<Longrightarrow> inv (op e s)"
begin

lemma inv_fold: "inv s \<Longrightarrow> inv (fold op es s)"
  by (induction es arbitrary: s) (auto intro: inv_op)

end

section \<open>Lists and options\<close>

text \<open>Strings around a separator that occurs in neither first part split uniquely.\<close>

lemma append_sep_eq:
  assumes "xs @ c # ys = xs' @ c # ys'" and "c \<notin> set xs" and "c \<notin> set xs'"
  shows "xs = xs' \<and> ys = ys'"
  using assms
proof (induction xs arbitrary: xs')
  case Nil
  then show ?case by (cases xs') auto
next
  case (Cons x xs)
  then show ?case by (cases xs') auto
qed

end
