(* ===== verification/Go_Strings.thy ===== *)
theory Go_Strings
  imports Prelude "HOL-Library.Sublist" "HOL-Library.Monad_Syntax"
begin

text \<open>
  The functions of Go's \<open>strings\<close>, \<open>strconv\<close>, \<open>time\<close> and \<open>bufio\<close> packages that the components call
  on strings: searching and trimming, decimal numbers, and \<open>time.Parse\<close> for the one fixed layout
  the log rotation uses. \<open>strings.HasPrefix\<close> and \<open>strings.HasSuffix\<close> are \<open>prefix\<close> and \<open>suffix\<close>.
\<close>

section \<open>Package strings\<close>

fun str_contains :: "string \<Rightarrow> string \<Rightarrow> bool" where
  "str_contains pat [] \<longleftrightarrow> pat = []"
| "str_contains pat (c # cs) \<longleftrightarrow> prefix pat (c # cs) \<or> str_contains pat cs"

text \<open>\<open>strings.TrimSpace\<close> on ASCII text.\<close>

definition is_space :: "char \<Rightarrow> bool" where
  "is_space c \<longleftrightarrow> of_char c \<in> {9, 10, 11, 12, 13, 32 :: nat}"

definition TrimSpace :: "string \<Rightarrow> string" where
  "TrimSpace s = rev (dropWhile is_space (rev (dropWhile is_space s)))"

definition TrimPrefix :: "string \<Rightarrow> string \<Rightarrow> string" where
  "TrimPrefix s p = (if prefix p s then drop (length p) s else s)"

definition TrimSuffix :: "string \<Rightarrow> string \<Rightarrow> string" where
  "TrimSuffix s x = (if suffix x s then take (length s - length x) s else s)"

text \<open>\<open>strings.ToLower\<close> on ASCII letters.\<close>

definition lower_char :: "char \<Rightarrow> char" where
  "lower_char c = (if 65 \<le> (of_char c :: nat) \<and> (of_char c :: nat) \<le> 90 then char_of (of_char c + 32 :: nat) else c)"

definition ToLower :: "string \<Rightarrow> string" where
  "ToLower s = map lower_char s"

lemma TrimSuffix_append [simp]: "TrimSuffix (s @ x) x = s"
  by (auto simp: TrimSuffix_def suffix_def)

lemma TrimPrefix_append [simp]: "TrimPrefix (p @ s) p = s"
  by (simp add: TrimPrefix_def)

lemma suffix_TrimSuffix: "suffix x s \<Longrightarrow> TrimSuffix s x @ x = s"
  by (auto simp: suffix_def)

lemma prefix_drop: "prefix p s \<Longrightarrow> p @ drop (length p) s = s"
  by (auto simp: prefix_def)

section \<open>Decimal numbers\<close>

definition is_digit :: "char \<Rightarrow> bool" where
  "is_digit c \<longleftrightarrow> 48 \<le> (of_char c :: nat) \<and> (of_char c :: nat) \<le> 57"

definition digit_val :: "char \<Rightarrow> nat" where
  "digit_val c = of_char c - 48"

definition digits_val :: "string \<Rightarrow> nat" where
  "digits_val s = foldl (\<lambda>n c. 10 * n + digit_val c) 0 s"

text \<open>\<open>strconv.ParseUint(s, 10, bits)\<close>.\<close>

definition ParseUint :: "nat \<Rightarrow> string \<Rightarrow> nat option" where
  "ParseUint bits s =
     (if s = [] \<or> \<not> list_all is_digit s \<or> digits_val s \<ge> 2 ^ bits then None else Some (digits_val s))"

text \<open>\<open>strconv.ParseInt(s, 10, 64)\<close>: an optional sign, then digits, within 64 bits.\<close>

definition ParseInt64 :: "string \<Rightarrow> int option" where
  "ParseInt64 s =
     (let neg = (case s of c # _ \<Rightarrow> c = CHR ''-'' | [] \<Rightarrow> False);
          ds = (case s of c # r \<Rightarrow> if c = CHR ''-'' \<or> c = CHR ''+'' then r else s | [] \<Rightarrow> []);
          v = int (digits_val ds);
          n = (if neg then - v else v)
      in if ds = [] \<or> \<not> list_all is_digit ds \<or> n < - (2 ^ 63) \<or> n \<ge> 2 ^ 63 then None else Some n)"

text \<open>Printing a number and reading it back.\<close>

lemma digit_char_val: "d < 10 \<Longrightarrow> is_digit (digit_char d) \<and> digit_val (digit_char d) = d"
  by (simp add: digit_char_def is_digit_def digit_val_def)

lemma string_of_nat_digits: "string_of_nat n \<noteq> [] \<and> list_all is_digit (string_of_nat n) \<and> digits_val (string_of_nat n) = n"
proof (induction n rule: string_of_nat.induct)
  case (1 n)
  show ?case
  proof (cases "n < 10")
    case True
    then show ?thesis by (simp add: string_of_nat.simps digits_val_def digit_char_val)
  next
    case False
    with 1 have "digits_val (string_of_nat (n div 10)) = n div 10" "list_all is_digit (string_of_nat (n div 10))" by auto
    with False show ?thesis
      by (subst (1 2 3) string_of_nat.simps) (simp add: digits_val_def digit_char_val)
  qed
qed

lemma ParseUint_string_of_nat: "n < 2 ^ bits \<Longrightarrow> ParseUint bits (string_of_nat n) = Some n"
  using string_of_nat_digits [of n] by (simp add: ParseUint_def)

section \<open>Package time\<close>

text \<open>
  \<open>time.Parse\<close> for the layout \<open>2006-01-02T15-04-05.000\<close>. Each element follows the library: four
  characters of year of which the first is a digit, two-digit month, day, minute and second, an
  hour of one or two digits (the element \<open>15\<close> is not fixed-width), a period or a comma and three
  characters of fraction; the day must exist in the month.
\<close>

definition time_lit :: "char \<Rightarrow> string \<Rightarrow> string option" where
  "time_lit c s = (case s of x # r \<Rightarrow> if x = c then Some r else None | [] \<Rightarrow> None)"

definition getnum :: "bool \<Rightarrow> string \<Rightarrow> (nat \<times> string) option" where
  "getnum fixed s =
     (case s of
        [] \<Rightarrow> None
      | c # r \<Rightarrow>
          if \<not> is_digit c then None
          else case r of
                 d # r' \<Rightarrow> if is_digit d then Some (10 * digit_val c + digit_val d, r')
                           else if fixed then None else Some (digit_val c, r)
               | [] \<Rightarrow> if fixed then None else Some (digit_val c, []))"

definition time_year :: "string \<Rightarrow> (nat \<times> string) option" where
  "time_year s = (if length s < 4 \<or> \<not> list_all is_digit (take 4 s) then None
                  else Some (digits_val (take 4 s), drop 4 s))"

definition getnum_range :: "bool \<Rightarrow> nat \<Rightarrow> nat \<Rightarrow> string \<Rightarrow> (nat \<times> string) option" where
  "getnum_range fixed lo hi s =
     (case getnum fixed s of Some (n, r) \<Rightarrow> if lo \<le> n \<and> n \<le> hi then Some (n, r) else None | None \<Rightarrow> None)"

text \<open>The fraction goes through the package's \<open>atoi\<close>, which takes a sign; a negative value is refused.\<close>

definition time_fraction :: "string \<Rightarrow> string option" where
  "time_fraction s =
     (case s of
        p # a # b # c # r \<Rightarrow>
          if (p = CHR ''.'' \<or> p = CHR '','') \<and> is_digit b \<and> is_digit c
             \<and> (is_digit a \<or> a = CHR ''+'' \<or> (a = CHR ''-'' \<and> b = CHR ''0'' \<and> c = CHR ''0''))
          then Some r else None
      | _ \<Rightarrow> None)"

definition is_leap :: "nat \<Rightarrow> bool" where
  "is_leap y \<longleftrightarrow> y mod 4 = 0 \<and> (y mod 100 \<noteq> 0 \<or> y mod 400 = 0)"

definition days_in :: "nat \<Rightarrow> nat \<Rightarrow> nat" where
  "days_in m y = (if m = 2 then (if is_leap y then 29 else 28) else if m \<in> {4, 6, 9, 11} then 30 else 31)"

definition parse_backup_time :: "string \<Rightarrow> bool" where
  "parse_backup_time s =
     (case do {
        (y, s) \<leftarrow> time_year s;
        s \<leftarrow> time_lit (CHR ''-'') s;
        (mo, s) \<leftarrow> getnum_range True 1 12 s;
        s \<leftarrow> time_lit (CHR ''-'') s;
        (d, s) \<leftarrow> getnum_range True 0 99 s;
        s \<leftarrow> time_lit (CHR ''T'') s;
        (h, s) \<leftarrow> getnum_range False 0 23 s;
        s \<leftarrow> time_lit (CHR ''-'') s;
        (mi, s) \<leftarrow> getnum_range True 0 59 s;
        s \<leftarrow> time_lit (CHR ''-'') s;
        (sec, s) \<leftarrow> getnum_range True 0 59 s;
        s \<leftarrow> time_fraction s;
        Some (s = [] \<and> 1 \<le> d \<and> d \<le> days_in mo y)
      } of Some ok \<Rightarrow> ok | None \<Rightarrow> False)"

lemmas parse_backup_time_defs = parse_backup_time_def time_year_def time_lit_def getnum_range_def getnum_def
  time_fraction_def days_in_def is_leap_def is_digit_def digit_val_def digits_val_def

lemma parse_backup_time_nonempty: "parse_backup_time s \<Longrightarrow> s \<noteq> []"
  by (auto simp: parse_backup_time_def time_year_def)

end
