(* ===== verification/Proto_Types.thy ===== *)
theory Proto_Types
  imports Prelude "HOL-Library.Finite_Map" "HOL-Library.Word"
begin

text \<open>
  The protocol messages of \<open>api/illumio/cloud/k8sclustersync/v1/k8s_info.proto\<close> that the modelled
  code builds and compares. Conventions: an \<open>optional\<close> scalar or a message pointer is an option;
  a \<open>repeated\<close> field is a list, with nil and the empty slice both the empty list, as
  \<open>proto.Equal\<close> treats them; a \<open>map<string, string>\<close> field is a finite map, whose equality is
  equality of entries. HOL equality on these types is then \<open>proto.Equal\<close>, with one exception,
  the nil and the empty map of \<open>labels\<close> and \<open>annotations\<close>, which the code tells apart: see
  \<open>Objects.thy\<close>. A signed integer field that the code only copies is an \<open>int\<close>.
\<close>

type_synonym strmap = "(string, string) fmap"

section \<open>Label selectors\<close>

record label_selector_requirement =
  lsr_key :: string
  lsr_operator :: string
  lsr_values :: "string list"

record pb_label_selector =
  ls_match_labels :: strmap
  ls_match_expressions :: "label_selector_requirement list"

section \<open>Cilium policies\<close>

record cilium_policy_port =
  cpp_port :: string
  cpp_end_port :: "int option"
  cpp_protocol :: "string option"

record cilium_policy_cidr_set =
  ccs_cidr :: "string option"
  ccs_cidr_group_ref :: "string option"
  ccs_cidr_group_selector :: "pb_label_selector option"
  ccs_except :: "string list"

datatype icmp_type = TypeInt "32 word" | TypeString string

record cilium_policy_icmp_field =
  cif_family :: "string option"
  cif_type :: "icmp_type option"

record cilium_policy_aws_group =
  cag_labels :: strmap
  cag_security_group_ids :: "string list"
  cag_security_group_names :: "string list"
  cag_region :: "string option"

record cilium_policy_fqdn_selector =
  cfq_match_name :: "string option"
  cfq_match_pattern :: "string option"

record cilium_k8s_service_selector =
  css_selector :: "pb_label_selector option"
  css_namespace :: "string option"

record cilium_k8s_service =
  cks_service_name :: "string option"
  cks_namespace :: "string option"

record cilium_policy_service =
  cps_k8s_service_selector :: "cilium_k8s_service_selector option"
  cps_k8s_service :: "cilium_k8s_service option"

record cilium_policy_default_deny =
  cdd_ingress :: "bool option"
  cdd_egress :: "bool option"

text \<open>Port rules and ICMP rules wrap one repeated field each and are lists of lists.\<close>

record cilium_ingress_rule =
  cir_from_endpoints :: "pb_label_selector option list option"
  cir_from_cidr :: "string list"
  cir_from_cidr_set :: "cilium_policy_cidr_set list"
  cir_from_entities :: "string list"
  cir_from_groups :: "cilium_policy_aws_group list"
  cir_from_nodes :: "pb_label_selector option list"
  cir_to_ports :: "cilium_policy_port list list"
  cir_icmps :: "cilium_policy_icmp_field list list"
  cir_authentication :: "string option"

record cilium_egress_rule =
  cer_to_endpoints :: "pb_label_selector option list option"
  cer_to_cidr :: "string list"
  cer_to_cidr_set :: "cilium_policy_cidr_set list"
  cer_to_entities :: "string list"
  cer_to_fqdns :: "cilium_policy_fqdn_selector list"
  cer_to_services :: "cilium_policy_service list"
  cer_to_groups :: "cilium_policy_aws_group list"
  cer_to_nodes :: "pb_label_selector option list"
  cer_to_ports :: "cilium_policy_port list list"
  cer_icmps :: "cilium_policy_icmp_field list list"
  cer_authentication :: "string option"

record cilium_policy_rule =
  cpr_endpoint_selector :: "pb_label_selector option"
  cpr_node_selector :: "pb_label_selector option"
  cpr_description :: "string option"
  cpr_labels :: strmap
  cpr_enable_default_deny :: "cilium_policy_default_deny option"
  cpr_ingress :: "cilium_ingress_rule list"
  cpr_egress :: "cilium_egress_rule list"
  cpr_ingress_deny :: "cilium_ingress_rule list"
  cpr_egress_deny :: "cilium_egress_rule list"

section \<open>AWS cluster network policies\<close>

record aws_pod_selector =
  aps_namespace_selector :: "pb_label_selector option"
  aps_pod_selector :: "pb_label_selector option"

record aws_policy_port =
  app_port_number :: "(string \<times> int) option"
  app_port_range :: "(string \<times> int \<times> int) option"
  app_named_port :: "string option"

record aws_ingress_peer =
  aip_pods :: "aws_pod_selector option"
  aip_namespaces :: "pb_label_selector option"

record aws_egress_peer =
  aep_pods :: "aws_pod_selector option"
  aep_namespaces :: "pb_label_selector option"
  aep_networks :: "string list"
  aep_domain_names :: "string list"

record aws_ingress_rule =
  air_name :: "string option"
  air_action :: string
  air_ports :: "aws_policy_port list"
  air_from :: "aws_ingress_peer list"

record aws_egress_rule =
  aer_name :: "string option"
  aer_action :: string
  aer_ports :: "aws_policy_port list"
  aer_to :: "aws_egress_peer list"

record aws_subject =
  asu_pods :: "aws_pod_selector option"
  asu_namespaces :: "pb_label_selector option"

record aws_cluster_policy =
  acp_priority :: "int option"
  acp_tier :: string
  acp_subject :: "aws_subject option"
  acp_ingress :: "aws_ingress_rule list"
  acp_egress :: "aws_egress_rule list"

text \<open>
  AWS application network policies. The port is a \<open>google.protobuf.Value\<close>; the numbers put into it
  are 32-bit integers, which a double represents exactly.
\<close>

datatype pb_value = NumberValue int | StringValue string

record pb_ip_block =
  pib_cidr :: string
  pib_except :: "string list"

record aws_anp_port =
  aap_protocol :: "string option"
  aap_port :: "pb_value option"
  aap_end_port :: "int option"

record aws_anp_ingress_peer =
  aai_pod_selector :: "pb_label_selector option"
  aai_namespace_selector :: "pb_label_selector option"
  aai_ip_block :: "pb_ip_block option"

record aws_anp_egress_peer =
  aae_pod_selector :: "pb_label_selector option"
  aae_namespace_selector :: "pb_label_selector option"
  aae_ip_block :: "pb_ip_block option"
  aae_domain_names :: "string list"

record aws_application_policy =
  aan_pod_selector :: "pb_label_selector option"
  aan_policy_types :: "string list"
  aan_ingress :: "(aws_anp_ingress_peer list \<times> aws_anp_port list) list"
  aan_egress :: "(aws_anp_egress_peer list \<times> aws_anp_port list) list"

section \<open>Admin network policies and OVN egress\<close>

record anp_namespaced_pod =
  anp_namespace_selector :: "pb_label_selector option"
  anp_pod_selector :: "pb_label_selector option"

record anp_subject =
  ans_namespaces :: "pb_label_selector option"
  ans_pods :: "anp_namespaced_pod option"

record anp_peer =
  anr_namespaces :: "pb_label_selector option"
  anr_pods :: "anp_namespaced_pod option"
  anr_nodes :: "pb_label_selector option"
  anr_networks :: "string list"
  anr_domain_names :: "string list"

record anp_port =
  ant_port_number :: "(string \<times> int) option"
  ant_named_port :: "string option"
  ant_port_range :: "(string \<times> int \<times> int) option"

record anp_rule =
  anu_name :: "string option"
  anu_action :: string
  anu_peers :: "anp_peer list"
  anu_ports :: "anp_port list"

record anp_data =
  and_priority :: int
  and_subject :: "anp_subject option"
  and_ingress :: "anp_rule list"
  and_egress :: "anp_rule list"

record banp_data =
  bad_subject :: "anp_subject option"
  bad_ingress :: "anp_rule list"
  bad_egress :: "anp_rule list"

record egress_fw_destination =
  efd_cidr_selector :: "string option"
  efd_dns_name :: "string option"
  efd_node_selector :: "pb_label_selector option"

record egress_fw_rule =
  efr_type :: string
  efr_to :: "egress_fw_destination option"
  efr_ports :: "(string \<times> int) list"

record egress_ip_data =
  eid_egress_ips :: "string list"
  eid_namespace_selector :: "pb_label_selector option"
  eid_pod_selector :: "pb_label_selector option"

section \<open>Core resources\<close>

record pb_owner_reference =
  por_api_version :: string
  por_block_owner_deletion :: bool
  por_controller :: bool
  por_kind :: string
  por_name :: string
  por_uid :: string

record node_data =
  nd_provider_id :: string
  nd_ip_addresses :: "string list"
  nd_addresses :: "(string \<times> string) list"

record service_port_data =
  spd_node_port :: "32 word option"
  spd_port :: "32 word"
  spd_protocol :: string
  spd_load_balancer_ports :: "string list"
  spd_target_port :: string
  spd_name :: string

record lb_port_status =
  lps_port :: "32 word"
  lps_protocol :: string
  lps_error :: "string option"

record lb_ingress =
  lbi_ip :: "string option"
  lbi_hostname :: "string option"
  lbi_ip_mode :: "string option"
  lbi_ports :: "lb_port_status list"

record service_data =
  svd_ip_addresses :: "string list"
  svd_ports :: "service_port_data list"
  svd_type :: string
  svd_external_name :: "string option"
  svd_load_balancer_class :: "string option"
  svd_selector :: strmap
  svd_external_traffic_policy :: "string option"
  svd_load_balancer_ingress :: "lb_ingress list"
  svd_load_balancer_source_ranges :: "string list"
  svd_health_check_node_port :: "32 word option"
  svd_allocate_load_balancer_node_ports :: "bool option"

datatype port_protocol = PROTOCOL_TCP_UNSPECIFIED | PROTOCOL_UDP | PROTOCOL_SCTP

datatype pb_peer =
    PeerIpBlock "pb_ip_block option"
  | PeerPods "pb_label_selector option" "pb_label_selector option"

record pb_port =
  ppt_protocol :: port_protocol
  ppt_port :: "string option"
  ppt_end_port :: "int option"

record pb_network_policy_rule =
  pnr_peers :: "pb_peer list"
  pnr_ports :: "pb_port list"

record network_policy_data =
  npd_ingress :: bool
  npd_egress :: bool
  npd_pod_selector :: "pb_label_selector option"
  npd_ingress_rules :: "pb_network_policy_rule list"
  npd_egress_rules :: "pb_network_policy_rule list"

record workload_data =
  wld_template_labels :: strmap
  wld_selector_match_labels :: strmap

section \<open>Load balancer bindings, Ingresses and Gateways\<close>

record tgb_ingress_rule =
  tgi_from :: "(string option \<times> string option) list"
  tgi_ports :: "(string option \<times> string option) list"

text \<open>A peer is its CIDR and security group, a port its protocol and port.\<close>

record tgb_data =
  tgd_service_name :: string
  tgd_service_port :: string
  tgd_target_type :: "string option"
  tgd_target_group_arn :: string
  tgd_target_group_name :: "string option"
  tgd_ip_address_type :: "string option"
  tgd_node_selector :: "pb_label_selector option"
  tgd_networking_ingress_rules :: "tgb_ingress_rule list"
  tgd_vpc_id :: "string option"
  tgd_target_group_protocol :: "string option"
  tgd_multi_cluster_target_group :: bool

record neg_data =
  ngd_id :: string
  ngd_network_endpoint_type :: string
  ngd_self_link :: string
  ngd_subnet_url :: string
  ngd_state :: string

record gke_neg_data =
  gnd_service_name :: string
  gnd_service_port :: string
  gnd_network_endpoint_groups :: "neg_data list"

record metallb_data =
  mld_service_name :: string
  mld_service_namespace :: string
  mld_node :: string
  mld_interfaces :: "string list"

record ingress_backend_data =
  ibd_service_name :: "string option"
  ibd_service_port_number :: "32 word option"
  ibd_service_port_name :: "string option"

record ingress_path_data =
  ipd_path :: "string option"
  ipd_path_type :: string
  ipd_backend :: "ingress_backend_data option"

record ingress_rule_data =
  ird_host :: "string option"
  ird_paths :: "ingress_path_data list"

record ingress_data =
  igd_ingress_class_name :: "string option"
  igd_default_backend :: "ingress_backend_data option"
  igd_rules :: "ingress_rule_data list"
  igd_tls :: "(string list \<times> string option) list"
  igd_load_balancer_ingress :: "lb_ingress list"

record gateway_data =
  gwd_gateway_class_name :: string
  gwd_listeners :: "(string \<times> 32 word \<times> string) list"
  gwd_addresses :: "(string option \<times> string) list"

record parent_ref_data =
  prd_group :: "string option"
  prd_kind :: "string option"
  prd_namespace :: "string option"
  prd_name :: string
  prd_section_name :: "string option"
  prd_port :: "32 word option"

record backend_ref_data =
  brd_group :: "string option"
  brd_kind :: "string option"
  brd_name :: string
  brd_namespace :: "string option"
  brd_port :: "32 word option"
  brd_weight :: "int option"

record route_parent_data =
  rpd_parent_ref :: "parent_ref_data option"
  rpd_controller_name :: string
  rpd_accepted :: "bool option"
  rpd_accepted_reason :: "string option"

record route_data =
  rtd_parent_refs :: "parent_ref_data list"
  rtd_backend_refs :: "backend_ref_data list"
  rtd_parents :: "route_parent_data list"

section \<open>Objects\<close>

text \<open>The \<open>kind_specific\<close> oneof of an object read from the cluster.\<close>

datatype kind_specific =
    KsPod "string list"
  | KsNode node_data
  | KsService service_data
  | KsNetworkPolicy network_policy_data
  | KsWorkload workload_data
  | KsCiliumNetworkPolicy "cilium_policy_rule list"
  | KsCiliumClusterwideNetworkPolicy "cilium_policy_rule list"
  | KsCiliumCidrGroup "string list option"
  | KsAwsClusterNetworkPolicy aws_cluster_policy
  | KsAwsApplicationNetworkPolicy aws_application_policy
  | KsAdminNetworkPolicy anp_data
  | KsBaselineAdminNetworkPolicy banp_data
  | KsEgressFirewall "egress_fw_rule list"
  | KsEgressIp egress_ip_data
  | KsAwsTargetGroupBinding tgb_data
  | KsGkeServiceNetworkEndpointGroup gke_neg_data
  | KsMetallbServiceStatus metallb_data
  | KsIngress ingress_data
  | KsIngressClass string
  | KsGateway gateway_data
  | KsGatewayClass string
  | KsGatewayRoute route_data

record object_data =
  od_annotations :: "strmap option"
  od_creation_timestamp :: int
  od_kind :: string
  od_labels :: "strmap option"
  od_name :: string
  od_namespace :: "string option"
  od_owner_references :: "pb_owner_reference list"
  od_resource_version :: string
  od_uid :: string
  od_api_group :: string
  od_api_version :: string
  od_kind_specific :: "kind_specific option"

text \<open>
  The \<open>kind_specific\<close> oneof of a configured object; \<open>CksAdminNetworkPolicy\<close> is on the wire but no
  converter handles it.
\<close>

datatype configured_kind =
    CksCiliumNetworkPolicy "cilium_policy_rule list"
  | CksCiliumClusterwideNetworkPolicy "cilium_policy_rule list"
  | CksCiliumCidrGroup "string list option"
  | CksAwsClusterNetworkPolicy aws_cluster_policy
  | CksAdminNetworkPolicy

record configured_object =
  co_annotations :: "strmap option"
  co_labels :: "strmap option"
  co_name :: string
  co_namespace :: "string option"
  co_kind_specific :: "configured_kind option"

text \<open>The getter of an optional string: the zero value when it is unset.\<close>

definition str_get :: "string option \<Rightarrow> string" where
  "str_get s = (case s of None \<Rightarrow> [] | Some x \<Rightarrow> x)"

lemma str_get_simps [simp]: "str_get None = []" "str_get (Some x) = x"
  by (simp_all add: str_get_def)

text \<open>A string copied into an optional field only when it is not empty.\<close>

definition str_opt :: "string \<Rightarrow> string option" where
  "str_opt s = (if s = [] then None else Some s)"

lemma str_get_str_opt [simp]: "str_get (str_opt s) = s"
  by (simp add: str_opt_def)

lemma str_opt_eq_iff [simp]: "str_opt s = Some t \<longleftrightarrow> s = t \<and> t \<noteq> []" "str_opt s = None \<longleftrightarrow> s = []"
  by (auto simp: str_opt_def)

end
