(* ===== verification/Object_Cache.thy ===== *)
theory Object_Cache
  imports Prelude
begin

text \<open>
  \<open>internal/controller/stream/config/cache/cache.go\<close>: the generic object cache shared by the
  configuration stream, the resource watchers and the reconciler. The first part holds the
  operations as the code runs them alone, with every outcome of their \<open>select\<close> statements; the
  second interleaves the critical sections and the channel operations of any number of producers
  with one consumer and shows that no change goes unannounced.
  The comparison \<open>proto.Equal\<close> is an argument \<open>eq\<close> of \<open>Insert\<close>.
\<close>

section \<open>State\<close>

record 'v object_cache =
  oc_objects :: "(string, 'v) gomap"
  oc_ready :: bool
  oc_changed :: "string chan"

definition SnapshotReplaced :: string where
  "SnapshotReplaced = ''*''"

definition NewObjectCache :: "'v object_cache" where
  "NewObjectCache = \<lparr>oc_objects = [], oc_ready = False, oc_changed = make_chan 1\<rparr>"

definition IsReady :: "'v object_cache \<Rightarrow> bool" where
  "IsReady c = oc_ready c"

text \<open>Closing a channel twice panics; afterwards every send on it panics.\<close>

definition Close :: "'v object_cache \<Rightarrow> 'v object_cache outcome" where
  "Close c =
     (if chan_closed (oc_changed c) then Panics ''close of closed channel''
      else Returns (c\<lparr>oc_changed := (oc_changed c)\<lparr>chan_closed := True\<rparr>\<rparr>))"

section \<open>The operations\<close>

text \<open>
  The send in a \<open>select\<close> with \<open>ctx.Done()\<close>, shared by Insert and Delete: \<open>cancelled\<close> says whether the
  context is cancelled. The outcomes are the enabled branches.
\<close>

definition notify_select :: "bool \<Rightarrow> string \<Rightarrow> 'v object_cache \<Rightarrow> (unit result \<times> 'v object_cache) outcome list" where
  "notify_select cancelled key c =
     (if cancelled then [Returns (Inl CtxErr, c)] else []) @
     (if chan_closed (oc_changed c) then [Panics ''send on closed channel'']
      else if chan_room (oc_changed c)
        then [Returns (Inr (), c\<lparr>oc_changed := chan_push key (oc_changed c)\<rparr>)]
      else [])"

text \<open>The part of Insert under the mutex, and whether it is followed by a notification.\<close>

definition Insert_locked :: "('v \<Rightarrow> 'v \<Rightarrow> bool) \<Rightarrow> string \<Rightarrow> 'v \<Rightarrow> 'v object_cache \<Rightarrow> 'v object_cache \<times> bool" where
  "Insert_locked eq key obj c =
     (c\<lparr>oc_objects := gm_put key obj (oc_objects c)\<rparr>,
      (case gm_get (oc_objects c) key of None \<Rightarrow> True | Some old \<Rightarrow> \<not> eq old obj))"

definition Insert :: "('v \<Rightarrow> 'v \<Rightarrow> bool) \<Rightarrow> bool \<Rightarrow> string \<Rightarrow> 'v \<Rightarrow> 'v object_cache \<Rightarrow> (unit result \<times> 'v object_cache) outcome list" where
  "Insert eq cancelled key obj c =
     (let (c1, changed) = Insert_locked eq key obj c in
      if changed then notify_select cancelled key c1 else [Returns (Inr (), c1)])"

definition Delete_locked :: "string \<Rightarrow> 'v object_cache \<Rightarrow> 'v object_cache \<times> bool" where
  "Delete_locked key c =
     (c\<lparr>oc_objects := gm_del key (oc_objects c)\<rparr>, gm_get (oc_objects c) key \<noteq> None)"

definition Delete :: "bool \<Rightarrow> string \<Rightarrow> 'v object_cache \<Rightarrow> (unit result \<times> 'v object_cache) outcome list" where
  "Delete cancelled key c =
     (let (c1, existed) = Delete_locked key c in
      if existed then notify_select cancelled key c1 else [Returns (Inr (), c1)])"

text \<open>
  ReplaceAll. Under the mutex the objects are swapped first; the \<open>select\<close> that follows has the
  branches \<open>ctx.Done()\<close> and \<open>c.ready\<close> (closed already) and closes \<open>ready\<close> only when neither is
  enabled. The notification loop drains a full buffer and tries again.
\<close>

definition ReplaceAll_swap :: "bool \<Rightarrow> (string, 'v) gomap \<Rightarrow> 'v object_cache \<Rightarrow> (unit result \<times> 'v object_cache) list" where
  "ReplaceAll_swap cancelled objects c =
     (let c1 = c\<lparr>oc_objects := objects\<rparr>;
          branches = (if cancelled then [(Inl CtxErr, c1)] else []) @ (if oc_ready c1 then [(Inr (), c1)] else [])
      in if branches = [] then [(Inr (), c1\<lparr>oc_ready := True\<rparr>)] else branches)"

definition ReplaceAll_select :: "bool \<Rightarrow> string chan \<Rightarrow> (unit result \<times> string chan, string chan) loop outcome list" where
  "ReplaceAll_select cancelled ch =
     (if cancelled then [Returns (Break (Inl CtxErr, ch))] else []) @
     (if chan_closed ch then [Panics ''send on closed channel'']
      else if chan_room ch then [Returns (Break (Inr (), chan_push SnapshotReplaced ch))] else []) @
     (if chan_buf ch \<noteq> [] then [Returns (Again (chan_drop ch))]
      else if chan_closed ch then [Returns (Again ch)] else [])"

text \<open>
  The loop \<open>Send\<close>, run with no other goroutine on the channel. On an open channel each round
  that does not leave the loop has drained one value, so the loop ends. On a closed channel a
  receive is always enabled, so the loop may go round for ever before the select picks the
  panicking send; that case is cut off by the \<open>chan_closed\<close> test and reported as the panic.
\<close>

function ReplaceAll_loop :: "bool \<Rightarrow> string chan \<Rightarrow> (unit result \<times> string chan) outcome list" where
  "ReplaceAll_loop cancelled ch =
     (if chan_closed ch
      then (if cancelled then [Returns (Inl CtxErr, ch)] else []) @ [Panics ''send on closed channel'']
      else (if cancelled then [Returns (Inl CtxErr, ch)] else []) @
           (if chan_room ch then [Returns (Inr (), chan_push SnapshotReplaced ch)] else []) @
           (if chan_buf ch \<noteq> [] then ReplaceAll_loop cancelled (chan_drop ch) else []))"
  by pat_completeness auto
termination
  by (relation "measure (\<lambda>(cancelled, ch). length (chan_buf ch))") (auto simp: chan_drop_def)

declare ReplaceAll_loop.simps [simp del]

definition ReplaceAll :: "bool \<Rightarrow> (string, 'v) gomap \<Rightarrow> 'v object_cache \<Rightarrow> (unit result \<times> 'v object_cache) outcome list" where
  "ReplaceAll cancelled objects c =
     concat (map (\<lambda>(r, c1). case r of
         Inl e \<Rightarrow> [Returns (Inl e, c1)]
       | Inr _ \<Rightarrow> map (map_outcome (\<lambda>(r', ch). (r', c1\<lparr>oc_changed := ch\<rparr>)))
                    (ReplaceAll_loop cancelled (oc_changed c1)))
       (ReplaceAll_swap cancelled objects c))"

text \<open>The readers. Get yields the zero value (nil, here \<open>None\<close>) for a missing key.\<close>

definition Get :: "string \<Rightarrow> 'v object_cache \<Rightarrow> 'v option" where
  "Get key c = gm_get (oc_objects c) key"

definition Keys :: "'v object_cache \<Rightarrow> string list" where
  "Keys c = gm_keys (oc_objects c)"

definition Len :: "'v object_cache \<Rightarrow> nat" where
  "Len c = length (oc_objects c)"

definition Values :: "'v object_cache \<Rightarrow> 'v list" where
  "Values c = List.map_filter (gm_get (oc_objects c)) (sort (gm_keys (oc_objects c)))"

section \<open>What the operations do\<close>

text \<open>The channel of a live cache: open, with the one slot \<open>NewObjectCache\<close> gives it.\<close>

definition chan_live :: "'v object_cache \<Rightarrow> bool" where
  "chan_live c \<longleftrightarrow> \<not> chan_closed (oc_changed c) \<and> chan_cap (oc_changed c) = 1 \<and> length (chan_buf (oc_changed c)) \<le> 1"

lemma chan_live_new [simp]: "chan_live NewObjectCache"
  by (simp add: chan_live_def NewObjectCache_def make_chan_def)

lemma notify_select_objects:
  "Returns (r, c') \<in> set (notify_select cancelled key c) \<Longrightarrow> oc_objects c' = oc_objects c \<and> oc_ready c' = oc_ready c"
  by (auto simp: notify_select_def split: if_splits)

lemma Insert_objects:
  "Returns (r, c') \<in> set (Insert eq cancelled key obj c) \<Longrightarrow> oc_objects c' = gm_put key obj (oc_objects c)"
  by (auto simp: Insert_def Insert_locked_def split: if_splits dest: notify_select_objects)

lemma Delete_objects:
  "Returns (r, c') \<in> set (Delete cancelled key c) \<Longrightarrow> oc_objects c' = gm_del key (oc_objects c)"
  by (auto simp: Delete_def Delete_locked_def split: if_splits dest: notify_select_objects)

lemma ReplaceAll_swap_objects:
  "(r, c') \<in> set (ReplaceAll_swap cancelled objects c) \<Longrightarrow> oc_objects c' = objects \<and> oc_changed c' = oc_changed c"
  by (auto simp: ReplaceAll_swap_def Let_def split: if_splits)

lemma ReplaceAll_objects:
  "Returns (r, c') \<in> set (ReplaceAll cancelled objects c) \<Longrightarrow> oc_objects c' = objects"
proof -
  assume "Returns (r, c') \<in> set (ReplaceAll cancelled objects c)"
  then obtain r1 c1 where swap: "(r1, c1) \<in> set (ReplaceAll_swap cancelled objects c)"
    and ret: "Returns (r, c') \<in> set (case r1 of Inl e \<Rightarrow> [Returns (Inl e, c1)]
       | Inr _ \<Rightarrow> map (map_outcome (\<lambda>(r', ch). (r', c1\<lparr>oc_changed := ch\<rparr>))) (ReplaceAll_loop cancelled (oc_changed c1)))"
    by (auto simp: ReplaceAll_def)
  from ret have "oc_objects c' = oc_objects c1" by (cases r1) auto
  with swap show ?thesis by (simp add: ReplaceAll_swap_objects)
qed

text \<open>
  A swap under a cancelled context still replaces the objects, and marks the cache ready only if
  it was before.
\<close>

lemma ReplaceAll_swap_cancelled:
  "(Inl e, c') \<in> set (ReplaceAll_swap cancelled objects c) \<Longrightarrow> cancelled \<and> e = CtxErr \<and> c' = c\<lparr>oc_objects := objects\<rparr>"
  by (auto simp: ReplaceAll_swap_def Let_def split: if_splits)

lemma ReplaceAll_swap_ready:
  "(Inr u, c') \<in> set (ReplaceAll_swap cancelled objects c) \<Longrightarrow> oc_ready c'"
  by (auto simp: ReplaceAll_swap_def Let_def split: if_splits)

lemma ReplaceAll_ready:
  "Returns (Inr u, c') \<in> set (ReplaceAll cancelled objects c) \<Longrightarrow> oc_ready c'"
proof -
  assume "Returns (Inr u, c') \<in> set (ReplaceAll cancelled objects c)"
  then obtain r1 c1 where swap: "(r1, c1) \<in> set (ReplaceAll_swap cancelled objects c)"
    and ret: "Returns (Inr u, c') \<in> set (case r1 of Inl e \<Rightarrow> [Returns (Inl e, c1)]
       | Inr _ \<Rightarrow> map (map_outcome (\<lambda>(r', ch). (r', c1\<lparr>oc_changed := ch\<rparr>))) (ReplaceAll_loop cancelled (oc_changed c1)))"
    by (auto simp: ReplaceAll_def)
  from ret have "oc_ready c' = oc_ready c1" and "\<exists>v. r1 = Inr v" by (cases r1; auto)+
  with swap show ?thesis by (auto simp: ReplaceAll_swap_ready)
qed

lemma ReplaceAll_loop_live:
  assumes "\<not> chan_closed ch" and "chan_cap ch = 1" and "length (chan_buf ch) \<le> 1"
  shows "set (ReplaceAll_loop False ch) = {Returns (Inr (), ch\<lparr>chan_buf := [SnapshotReplaced]\<rparr>)}"
proof (cases "chan_buf ch")
  case Nil
  with assms show ?thesis by (simp add: ReplaceAll_loop.simps [of False ch] chan_simps)
next
  case (Cons x xs)
  with assms have "xs = []" by simp
  with Cons assms show ?thesis
    by (simp add: ReplaceAll_loop.simps [of False ch] ReplaceAll_loop.simps [of False "ch\<lparr>chan_buf := []\<rparr>"] chan_simps)
qed

text \<open>
  On a live channel the notification \<open>select\<close> of ReplaceAll always has an enabled branch, whether
  or not a consumer is draining the channel: the goroutine never blocks there.
\<close>

lemma ReplaceAll_select_enabled:
  "chan_live c \<Longrightarrow> ReplaceAll_select cancelled (oc_changed c) \<noteq> []"
  by (auto simp: ReplaceAll_select_def chan_live_def chan_room_def)

lemma notify_select_blocks:
  "chan_live c \<Longrightarrow> notify_select cancelled key c = [] \<longleftrightarrow> \<not> cancelled \<and> chan_buf (oc_changed c) \<noteq> []"
  by (auto simp: notify_select_def chan_live_def chan_room_def)

section \<open>The cache as a store\<close>

text \<open>
  The contract the clients of the cache rely on: every outcome in which an operation returns,
  error or not, has stored exactly that change. Callers run the operations one after another;
  \<open>run_ops\<close> collects the states such a sequence can reach while no call has failed.
\<close>

datatype 'v store_op = Put string 'v | Remove string | Swap "(string, 'v) gomap"

fun spec_op :: "'v store_op \<Rightarrow> (string \<rightharpoonup> 'v) \<Rightarrow> (string \<rightharpoonup> 'v)" where
  "spec_op (Put k v) m = m(k \<mapsto> v)"
| "spec_op (Remove k) m = m(k := None)"
| "spec_op (Swap objs) m = gm_get objs"

locale object_store =
  fixes contents :: "'c \<Rightarrow> string \<rightharpoonup> 'v"
    and put :: "string \<Rightarrow> 'v \<Rightarrow> 'c \<Rightarrow> (unit result \<times> 'c) outcome list"
    and remove :: "string \<Rightarrow> 'c \<Rightarrow> (unit result \<times> 'c) outcome list"
    and swap :: "(string, 'v) gomap \<Rightarrow> 'c \<Rightarrow> (unit result \<times> 'c) outcome list"
  assumes put_contents: "Returns (r, c') \<in> set (put k v c) \<Longrightarrow> contents c' = (contents c)(k \<mapsto> v)"
    and remove_contents: "Returns (r, c') \<in> set (remove k c) \<Longrightarrow> contents c' = (contents c)(k := None)"
    and swap_contents: "Returns (r, c') \<in> set (swap m c) \<Longrightarrow> contents c' = gm_get m"
begin

fun exec_op :: "'v store_op \<Rightarrow> 'c \<Rightarrow> (unit result \<times> 'c) outcome list" where
  "exec_op (Put k v) c = put k v c"
| "exec_op (Remove k) c = remove k c"
| "exec_op (Swap m) c = swap m c"

lemma exec_op_contents: "Returns (r, c') \<in> set (exec_op x c) \<Longrightarrow> contents c' = spec_op x (contents c)"
  by (cases x) (auto dest: put_contents remove_contents swap_contents)

inductive run_ops :: "'v store_op list \<Rightarrow> 'c \<Rightarrow> 'c \<Rightarrow> bool" where
  run_Nil: "run_ops [] c c"
| run_Cons: "Returns (Inr u, c1) \<in> set (exec_op x c) \<Longrightarrow> run_ops xs c1 c2 \<Longrightarrow> run_ops (x # xs) c c2"

lemma run_ops_contents: "run_ops xs c c' \<Longrightarrow> contents c' = fold spec_op xs (contents c)"
  by (induction rule: run_ops.induct) (auto dest: exec_op_contents)

end

interpretation cache_store: object_store
  "\<lambda>c. gm_get (oc_objects c)" "Insert eq cancelled" "Delete cancelled" "ReplaceAll cancelled"
  for eq :: "'v \<Rightarrow> 'v \<Rightarrow> bool" and cancelled
  by unfold_locales (auto dest!: Insert_objects Delete_objects ReplaceAll_objects simp: update_conv' delete_conv')

section \<open>Producers and the consumer interleaved\<close>

text \<open>
  The resource watchers are many goroutines that write the runtime cache at once, while the
  reconciler receives from its channel. Between its critical section and its send a producer is
  pending: \<open>cs_pend\<close> holds what each pending producer is about to announce (\<open>SnapshotReplaced\<close> for a
  ReplaceAll). \<open>cs_view\<close> is the contents at the last moment the consumer received an announcement
  for the key: what it reads afterwards is at least as recent. \<open>cs_lost\<close> records that a producer
  gave up an announcement because its context was cancelled; a later snapshot repairs that.
\<close>

record 'v cache_sys =
  cs_cache :: "'v object_cache"
  cs_pend :: "string list"
  cs_view :: "string \<Rightarrow> 'v option"
  cs_lost :: bool

definition cache_start :: "'v cache_sys \<Rightarrow> bool" where
  "cache_start s \<longleftrightarrow> s = \<lparr>cs_cache = NewObjectCache, cs_pend = [], cs_view = (\<lambda>_. None), cs_lost = False\<rparr>"

inductive cache_step :: "('v \<Rightarrow> 'v \<Rightarrow> bool) \<Rightarrow> 'v cache_sys \<Rightarrow> 'v cache_sys \<Rightarrow> bool" for eq where
  insert_step: "Insert_locked eq k v (cs_cache s) = (c, changed) \<Longrightarrow>
     cache_step eq s (s\<lparr>cs_cache := c, cs_pend := (if changed then [k] else []) @ cs_pend s\<rparr>)"
| delete_step: "Delete_locked k (cs_cache s) = (c, existed) \<Longrightarrow>
     cache_step eq s (s\<lparr>cs_cache := c, cs_pend := (if existed then [k] else []) @ cs_pend s\<rparr>)"
| swap_step: "(Inr (), c) \<in> set (ReplaceAll_swap cancelled m (cs_cache s)) \<Longrightarrow>
     cache_step eq s (s\<lparr>cs_cache := c, cs_pend := SnapshotReplaced # cs_pend s, cs_lost := False\<rparr>)"
| swap_cancelled_step: "(Inl e, c) \<in> set (ReplaceAll_swap cancelled m (cs_cache s)) \<Longrightarrow>
     cache_step eq s (s\<lparr>cs_cache := c, cs_lost := True\<rparr>)"
| send_step: "k \<in> set (cs_pend s) \<Longrightarrow> Returns (Inr (), c) \<in> set (notify_select cancelled k (cs_cache s)) \<Longrightarrow>
     cache_step eq s (s\<lparr>cs_cache := c, cs_pend := remove1 k (cs_pend s)\<rparr>)"
| snapshot_send_step: "SnapshotReplaced \<in> set (cs_pend s) \<Longrightarrow>
     Returns (Break (Inr (), ch)) \<in> set (ReplaceAll_select cancelled (oc_changed (cs_cache s))) \<Longrightarrow>
     cache_step eq s (s\<lparr>cs_cache := (cs_cache s)\<lparr>oc_changed := ch\<rparr>, cs_pend := remove1 SnapshotReplaced (cs_pend s)\<rparr>)"
| snapshot_drain_step: "SnapshotReplaced \<in> set (cs_pend s) \<Longrightarrow>
     Returns (Again ch) \<in> set (ReplaceAll_select cancelled (oc_changed (cs_cache s))) \<Longrightarrow>
     cache_step eq s (s\<lparr>cs_cache := (cs_cache s)\<lparr>oc_changed := ch\<rparr>\<rparr>)"
| give_up_step: "k \<in> set (cs_pend s) \<Longrightarrow>
     cache_step eq s (s\<lparr>cs_pend := remove1 k (cs_pend s), cs_lost := True\<rparr>)"
| receive_step: "chan_buf (oc_changed (cs_cache s)) = x # xs \<Longrightarrow>
     cache_step eq s (s\<lparr>cs_cache := (cs_cache s)\<lparr>oc_changed := chan_drop (oc_changed (cs_cache s))\<rparr>,
       cs_view := (if x = SnapshotReplaced then gm_get (oc_objects (cs_cache s))
                   else (cs_view s)(x := gm_get (oc_objects (cs_cache s)) x))\<rparr>)"

text \<open>A key is announced when the channel or a pending producer holds it or \<open>SnapshotReplaced\<close>.\<close>

definition announced :: "'v cache_sys \<Rightarrow> string \<Rightarrow> bool" where
  "announced s k \<longleftrightarrow>
     k \<in> set (chan_buf (oc_changed (cs_cache s))) \<union> set (cs_pend s) \<or>
     SnapshotReplaced \<in> set (chan_buf (oc_changed (cs_cache s))) \<union> set (cs_pend s)"

definition in_sync :: "('v \<Rightarrow> 'v \<Rightarrow> bool) \<Rightarrow> 'v cache_sys \<Rightarrow> string \<Rightarrow> bool" where
  "in_sync eq s k \<longleftrightarrow> rel_option eq (cs_view s k) (gm_get (oc_objects (cs_cache s)) k)"

definition cache_inv :: "('v \<Rightarrow> 'v \<Rightarrow> bool) \<Rightarrow> 'v cache_sys \<Rightarrow> bool" where
  "cache_inv eq s \<longleftrightarrow> chan_live (cs_cache s) \<and> (cs_lost s \<or> (\<forall>k. announced s k \<or> in_sync eq s k))"

text \<open>The comparison of protocol messages is an equivalence; this is all the cache needs of it.\<close>

locale message_equality =
  fixes eq :: "'v \<Rightarrow> 'v \<Rightarrow> bool"
  assumes eq_refl: "eq x x"
    and eq_sym: "eq x y \<Longrightarrow> eq y x"
    and eq_trans: "eq x y \<Longrightarrow> eq y z \<Longrightarrow> eq x z"
begin

lemma rel_option_refl [simp]: "rel_option eq x x"
  by (cases x) (auto intro: eq_refl)

lemma cache_inv_start: "cache_start s \<Longrightarrow> cache_inv eq s"
  by (auto simp: cache_start_def cache_inv_def in_sync_def NewObjectCache_def chan_live_def make_chan_def)

lemma cache_invI:
  assumes "cache_inv eq s" and "chan_live (cs_cache t)" and "\<not> cs_lost t \<Longrightarrow> \<not> cs_lost s"
    and "\<And>k. in_sync eq s k \<Longrightarrow> announced t k \<or> in_sync eq t k"
    and "\<And>k. announced s k \<Longrightarrow> announced t k \<or> in_sync eq t k"
  shows "cache_inv eq t"
  using assms unfolding cache_inv_def by blast

lemma insert_keeps_sync:
  assumes "Insert_locked eq k v (cs_cache s) = (c, changed)" and "in_sync eq s j"
  shows "j = k \<and> changed \<or> rel_option eq (cs_view s j) (gm_get (oc_objects c) j)"
proof (cases "gm_get (oc_objects (cs_cache s)) k")
  case None
  with assms show ?thesis by (auto simp: in_sync_def Insert_locked_def split: if_splits)
next
  case (Some old)
  with assms show ?thesis
    by (auto simp: in_sync_def Insert_locked_def option_rel_Some2 split: if_splits)
       (use eq_trans in blast)
qed

lemma cache_inv_step:
  assumes "cache_inv eq s" and "cache_step eq s t"
  shows "cache_inv eq t"
  using assms(2,1)
proof (induction rule: cache_step.induct)
  case (insert_step k v s c changed)
  show ?case
  proof (rule cache_invI [OF insert_step.prems])
    fix j assume "in_sync eq s j"
    with insert_keeps_sync [OF insert_step.hyps]
    show "announced (s\<lparr>cs_cache := c, cs_pend := (if changed then [k] else []) @ cs_pend s\<rparr>) j \<or>
      in_sync eq (s\<lparr>cs_cache := c, cs_pend := (if changed then [k] else []) @ cs_pend s\<rparr>) j"
      by (auto simp: announced_def in_sync_def)
  qed (use insert_step in \<open>auto simp: cache_inv_def announced_def chan_live_def Insert_locked_def\<close>)
next
  case (delete_step k s c existed)
  then show ?case
    by (intro cache_invI [OF delete_step.prems])
       (auto simp: cache_inv_def announced_def in_sync_def chan_live_def Delete_locked_def split: if_splits)
next
  case (swap_step c cancelled m s)
  then show ?case
    by (auto simp: cache_inv_def announced_def chan_live_def dest!: ReplaceAll_swap_objects)
next
  case swap_cancelled_step
  then show ?case by (auto simp: cache_inv_def chan_live_def dest!: ReplaceAll_swap_objects)
next
  case (send_step k s c cancelled)
  then show ?case
    by (intro cache_invI [OF send_step.prems])
       (auto simp: cache_inv_def announced_def in_sync_def chan_live_def notify_select_def chan_simps
             split: if_splits)
next
  case (snapshot_send_step s ch cancelled)
  then show ?case
    by (intro cache_invI [OF snapshot_send_step.prems])
       (auto simp: cache_inv_def announced_def in_sync_def chan_live_def ReplaceAll_select_def chan_simps
             split: if_splits)
next
  case (snapshot_drain_step s ch cancelled)
  then show ?case
    by (intro cache_invI [OF snapshot_drain_step.prems])
       (auto simp: cache_inv_def announced_def in_sync_def chan_live_def ReplaceAll_select_def chan_simps
             split: if_splits)
next
  case give_up_step
  then show ?case by (auto simp: cache_inv_def)
next
  case (receive_step s x xs)
  then show ?case
    by (intro cache_invI [OF receive_step.prems])
       (auto simp: cache_inv_def announced_def in_sync_def chan_live_def chan_simps)
qed

end

sublocale message_equality \<subseteq> cache_run: invariant_system cache_start "cache_step eq" "cache_inv eq"
  by unfold_locales (auto intro: cache_inv_start cache_inv_step)

context message_equality begin

lemma quiescent_in_sync:
  assumes "cache_start s0" and "(cache_step eq)\<^sup>*\<^sup>* s0 s"
    and "\<not> cs_lost s" and "cs_pend s = []" and "chan_buf (oc_changed (cs_cache s)) = []"
  shows "in_sync eq s k"
  using cache_run.inv_reachable [OF assms(1,2)] assms(3-5)
  by (auto simp: cache_inv_def announced_def)

end

end
