(* ===== verification/Objects.thy ===== *)
theory Objects
  imports Proto_Types Object_Cache
begin

text \<open>
  \<open>internal/convert/policy.go\<close>: the identity of a configured object (kind, API group, plural name,
  cache key), the configured object built for the runtime cache, and the object sent with
  Server-Side Apply. \<open>protojson\<close> and \<open>encoding/json\<close> are library code: the two conversions the
  code calls are the fields of \<open>json_lib\<close>, an argument of the definitions that marshal.
\<close>

section \<open>Equality of configured objects\<close>

text \<open>
  \<open>proto.Equal\<close>. A nil and an empty \<open>labels\<close> or \<open>annotations\<close> map encode the same message.
\<close>

definition map_content :: "strmap option \<Rightarrow> strmap" where
  "map_content m = (case m of None \<Rightarrow> fmempty | Some x \<Rightarrow> x)"

definition proto_equal :: "configured_object \<Rightarrow> configured_object \<Rightarrow> bool" where
  "proto_equal a b \<longleftrightarrow>
     map_content (co_annotations a) = map_content (co_annotations b) \<and>
     map_content (co_labels a) = map_content (co_labels b) \<and>
     co_name a = co_name b \<and> co_namespace a = co_namespace b \<and>
     co_kind_specific a = co_kind_specific b"

interpretation configured_eq: message_equality proto_equal
  by unfold_locales (auto simp: proto_equal_def)

section \<open>Kinds, resources and cache keys\<close>

definition FieldManager :: string where
  "FieldManager = ''illumio-cloud-operator''"

definition specField :: string where
  "specField = ''spec''"

definition ciliumAPIGroup :: string where
  "ciliumAPIGroup = ''cilium.io''"

definition awsVPCCNIAPIGroup :: string where
  "awsVPCCNIAPIGroup = ''networking.k8s.aws''"

record kind_mapping =
  km_kind :: string
  km_group :: string
  km_resource_name :: string

definition unsupported_kind :: go_error where
  "unsupported_kind = ErrMsg ''unsupported kind_specific type''"

fun kindMappingFor :: "configured_kind option \<Rightarrow> kind_mapping result" where
  "kindMappingFor (Some (CksCiliumNetworkPolicy _)) =
     Inr \<lparr>km_kind = ''CiliumNetworkPolicy'', km_group = ciliumAPIGroup, km_resource_name = ''ciliumnetworkpolicies''\<rparr>"
| "kindMappingFor (Some (CksCiliumClusterwideNetworkPolicy _)) =
     Inr \<lparr>km_kind = ''CiliumClusterwideNetworkPolicy'', km_group = ciliumAPIGroup, km_resource_name = ''ciliumclusterwidenetworkpolicies''\<rparr>"
| "kindMappingFor (Some (CksCiliumCidrGroup _)) =
     Inr \<lparr>km_kind = ''CiliumCIDRGroup'', km_group = ciliumAPIGroup, km_resource_name = ''ciliumcidrgroups''\<rparr>"
| "kindMappingFor (Some (CksAwsClusterNetworkPolicy _)) =
     Inr \<lparr>km_kind = ''ClusterNetworkPolicy'', km_group = awsVPCCNIAPIGroup, km_resource_name = ''clusternetworkpolicies''\<rparr>"
| "kindMappingFor _ = Inl unsupported_kind"

text \<open>A \<open>schema.GroupResource\<close>: API group and plural resource name.\<close>

type_synonym group_resource = "string \<times> string"

definition ExtractGroupResource :: "configured_object \<Rightarrow> group_resource result" where
  "ExtractGroupResource data =
     (case kindMappingFor (co_kind_specific data) of
        Inl e \<Rightarrow> Inl e
      | Inr m \<Rightarrow> Inr (km_group m, km_resource_name m))"

definition ExtractResourceName :: "configured_object \<Rightarrow> string result" where
  "ExtractResourceName data =
     (case ExtractGroupResource data of Inl e \<Rightarrow> Inl e | Inr gr \<Rightarrow> Inr (snd gr))"

definition ExtractKind :: "configured_object \<Rightarrow> string result" where
  "ExtractKind data =
     (case kindMappingFor (co_kind_specific data) of Inl e \<Rightarrow> Inl e | Inr m \<Rightarrow> Inr (km_kind m))"

definition CacheKey :: "string \<Rightarrow> string \<Rightarrow> string \<Rightarrow> string" where
  "CacheKey kind namespace name = kind @ ''/'' @ namespace @ ''/'' @ name"

definition CacheKeyForObject :: "configured_object \<Rightarrow> string result" where
  "CacheKeyForObject data =
     (case ExtractKind data of
        Inl e \<Rightarrow> Inl e
      | Inr kind \<Rightarrow> Inr (CacheKey kind (str_get (co_namespace data)) (co_name data)))"

section \<open>The runtime cache's object\<close>

text \<open>An unset \<open>KindSpecific\<close> is accepted and leaves the configured object without a kind.\<close>

fun setConfiguredKindSpecific :: "kind_specific option \<Rightarrow> configured_object \<Rightarrow> configured_object result" where
  "setConfiguredKindSpecific (Some (KsCiliumNetworkPolicy x)) c =
     Inr (c\<lparr>co_kind_specific := Some (CksCiliumNetworkPolicy x)\<rparr>)"
| "setConfiguredKindSpecific (Some (KsCiliumClusterwideNetworkPolicy x)) c =
     Inr (c\<lparr>co_kind_specific := Some (CksCiliumClusterwideNetworkPolicy x)\<rparr>)"
| "setConfiguredKindSpecific (Some (KsCiliumCidrGroup x)) c =
     Inr (c\<lparr>co_kind_specific := Some (CksCiliumCidrGroup x)\<rparr>)"
| "setConfiguredKindSpecific (Some (KsAwsClusterNetworkPolicy x)) c =
     Inr (c\<lparr>co_kind_specific := Some (CksAwsClusterNetworkPolicy x)\<rparr>)"
| "setConfiguredKindSpecific None c = Inr c"
| "setConfiguredKindSpecific _ c = Inl (ErrMsg ''unhandled KindSpecific type'')"

definition BuildConfiguredFromMetadata :: "object_data \<Rightarrow> configured_object result" where
  "BuildConfiguredFromMetadata metadata =
     setConfiguredKindSpecific (od_kind_specific metadata)
       \<lparr>co_annotations = od_annotations metadata, co_labels = od_labels metadata,
        co_name = od_name metadata, co_namespace = od_namespace metadata, co_kind_specific = None\<rparr>"

section \<open>JSON values\<close>

text \<open>
  A Go value of type \<open>any\<close> as the code builds and inspects it. \<open>JObj\<close> is a \<open>map[string]any\<close>, \<open>JStrMap\<close> a
  \<open>map[string]string\<close>: the type assertions of the code tell the two apart.
\<close>

datatype json =
    JNull
  | JBool bool
  | JNum int
  | JStr string
  | JArr "json list"
  | JObj "(string \<times> json) list"
  | JStrMap strmap

type_synonym json_obj = "(string, json) gomap"

text \<open>The messages the code marshals.\<close>

datatype proto_msg =
    MsgCiliumPolicyRule cilium_policy_rule
  | MsgCiliumCIDRGroup "string list"
  | MsgAWSClusterNetworkPolicy aws_cluster_policy

record json_lib =
  jl_marshal :: "proto_msg \<Rightarrow> string result"
  jl_unmarshal :: "string \<Rightarrow> json_obj result"

definition protoToMap :: "json_lib \<Rightarrow> proto_msg \<Rightarrow> json_obj result" where
  "protoToMap lib msg =
     (case jl_marshal lib msg of
        Inl e \<Rightarrow> Inl e
      | Inr bytes \<Rightarrow> jl_unmarshal lib bytes)"

section \<open>Server-Side Apply objects\<close>

text \<open>\<open>normalizeICMPTypeFields\<close>: one entry of \<open>fields\<close>, then the two loops around it.\<close>

definition normalizeICMPField :: "json \<Rightarrow> json" where
  "normalizeICMPField field =
     (case field of
        JObj m \<Rightarrow>
          (case gm_get m ''typeInt'' of
             Some v \<Rightarrow> JObj (gm_del ''typeInt'' (gm_put ''type'' v m))
           | None \<Rightarrow>
               (case gm_get m ''typeString'' of
                  Some v \<Rightarrow> JObj (gm_del ''typeString'' (gm_put ''type'' v m))
                | None \<Rightarrow> JObj m))
      | _ \<Rightarrow> field)"

definition normalizeICMPEntry :: "json \<Rightarrow> json" where
  "normalizeICMPEntry icmp =
     (case icmp of
        JObj m \<Rightarrow>
          (case gm_get m ''fields'' of
             Some (JArr fs) \<Rightarrow> JObj (gm_put ''fields'' (JArr (map normalizeICMPField fs)) m)
           | _ \<Rightarrow> JObj m)
      | _ \<Rightarrow> icmp)"

definition normalizeICMPTypeFields :: "json_obj \<Rightarrow> json_obj" where
  "normalizeICMPTypeFields ruleMap =
     (case gm_get ruleMap ''icmps'' of
        Some (JArr icmps) \<Rightarrow> gm_put ''icmps'' (JArr (map normalizeICMPEntry icmps)) ruleMap
      | _ \<Rightarrow> ruleMap)"

definition unwrapEndpoints :: "string \<Rightarrow> json_obj \<Rightarrow> json_obj" where
  "unwrapEndpoints endpointField ruleMap =
     (case gm_get ruleMap endpointField of
        Some (JObj wrapper) \<Rightarrow>
          gm_put endpointField (case gm_get wrapper ''items'' of Some items \<Rightarrow> items | None \<Rightarrow> JArr []) ruleMap
      | _ \<Rightarrow> ruleMap)"

definition normalizeRule :: "json \<Rightarrow> json" where
  "normalizeRule rule =
     (case rule of
        JObj m \<Rightarrow> JObj (normalizeICMPTypeFields (fold unwrapEndpoints [''fromEndpoints'', ''toEndpoints''] m))
      | _ \<Rightarrow> rule)"

definition normalizeRuleField :: "string \<Rightarrow> json_obj \<Rightarrow> json_obj" where
  "normalizeRuleField ruleField specMap =
     (case gm_get specMap ruleField of
        Some (JArr rules) \<Rightarrow> gm_put ruleField (JArr (map normalizeRule rules)) specMap
      | _ \<Rightarrow> specMap)"

definition normalizeProtojsonForCilium :: "json_obj \<Rightarrow> json_obj" where
  "normalizeProtojsonForCilium specMap =
     fold normalizeRuleField [''ingress'', ''ingressDeny'', ''egress'', ''egressDeny''] specMap"

fun marshalSpecsList :: "json_lib \<Rightarrow> cilium_policy_rule list \<Rightarrow> json list result" where
  "marshalSpecsList lib [] = Inr []"
| "marshalSpecsList lib (spec # specs) =
     (case protoToMap lib (MsgCiliumPolicyRule spec) of
        Inl e \<Rightarrow> Inl (WrapErr ''failed to marshal policy spec'' e)
      | Inr m \<Rightarrow>
          (case marshalSpecsList lib specs of
             Inl e \<Rightarrow> Inl e
           | Inr js \<Rightarrow> Inr (JObj (normalizeProtojsonForCilium m) # js)))"

definition marshalPolicySpecs :: "json_lib \<Rightarrow> cilium_policy_rule list \<Rightarrow> json_obj result" where
  "marshalPolicySpecs lib specs =
     (case specs of
        [] \<Rightarrow> Inr []
      | [spec] \<Rightarrow>
          (case protoToMap lib (MsgCiliumPolicyRule spec) of
             Inl e \<Rightarrow> Inl (WrapErr ''failed to marshal policy spec'' e)
           | Inr m \<Rightarrow> Inr [(specField, JObj (normalizeProtojsonForCilium m))])
      | _ \<Rightarrow>
          (case marshalSpecsList lib specs of
             Inl e \<Rightarrow> Inl e
           | Inr js \<Rightarrow> Inr [(''specs'', JArr js)]))"

definition marshalSpec :: "json_lib \<Rightarrow> proto_msg \<Rightarrow> json_obj result" where
  "marshalSpec lib msg =
     (case protoToMap lib msg of Inl e \<Rightarrow> Inl e | Inr specMap \<Rightarrow> Inr [(specField, JObj specMap)])"

text \<open>The result is the kind, the plural resource name and the spec fields.\<close>

definition marshalConfiguredObjectSpecs :: "json_lib \<Rightarrow> configured_object \<Rightarrow> (string \<times> string \<times> json_obj) result" where
  "marshalConfiguredObjectSpecs lib data =
     (case kindMappingFor (co_kind_specific data) of
        Inl e \<Rightarrow> Inl e
      | Inr m \<Rightarrow>
          (let specFields =
             (case co_kind_specific data of
                Some (CksCiliumNetworkPolicy specs) \<Rightarrow> marshalPolicySpecs lib specs
              | Some (CksCiliumClusterwideNetworkPolicy specs) \<Rightarrow> marshalPolicySpecs lib specs
              | Some (CksCiliumCidrGroup None) \<Rightarrow> Inr []
              | Some (CksCiliumCidrGroup (Some spec)) \<Rightarrow> marshalSpec lib (MsgCiliumCIDRGroup spec)
              | Some (CksAwsClusterNetworkPolicy policy) \<Rightarrow> marshalSpec lib (MsgAWSClusterNetworkPolicy policy)
              | _ \<Rightarrow> Inr [])
           in case specFields of
                Inl e \<Rightarrow> Inl (WrapErr (''failed to marshal '' @ km_kind m @ '' specs'') e)
              | Inr fs \<Rightarrow> Inr (km_kind m, km_resource_name m, fs)))"

definition apply_metadata :: "configured_object \<Rightarrow> json_obj" where
  "apply_metadata data =
     (let m0 = [(''name'', JStr (co_name data))];
          m1 = (case co_labels data of Some labels \<Rightarrow> gm_put ''labels'' (JStrMap labels) m0 | None \<Rightarrow> m0);
          m2 = (case co_annotations data of Some ann \<Rightarrow> gm_put ''annotations'' (JStrMap ann) m1 | None \<Rightarrow> m1)
      in if str_get (co_namespace data) \<noteq> [] then gm_put ''namespace'' (JStr (str_get (co_namespace data))) m2 else m2)"

definition ConvertToApplyObject :: "json_lib \<Rightarrow> configured_object option \<Rightarrow> string \<Rightarrow> string \<Rightarrow> (json_obj \<times> string) result" where
  "ConvertToApplyObject lib data apiGroup apiVersion =
     (case data of
        None \<Rightarrow> Inl (ErrMsg ''configured object data is nil'')
      | Some d \<Rightarrow>
          (let fullAPIVersion = (if apiGroup \<noteq> [] then apiGroup @ ''/'' @ apiVersion else apiVersion) in
           case marshalConfiguredObjectSpecs lib d of
             Inl e \<Rightarrow> Inl e
           | Inr (kind, resourceName, specFields) \<Rightarrow>
               Inr (fold (\<lambda>(k, v). gm_put k v) specFields
                      [(''apiVersion'', JStr fullAPIVersion), (''kind'', JStr kind),
                       (''metadata'', JObj (apply_metadata d))],
                    resourceName)))"

section \<open>Facts about keys and kinds\<close>

lemma CacheKey_inject:
  assumes "CHR ''/'' \<notin> set kind" "CHR ''/'' \<notin> set kind'" "CHR ''/'' \<notin> set ns" "CHR ''/'' \<notin> set ns'"
  shows "CacheKey kind ns name = CacheKey kind' ns' name' \<longleftrightarrow> kind = kind' \<and> ns = ns' \<and> name = name'"
proof
  assume "CacheKey kind ns name = CacheKey kind' ns' name'"
  then have eq: "kind @ CHR ''/'' # (ns @ CHR ''/'' # name) = kind' @ CHR ''/'' # (ns' @ CHR ''/'' # name')"
    by (simp add: CacheKey_def)
  from append_sep_eq [OF eq] assms have "kind = kind'" and "ns @ CHR ''/'' # name = ns' @ CHR ''/'' # name'"
    by auto
  with append_sep_eq [OF this(2)] assms show "kind = kind' \<and> ns = ns' \<and> name = name'" by blast
qed simp

lemma CacheKey_not_snapshot [simp]: "CacheKey kind ns name \<noteq> SnapshotReplaced"
proof -
  have "2 \<le> length (CacheKey kind ns name)" by (simp add: CacheKey_def)
  then show ?thesis by (auto simp: SnapshotReplaced_def)
qed

lemma kindMappingFor_kind_slash:
  "kindMappingFor k = Inr m \<Longrightarrow> CHR ''/'' \<notin> set (km_kind m)"
  by (cases k rule: kindMappingFor.cases) auto

text \<open>
  What the converters of the watched resources guarantee of their output: the \<open>kind\<close> field names
  the variant of the oneof.
\<close>

fun kind_consistent :: "object_data \<Rightarrow> bool" where
  "kind_consistent md =
     (case od_kind_specific md of
        Some (KsCiliumNetworkPolicy _) \<Rightarrow> od_kind md = ''CiliumNetworkPolicy''
      | Some (KsCiliumClusterwideNetworkPolicy _) \<Rightarrow> od_kind md = ''CiliumClusterwideNetworkPolicy''
      | Some (KsCiliumCidrGroup _) \<Rightarrow> od_kind md = ''CiliumCIDRGroup''
      | Some (KsAwsClusterNetworkPolicy _) \<Rightarrow> od_kind md = ''ClusterNetworkPolicy''
      | _ \<Rightarrow> True)"

lemma setConfigured_frame:
  "setConfiguredKindSpecific ks c = Inr c' \<Longrightarrow>
   c' = c\<lparr>co_kind_specific := co_kind_specific c'\<rparr> \<and> (ks = None \<longrightarrow> c' = c)"
  by (cases "(ks, c)" rule: setConfiguredKindSpecific.cases) auto

lemma BuildConfigured_key:
  assumes "BuildConfiguredFromMetadata md = Inr c" and "od_kind_specific md \<noteq> None" and "kind_consistent md"
  shows "CacheKeyForObject c = Inr (CacheKey (od_kind md) (str_get (od_namespace md)) (od_name md))"
  using assms
  by (cases "(od_kind_specific md, c)" rule: setConfiguredKindSpecific.cases)
     (auto simp: BuildConfiguredFromMetadata_def CacheKeyForObject_def ExtractKind_def)

section \<open>The applied object\<close>

lemma marshalPolicySpecs_keys:
  "marshalPolicySpecs lib specs = Inr fs \<Longrightarrow> (k, v) \<in> set fs \<Longrightarrow> k = specField \<or> k = ''specs''"
  by (auto simp: marshalPolicySpecs_def split: list.splits sum.splits)

lemma marshalSpec_keys: "marshalSpec lib msg = Inr fs \<Longrightarrow> (k, v) \<in> set fs \<Longrightarrow> k = specField"
  by (auto simp: marshalSpec_def split: sum.splits)

lemma marshalConfigured_Inr:
  assumes "marshalConfiguredObjectSpecs lib d = Inr (kind, rn, fs)"
  shows "ExtractKind d = Inr kind" and "ExtractResourceName d = Inr rn"
  using assms
  by (auto simp: marshalConfiguredObjectSpecs_def ExtractKind_def ExtractResourceName_def
      ExtractGroupResource_def Let_def split: sum.splits)

lemma marshalConfigured_keys:
  assumes "marshalConfiguredObjectSpecs lib d = Inr (kind, rn, fs)" and "(k, v) \<in> set fs"
  shows "k = specField \<or> k = ''specs''"
  using assms
  by (cases "co_kind_specific d" rule: kindMappingFor.cases)
     (simp_all add: marshalConfiguredObjectSpecs_def Let_def split: sum.splits option.splits,
      (blast dest: marshalPolicySpecs_keys marshalSpec_keys)+)

lemma gm_get_fold_put:
  "k \<notin> set (gm_keys fs) \<Longrightarrow> gm_get (fold (\<lambda>(k, v). gm_put k v) fs m) k = gm_get m k"
  by (induction fs arbitrary: m) auto

lemma apply_metadata_get:
  "gm_get (apply_metadata d) ''name'' = Some (JStr (co_name d))"
  "gm_get (apply_metadata d) ''labels'' = map_option JStrMap (co_labels d)"
  "gm_get (apply_metadata d) ''annotations'' = map_option JStrMap (co_annotations d)"
  "gm_get (apply_metadata d) ''namespace'' = map_option JStr (str_opt (str_get (co_namespace d)))"
  by (auto simp: apply_metadata_def Let_def str_opt_def split: option.splits)

lemma ConvertToApplyObject_get:
  assumes "ConvertToApplyObject lib (Some d) grp ver = Inr (obj, rn)"
  shows "gm_get obj ''kind'' = (case ExtractKind d of Inr k \<Rightarrow> Some (JStr k) | Inl _ \<Rightarrow> None)"
    and "gm_get obj ''apiVersion'' = Some (JStr (if grp = [] then ver else grp @ ''/'' @ ver))"
    and "gm_get obj ''metadata'' = Some (JObj (apply_metadata d))"
    and "ExtractResourceName d = Inr rn"
proof -
  obtain kind fs where m: "marshalConfiguredObjectSpecs lib d = Inr (kind, rn, fs)"
    and obj: "obj = fold (\<lambda>(k, v). gm_put k v) fs
      [(''apiVersion'', JStr (if grp = [] then ver else grp @ ''/'' @ ver)), (''kind'', JStr kind),
       (''metadata'', JObj (apply_metadata d))]"
    using assms by (auto simp: ConvertToApplyObject_def split: sum.splits)
  note mf = marshalConfigured_Inr [OF m]
  have k: "''kind'' \<notin> set (gm_keys fs)" "''apiVersion'' \<notin> set (gm_keys fs)" "''metadata'' \<notin> set (gm_keys fs)"
    by (auto simp: specField_def dest!: marshalConfigured_keys [OF m])
  show "gm_get obj ''kind'' = (case ExtractKind d of Inr k \<Rightarrow> Some (JStr k) | Inl _ \<Rightarrow> None)"
    "gm_get obj ''apiVersion'' = Some (JStr (if grp = [] then ver else grp @ ''/'' @ ver))"
    "gm_get obj ''metadata'' = Some (JObj (apply_metadata d))" "ExtractResourceName d = Inr rn"
    unfolding obj using mf k by (simp_all add: gm_get_fold_put)
qed

section \<open>Caches keyed by their objects\<close>

text \<open>Every entry of a cache is stored under the key of its object.\<close>

definition keyed_map :: "(string, configured_object) gomap \<Rightarrow> bool" where
  "keyed_map m = list_all (\<lambda>(k, obj). CacheKeyForObject obj = Inr k) m"

definition keyed :: "configured_object object_cache \<Rightarrow> bool" where
  "keyed c = keyed_map (oc_objects c)"

lemma keyedD: "keyed c \<Longrightarrow> gm_get (oc_objects c) k = Some obj \<Longrightarrow> CacheKeyForObject obj = Inr k"
  by (auto simp: keyed_def keyed_map_def list_all_iff dest: map_of_SomeD)

lemma set_gm_put: "set (gm_put k v m) \<subseteq> insert (k, v) (set m)"
  by (induction m) auto

lemma set_gm_del: "set (gm_del k m) \<subseteq> set m"
  by (induction m) auto

lemma keyed_map_Nil [simp]: "keyed_map []"
  by (simp add: keyed_map_def)

lemma keyed_map_put: "keyed_map m \<Longrightarrow> CacheKeyForObject v = Inr k \<Longrightarrow> keyed_map (gm_put k v m)"
  using set_gm_put [of k v m] by (auto simp: keyed_map_def list_all_iff)

lemma keyed_map_del: "keyed_map m \<Longrightarrow> keyed_map (gm_del k m)"
  using set_gm_del [of k m] by (auto simp: keyed_map_def list_all_iff)

lemma keyed_ops:
  "Returns (r, c') \<in> set (Insert eq cancelled k v c) \<Longrightarrow> keyed c \<Longrightarrow> CacheKeyForObject v = Inr k \<Longrightarrow> keyed c'"
  "Returns (r, c') \<in> set (Delete cancelled k c) \<Longrightarrow> keyed c \<Longrightarrow> keyed c'"
  "Returns (r, c') \<in> set (ReplaceAll cancelled m c) \<Longrightarrow> keyed_map m \<Longrightarrow> keyed c'"
  by (auto simp: keyed_def keyed_map_put keyed_map_del dest!: Insert_objects Delete_objects ReplaceAll_objects)

section \<open>Keys and applied objects\<close>

text \<open>
  Two configured objects share a cache key exactly when they have the same kind,
  namespace and name (a namespace has no slash), and no object's key is the marker by which a cache
  announces a replaced snapshot.
\<close>

theorem cache_key_identity:
  assumes "CacheKeyForObject a = Inr ka" and "CacheKeyForObject b = Inr kb"
    and "CHR ''/'' \<notin> set (str_get (co_namespace a))" and "CHR ''/'' \<notin> set (str_get (co_namespace b))"
  shows "(ka = kb \<longleftrightarrow> ExtractKind a = ExtractKind b \<and> str_get (co_namespace a) = str_get (co_namespace b) \<and> co_name a = co_name b)
         \<and> ka \<noteq> SnapshotReplaced"
proof -
  obtain ma where a: "kindMappingFor (co_kind_specific a) = Inr ma" "ka = CacheKey (km_kind ma) (str_get (co_namespace a)) (co_name a)"
    using assms(1) by (auto simp: CacheKeyForObject_def ExtractKind_def split: sum.splits)
  obtain mb where b: "kindMappingFor (co_kind_specific b) = Inr mb" "kb = CacheKey (km_kind mb) (str_get (co_namespace b)) (co_name b)"
    using assms(2) by (auto simp: CacheKeyForObject_def ExtractKind_def split: sum.splits)
  show ?thesis
    using a b CacheKey_inject [OF kindMappingFor_kind_slash [OF a(1)] kindMappingFor_kind_slash [OF b(1)] assms(3,4)]
    by (auto simp: ExtractKind_def)
qed

definition sample_policy :: "string \<Rightarrow> configured_object" where
  "sample_policy ns = \<lparr>co_annotations = None, co_labels = None, co_name = ''allow'', co_namespace = Some ns,
     co_kind_specific = Some (CksCiliumNetworkPolicy [])\<rparr>"

theorem cache_key_identity_witness:
  "CacheKeyForObject (sample_policy ''a'') \<noteq> CacheKeyForObject (sample_policy ''b'')"
proof -
  have k: "CacheKeyForObject (sample_policy ns) = Inr (''CiliumNetworkPolicy/'' @ ns @ ''/allow'')" for ns
    by (simp add: sample_policy_def CacheKeyForObject_def ExtractKind_def CacheKey_def)
  have ns: "str_get (co_namespace (sample_policy n)) = n" for n by (simp add: sample_policy_def)
  show ?thesis
    unfolding k using cache_key_identity [OF k [of "''a''"] k [of "''b''"]] by (simp add: ns)
qed

text \<open>
  The object sent to the API server for a configured object carries its kind, the
  group and version it is served at, its name and namespace and exactly its labels and annotations:
  the fields are left out when the configuration leaves them out, so that applying the object does
  not take ownership of them.
\<close>

theorem apply_object_content:
  assumes "ConvertToApplyObject lib (Some d) grp ver = Inr (obj, rn)"
  shows "gm_get obj ''kind'' = (case ExtractKind d of Inr k \<Rightarrow> Some (JStr k) | Inl _ \<Rightarrow> None)
         \<and> gm_get obj ''apiVersion'' = Some (JStr (if grp = [] then ver else grp @ ''/'' @ ver))
         \<and> ExtractResourceName d = Inr rn
         \<and> (\<exists>md. gm_get obj ''metadata'' = Some (JObj md) \<and> gm_get md ''name'' = Some (JStr (co_name d))
              \<and> gm_get md ''labels'' = map_option JStrMap (co_labels d)
              \<and> gm_get md ''annotations'' = map_option JStrMap (co_annotations d)
              \<and> gm_get md ''namespace'' = map_option JStr (str_opt (str_get (co_namespace d))))"
  using ConvertToApplyObject_get [OF assms] apply_metadata_get [of d] by blast

theorem apply_object_content_witness:
  "\<exists>obj. ConvertToApplyObject \<lparr>jl_marshal = (\<lambda>_. Inr []), jl_unmarshal = (\<lambda>_. Inr [])\<rparr> (Some (sample_policy ''a'')) ''cilium.io'' ''v2'' = Inr (obj, ''ciliumnetworkpolicies'')
     \<and> gm_get obj ''apiVersion'' = Some (JStr ''cilium.io/v2'')"
proof -
  have "\<exists>obj. ConvertToApplyObject \<lparr>jl_marshal = (\<lambda>_. Inr []), jl_unmarshal = (\<lambda>_. Inr [])\<rparr> (Some (sample_policy ''a'')) ''cilium.io'' ''v2''
      = Inr (obj, ''ciliumnetworkpolicies'')"
    by (simp add: ConvertToApplyObject_def sample_policy_def marshalConfiguredObjectSpecs_def marshalPolicySpecs_def)
  then show ?thesis using apply_object_content by fastforce
qed

end
