(* ===== verification/Discovery.thy ===== *)
theory Discovery
  imports Objects
begin

text \<open>
  \<open>internal/controller/stream/resources/resources.go\<close>: which resources the operator watches and manages,
  and the discovery of the API version each is served at. The discovery client of the Kubernetes
  library is an argument: the list of API groups and, per group version, the resources it serves.
\<close>

section \<open>The watched and the managed resources\<close>

definition ManagedResources :: "group_resource list" where
  "ManagedResources =
     [(ciliumAPIGroup, ''ciliumcidrgroups''), (ciliumAPIGroup, ''ciliumclusterwidenetworkpolicies''),
      (ciliumAPIGroup, ''ciliumnetworkpolicies''), (awsVPCCNIAPIGroup, ''clusternetworkpolicies'')]"

definition GatewayAPIGroup :: string where
  "GatewayAPIGroup = ''gateway.networking.k8s.io''"

definition anpAPIGroup :: string where
  "anpAPIGroup = ''policy.networking.k8s.io''"

definition ovnAPIGroup :: string where
  "ovnAPIGroup = ''k8s.ovn.org''"

definition resourceList :: "group_resource list" where
  "resourceList = ManagedResources @
     [([], ''endpoints''), ([], ''namespaces''), ([], ''nodes''), ([], ''pods''), ([], ''replicationcontrollers''),
      ([], ''serviceaccounts''), ([], ''services''), (''apiextensions.k8s.io'', ''customresourcedefinitions''),
      (''apps'', ''daemonsets''), (''apps'', ''deployments''), (''apps'', ''replicasets''), (''apps'', ''statefulsets''),
      (''batch'', ''cronjobs''), (''batch'', ''jobs''), (''elbv2.k8s.aws'', ''targetgroupbindings''),
      (GatewayAPIGroup, ''gatewayclasses''), (GatewayAPIGroup, ''gateways''), (GatewayAPIGroup, ''grpcroutes''),
      (GatewayAPIGroup, ''httproutes''), (GatewayAPIGroup, ''tcproutes''), (GatewayAPIGroup, ''tlsroutes''),
      (GatewayAPIGroup, ''udproutes''), (''metallb.io'', ''servicebgpstatuses''), (''metallb.io'', ''servicel2statuses''),
      (''networking.gke.io'', ''servicenetworkendpointgroups''), (''networking.k8s.io'', ''ingressclasses''),
      (''networking.k8s.io'', ''ingresses''), (''networking.k8s.io'', ''networkpolicies''),
      (anpAPIGroup, ''adminnetworkpolicies''), (anpAPIGroup, ''baselineadminnetworkpolicies''),
      (awsVPCCNIAPIGroup, ''applicationnetworkpolicies''), (ovnAPIGroup, ''egressfirewalls''), (ovnAPIGroup, ''egressips'')]"

section \<open>Discovery\<close>

record resource_info =
  ri_Group :: string
  ri_Version :: string

type_synonym resource_map = "(group_resource, resource_info) gomap"

record group_version =
  gv_GroupVersion :: string
  gv_Version :: string

record api_group =
  ag_Name :: string
  ag_Preferred :: group_version
  ag_Versions :: "group_version list"

record discovery =
  di_ServerGroups :: "api_group list result"
  di_ServerResources :: "string \<Rightarrow> string list result"

text \<open>The status of an API error is looked up through wrapped errors.\<close>

definition IsForbidden :: "go_error \<Rightarrow> bool" where
  "IsForbidden e = errors_is e ForbiddenErr"

definition IsNotFound :: "go_error \<Rightarrow> bool" where
  "IsNotFound e = errors_is e NotFoundErr"

fun addResources :: "group_resource list \<Rightarrow> string \<Rightarrow> string \<Rightarrow> string list \<Rightarrow> resource_map \<Rightarrow> resource_map" where
  "addResources wanted groupName version [] m = m"
| "addResources wanted groupName version (r # rs) m =
     addResources wanted groupName version rs
       (if (groupName, r) \<notin> set wanted then m
        else if gm_get m (groupName, r) \<noteq> None then m
        else gm_put (groupName, r) \<lparr>ri_Group = groupName, ri_Version = version\<rparr> m)"

definition hasMissingResource :: "group_resource list \<Rightarrow> string \<Rightarrow> resource_map \<Rightarrow> bool" where
  "hasMissingResource wanted groupName m = list_ex (\<lambda>gr. fst gr = groupName \<and> gm_get m gr = None) wanted"

text \<open>The loop over the other versions of a group.\<close>

fun other_versions ::
  "discovery \<Rightarrow> group_resource list \<Rightarrow> api_group \<Rightarrow> group_version list \<Rightarrow> resource_map \<Rightarrow> resource_map result" where
  "other_versions disc wanted g [] m = Inr m"
| "other_versions disc wanted g (v # vs) m =
     (if gv_GroupVersion v = gv_GroupVersion (ag_Preferred g) then other_versions disc wanted g vs m
      else if \<not> hasMissingResource wanted (ag_Name g) m then Inr m
      else case di_ServerResources disc (gv_GroupVersion v) of
             Inl e \<Rightarrow> if IsForbidden e \<or> IsNotFound e then other_versions disc wanted g vs m else Inl e
           | Inr rs \<Rightarrow> other_versions disc wanted g vs (addResources wanted (ag_Name g) (gv_Version v) rs m))"

fun group_loop ::
  "discovery \<Rightarrow> group_resource list \<Rightarrow> bool \<Rightarrow> api_group list \<Rightarrow> resource_map \<Rightarrow> resource_map result" where
  "group_loop disc wanted searchAllVersions [] m = Inr m"
| "group_loop disc wanted searchAllVersions (g # gs) m =
     (if ag_Name g = ''metrics.k8s.io'' then group_loop disc wanted searchAllVersions gs m
      else case di_ServerResources disc (gv_GroupVersion (ag_Preferred g)) of
             Inl e \<Rightarrow> if IsForbidden e then group_loop disc wanted searchAllVersions gs m else Inl e
           | Inr rs \<Rightarrow>
               let m1 = addResources wanted (ag_Name g) (gv_Version (ag_Preferred g)) rs m in
               if \<not> searchAllVersions then group_loop disc wanted searchAllVersions gs m1
               else case other_versions disc wanted g (ag_Versions g) m1 of
                      Inl e \<Rightarrow> Inl e
                    | Inr m2 \<Rightarrow> group_loop disc wanted searchAllVersions gs m2)"

text \<open>
  The function returns a map and an error. A failure to list the groups returns the empty map it has
  made already; a failure inside the loop returns a nil map.
\<close>

definition buildResourceAPIGroupMap ::
  "discovery \<Rightarrow> group_resource list \<Rightarrow> bool \<Rightarrow> resource_map option \<times> go_error option" where
  "buildResourceAPIGroupMap disc resources searchAllVersions =
     (case di_ServerGroups disc of
        Inl e \<Rightarrow> (Some [], Some e)
      | Inr groups \<Rightarrow>
          (case group_loop disc resources searchAllVersions groups [] of
             Inl e \<Rightarrow> (None, Some e)
           | Inr m \<Rightarrow> (Some m, None)))"

definition BuildResourceAPIGroupMap :: "discovery \<Rightarrow> group_resource list \<Rightarrow> resource_map option \<times> go_error option" where
  "BuildResourceAPIGroupMap disc resources = buildResourceAPIGroupMap disc resources False"

text \<open>\<open>compareGroupResources\<close>, as the sign \<open>cmp.Compare\<close> gives: group first, then plural name.\<close>

definition cmp_compare :: "string \<Rightarrow> string \<Rightarrow> int" where
  "cmp_compare a b = (if a < b then -1 else if b < a then 1 else 0)"

definition compareGroupResources :: "group_resource \<Rightarrow> group_resource \<Rightarrow> int" where
  "compareGroupResources a b =
     (let c = cmp_compare (fst a) (fst b) in if c \<noteq> 0 then c else cmp_compare (snd a) (snd b))"

section \<open>What discovery finds\<close>

text \<open>The versions of a group in the order they are tried, and the first that serves a resource.\<close>

definition tried_versions :: "bool \<Rightarrow> api_group \<Rightarrow> group_version list" where
  "tried_versions searchAllVersions g =
     ag_Preferred g # (if searchAllVersions then filter (\<lambda>v. gv_GroupVersion v \<noteq> gv_GroupVersion (ag_Preferred g)) (ag_Versions g) else [])"

definition serves :: "discovery \<Rightarrow> string \<Rightarrow> group_version \<Rightarrow> bool" where
  "serves disc r v = (case di_ServerResources disc (gv_GroupVersion v) of Inl _ \<Rightarrow> False | Inr rs \<Rightarrow> r \<in> set rs)"

definition served_version :: "discovery \<Rightarrow> string \<Rightarrow> group_version list \<Rightarrow> string option" where
  "served_version disc r vs = map_option gv_Version (find (serves disc r) vs)"

lemma addResources_get:
  "gm_get (addResources wanted g v rs m) gr =
     (case gm_get m gr of
        Some i \<Rightarrow> Some i
      | None \<Rightarrow> if fst gr = g \<and> snd gr \<in> set rs \<and> gr \<in> set wanted then Some \<lparr>ri_Group = g, ri_Version = v\<rparr> else None)"
proof (induction rs arbitrary: m)
  case (Cons r rs)
  then show ?case by (cases gr) (auto split: option.splits)
qed (simp split: option.splits)

lemma not_missing: "\<not> hasMissingResource wanted g m \<Longrightarrow> gr \<in> set wanted \<Longrightarrow> fst gr = g \<Longrightarrow> gm_get m gr \<noteq> None"
  by (auto simp: hasMissingResource_def list_ex_iff)

lemma other_versions_get:
  assumes "other_versions disc wanted g vs m = Inr m'"
  shows "gm_get m' gr =
    (case gm_get m gr of
       Some i \<Rightarrow> Some i
     | None \<Rightarrow>
         if fst gr = ag_Name g \<and> gr \<in> set wanted
         then map_option (\<lambda>v. \<lparr>ri_Group = ag_Name g, ri_Version = v\<rparr>)
                (served_version disc (snd gr) (filter (\<lambda>v. gv_GroupVersion v \<noteq> gv_GroupVersion (ag_Preferred g)) vs))
         else None)"
  using assms
proof (induction vs arbitrary: m)
  case (Cons v vs)
  show ?case
  proof (cases "gv_GroupVersion v = gv_GroupVersion (ag_Preferred g)")
    case True
    then show ?thesis using Cons.IH [of m] Cons.prems by (auto split: option.splits)
  next
    case pref: False
    show ?thesis
    proof (cases "hasMissingResource wanted (ag_Name g) m")
      case False
      then show ?thesis using Cons.prems pref not_missing [OF False, of gr]
        by (cases "gm_get m gr") auto
    next
      case True
      show ?thesis
      proof (cases "di_ServerResources disc (gv_GroupVersion v)")
        case (Inl e)
        then show ?thesis using Cons.IH [of m] Cons.prems pref True
          by (auto simp: served_version_def serves_def split: if_splits option.splits)
      next
        case (Inr rs)
        then have "other_versions disc wanted g vs (addResources wanted (ag_Name g) (gv_Version v) rs m) = Inr m'"
          using Cons.prems pref True by simp
        from Cons.IH [OF this] show ?thesis using Inr pref
          by (auto simp: addResources_get served_version_def serves_def split: option.splits)
      qed
    qed
  qed
qed (simp add: served_version_def split: option.splits)

definition group_info :: "discovery \<Rightarrow> group_resource list \<Rightarrow> bool \<Rightarrow> api_group \<Rightarrow> group_resource \<Rightarrow> resource_info option" where
  "group_info disc wanted searchAllVersions g gr =
     (if ag_Name g \<noteq> ''metrics.k8s.io'' \<and> fst gr = ag_Name g \<and> gr \<in> set wanted \<and>
         (\<exists>rs. di_ServerResources disc (gv_GroupVersion (ag_Preferred g)) = Inr rs)
      then map_option (\<lambda>v. \<lparr>ri_Group = ag_Name g, ri_Version = v\<rparr>)
             (served_version disc (snd gr) (tried_versions searchAllVersions g))
      else None)"

lemma group_loop_Cons:
  assumes "group_loop disc wanted all (g # gs) m = Inr m'"
  shows "\<exists>m1. group_loop disc wanted all gs m1 = Inr m' \<and>
    (\<forall>gr. gm_get m1 gr = (case gm_get m gr of Some i \<Rightarrow> Some i | None \<Rightarrow> group_info disc wanted all g gr))"
proof (cases "ag_Name g = ''metrics.k8s.io''")
  case True
  then show ?thesis using assms by (intro exI [of _ m]) (auto simp: group_info_def split: option.splits)
next
  case metrics: False
  show ?thesis
  proof (cases "di_ServerResources disc (gv_GroupVersion (ag_Preferred g))")
    case (Inl e)
    then show ?thesis using assms metrics
      by (intro exI [of _ m]) (auto simp: group_info_def split: option.splits if_splits)
  next
    case (Inr rs)
    let ?m1 = "addResources wanted (ag_Name g) (gv_Version (ag_Preferred g)) rs m"
    have pref: "serves disc r (ag_Preferred g) \<longleftrightarrow> r \<in> set rs" for r by (simp add: serves_def Inr)
    show ?thesis
    proof (cases all)
      case False
      then show ?thesis using assms metrics Inr
        by (intro exI [of _ ?m1])
           (auto simp: group_info_def addResources_get served_version_def tried_versions_def pref split: option.splits)
    next
      case True
      then obtain m2 where m2: "other_versions disc wanted g (ag_Versions g) ?m1 = Inr m2"
        and rest: "group_loop disc wanted all gs m2 = Inr m'"
        using assms metrics Inr by (auto simp: Let_def split: sum.splits)
      show ?thesis using rest other_versions_get [OF m2] metrics Inr True
        by (intro exI [of _ m2])
           (auto simp: group_info_def addResources_get served_version_def tried_versions_def pref split: option.splits)
    qed
  qed
qed

text \<open>The first group of the list that has the resource decides.\<close>

fun first_info :: "discovery \<Rightarrow> group_resource list \<Rightarrow> bool \<Rightarrow> api_group list \<Rightarrow> group_resource \<Rightarrow> resource_info option" where
  "first_info disc wanted all [] gr = None"
| "first_info disc wanted all (g # gs) gr =
     (case group_info disc wanted all g gr of Some i \<Rightarrow> Some i | None \<Rightarrow> first_info disc wanted all gs gr)"

lemma group_loop_get:
  assumes "group_loop disc wanted all gs m = Inr m'"
  shows "gm_get m' gr = (case gm_get m gr of Some i \<Rightarrow> Some i | None \<Rightarrow> first_info disc wanted all gs gr)"
  using assms
proof (induction gs arbitrary: m)
  case (Cons g gs)
  from group_loop_Cons [OF Cons.prems] obtain m1 where rest: "group_loop disc wanted all gs m1 = Inr m'"
    and m1: "gm_get m1 gr = (case gm_get m gr of Some i \<Rightarrow> Some i | None \<Rightarrow> group_info disc wanted all g gr)"
    by blast
  show ?case using Cons.IH [OF rest] m1 by (auto split: option.splits)
qed (simp split: option.splits)

lemma build_get:
  assumes "buildResourceAPIGroupMap disc wanted all = (Some m, None)"
  obtains groups where "di_ServerGroups disc = Inr groups" and "\<And>gr. gm_get m gr = first_info disc wanted all groups gr"
proof (cases "di_ServerGroups disc")
  case (Inr groups)
  then have "group_loop disc wanted all groups [] = Inr m"
    using assms by (auto simp: buildResourceAPIGroupMap_def split: sum.splits)
  then show ?thesis using that [OF Inr] group_loop_get by fastforce
qed (use assms in \<open>simp add: buildResourceAPIGroupMap_def\<close>)

lemma first_info_unique:
  assumes "distinct (map ag_Name gs)" and "g \<in> set gs" and "fst gr = ag_Name g"
  shows "first_info disc wanted all gs gr = group_info disc wanted all g gr"
  using assms
proof (induction gs)
  case (Cons h gs)
  show ?case
  proof (cases "h = g")
    case True
    have none: "first_info disc wanted all xs gr = None" if "fst gr \<notin> ag_Name ` set xs" for xs
      using that by (induction xs) (auto simp: group_info_def)
    then show ?thesis using none [of gs] Cons.prems True by (auto split: option.splits)
  next
    case False
    then have "ag_Name h \<noteq> ag_Name g" using Cons.prems by (auto simp: rev_image_eqI)
    then have "group_info disc wanted all h gr = None" using Cons.prems by (simp add: group_info_def)
    then show ?thesis using Cons False by auto
  qed
qed simp

section \<open>Properties\<close>

text \<open>
  A successful discovery maps each wanted resource of a listed group to the first version that serves it,
  the preferred version first and then, when all versions are searched, the others in server order;
  resources not wanted, not served, or in a group whose preferred version is forbidden are left out.
\<close>

theorem discovery_finds_first_served:
  assumes "buildResourceAPIGroupMap disc wanted all = (Some m, None)"
    and "di_ServerGroups disc = Inr groups" and "distinct (map ag_Name groups)" and "g \<in> set groups"
  shows "gm_get m (ag_Name g, r) =
    (if ag_Name g \<noteq> ''metrics.k8s.io'' \<and> (ag_Name g, r) \<in> set wanted \<and>
        (\<exists>rs. di_ServerResources disc (gv_GroupVersion (ag_Preferred g)) = Inr rs)
     then map_option (\<lambda>v. \<lparr>ri_Group = ag_Name g, ri_Version = v\<rparr>) (served_version disc r (tried_versions all g))
     else None)"
proof -
  have "gm_get m gr = first_info disc wanted all groups gr" for gr
    using assms(1) by (rule build_get) (simp add: assms(2))
  then show ?thesis using first_info_unique [OF assms(3,4), of "(ag_Name g, r)"] by (simp only: group_info_def fst_conv snd_conv)
     simp
qed

definition metallb_discovery :: discovery where
  "metallb_discovery = \<lparr>di_ServerGroups = Inr [\<lparr>ag_Name = ''metallb.io'',
       ag_Preferred = \<lparr>gv_GroupVersion = ''metallb.io/v1beta2'', gv_Version = ''v1beta2''\<rparr>,
       ag_Versions = [\<lparr>gv_GroupVersion = ''metallb.io/v1beta2'', gv_Version = ''v1beta2''\<rparr>,
                      \<lparr>gv_GroupVersion = ''metallb.io/v1beta1'', gv_Version = ''v1beta1''\<rparr>]\<rparr>],
     di_ServerResources = (\<lambda>gv. if gv = ''metallb.io/v1beta1'' then Inr [''servicel2statuses''] else Inr [''bgppeers''])\<rparr>"

theorem discovery_finds_first_served_witness:
  "\<exists>m. buildResourceAPIGroupMap metallb_discovery resourceList True = (Some m, None) \<and>
     gm_get m (''metallb.io'', ''servicel2statuses'') = Some \<lparr>ri_Group = ''metallb.io'', ri_Version = ''v1beta1''\<rparr>"
proof -
  obtain groups where g: "di_ServerGroups metallb_discovery = Inr groups" "distinct (map ag_Name groups)" "hd groups \<in> set groups"
    "ag_Name (hd groups) = ''metallb.io''"
    by (simp add: metallb_discovery_def)
  have build: "\<exists>m. buildResourceAPIGroupMap metallb_discovery resourceList True = (Some m, None)"
    by (simp add: buildResourceAPIGroupMap_def metallb_discovery_def Let_def)
  then obtain m where m: "buildResourceAPIGroupMap metallb_discovery resourceList True = (Some m, None)" ..
  have "served_version metallb_discovery ''servicel2statuses'' (tried_versions True (hd groups)) = Some ''v1beta1''"
    using g by (auto simp: metallb_discovery_def served_version_def tried_versions_def serves_def)
  moreover have "\<exists>rs. di_ServerResources metallb_discovery (gv_GroupVersion (ag_Preferred (hd groups))) = Inr rs"
    by (simp add: metallb_discovery_def)
  ultimately show ?thesis
    using discovery_finds_first_served [OF m g(1,2,3), of "''servicel2statuses''"] g m
    by (simp add: resourceList_def ManagedResources_def)
qed

end
