(* ===== verification/Kube_Types.thy ===== *)
theory Kube_Types
  imports Objects
begin

text \<open>
  The Kubernetes API types the operator reads. Their Go declarations are not in the repository: the
  records hold the fields the code selects, and an object of the dynamic client is the record of what
  its accessor methods return, with its content. A pointer is an option; a \<open>map[string]string\<close> that
  the code tells from nil is an optional map; an \<open>int32\<close> is an \<open>int\<close> within its range, and the
  conversions to \<open>uint32\<close> write the wrap-around out.
\<close>

section \<open>Objects of the dynamic client\<close>

record managed_field =
  mf_manager :: string
  mf_operation :: string
  mf_subresource :: string

text \<open>\<open>metav1.OwnerReference\<close>.\<close>

record owner_reference =
  ow_APIVersion :: string
  ow_Kind :: string
  ow_Name :: string
  ow_UID :: string
  ow_Controller :: "bool option"
  ow_BlockOwnerDeletion :: "bool option"

text \<open>
  \<open>unstructured.Unstructured\<close>: \<open>GroupVersionKind\<close>, the getters of the metadata, and the content.
\<close>

record unstructured =
  un_group :: string
  un_version :: string
  un_kind :: string
  un_namespace :: string
  un_name :: string
  un_uid :: string
  un_generation :: int
  un_creationTimestamp :: int
  un_labels :: "strmap option"
  un_annotations :: "strmap option"
  un_ownerReferences :: "owner_reference list"
  un_managedFields :: "managed_field list"
  un_object :: json_obj

text \<open>An object with the given kind, namespace and name and nothing else.\<close>

definition bare_object :: "string \<Rightarrow> string \<Rightarrow> string \<Rightarrow> unstructured" where
  "bare_object kind ns name =
     \<lparr>un_group = [], un_version = ''v1'', un_kind = kind, un_namespace = ns, un_name = name, un_uid = [], un_generation = 0,
      un_creationTimestamp = 0, un_labels = None, un_annotations = None, un_ownerReferences = [], un_managedFields = [],
      un_object = []\<rparr>"

lemma bare_object_sel [simp]:
  "un_group (bare_object kind ns name) = []" "un_version (bare_object kind ns name) = ''v1''"
  "un_kind (bare_object kind ns name) = kind" "un_namespace (bare_object kind ns name) = ns"
  "un_name (bare_object kind ns name) = name" "un_managedFields (bare_object kind ns name) = []"
  "un_object (bare_object kind ns name) = []" "un_labels (bare_object kind ns name) = None"
  "un_annotations (bare_object kind ns name) = None" "un_ownerReferences (bare_object kind ns name) = []"
  by (simp_all add: bare_object_def)

text \<open>\<open>GetResourceVersion\<close>: the metadata's \<open>resourceVersion\<close>.\<close>

definition un_resourceVersion :: "unstructured \<Rightarrow> string" where
  "un_resourceVersion obj =
     (case gm_get (un_object obj) ''metadata'' of
        Some (JObj m) \<Rightarrow> (case gm_get m ''resourceVersion'' of Some (JStr s) \<Rightarrow> s | _ \<Rightarrow> [])
      | _ \<Rightarrow> [])"

section \<open>Selectors and ports\<close>

text \<open>\<open>metav1.LabelSelector\<close>.\<close>

record selector_requirement =
  sr_Key :: string
  sr_Operator :: string
  sr_Values :: "string list"

record label_selector =
  sel_MatchLabels :: strmap
  sel_MatchExpressions :: "selector_requirement list"

definition empty_selector :: label_selector where
  "empty_selector = \<lparr>sel_MatchLabels = fmempty, sel_MatchExpressions = []\<rparr>"

text \<open>\<open>intstr.IntOrString\<close> and its \<open>String\<close> method.\<close>

datatype int_or_string = IntVal int | StrVal string

fun intstr_String :: "int_or_string \<Rightarrow> string" where
  "intstr_String (IntVal i) = string_of_int i"
| "intstr_String (StrVal s) = s"

text \<open>\<open>uint32(x)\<close> of a 32-bit integer.\<close>

definition uint32 :: "int \<Rightarrow> 32 word" where
  "uint32 i = word_of_int i"

section \<open>Network policies\<close>

record ip_block =
  ib_CIDR :: string
  ib_Except :: "string list"

record np_peer =
  npe_PodSelector :: "label_selector option"
  npe_NamespaceSelector :: "label_selector option"
  npe_IPBlock :: "ip_block option"

record np_port =
  npp_Protocol :: "string option"
  npp_Port :: "int_or_string option"
  npp_EndPort :: "int option"

record np_ingress_rule =
  nin_Ports :: "np_port list"
  nin_From :: "np_peer list"

record np_egress_rule =
  neg_Ports :: "np_port list"
  neg_To :: "np_peer list"

record network_policy =
  nps_PodSelector :: label_selector
  nps_Ingress :: "np_ingress_rule list"
  nps_Egress :: "np_egress_rule list"
  nps_PolicyTypes :: "string list"

section \<open>Services\<close>

record port_status =
  pst_Port :: int
  pst_Protocol :: string
  pst_Error :: "string option"

record load_balancer_ingress =
  lin_IP :: string
  lin_Hostname :: string
  lin_IPMode :: "string option"
  lin_Ports :: "port_status list"

record service_port =
  svp_Name :: string
  svp_Protocol :: string
  svp_Port :: int
  svp_TargetPort :: int_or_string
  svp_NodePort :: int

record service =
  svc_Ports :: "service_port list"
  svc_Selector :: strmap
  svc_ClusterIPs :: "string list"
  svc_Type :: string
  svc_ExternalIPs :: "string list"
  svc_LoadBalancerIP :: string
  svc_LoadBalancerSourceRanges :: "string list"
  svc_ExternalName :: string
  svc_ExternalTrafficPolicy :: string
  svc_HealthCheckNodePort :: int
  svc_AllocateLoadBalancerNodePorts :: "bool option"
  svc_LoadBalancerClass :: "string option"
  svc_LBIngress :: "load_balancer_ingress list"

section \<open>Ingresses\<close>

record ingress_service =
  isv_Name :: string
  isv_PortName :: string
  isv_PortNumber :: int

text \<open>A backend without a Service refers to another resource.\<close>

type_synonym ingress_backend = "ingress_service option"

record ingress_path =
  igp_Path :: string
  igp_PathType :: "string option"
  igp_Backend :: ingress_backend

record ingress_rule =
  igr_Host :: string
  igr_HTTP :: "ingress_path list option"

record ingress_lb =
  igl_IP :: string
  igl_Hostname :: string
  igl_Ports :: "port_status list"

record ingress =
  ing_Annotations :: "(string, string) fmap"
  ing_IngressClassName :: "string option"
  ing_DefaultBackend :: "ingress_backend option"
  ing_TLS :: "(string list \<times> string) list"
  ing_Rules :: "ingress_rule list"
  ing_LBIngress :: "ingress_lb list"

section \<open>Object metadata\<close>

text \<open>\<open>metav1.ObjectMeta\<close>, the fields the converters read.\<close>

record object_meta =
  om_Name :: string
  om_Namespace :: string
  om_UID :: string
  om_ResourceVersion :: string
  om_CreationTimestamp :: int
  om_Labels :: "strmap option"
  om_Annotations :: "strmap option"
  om_OwnerReferences :: "owner_reference list"

end
