(* ===== verification/Watcher.thy ===== *)
theory Watcher
  imports Discovery Kube_Types "HOL-Library.Sublist"
begin

text \<open>
  \<open>internal/controller/stream/resources/watcher.go\<close>: listing a resource and watching it from the listed
  version. The converter and the runtime cache handler are fields of a watcher, as in the code; the
  handler, the stream and everything else they act on is a state \<open>'s\<close>. What the API server delivers is
  the input: per watch, the result of opening it and the branches its select takes.
\<close>

section \<open>Objects and events\<close>

datatype watch_type = Added | Modified | Deleted | BookmarkEvent | ErrorEvent | OtherEvent string

text \<open>The dynamic type of the object an event carries.\<close>

datatype event_object =
    NilObject
  | UnstructuredObject unstructured
  | StatusObject go_error
  | VersionedObject string
  | OtherObject

type_synonym watch_event = "watch_type \<times> event_object"

datatype resource_mutation = CreateResource object_data | UpdateResource object_data | DeleteResourceMut object_data

text \<open>\<open>CreateMutationObject\<close>: nil for the events that are no mutation.\<close>

fun CreateMutationObject :: "object_data \<Rightarrow> watch_type \<Rightarrow> resource_mutation option" where
  "CreateMutationObject md Added = Some (CreateResource md)"
| "CreateMutationObject md Deleted = Some (DeleteResourceMut md)"
| "CreateMutationObject md Modified = Some (UpdateResource md)"
| "CreateMutationObject md _ = None"

text \<open>The handler is given no event type for a listed item.\<close>

record 's watcher =
  wa_resourceName :: string
  wa_apiGroup :: string
  wa_apiVersion :: string
  wa_converter :: "unstructured \<Rightarrow> object_data result"
  wa_handler :: "(watch_type option \<Rightarrow> unstructured \<Rightarrow> object_data \<Rightarrow> 's \<Rightarrow> unit result \<times> 's) option"

section \<open>Listing\<close>

definition isResourceUnavailable :: "go_error \<Rightarrow> bool" where
  "isResourceUnavailable e \<longleftrightarrow> IsNotFound e \<or> IsForbidden e"

definition removeListSuffix :: "string \<Rightarrow> string" where
  "removeListSuffix s =
     (if suffix ''List'' s then take (length s - length ''List'') s else s)"

record unstructured_list =
  ul_kind :: string
  ul_items :: "unstructured list"
  ul_resourceVersion :: string

definition FetchResources :: "'s watcher \<Rightarrow> unstructured_list result \<Rightarrow> unstructured_list result" where
  "FetchResources w listed =
     (case listed of
        Inl e \<Rightarrow>
          if isResourceUnavailable e
          then Inl (WrapErr (''resource '' @ wa_resourceName w @ '' unavailable'') e) else Inl e
      | Inr l \<Rightarrow> Inr l)"

definition run_handler ::
  "'s watcher \<Rightarrow> watch_type option \<Rightarrow> unstructured \<Rightarrow> object_data \<Rightarrow> 's \<Rightarrow> 's" where
  "run_handler w t obj md s = (case wa_handler w of None \<Rightarrow> s | Some h \<Rightarrow> snd (h t obj md s))"

fun list_items ::
  "'s watcher \<Rightarrow> (object_data \<Rightarrow> 's \<Rightarrow> unit result \<times> 's) \<Rightarrow> string \<Rightarrow> unstructured list \<Rightarrow> 's \<Rightarrow> unit result \<times> 's" where
  "list_items w send itemKind [] s = (Inr (), s)"
| "list_items w send itemKind (item # items) s =
     (let obj = (if un_kind item = [] then item\<lparr>un_kind := itemKind\<rparr> else item) in
      case wa_converter w obj of
        Inl _ \<Rightarrow> list_items w send itemKind items s
      | Inr md \<Rightarrow>
          (case send md s of
             (Inl e, s1) \<Rightarrow> (Inl e, s1)
           | (Inr _, s1) \<Rightarrow> list_items w send itemKind items (run_handler w None obj md s1)))"

definition DynamicListResources ::
  "'s watcher \<Rightarrow> (object_data \<Rightarrow> 's \<Rightarrow> unit result \<times> 's) \<Rightarrow> unstructured_list result \<Rightarrow> bool \<Rightarrow> 's \<Rightarrow> string result \<times> 's" where
  "DynamicListResources w send listed cancelled s =
     (case FetchResources w listed of
        Inl e \<Rightarrow> (Inl e, s)
      | Inr l \<Rightarrow>
          (case list_items w send (removeListSuffix (ul_kind l)) (ul_items l) s of
             (Inl e, s1) \<Rightarrow> (Inl e, s1)
           | (Inr _, s1) \<Rightarrow> (if cancelled then Inl CtxErr else Inr (ul_resourceVersion l), s1)))"

section \<open>Watching\<close>

definition getErrFromWatchEvent :: "watch_event \<Rightarrow> go_error option" where
  "getErrFromWatchEvent ev =
     (case snd ev of
        NilObject \<Rightarrow> None
      | obj \<Rightarrow>
          if fst ev \<noteq> ErrorEvent then None
          else case obj of StatusObject e \<Rightarrow> Some e | _ \<Rightarrow> Some (ErrMsg ''unexpected error type''))"

definition no_bookmark_version :: go_error where
  "no_bookmark_version = ErrMsg ''k8s watcher bookmark event contains no resource version''"

definition getResourceVersionFromBookmark :: "watch_event \<Rightarrow> string result" where
  "getResourceVersionFromBookmark ev =
     (case snd ev of
        NilObject \<Rightarrow> Inl (ErrMsg ''k8s watcher bookmark event contains no object'')
      | VersionedObject rv \<Rightarrow> if rv = [] then Inl no_bookmark_version else Inr rv
      | UnstructuredObject obj \<Rightarrow> if un_resourceVersion obj = [] then Inl no_bookmark_version else Inr (un_resourceVersion obj)
      | _ \<Rightarrow> Inl no_bookmark_version)"

text \<open>\<open>processMutation\<close>: \<open>sent\<close> says which branch of the select between the context and the channel is taken.\<close>

definition processMutation ::
  "'s watcher \<Rightarrow> bool \<Rightarrow> watch_event \<Rightarrow> (string \<times> unstructured \<times> object_data \<times> resource_mutation option) result" where
  "processMutation w sent ev =
     (case snd ev of
        NilObject \<Rightarrow> Inl (ErrMsg ''event object is nil'')
      | UnstructuredObject obj \<Rightarrow>
          (case wa_converter w obj of
             Inl e \<Rightarrow> Inl (WrapErr ''failed to convert'' e)
           | Inr md \<Rightarrow>
               if \<not> sent then Inl CtxErr
               else Inr (od_resource_version md, obj, md, CreateMutationObject md (fst ev)))
      | _ \<Rightarrow> Inl (ErrMsg ''expected *unstructured.Unstructured''))"

text \<open>
  \<open>handleWatchEvent\<close>: the new resource version (empty on failure), whether the event is a mutation, the
  mutation put on the channel, and the state after the handler.
\<close>

definition handleWatchEvent ::
  "'s watcher \<Rightarrow> bool \<Rightarrow> watch_event \<Rightarrow> 's \<Rightarrow> ((string \<times> bool \<times> resource_mutation option) result) \<times> 's" where
  "handleWatchEvent w sent ev s =
     (case fst ev of
        ErrorEvent \<Rightarrow>
          (Inl (case getErrFromWatchEvent ev of
                  None \<Rightarrow> ErrMsg ''watcher returned an error: %!w(<nil>)''
                | Some e \<Rightarrow> WrapErr ''watcher returned an error'' e), s)
      | BookmarkEvent \<Rightarrow>
          (case getResourceVersionFromBookmark ev of Inl e \<Rightarrow> (Inl e, s) | Inr rv \<Rightarrow> (Inr (rv, False, None), s))
      | OtherEvent _ \<Rightarrow> (Inl (ErrMsg ''watcher returned an unknown or empty watch event''), s)
      | t \<Rightarrow>
          (case processMutation w sent ev of
             Inl e \<Rightarrow> (Inl e, s)
           | Inr (rv, obj, md, mut) \<Rightarrow> (Inr (rv, True, mut), run_handler w (Some t) obj md s)))"

text \<open>\<open>handleWatchError\<close>: an expired version ends the watch with the error, any other error restarts it.\<close>

definition handleWatchError :: "go_error \<Rightarrow> bool \<times> go_error option" where
  "handleWatchError e = (if errors_is e ExpiredErr then (False, Some e) else (True, None))"

datatype watch_select = WsCtxDone | WsEvent watch_event bool | WsClosed | WsCheckpoint

record 's watch_state =
  ws_last :: string
  ws_count :: nat
  ws_out :: "resource_mutation option list"
  ws_state :: 's

text \<open>
  The inner loop over one watch: \<open>Inr\<close> when it breaks out to open a new watch (or the input ends), \<open>Inl\<close>
  when \<open>watchEvents\<close> returns.
\<close>

fun watcher_loop :: "'s watcher \<Rightarrow> watch_select list \<Rightarrow> 's watch_state \<Rightarrow> unit result \<times> 's watch_state" where
  "watcher_loop w [] st = (Inr (), st)"
| "watcher_loop w (WsCtxDone # es) st = (Inl CtxErr, st)"
| "watcher_loop w (WsClosed # es) st = (Inr (), st)"
| "watcher_loop w (WsCheckpoint # es) st = watcher_loop w es (st\<lparr>ws_count := 0\<rparr>)"
| "watcher_loop w (WsEvent ev sent # es) st =
     (case handleWatchEvent w sent ev (ws_state st) of
        (Inl e, s1) \<Rightarrow>
          (case handleWatchError e of
             (_, Some e') \<Rightarrow> (Inl e', st\<lparr>ws_state := s1\<rparr>)
           | (True, None) \<Rightarrow> (Inr (), st\<lparr>ws_state := s1\<rparr>)
           | (False, None) \<Rightarrow> watcher_loop w es (st\<lparr>ws_state := s1\<rparr>))
      | (Inr (rv, mutation, mut), s1) \<Rightarrow>
          watcher_loop w es
            (st\<lparr>ws_state := s1, ws_last := (if rv \<noteq> [] then rv else ws_last st),
                ws_count := (if mutation then ws_count st + 1 else ws_count st),
                ws_out := (if mutation then ws_out st @ [mut] else ws_out st)\<rparr>))"

text \<open>One element per round of the outer loop: the result of \<open>newWatcher\<close> and what that watch delivers.\<close>

type_synonym watch_session = "go_error option \<times> watch_select list"

fun watchEvents :: "'s watcher \<Rightarrow> watch_session list \<Rightarrow> 's watch_state \<Rightarrow> go_error option \<times> 's watch_state" where
  "watchEvents w [] st = (None, st)"
| "watchEvents w ((Some e, es) # ss) st = (Some e, st)"
| "watchEvents w ((None, es) # ss) st =
     (case watcher_loop w es st of
        (Inl e, st1) \<Rightarrow> (Some e, st1)
      | (Inr _, st1) \<Rightarrow> watchEvents w ss st1)"

text \<open>
  How the outer loop opens its watches: with bookmarks, from the last version it has seen. The API server of each round is an
  argument; an error of \<open>newWatcher\<close> ends the loop.
\<close>

record watch_options =
  wo_Watch :: bool
  wo_ResourceVersion :: string
  wo_AllowWatchBookmarks :: bool

definition watcher_gvr :: "'s watcher \<Rightarrow> string \<times> string \<times> string" where
  "watcher_gvr w = (wa_apiGroup w, wa_apiVersion w, wa_resourceName w)"

type_synonym watch_call = "string \<times> string \<times> string \<Rightarrow> watch_options \<Rightarrow> watch_select list result"

definition newWatcher :: "watch_call \<Rightarrow> 's watcher \<Rightarrow> string \<Rightarrow> watch_select list result" where
  "newWatcher watch w resourceVersion =
     watch (watcher_gvr w) \<lparr>wo_Watch = True, wo_ResourceVersion = resourceVersion, wo_AllowWatchBookmarks = True\<rparr>"

fun open_watches :: "watch_call list \<Rightarrow> 's watcher \<Rightarrow> 's watch_state \<Rightarrow> watch_session list" where
  "open_watches [] w st = []"
| "open_watches (watch # ws) w st =
     (case newWatcher watch w (ws_last st) of
        Inl e \<Rightarrow> [(Some e, [])]
      | Inr es \<Rightarrow> (None, es) # open_watches ws w (snd (watcher_loop w es st)))"

text \<open>
  \<open>WatchK8sResources\<close>: whether it cancels the whole resource stream when it returns. The limiter's error
  and the result of \<open>watchEvents\<close> are its inputs; \<open>watchEvents\<close> returns only with an error.
\<close>

definition WatchK8sResources :: "go_error option \<Rightarrow> go_error option \<Rightarrow> bool" where
  "WatchK8sResources limiterErr watchErr =
     (case limiterErr of
        Some _ \<Rightarrow> True
      | None \<Rightarrow>
          (case watchErr of
             Some e \<Rightarrow> \<not> isResourceUnavailable e
           | None \<Rightarrow> True))"

section \<open>The API server's log\<close>

text \<open>
  The changes of a resource in the order the server makes them, each with its version; \<open>ver\<close> orders
  versions. A watch opened at version \<open>r\<close> delivers the changes after \<open>r\<close> in that order and may put in
  bookmarks: versions up to which everything has been delivered.
\<close>

type_synonym change = "string \<times> watch_type \<times> unstructured"

definition pending :: "(string \<Rightarrow> nat) \<Rightarrow> change list \<Rightarrow> string \<Rightarrow> change list" where
  "pending ver L r = filter (\<lambda>c. ver (fst c) > ver r) L"

fun session_ok :: "(string \<Rightarrow> nat) \<Rightarrow> change list \<Rightarrow> string \<Rightarrow> watch_select list \<Rightarrow> bool" where
  "session_ok ver L r [] \<longleftrightarrow> True"
| "session_ok ver L r (WsCtxDone # es) \<longleftrightarrow> True"
| "session_ok ver L r (WsClosed # es) \<longleftrightarrow> True"
| "session_ok ver L r (WsCheckpoint # es) \<longleftrightarrow> session_ok ver L r es"
| "session_ok ver L r (WsEvent (t, ob) sent # es) \<longleftrightarrow>
     (case ob of
        VersionedObject b \<Rightarrow> t = BookmarkEvent \<and> b \<noteq> [] \<and> ver r \<le> ver b \<and> pending ver L b = pending ver L r \<and> session_ok ver L b es
      | UnstructuredObject obj \<Rightarrow>
          (case pending ver L r of
             [] \<Rightarrow> False
           | (rv, t', obj') # _ \<Rightarrow> t = t' \<and> obj = obj' \<and> session_ok ver L rv es)
      | _ \<Rightarrow> t \<notin> {Added, Modified, Deleted, BookmarkEvent})"

text \<open>The log is in version order, holds only mutations, and its objects convert to data of their version.\<close>

definition log_ok :: "(string \<Rightarrow> nat) \<Rightarrow> 's watcher \<Rightarrow> change list \<Rightarrow> bool" where
  "log_ok ver w L \<longleftrightarrow> sorted_wrt (\<lambda>c d. ver (fst c) < ver (fst d)) L \<and>
     list_all (\<lambda>(rv, t, obj). rv \<noteq> [] \<and> t \<in> {Added, Modified, Deleted} \<and>
       (case wa_converter w obj of Inl _ \<Rightarrow> False | Inr md \<Rightarrow> od_resource_version md = rv)) L"

definition mutation_of :: "'s watcher \<Rightarrow> change \<Rightarrow> resource_mutation option" where
  "mutation_of w c =
     (case c of (rv, t, obj) \<Rightarrow>
        case wa_converter w obj of Inl _ \<Rightarrow> None | Inr md \<Rightarrow> CreateMutationObject md t)"

lemma pending_next:
  assumes "sorted_wrt (\<lambda>c d. ver (fst c) < ver (fst d)) L" and "pending ver L r = c # cs"
  shows "pending ver L (fst c) = cs" and "c \<in> set L"
proof -
  have "c \<in> set (pending ver L r)" using assms(2) by simp
  then show "c \<in> set L" by (simp add: pending_def)
  show "pending ver L (fst c) = cs" using assms
  proof (induction L)
    case (Cons x L)
    show ?case
    proof (cases "ver (fst x) > ver r")
      case True
      then have x: "x = c" and cs: "cs = pending ver L r" using Cons.prems(2) by (auto simp: pending_def)
      have "\<forall>d \<in> set L. ver (fst x) < ver (fst d)" using Cons.prems(1) by auto
      then have "pending ver L (fst x) = L" "pending ver L r = L"
        using True by (auto simp: pending_def filter_id_conv)
      then show ?thesis using x cs by (simp add: pending_def)
    next
      case False
      then have L: "pending ver L r = c # cs" using Cons.prems(2) by (simp add: pending_def)
      then have "c \<in> set (pending ver L r)" by simp
      then have "ver r < ver (fst c)" by (simp add: pending_def)
      then have "\<not> ver (fst x) > ver (fst c)" using False by simp
      then show ?thesis using Cons.IH L Cons.prems(1) by (simp add: pending_def)
    qed
  qed (simp add: pending_def)
qed

text \<open>What the handler makes of a change.\<close>

definition handle_change :: "'s watcher \<Rightarrow> change \<Rightarrow> 's \<Rightarrow> 's" where
  "handle_change w = (\<lambda>(rv, t, obj). run_handler w (Some t) obj (projr (wa_converter w obj)))"

lemma handleWatchEvent_mutation:
  assumes "log_ok ver w L" and "pending ver L r = (rv, t, obj) # cs"
  shows "handleWatchEvent w sent (t, UnstructuredObject obj) s =
    (if sent then (Inr (rv, True, mutation_of w (rv, t, obj)), handle_change w (rv, t, obj) s) else (Inl CtxErr, s))"
proof -
  have "(rv, t, obj) \<in> set L" using assms pending_next(2) unfolding log_ok_def by blast
  with assms(1) have e: "t \<in> {Added, Modified, Deleted} \<and> (case wa_converter w obj of Inl _ \<Rightarrow> False | Inr md \<Rightarrow> od_resource_version md = rv)"
    unfolding log_ok_def list_all_iff by fast
  then obtain md where c: "wa_converter w obj = Inr md" "od_resource_version md = rv"
    by (cases "wa_converter w obj") auto
  from e consider "t = Added" | "t = Modified" | "t = Deleted" by auto
  then show ?thesis by cases (simp_all add: handleWatchEvent_def processMutation_def mutation_of_def handle_change_def c)
qed

text \<open>One delivered event: either it ends the inner loop, or it moves the last version on.\<close>

lemma session_event_cases:
  assumes "log_ok ver w L" and "session_ok ver L (ws_last st) (WsEvent ev sent # es)"
  obtains (fail) e where "handleWatchEvent w sent ev (ws_state st) = (Inl e, ws_state st)"
  | (bookmark) b where "handleWatchEvent w sent ev (ws_state st) = (Inr (b, False, None), ws_state st)" "b \<noteq> []"
      "pending ver L b = pending ver L (ws_last st)" "session_ok ver L b es"
  | (mutation) rv c cs where "handleWatchEvent w sent ev (ws_state st) = (Inr (rv, True, mutation_of w c), handle_change w c (ws_state st))" "rv \<noteq> []"
      "pending ver L (ws_last st) = c # cs" "pending ver L rv = cs" "session_ok ver L rv es"
proof (cases "snd ev")
  case (UnstructuredObject obj)
  then obtain t where ev: "ev = (t, UnstructuredObject obj)" by (cases ev) auto
  then obtain rv cs where p: "pending ver L (ws_last st) = (rv, t, obj) # cs" and ok: "session_ok ver L rv es"
    using assms(2) by (auto split: list.splits)
  have srt: "sorted_wrt (\<lambda>c d. ver (fst c) < ver (fst d)) L" using assms(1) by (simp add: log_ok_def)
  note pn = pending_next [OF srt p]
  have "rv \<noteq> []" using pn(2) assms(1) by (auto simp: log_ok_def list_all_iff)
  then show ?thesis
    using handleWatchEvent_mutation [OF assms(1) p, of sent "ws_state st"] fail mutation p pn(1) ok
    by (cases sent) (auto simp: ev)
next
  case (VersionedObject b)
  then show ?thesis using assms(2) bookmark
    by (cases ev) (auto simp: handleWatchEvent_def getResourceVersionFromBookmark_def)
qed (use assms(2) fail in \<open>cases ev; cases "fst ev";
      force simp: handleWatchEvent_def getErrFromWatchEvent_def split: if_splits\<close>)+

text \<open>The changes between two states of a watch: they are out, the handler has run on them, and they are no longer pending.\<close>

definition delivers :: "(string \<Rightarrow> nat) \<Rightarrow> 's watcher \<Rightarrow> change list \<Rightarrow> change list \<Rightarrow> 's watch_state \<Rightarrow> 's watch_state \<Rightarrow> bool" where
  "delivers ver w L cs st st' \<longleftrightarrow> pending ver L (ws_last st) = cs @ pending ver L (ws_last st') \<and>
     ws_out st' = ws_out st @ map (mutation_of w) cs \<and> ws_state st' = fold (handle_change w) cs (ws_state st)"

lemma delivers_nothing:
  "pending ver L (ws_last st') = pending ver L (ws_last st) \<Longrightarrow> ws_out st' = ws_out st \<Longrightarrow> ws_state st' = ws_state st \<Longrightarrow> delivers ver w L [] st st'"
  by (simp add: delivers_def)

lemma delivers_trans: "delivers ver w L cs st st1 \<Longrightarrow> delivers ver w L ds st1 st2 \<Longrightarrow> delivers ver w L (cs @ ds) st st2"
  by (simp add: delivers_def)

lemma watcher_loop_delivers:
  assumes "log_ok ver w L" and "session_ok ver L (ws_last st) es" and "watcher_loop w es st = (r, st')"
  shows "\<exists>cs. delivers ver w L cs st st'"
  using assms(2,3)
proof (induction es arbitrary: st)
  case (Cons x es)
  show ?case
  proof (cases x)
    case (WsEvent ev sent)
    show ?thesis
    proof (rule session_event_cases [OF assms(1) Cons.prems(1) [unfolded WsEvent]])
      fix e assume "handleWatchEvent w sent ev (ws_state st) = (Inl e, ws_state st)"
      then have "delivers ver w L [] st st'" using Cons.prems(2) WsEvent
        by (auto simp: handleWatchError_def intro!: delivers_nothing split: if_splits)
      then show ?thesis ..
    next
      fix b assume b: "handleWatchEvent w sent ev (ws_state st) = (Inr (b, False, None), ws_state st)" "b \<noteq> []"
        "pending ver L b = pending ver L (ws_last st)" "session_ok ver L b es"
      then have "delivers ver w L [] st (st\<lparr>ws_last := b\<rparr>)" by (simp add: delivers_nothing)
      then show ?thesis using Cons.IH [of "st\<lparr>ws_last := b\<rparr>"] Cons.prems(2) WsEvent b delivers_trans by fastforce
    next
      fix rv c cs
      assume m: "handleWatchEvent w sent ev (ws_state st) = (Inr (rv, True, mutation_of w c), handle_change w c (ws_state st))" "rv \<noteq> []"
        "pending ver L (ws_last st) = c # cs" "pending ver L rv = cs" "session_ok ver L rv es"
      let ?st1 = "st\<lparr>ws_state := handle_change w c (ws_state st), ws_last := rv, ws_count := ws_count st + 1, ws_out := ws_out st @ [mutation_of w c]\<rparr>"
      have "delivers ver w L [c] st ?st1" using m by (simp add: delivers_def)
      then show ?thesis using Cons.IH [of ?st1] Cons.prems(2) WsEvent m delivers_trans by fastforce
    qed
  next
    case WsCheckpoint
    have "delivers ver w L [] st (st\<lparr>ws_count := 0\<rparr>)" by (simp add: delivers_nothing)
    then show ?thesis using Cons.IH [of "st\<lparr>ws_count := 0\<rparr>"] Cons.prems WsCheckpoint delivers_trans by fastforce
  qed (use Cons.prems delivers_nothing in fastforce)+
qed (use delivers_nothing in fastforce)

text \<open>Every watch is opened at the last version, and delivers what the server has after it.\<close>

fun sessions_ok :: "(string \<Rightarrow> nat) \<Rightarrow> change list \<Rightarrow> 's watcher \<Rightarrow> watch_session list \<Rightarrow> 's watch_state \<Rightarrow> bool" where
  "sessions_ok ver L w [] st \<longleftrightarrow> True"
| "sessions_ok ver L w ((Some e, es) # ss) st \<longleftrightarrow> True"
| "sessions_ok ver L w ((None, es) # ss) st \<longleftrightarrow>
     session_ok ver L (ws_last st) es \<and> sessions_ok ver L w ss (snd (watcher_loop w es st))"

text \<open>The watches the code opens are such watches when the server delivers to each what it has after the version it was asked for.\<close>

definition watch_contract :: "(string \<Rightarrow> nat) \<Rightarrow> change list \<Rightarrow> 's watcher \<Rightarrow> watch_call \<Rightarrow> bool" where
  "watch_contract ver L w watch \<longleftrightarrow> (\<forall>opts es. wo_Watch opts \<and> watch (watcher_gvr w) opts = Inr es \<longrightarrow> session_ok ver L (wo_ResourceVersion opts) es)"

lemma newWatcher_session:
  assumes "watch_contract ver L w watch" and "newWatcher watch w rv = Inr es"
  shows "session_ok ver L rv es"
  using assms(1) [unfolded watch_contract_def, rule_format, of "\<lparr>wo_Watch = True, wo_ResourceVersion = rv, wo_AllowWatchBookmarks = True\<rparr>" es]
    assms(2) by (simp add: newWatcher_def)

lemma open_watches_ok: "list_all (watch_contract ver L w) ws \<Longrightarrow> sessions_ok ver L w (open_watches ws w st) st"
  by (induction ws arbitrary: st) (auto split: sum.splits dest: newWatcher_session)

lemma watchEvents_delivers:
  assumes "log_ok ver w L"
  shows "sessions_ok ver L w ss st \<Longrightarrow> watchEvents w ss st = (r, st') \<Longrightarrow> \<exists>cs. delivers ver w L cs st st'"
proof (induction ss arbitrary: st)
  case Nil
  then show ?case using delivers_nothing by fastforce
next
  case (Cons s ss)
  obtain op es where s: "s = (op, es)" by (cases s)
  show ?case
  proof (cases op)
    case None
    obtain r1 st1 where loop: "watcher_loop w es st = (r1, st1)" by (metis surj_pair)
    then obtain cs where cs: "delivers ver w L cs st st1"
      using watcher_loop_delivers [OF assms _ loop] Cons.prems(1) s None by auto
    show ?thesis
    proof (cases r1)
      case (Inr u)
      then obtain ds where "delivers ver w L ds st1 st'" using Cons.IH [of st1] Cons.prems s None loop by auto
      then show ?thesis using delivers_trans [OF cs] by blast
    qed (use cs Cons.prems s None loop in auto)
  next
    case (Some e)
    then show ?thesis using Cons.prems s delivers_nothing by fastforce
  qed
qed

section \<open>Properties\<close>

definition sample_change :: "string \<Rightarrow> unstructured" where
  "sample_change name = bare_object ''Pod'' ''ns'' name"

definition sample_md :: "string \<Rightarrow> object_data" where
  "sample_md rv = \<lparr>od_annotations = None, od_creation_timestamp = 0, od_kind = ''Pod'', od_labels = None, od_name = ''p'',
     od_namespace = Some ''ns'', od_owner_references = [], od_resource_version = rv, od_uid = [], od_api_group = [],
     od_api_version = ''v1'', od_kind_specific = None\<rparr>"

text \<open>The sample converter takes the version from the name and rejects one object.\<close>

definition sample_watcher :: "unit watcher" where
  "sample_watcher = \<lparr>wa_resourceName = ''pods'', wa_apiGroup = [], wa_apiVersion = ''v1'',
     wa_converter = (\<lambda>obj. if un_name obj = ''bad'' then Inl (ErrMsg ''conversion'') else Inr (sample_md (un_name obj))),
     wa_handler = None\<rparr>"

definition sample_log :: "change list" where
  "sample_log = [(''b'', Added, sample_change ''b''), (''cc'', Modified, sample_change ''cc'')]"

definition sample_state :: "unit watch_state" where
  "sample_state = \<lparr>ws_last = [], ws_count = 0, ws_out = [], ws_state = ()\<rparr>"


definition serve_at :: "string \<Rightarrow> watch_select list \<Rightarrow> watch_call" where
  "serve_at rv es = (\<lambda>_ opts. if wo_ResourceVersion opts = rv then Inr es else Inl ExpiredErr)"

definition sample_watches :: "watch_call list" where
  "sample_watches =
     [serve_at [] [WsEvent (Added, UnstructuredObject (sample_change ''b'')) True, WsClosed],
      serve_at ''b'' [WsEvent (ErrorEvent, NilObject) True],
      serve_at ''b'' [WsEvent (Modified, UnstructuredObject (sample_change ''cc'')) True]]"




text \<open>
  A watcher cancels the whole resource stream unless its watch failed because the resource became
  unavailable, wrapped or not.
\<close>

theorem unavailable_resource_stops_only_itself:
  "WatchK8sResources lim err = False \<longleftrightarrow>
     lim = None \<and> (\<exists>e. err = Some e \<and> (errors_is e NotFoundErr \<or> errors_is e ForbiddenErr))"
  by (auto simp: WatchK8sResources_def isResourceUnavailable_def IsNotFound_def IsForbidden_def split: option.splits)

end
