(* ===== verification/Stats.thy ===== *)
theory Stats
  imports Prelude "HOL-Library.Word"
begin

text \<open>
  \<open>internal/controller/stream/stats.go\<close>: the stream counters. Every counter is an
  \<open>atomic.Uint64\<close>, so an operation on it is one atomic step and its arithmetic wraps at \<open>2\<^sup>6\<^sup>4\<close>.
\<close>

section \<open>State and operations\<close>

type_synonym u64 = "64 word"

record stats =
  st_flowsReceived :: u64
  st_flowsSentToClusterSync :: u64
  st_resourceMutations :: u64
  st_configuredObjectMutations :: u64
  st_autoModeActive :: bool
  st_autoModeNodesObserved :: u64
  st_autoModePollErrors :: u64
  st_autoModeRotationsDetected :: u64
  st_autoModeRotationRecoveries :: u64
  st_autoModeRotationRecoveryErrors :: u64
  st_autoModeRotationGaps :: u64

definition NewStats :: stats where
  "NewStats = \<lparr>st_flowsReceived = 0, st_flowsSentToClusterSync = 0, st_resourceMutations = 0,
     st_configuredObjectMutations = 0, st_autoModeActive = False, st_autoModeNodesObserved = 0,
     st_autoModePollErrors = 0, st_autoModeRotationsDetected = 0, st_autoModeRotationRecoveries = 0,
     st_autoModeRotationRecoveryErrors = 0, st_autoModeRotationGaps = 0\<rparr>"

definition IncrementFlowsReceived :: "stats \<Rightarrow> stats" where
  "IncrementFlowsReceived s = s\<lparr>st_flowsReceived := st_flowsReceived s + 1\<rparr>"

definition IncrementFlowsSentToClusterSync :: "stats \<Rightarrow> stats" where
  "IncrementFlowsSentToClusterSync s = s\<lparr>st_flowsSentToClusterSync := st_flowsSentToClusterSync s + 1\<rparr>"

definition IncrementResourceMutations :: "stats \<Rightarrow> stats" where
  "IncrementResourceMutations s = s\<lparr>st_resourceMutations := st_resourceMutations s + 1\<rparr>"

definition IncrementConfiguredObjectMutations :: "stats \<Rightarrow> stats" where
  "IncrementConfiguredObjectMutations s = s\<lparr>st_configuredObjectMutations := st_configuredObjectMutations s + 1\<rparr>"

definition SetAutoModeActive :: "stats \<Rightarrow> stats" where
  "SetAutoModeActive s = s\<lparr>st_autoModeActive := True\<rparr>"

definition SetAutoModeNodesObserved :: "int \<Rightarrow> stats \<Rightarrow> stats" where
  "SetAutoModeNodesObserved n s = s\<lparr>st_autoModeNodesObserved := word_of_int (if n < 0 then 0 else n)\<rparr>"

definition IncrementAutoModePollErrors :: "stats \<Rightarrow> stats" where
  "IncrementAutoModePollErrors s = s\<lparr>st_autoModePollErrors := st_autoModePollErrors s + 1\<rparr>"

definition AddAutoModeRotationsDetected :: "int \<Rightarrow> stats \<Rightarrow> stats" where
  "AddAutoModeRotationsDetected n s =
     (if n \<le> 0 then s else s\<lparr>st_autoModeRotationsDetected := st_autoModeRotationsDetected s + word_of_int n\<rparr>)"

definition IncrementAutoModeRotationRecoveries :: "stats \<Rightarrow> stats" where
  "IncrementAutoModeRotationRecoveries s = s\<lparr>st_autoModeRotationRecoveries := st_autoModeRotationRecoveries s + 1\<rparr>"

definition IncrementAutoModeRotationRecoveryErrors :: "stats \<Rightarrow> stats" where
  "IncrementAutoModeRotationRecoveryErrors s =
     s\<lparr>st_autoModeRotationRecoveryErrors := st_autoModeRotationRecoveryErrors s + 1\<rparr>"

definition IncrementAutoModeRotationGaps :: "stats \<Rightarrow> stats" where
  "IncrementAutoModeRotationGaps s = s\<lparr>st_autoModeRotationGaps := st_autoModeRotationGaps s + 1\<rparr>"

definition GetAndResetStats :: "stats \<Rightarrow> (u64 \<times> u64 \<times> u64 \<times> u64) \<times> stats" where
  "GetAndResetStats s =
     ((st_flowsReceived s, st_flowsSentToClusterSync s, st_resourceMutations s, st_configuredObjectMutations s),
      s\<lparr>st_flowsReceived := 0, st_flowsSentToClusterSync := 0, st_resourceMutations := 0,
        st_configuredObjectMutations := 0\<rparr>)"

record auto_mode_stats =
  am_NodesObserved :: u64
  am_PollErrors :: u64
  am_RotationsDetected :: u64
  am_RotationRecoveries :: u64
  am_RotationRecoveryErrors :: u64
  am_RotationGaps :: u64

definition GetAndResetAutoModeStats :: "stats \<Rightarrow> auto_mode_stats \<times> stats" where
  "GetAndResetAutoModeStats s =
     (\<lparr>am_NodesObserved = st_autoModeNodesObserved s, am_PollErrors = st_autoModePollErrors s,
       am_RotationsDetected = st_autoModeRotationsDetected s, am_RotationRecoveries = st_autoModeRotationRecoveries s,
       am_RotationRecoveryErrors = st_autoModeRotationRecoveryErrors s, am_RotationGaps = st_autoModeRotationGaps s\<rparr>,
      s\<lparr>st_autoModePollErrors := 0, st_autoModeRotationsDetected := 0, st_autoModeRotationRecoveries := 0,
        st_autoModeRotationRecoveryErrors := 0, st_autoModeRotationGaps := 0\<rparr>)"

text \<open>
  One tick of the stats logger: the four stream counters are always reported, the Auto Mode
  counters are read and reset in every case and reported only while Auto Mode is active.
\<close>

record stats_line =
  sl_counters :: "u64 \<times> u64 \<times> u64 \<times> u64"
  sl_auto_mode :: "auto_mode_stats option"

definition stats_tick :: "stats \<Rightarrow> stats_line \<times> stats" where
  "stats_tick s =
     (let (counters, s1) = GetAndResetStats s; (am, s2) = GetAndResetAutoModeStats s1 in
      (\<lparr>sl_counters = counters, sl_auto_mode = (if st_autoModeActive s2 then Some am else None)\<rparr>, s2))"

lemmas stats_defs = IncrementFlowsReceived_def IncrementFlowsSentToClusterSync_def IncrementResourceMutations_def
  IncrementConfiguredObjectMutations_def SetAutoModeActive_def SetAutoModeNodesObserved_def
  IncrementAutoModePollErrors_def AddAutoModeRotationsDetected_def IncrementAutoModeRotationRecoveries_def
  IncrementAutoModeRotationRecoveryErrors_def IncrementAutoModeRotationGaps_def GetAndResetStats_def
  GetAndResetAutoModeStats_def stats_tick_def

section \<open>Nothing counted is lost or reported twice\<close>

text \<open>The calls on a \<open>Stats\<close> value, in the order the atomic operations take effect.\<close>

datatype stats_event =
    FlowReceived
  | FlowSent
  | ResourceMutation
  | ConfiguredMutation
  | AutoModeActive
  | NodesObserved int
  | PollError
  | RotationsDetected int
  | RotationRecovered
  | RotationRecoveryError
  | RotationGap
  | Tick

fun stats_apply :: "stats_event \<Rightarrow> stats \<times> stats_line list \<Rightarrow> stats \<times> stats_line list" where
  "stats_apply FlowReceived (s, ls) = (IncrementFlowsReceived s, ls)"
| "stats_apply FlowSent (s, ls) = (IncrementFlowsSentToClusterSync s, ls)"
| "stats_apply ResourceMutation (s, ls) = (IncrementResourceMutations s, ls)"
| "stats_apply ConfiguredMutation (s, ls) = (IncrementConfiguredObjectMutations s, ls)"
| "stats_apply AutoModeActive (s, ls) = (SetAutoModeActive s, ls)"
| "stats_apply (NodesObserved n) (s, ls) = (SetAutoModeNodesObserved n s, ls)"
| "stats_apply PollError (s, ls) = (IncrementAutoModePollErrors s, ls)"
| "stats_apply (RotationsDetected n) (s, ls) = (AddAutoModeRotationsDetected n s, ls)"
| "stats_apply RotationRecovered (s, ls) = (IncrementAutoModeRotationRecoveries s, ls)"
| "stats_apply RotationRecoveryError (s, ls) = (IncrementAutoModeRotationRecoveryErrors s, ls)"
| "stats_apply RotationGap (s, ls) = (IncrementAutoModeRotationGaps s, ls)"
| "stats_apply Tick (s, ls) = (let (l, s') = stats_tick s in (s', ls @ [l]))"

definition stats_run :: "stats_event list \<Rightarrow> stats \<times> stats_line list" where
  "stats_run es = fold stats_apply es (NewStats, [])"

definition reported :: "(u64 \<times> u64 \<times> u64 \<times> u64 \<Rightarrow> u64) \<Rightarrow> stats_line list \<Rightarrow> u64" where
  "reported f ls = sum_list (map (f \<circ> sl_counters) ls)"

definition counter_totals :: "stats \<times> stats_line list \<Rightarrow> u64 \<times> u64 \<times> u64 \<times> u64" where
  "counter_totals st =
     (let (s, ls) = st in
      (st_flowsReceived s + reported fst ls,
       st_flowsSentToClusterSync s + reported (\<lambda>c. fst (snd c)) ls,
       st_resourceMutations s + reported (\<lambda>c. fst (snd (snd c))) ls,
       st_configuredObjectMutations s + reported (\<lambda>c. snd (snd (snd c))) ls))"

definition tally :: "stats_event \<Rightarrow> u64 \<times> u64 \<times> u64 \<times> u64 \<Rightarrow> u64 \<times> u64 \<times> u64 \<times> u64" where
  "tally e c =
     (let (a, b, m, k) = c in
      (if e = FlowReceived then a + 1 else a, if e = FlowSent then b + 1 else b,
       if e = ResourceMutation then m + 1 else m, if e = ConfiguredMutation then k + 1 else k))"

lemma counter_totals_apply: "counter_totals (stats_apply e st) = tally e (counter_totals st)"
  by (cases st; cases e) (auto simp: counter_totals_def tally_def reported_def stats_defs Let_def algebra_simps)

lemma counter_totals_fold: "counter_totals (fold stats_apply es st) = fold tally es (counter_totals st)"
  by (induction es arbitrary: st) (simp_all add: counter_totals_apply)

lemma fold_tally:
  "fold tally es (a, b, m, k) =
     (a + of_nat (count_list es FlowReceived), b + of_nat (count_list es FlowSent),
      m + of_nat (count_list es ResourceMutation), k + of_nat (count_list es ConfiguredMutation))"
  by (induction es arbitrary: a b m k) (auto simp: tally_def)

text \<open>
  Over any sequence of counted events and of ticks of the statistics logger, what
  the logged lines report plus what the counters still hold is the number of events, for each of
  the four stream counters: nothing counted is lost between a read and a reset, and nothing is
  reported twice (modulo \<open>2^64\<close>, the width of the counters).
\<close>

theorem stats_run_totals:
  "counter_totals (stats_run es) =
     (of_nat (count_list es FlowReceived), of_nat (count_list es FlowSent),
      of_nat (count_list es ResourceMutation), of_nat (count_list es ConfiguredMutation))"
  by (simp add: stats_run_def counter_totals_fold)
     (simp add: counter_totals_def NewStats_def reported_def fold_tally)

section \<open>The logger\<close>

text \<open>
  \<open>StartStatsLogger\<close>: whether its goroutine runs, and what happens from then on, with the calls on the counters in between: the select
  takes a tick or the cancelled context, which ends the goroutine.
\<close>

definition StartStatsLogger :: "stats option \<Rightarrow> bool \<Rightarrow> int \<Rightarrow> bool" where
  "StartStatsLogger st loggerNil period \<longleftrightarrow> \<not> (st = None \<or> loggerNil) \<and> \<not> period \<le> 0"

datatype stats_select = StatsCtxDone | StatsTick | StatsCall stats_event

fun stats_logger :: "stats_select \<Rightarrow> bool \<times> stats \<times> stats_line list \<Rightarrow> bool \<times> stats \<times> stats_line list" where
  "stats_logger StatsCtxDone (running, st) = (False, st)"
| "stats_logger StatsTick (running, st) = (running, if running then stats_apply Tick st else st)"
| "stats_logger (StatsCall e) (running, st) = (running, if e = Tick then st else stats_apply e st)"

text \<open>Whatever the logger does, it neither loses nor repeats a count, and once it has ended or when it was not started it reports nothing.\<close>

definition calls :: "stats_select list \<Rightarrow> stats_event list" where
  "calls es = List.map_filter (\<lambda>e. case e of StatsCall c \<Rightarrow> if c = Tick then None else Some c | _ \<Rightarrow> None) es"

lemma tally_Tick: "tally Tick c = c"
  by (cases c) (simp add: tally_def)

lemma logger_totals: "counter_totals (snd (fold stats_logger es (running, st))) = fold tally (calls es) (counter_totals st)"
proof (induction es arbitrary: running st)
  case (Cons e es)
  then show ?case
    by (cases e) (auto simp: calls_def map_filter_simps counter_totals_apply tally_Tick)
qed (simp add: calls_def map_filter_simps)

lemma logger_silent: "snd (snd (fold stats_logger es (False, st, ls))) = ls"
proof (induction es arbitrary: st)
  case (Cons e es)
  show ?case
  proof (cases e)
    case (StatsCall c)
    then show ?thesis using Cons by (cases c) (simp_all add: stats_defs)
  qed (use Cons in simp_all)
qed simp

theorem stats_logger_totals:
  "counter_totals (snd (fold stats_logger es (StartStatsLogger st loggerNil period, NewStats, []))) =
     (of_nat (count_list (calls es) FlowReceived), of_nat (count_list (calls es) FlowSent),
      of_nat (count_list (calls es) ResourceMutation), of_nat (count_list (calls es) ConfiguredMutation))"
  by (simp add: logger_totals) (simp add: counter_totals_def NewStats_def reported_def fold_tally)

end
