(* ===== verification/Deadlock.thy ===== *)
theory Deadlock
  imports Prelude
begin

text \<open>
  \<open>internal/controller/stream/deadlock.go\<close>: the liveness state behind the health probe. Durations
  and times are nanoseconds in \<open>int\<close>; a \<open>time.Time\<close> is an option whose \<open>None\<close> is the zero time. The
  reading of the clock, \<open>now\<close>, is an argument.
\<close>

section \<open>Constants\<close>

definition second :: int where
  "second = 1000000000"

definition minute :: int where
  "minute = 60 * second"

definition ResourceProcessingTimeout :: int where
  "ResourceProcessingTimeout = 5 * minute"

definition FlowInactivityKeepaliveMultiplier :: int where
  "FlowInactivityKeepaliveMultiplier = 3"

definition FlowInactivityMargin :: int where
  "FlowInactivityMargin = minute"

section \<open>State and operations\<close>

record deadlock_detector =
  dd_processingResources :: bool
  dd_timeStarted :: "int option"
  dd_flowInactivityTimeout :: int
  dd_flowCollectionStarted :: "int option"
  dd_lastFlowSent :: "int option"

definition dd_init :: deadlock_detector where
  "dd_init = \<lparr>dd_processingResources = False, dd_timeStarted = None, dd_flowInactivityTimeout = 0,
     dd_flowCollectionStarted = None, dd_lastFlowSent = None\<rparr>"

definition SetProcessingResources :: "int \<Rightarrow> bool \<Rightarrow> deadlock_detector \<Rightarrow> deadlock_detector" where
  "SetProcessingResources now processing d =
     (let d1 = d\<lparr>dd_processingResources := processing\<rparr> in
      if processing then d1\<lparr>dd_timeStarted := Some now\<rparr> else d1)"

text \<open>The smallest positive period, 0 when there is none: the loop over the variadic periods.\<close>

fun min_keepalive :: "int \<Rightarrow> int list \<Rightarrow> int" where
  "min_keepalive m [] = m"
| "min_keepalive m (p # ps) = min_keepalive (if p > 0 \<and> (m = 0 \<or> p < m) then p else m) ps"

definition FlowInactivityTimeout :: "int \<Rightarrow> int \<Rightarrow> int list \<Rightarrow> int" where
  "FlowInactivityTimeout activeTimeout pollInterval keepalivePeriods =
     FlowInactivityKeepaliveMultiplier * min_keepalive 0 keepalivePeriods + max pollInterval 0
       + activeTimeout + FlowInactivityMargin"

definition ConfigureFlowLiveness :: "int \<Rightarrow> deadlock_detector \<Rightarrow> deadlock_detector" where
  "ConfigureFlowLiveness timeout d =
     d\<lparr>dd_flowInactivityTimeout := timeout, dd_flowCollectionStarted := None, dd_lastFlowSent := None\<rparr>"

definition StartFlowCollection :: "int \<Rightarrow> deadlock_detector \<Rightarrow> deadlock_detector" where
  "StartFlowCollection now d =
     (if dd_flowInactivityTimeout d > 0 \<and> dd_flowCollectionStarted d = None
      then d\<lparr>dd_flowCollectionStarted := Some now\<rparr> else d)"

definition RecordFlowSent :: "int \<Rightarrow> deadlock_detector \<Rightarrow> deadlock_detector" where
  "RecordFlowSent now d =
     (if dd_flowCollectionStarted d \<noteq> None then d\<lparr>dd_lastFlowSent := Some now\<rparr> else d)"

text \<open>
  The reason carries the elapsed time the message prints; \<open>None\<close> is the empty string. The first
  check runs before the second, as in the code. A set \<open>processingResources\<close> with a zero start
  cannot occur; \<open>time.Since\<close> of the zero time saturates there and exceeds every timeout.
\<close>

datatype unhealthy = ResourceStall "int option" | FlowStall int

definition UnhealthyReason :: "int \<Rightarrow> deadlock_detector \<Rightarrow> unhealthy option" where
  "UnhealthyReason now d =
     (let resource =
        (if dd_processingResources d
         then (case dd_timeStarted d of
                 None \<Rightarrow> Some (ResourceStall None)
               | Some t \<Rightarrow> if now - t > ResourceProcessingTimeout then Some (ResourceStall (Some (now - t))) else None)
         else None)
      in case resource of
           Some r \<Rightarrow> Some r
         | None \<Rightarrow>
             (case dd_flowCollectionStarted d of
                None \<Rightarrow> None
              | Some started \<Rightarrow>
                  (let lastActivity = (case dd_lastFlowSent d of Some t \<Rightarrow> t | None \<Rightarrow> started) in
                   if now - lastActivity > dd_flowInactivityTimeout d then Some (FlowStall (now - lastActivity)) else None)))"

definition ServerIsHealthy :: "int \<Rightarrow> deadlock_detector \<Rightarrow> bool" where
  "ServerIsHealthy now d \<longleftrightarrow> UnhealthyReason now d = None"

section \<open>The watchdog over a run\<close>

text \<open>The calls made on the detector after startup, each with its clock reading.\<close>

datatype dd_event = SetProcessing int bool | CollectorStart int | FlowSent int

fun dd_apply :: "dd_event \<Rightarrow> deadlock_detector \<Rightarrow> deadlock_detector" where
  "dd_apply (SetProcessing now p) d = SetProcessingResources now p d"
| "dd_apply (CollectorStart now) d = StartFlowCollection now d"
| "dd_apply (FlowSent now) d = RecordFlowSent now d"

text \<open>
  The specification of the flow watchdog: the first collector start opens the window, and from
  then on the last activity is the time of the last flow sent, or of that first start.
\<close>

fun last_activity :: "int option \<Rightarrow> dd_event list \<Rightarrow> int option" where
  "last_activity act [] = act"
| "last_activity act (SetProcessing _ _ # es) = last_activity act es"
| "last_activity None (CollectorStart t # es) = last_activity (Some t) es"
| "last_activity (Some a) (CollectorStart t # es) = last_activity (Some a) es"
| "last_activity None (FlowSent t # es) = last_activity None es"
| "last_activity (Some a) (FlowSent t # es) = last_activity (Some t) es"

fun last_processing :: "int option \<Rightarrow> dd_event list \<Rightarrow> int option" where
  "last_processing p [] = p"
| "last_processing p (SetProcessing t True # es) = last_processing (Some t) es"
| "last_processing p (SetProcessing t False # es) = last_processing None es"
| "last_processing p (_ # es) = last_processing p es"

definition dd_activity :: "deadlock_detector \<Rightarrow> int option" where
  "dd_activity d = (case dd_flowCollectionStarted d of None \<Rightarrow> None
     | Some s \<Rightarrow> Some (case dd_lastFlowSent d of None \<Rightarrow> s | Some t \<Rightarrow> t))"

definition dd_processing :: "deadlock_detector \<Rightarrow> int option" where
  "dd_processing d = (if dd_processingResources d then dd_timeStarted d else None)"

text \<open>A started processing phase has its start time, and a flow is recorded only inside the window.\<close>

definition dd_inv :: "int \<Rightarrow> deadlock_detector \<Rightarrow> bool" where
  "dd_inv timeout d \<longleftrightarrow> dd_flowInactivityTimeout d = timeout \<and>
     (dd_processingResources d \<longrightarrow> dd_timeStarted d \<noteq> None) \<and>
     (dd_flowCollectionStarted d = None \<longrightarrow> dd_lastFlowSent d = None)"

lemma dd_apply_inv: "dd_inv timeout d \<Longrightarrow> dd_inv timeout (dd_apply e d)"
  by (cases e) (auto simp: dd_inv_def SetProcessingResources_def StartFlowCollection_def RecordFlowSent_def Let_def)

interpretation dd_run: invariant_fold dd_apply "dd_inv timeout" for timeout
  by unfold_locales (rule dd_apply_inv)

lemma dd_activity_fold:
  assumes "dd_inv timeout d" and "timeout > 0"
  shows "dd_activity (fold dd_apply es d) = last_activity (dd_activity d) es"
  using assms
proof (induction es arbitrary: d)
  case (Cons e es)
  have "dd_activity (fold dd_apply es (dd_apply e d)) = last_activity (dd_activity (dd_apply e d)) es"
    using Cons by (blast intro: dd_apply_inv)
  moreover have "last_activity (dd_activity (dd_apply e d)) es = last_activity (dd_activity d) (e # es)"
    using Cons.prems
    by (cases e) (auto simp: dd_inv_def dd_activity_def SetProcessingResources_def StartFlowCollection_def
        RecordFlowSent_def Let_def split: option.splits)
  ultimately show ?case by simp
qed simp

lemma dd_processing_fold: "dd_processing (fold dd_apply es d) = last_processing (dd_processing d) es"
proof (induction es arbitrary: d)
  case (Cons e es)
  then show ?case
    by (cases "(dd_processing d, e # es)" rule: last_processing.cases)
       (auto simp: dd_processing_def SetProcessingResources_def StartFlowCollection_def RecordFlowSent_def Let_def)
qed simp

lemma UnhealthyReason_eq:
  assumes "dd_inv timeout d"
  shows "UnhealthyReason now d =
    (case dd_processing d of
       Some t \<Rightarrow> if now - t > ResourceProcessingTimeout then Some (ResourceStall (Some (now - t)))
                 else (case dd_activity d of Some a \<Rightarrow> if now - a > timeout then Some (FlowStall (now - a)) else None | None \<Rightarrow> None)
     | None \<Rightarrow> (case dd_activity d of Some a \<Rightarrow> if now - a > timeout then Some (FlowStall (now - a)) else None | None \<Rightarrow> None))"
  using assms
  by (auto simp: UnhealthyReason_def dd_inv_def dd_processing_def dd_activity_def Let_def split: option.splits)

lemma min_keepalive_source:
  "min_keepalive m ps = m \<or> min_keepalive m ps \<in> set ps \<and> min_keepalive m ps > 0"
proof (induction ps arbitrary: m)
  case (Cons p ps)
  show ?case using Cons.IH [of m] Cons.IH [of p] by (cases "p > 0 \<and> (m = 0 \<or> p < m)") auto
qed simp

lemma min_keepalive_le:
  "m > 0 \<Longrightarrow> 0 < min_keepalive m ps \<and> min_keepalive m ps \<le> m"
proof (induction ps arbitrary: m)
  case (Cons p ps)
  show ?case using Cons.IH [of m] Cons.IH [of p] Cons.prems by (cases "p > 0 \<and> (m = 0 \<or> p < m)") auto
qed simp

lemma min_keepalive_lower:
  "0 \<le> m \<Longrightarrow> p \<in> set ps \<Longrightarrow> p > 0 \<Longrightarrow> 0 < min_keepalive m ps \<and> min_keepalive m ps \<le> p"
proof (induction ps arbitrary: m)
  case (Cons q ps)
  show ?case
  proof (cases "p = q")
    case True
    then show ?thesis
      using Cons.prems min_keepalive_le [of q ps] min_keepalive_le [of m ps]
      by (cases "q > 0 \<and> (m = 0 \<or> q < m)") auto
  next
    case False
    then show ?thesis
      using Cons.prems Cons.IH [of m] Cons.IH [of q] by (cases "q > 0 \<and> (m = 0 \<or> q < m)") auto
  qed
qed simp

section \<open>The verdict of the health check\<close>

text \<open>
  Over any history of processing phases, collector starts and sent flows the health
  check reports a stall exactly when it should: a resource stall when the last processing phase to
  begin has not ended and began more than the processing timeout ago; otherwise a flow stall when
  flow collection has started and nothing was sent, since then or since the last flow, for longer
  than the inactivity timeout; otherwise nothing. Before the first collector start no flow stall is
  reported, however long the wait.
\<close>

theorem health_verdict:
  assumes "timeout > 0"
  shows "UnhealthyReason now (fold dd_apply es (ConfigureFlowLiveness timeout dd_init)) =
    (let flow = (case last_activity None es of
                   Some a \<Rightarrow> if now - a > timeout then Some (FlowStall (now - a)) else None
                 | None \<Rightarrow> None)
     in case last_processing None es of
          Some t \<Rightarrow> if now - t > ResourceProcessingTimeout then Some (ResourceStall (Some (now - t))) else flow
        | None \<Rightarrow> flow)"
proof -
  let ?d = "ConfigureFlowLiveness timeout dd_init"
  have inv: "dd_inv timeout ?d" and act: "dd_activity ?d = None" and pr: "dd_processing ?d = None"
    using assms by (simp_all add: dd_inv_def ConfigureFlowLiveness_def dd_init_def dd_activity_def dd_processing_def)
  show ?thesis
    unfolding UnhealthyReason_eq [OF dd_run.inv_fold [OF inv]] dd_activity_fold [OF inv assms] dd_processing_fold act pr
    by (simp add: Let_def)
qed

theorem health_verdict_witness:
  "UnhealthyReason 100 (fold dd_apply [CollectorStart 10, FlowSent 30] (ConfigureFlowLiveness 60 dd_init)) = Some (FlowStall 70)"
  using health_verdict [of 60 100 "[CollectorStart 10, FlowSent 30]"] by simp

end
