(* ===== verification/Stream_Client.thy ===== *)
theory Stream_Client
  imports Prelude
begin

text \<open>
  The contract \<open>stream.StreamClient\<close> of \<open>internal/controller/stream/interfaces.go\<close> as the sending clients
  implement it: a \<open>closed\<close> flag under a mutex, set by \<open>Close\<close>, that every send tests. A send is given the
  result \<open>stream.Send\<close> would have; it returns its own result and the messages that reached the stream.
  Interpreted by the configuration, resources and network flow clients.
\<close>

definition send_result :: "go_error option \<Rightarrow> unit result" where
  "send_result r = (case r of None \<Rightarrow> Inr () | Some e \<Rightarrow> Inl e)"

definition stream_closed :: go_error where
  "stream_closed = ErrMsg ''stream closed''"

datatype 'm client_op = DoSend 'm "go_error option" | DoClose

text \<open>The messages a sequence of calls should hand to the stream: those before the first \<open>Close\<close>.\<close>

fun sends_before_close :: "'m client_op list \<Rightarrow> 'm list" where
  "sends_before_close [] = []"
| "sends_before_close (DoSend m r # xs) = m # sends_before_close xs"
| "sends_before_close (DoClose # xs) = []"

locale closable_sender =
  fixes closed :: "'s \<Rightarrow> bool"
    and close :: "'s \<Rightarrow> 's"
    and send :: "'m \<Rightarrow> go_error option \<Rightarrow> 's \<Rightarrow> unit result \<times> 'm list"
  assumes close_closed: "closed (close s)"
    and send_open: "\<not> closed s \<Longrightarrow> send m r s = (send_result r, [m])"
    and send_closed: "closed s \<Longrightarrow> send m r s = (Inl stream_closed, [])"
begin

fun calls :: "'m client_op list \<Rightarrow> 's \<Rightarrow> 'm list \<times> 's" where
  "calls [] s = ([], s)"
| "calls (DoSend m r # xs) s = (case calls xs s of (ms, t) \<Rightarrow> (snd (send m r s) @ ms, t))"
| "calls (DoClose # xs) s = calls xs (close s)"

lemma calls_closed: "closed s \<Longrightarrow> fst (calls xs s) = []"
  by (induction xs s rule: calls.induct) (auto simp: send_closed close_closed split: prod.splits)

lemma calls_wire: "\<not> closed s \<Longrightarrow> fst (calls xs s) = sends_before_close xs"
  by (induction xs s rule: calls.induct) (auto simp: send_open close_closed calls_closed split: prod.splits)

lemma send_fails_closed: "fst (send m r s) = Inr () \<Longrightarrow> \<not> closed s \<and> r = None"
  by (cases "closed s") (auto simp: send_open send_closed send_result_def split: option.splits)

end

end
