(* ===== verification/Resources_Client.thy ===== *)
theory Resources_Client
  imports Go_Strings Watcher Stats Deadlock Stream_Client "HOL-Library.Product_Lexorder"
begin

text \<open>
  \<open>internal/controller/stream/resources/client.go\<close> and \<open>gke_metadata.go\<close>: the client of the resource stream.
  It sends the cluster's metadata, lists every watched resource, hands the operator's own objects to
  the runtime cache, says that the snapshot is complete, and then forwards the watchers' mutations.
  The results of \<open>stream.Send\<close>, of the list calls, of the metadata server and of the cluster identity
  calls are inputs; the converters are arguments.
\<close>

section \<open>GKE metadata\<close>

definition gkeVersionMarker :: string where
  "gkeVersionMarker = ''-gke.''"

definition isGKEVersion :: "string \<Rightarrow> bool" where
  "isGKEVersion gitVersion = str_contains gkeVersionMarker gitVersion"

text \<open>The outcome of one GET: no response, or a status and the body (\<open>None\<close> when reading it fails).\<close>

datatype http_get = HttpError | HttpResponse int "string option"

definition fetchGKEMetadata :: "(string \<Rightarrow> http_get) \<Rightarrow> string \<Rightarrow> string \<times> bool" where
  "fetchGKEMetadata http url =
     (case http url of
        HttpError \<Rightarrow> ([], False)
      | HttpResponse status body \<Rightarrow>
          if status \<noteq> 200 then ([], False)
          else case body of
                 None \<Rightarrow> ([], False)
               | Some b \<Rightarrow> let value' = TrimSpace (take 1024 b) in if value' = [] then ([], False) else (value', True))"

record gke_cluster_info =
  gk_Name :: string
  gk_Location :: string
  gk_ProjectID :: string

definition gkeMetadataBaseURL :: string where
  "gkeMetadataBaseURL = ''http://metadata.google.internal/computeMetadata/v1''"

definition resolveGKEClusterInfo :: "(string \<Rightarrow> http_get) \<Rightarrow> gke_cluster_info" where
  "resolveGKEClusterInfo http =
     \<lparr>gk_Name = fst (fetchGKEMetadata http (gkeMetadataBaseURL @ ''/instance/attributes/cluster-name'')),
      gk_Location = fst (fetchGKEMetadata http (gkeMetadataBaseURL @ ''/instance/attributes/cluster-location'')),
      gk_ProjectID = fst (fetchGKEMetadata http (gkeMetadataBaseURL @ ''/project/project-id''))\<rparr>"

section \<open>State\<close>

record cluster_metadata =
  cm_Uid :: string
  cm_KubernetesVersion :: string
  cm_OperatorVersion :: string
  cm_FlowCollector :: nat
  cm_ClusterName :: "string option"
  cm_GkeIdentity :: "gke_cluster_info option"

datatype res_request =
    RqClusterMetadata cluster_metadata
  | RqResourceData object_data
  | RqSnapshotComplete
  | RqMutation "resource_mutation option"
  | RqKeepalive

text \<open>
  \<open>rs_results\<close> holds the results of the coming calls of \<open>stream.Send\<close>, \<open>rs_sent\<close> the requests it accepted;
  \<open>rs_pending\<close> is the local variable \<open>pendingSnapshot\<close> of \<open>Run\<close>.
\<close>

record res_state =
  rs_closed :: bool
  rs_results :: "go_error option list"
  rs_sent :: "res_request list"
  rs_pending :: "(string, configured_object) gomap"
  rs_cache :: "configured_object object_cache"
  rs_stats :: stats
  rs_liveness :: deadlock_detector

section \<open>Sending\<close>

definition Res_send :: "res_request \<Rightarrow> go_error option \<Rightarrow> res_state \<Rightarrow> unit result \<times> res_request list" where
  "Res_send req r s = (if rs_closed s then (Inl stream_closed, []) else (send_result r, [req]))"

definition Res_Close :: "res_state \<Rightarrow> res_state" where
  "Res_Close s = s\<lparr>rs_closed := True\<rparr>"

interpretation res_sender: closable_sender rs_closed Res_Close Res_send
  by unfold_locales (simp_all add: Res_send_def Res_Close_def)

definition SendToStream :: "res_request \<Rightarrow> res_state \<Rightarrow> unit result \<times> res_state" where
  "SendToStream req s =
     (if rs_closed s then (Inl stream_closed, s)
      else case rs_results s of
             [] \<Rightarrow> (Inl IoEOF, s)
           | Some e # rs \<Rightarrow> (Inl e, s\<lparr>rs_results := rs\<rparr>)
           | None # rs \<Rightarrow> (Inr (), s\<lparr>rs_results := rs, rs_sent := rs_sent s @ [req]\<rparr>))"

definition Res_SendKeepalive :: "res_state \<Rightarrow> unit result \<times> res_state" where
  "Res_SendKeepalive s = SendToStream RqKeepalive s"

definition SendObjectData :: "object_data \<Rightarrow> res_state \<Rightarrow> unit result \<times> res_state" where
  "SendObjectData md s = SendToStream (RqResourceData md) s"

definition sendResourceSnapshotComplete :: "res_state \<Rightarrow> unit result \<times> res_state" where
  "sendResourceSnapshotComplete s = SendToStream RqSnapshotComplete s"

text \<open>The cluster identity calls, the version strings (\<open>String\<close> and \<open>GitVersion\<close>) and the client's fields.\<close>

record cluster_env =
  ce_clusterID :: "string result"
  ce_version :: "(string \<times> string) result"
  ce_http :: "string \<Rightarrow> http_get"
  ce_operatorVersion :: string
  ce_flowCollector :: nat
  ce_clusterName :: string

definition cluster_metadata_of :: "cluster_env \<Rightarrow> string \<Rightarrow> string \<times> string \<Rightarrow> cluster_metadata" where
  "cluster_metadata_of env uid ver =
     (let info = resolveGKEClusterInfo (ce_http env) in
      \<lparr>cm_Uid = uid, cm_KubernetesVersion = fst ver, cm_OperatorVersion = ce_operatorVersion env,
       cm_FlowCollector = ce_flowCollector env, cm_ClusterName = str_opt (ce_clusterName env),
       cm_GkeIdentity =
         (if isGKEVersion (snd ver) \<and> (gk_Name info \<noteq> [] \<or> gk_Location info \<noteq> [] \<or> gk_ProjectID info \<noteq> [])
          then Some info else None)\<rparr>)"

definition sendClusterMetadata :: "cluster_env \<Rightarrow> res_state \<Rightarrow> unit result \<times> res_state" where
  "sendClusterMetadata env s =
     (case ce_clusterID env of
        Inl e \<Rightarrow> (Inl e, s)
      | Inr uid \<Rightarrow>
          (case ce_version env of
             Inl e \<Rightarrow> (Inl e, s)
           | Inr ver \<Rightarrow> SendToStream (RqClusterMetadata (cluster_metadata_of env uid ver)) s))"

section \<open>The runtime cache handler\<close>

definition hasFieldManager :: "unstructured \<Rightarrow> string \<Rightarrow> bool" where
  "hasFieldManager obj manager =
     list_ex (\<lambda>mf. mf_manager mf = manager \<and> mf_operation mf = ''Apply'' \<and> mf_subresource mf = []) (un_managedFields obj)"

definition wrap_key :: "string \<Rightarrow> string \<Rightarrow> unit result \<Rightarrow> unit result" where
  "wrap_key msg key r = (case r of Inl e \<Rightarrow> Inl (WrapErr (msg @ '' (key='' @ key @ '')'') e) | Inr u \<Rightarrow> Inr u)"

definition on_runtime_cache ::
  "string \<Rightarrow> string \<Rightarrow> (configured_object object_cache \<Rightarrow> (unit result \<times> configured_object object_cache) outcome list) \<Rightarrow>
   res_state \<Rightarrow> (unit result \<times> res_state) outcome list" where
  "on_runtime_cache msg key f s = map (map_outcome (\<lambda>(r, c). (wrap_key msg key r, s\<lparr>rs_cache := c\<rparr>))) (f (rs_cache s))"

definition metadata_key :: "object_data \<Rightarrow> string" where
  "metadata_key md = CacheKey (od_kind md) (str_get (od_namespace md)) (od_name md)"

definition newRuntimeCacheHandler ::
  "bool \<Rightarrow> watch_type option \<Rightarrow> unstructured \<Rightarrow> object_data \<Rightarrow> res_state \<Rightarrow> (unit result \<times> res_state) outcome list" where
  "newRuntimeCacheHandler cancelled eventType obj md s =
     (let key = metadata_key md in
      if \<not> hasFieldManager obj FieldManager \<and> Get key (rs_cache s) = None then [Returns (Inr (), s)]
      else case BuildConfiguredFromMetadata md of
             Inl _ \<Rightarrow> [Returns (Inr (), s)]
           | Inr configured \<Rightarrow>
               (case eventType of
                  None \<Rightarrow> [Returns (Inr (), s\<lparr>rs_pending := gm_put key configured (rs_pending s)\<rparr>)]
                | Some Added \<Rightarrow> on_runtime_cache ''failed to insert resource into runtime cache'' key (Insert proto_equal cancelled key configured) s
                | Some Modified \<Rightarrow> on_runtime_cache ''failed to insert resource into runtime cache'' key (Insert proto_equal cancelled key configured) s
                | Some Deleted \<Rightarrow> on_runtime_cache ''failed to delete resource from runtime cache'' key (Delete cancelled key) s
                | Some _ \<Rightarrow> [Returns (Inr (), s)]))"

text \<open>For a listed item the handler has a single outcome; this is the handler the list phase runs.\<close>

definition list_handler :: "watch_type option \<Rightarrow> unstructured \<Rightarrow> object_data \<Rightarrow> res_state \<Rightarrow> unit result \<times> res_state" where
  "list_handler t obj md s =
     (case newRuntimeCacheHandler False t obj md s of Returns x # _ \<Rightarrow> x | _ \<Rightarrow> (Inr (), s))"

section \<open>Choosing converters\<close>

definition IsCiliumResource :: "string \<Rightarrow> string \<Rightarrow> bool" where
  "IsCiliumResource apiGroup kindOrResource \<longleftrightarrow> apiGroup = ciliumAPIGroup \<and>
     kindOrResource \<in> {''CiliumNetworkPolicy'', ''CiliumClusterwideNetworkPolicy'', ''CiliumCIDRGroup'',
       ''ciliumnetworkpolicies'', ''ciliumclusterwidenetworkpolicies'', ''ciliumcidrgroups''}"

definition IsAdminNetworkPolicyResource :: "string \<Rightarrow> string \<Rightarrow> bool" where
  "IsAdminNetworkPolicyResource apiGroup kindOrResource \<longleftrightarrow> apiGroup = anpAPIGroup \<and>
     kindOrResource \<in> {''AdminNetworkPolicy'', ''BaselineAdminNetworkPolicy'', ''adminnetworkpolicies'', ''baselineadminnetworkpolicies''}"

definition IsEgressResource :: "string \<Rightarrow> string \<Rightarrow> bool" where
  "IsEgressResource apiGroup kindOrResource \<longleftrightarrow> apiGroup = ovnAPIGroup \<and>
     kindOrResource \<in> {''EgressFirewall'', ''EgressIP'', ''egressfirewalls'', ''egressips''}"

definition IsAWSResource :: "string \<Rightarrow> string \<Rightarrow> bool" where
  "IsAWSResource apiGroup kindOrResource \<longleftrightarrow> apiGroup = awsVPCCNIAPIGroup \<and>
     kindOrResource \<in> {''ClusterNetworkPolicy'', ''clusternetworkpolicies'', ''ApplicationNetworkPolicy'', ''applicationnetworkpolicies''}"

type_synonym converter = "unstructured \<Rightarrow> object_data result"

record converters =
  cv_core :: converter
  cv_cilium :: converter
  cv_anp :: converter
  cv_egress :: converter
  cv_aws :: converter

definition new_watcher :: "converters \<Rightarrow> group_resource \<Rightarrow> resource_info \<Rightarrow> res_state watcher" where
  "new_watcher cvs gr info =
     (let (converter, handler) =
            (if IsCiliumResource (ri_Group info) (snd gr) then (cv_cilium cvs, Some list_handler)
             else if IsAdminNetworkPolicyResource (ri_Group info) (snd gr) then (cv_anp cvs, None)
             else if IsEgressResource (ri_Group info) (snd gr) then (cv_egress cvs, None)
             else (cv_core cvs, None));
          (converter', handler') =
            (if IsAWSResource (ri_Group info) (snd gr) then (cv_aws cvs, Some list_handler) else (converter, handler))
      in \<lparr>wa_resourceName = snd gr, wa_apiGroup = ri_Group info, wa_apiVersion = ri_Version info,
          wa_converter = converter', wa_handler = handler'\<rparr>)"

section \<open>Run\<close>

text \<open>The keys of the resource map in the order of \<open>compareGroupResources\<close>: the lexicographic order of the pairs.\<close>

definition sorted_resources :: "resource_map \<Rightarrow> group_resource list" where
  "sorted_resources m = sort (gm_keys m)"

text \<open>
  Per resource: whether the context is cancelled at the top of the loop, the answer of the list call,
  and whether the context is cancelled when the list has been sent.
\<close>

type_synonym list_input = "group_resource \<Rightarrow> bool \<times> unstructured_list result \<times> bool"

fun list_phase ::
  "converters \<Rightarrow> resource_map \<Rightarrow> list_input \<Rightarrow> group_resource list \<Rightarrow> res_state \<Rightarrow> (group_resource \<times> string) list result \<times> res_state" where
  "list_phase cvs m inp [] s = (Inr [], s)"
| "list_phase cvs m inp (gr # grs) s =
     (case inp gr of (cancelled, listed, cancelled') \<Rightarrow>
        if cancelled then (Inl CtxErr, s)
        else case DynamicListResources (new_watcher cvs gr (the (gm_get m gr))) SendObjectData listed cancelled' s of
               (Inl e, s1) \<Rightarrow> if isResourceUnavailable e then list_phase cvs m inp grs s1 else (Inl e, s1)
             | (Inr rv, s1) \<Rightarrow>
                 (case list_phase cvs m inp grs s1 of
                    (Inl e, s2) \<Rightarrow> (Inl e, s2)
                  | (Inr infos, s2) \<Rightarrow> (Inr ((gr, rv) # infos), s2)))"

datatype mutation_event = MutCtxDone | MutReceived "resource_mutation option" | MutClosed

fun mutation_loop :: "mutation_event list \<Rightarrow> res_state \<Rightarrow> unit result option \<times> res_state" where
  "mutation_loop [] s = (None, s)"
| "mutation_loop (MutCtxDone # es) s = (Some (Inl CtxErr), s)"
| "mutation_loop (MutClosed # es) s = (Some (Inr ()), s)"
| "mutation_loop (MutReceived m # es) s =
     (case SendToStream (RqMutation m) s of
        (Inl e, s1) \<Rightarrow> (Some (Inl e), s1)
      | (Inr _, s1) \<Rightarrow> mutation_loop es (s1\<lparr>rs_stats := IncrementResourceMutations (rs_stats s1)\<rparr>))"

definition set_processing :: "int \<Rightarrow> bool \<Rightarrow> res_state \<Rightarrow> res_state" where
  "set_processing now b s = s\<lparr>rs_liveness := SetProcessingResources now b (rs_liveness s)\<rparr>"

text \<open>Everything up to the snapshot message; an error is returned together with the state.\<close>

definition snapshot_phase ::
  "cluster_env \<Rightarrow> converters \<Rightarrow> int \<Rightarrow> resource_map \<Rightarrow> list_input \<Rightarrow> bool \<Rightarrow> res_state \<Rightarrow>
   ((group_resource \<times> string) list result \<times> res_state) outcome list" where
  "snapshot_phase env cvs now m inp cancelled s =
     (case sendClusterMetadata env (set_processing now True s\<lparr>rs_pending := []\<rparr>) of
        (Inl e, s1) \<Rightarrow> [Returns (Inl e, s1)]
      | (Inr _, s1) \<Rightarrow>
          (case list_phase cvs m inp (sorted_resources m) s1 of
             (Inl e, s2) \<Rightarrow> [Returns (Inl e, s2)]
           | (Inr infos, s2) \<Rightarrow>
               map (map_outcome (\<lambda>(r, c). let s3 = s2\<lparr>rs_cache := c\<rparr> in
                      case r of
                        Inl e \<Rightarrow> (Inl e, s3)
                      | Inr _ \<Rightarrow> (case sendResourceSnapshotComplete s3 of
                                   (Inl e, s4) \<Rightarrow> (Inl e, s4)
                                 | (Inr _, s4) \<Rightarrow> (Inr infos, s4))))
                 (ReplaceAll cancelled (rs_pending s2) (rs_cache s2))))"

text \<open>
  \<open>Run\<close>: discovery over every served version, the snapshot, then the mutations; the deferred call ends the
  processing state on every path. The watchers' mutations arrive as \<open>events\<close>.
\<close>

definition Resources_Run_body ::
  "discovery \<Rightarrow> cluster_env \<Rightarrow> converters \<Rightarrow> int \<Rightarrow> list_input \<Rightarrow> bool \<Rightarrow> mutation_event list \<Rightarrow> res_state \<Rightarrow>
   (unit result option \<times> res_state) outcome list" where
  "Resources_Run_body disc env cvs now inp cancelled events s =
     (case buildResourceAPIGroupMap disc resourceList True of
        (_, Some e) \<Rightarrow> [Returns (Some (Inl e), s)]
      | (m, None) \<Rightarrow>
          map (map_outcome (\<lambda>(r, s1). case r of
                 Inl e \<Rightarrow> (Some (Inl e), s1)
               | Inr infos \<Rightarrow> mutation_loop events (set_processing now False s1)))
            (snapshot_phase env cvs now (the m) inp cancelled s))"

definition Resources_Run ::
  "discovery \<Rightarrow> cluster_env \<Rightarrow> converters \<Rightarrow> int \<Rightarrow> list_input \<Rightarrow> bool \<Rightarrow> mutation_event list \<Rightarrow> res_state \<Rightarrow>
   (unit result option \<times> res_state) outcome list" where
  "Resources_Run disc env cvs now inp cancelled events s =
     map (map_outcome (\<lambda>(r, s'). (r, set_processing now False s')))
       (Resources_Run_body disc env cvs now inp cancelled events s)"

section \<open>The order of the resources\<close>

lemma sorted_resources_set: "set (sorted_resources m) = set (gm_keys m)"
  by (simp add: sorted_resources_def)

lemma compareGroupResources_le: "compareGroupResources a b \<le> 0 \<longleftrightarrow> a \<le> b"
  by (cases a; cases b) (auto simp: compareGroupResources_def cmp_compare_def Let_def less_eq_prod_def)

lemma sorted_resources_sorted: "sorted_wrt (\<lambda>a b. compareGroupResources a b \<le> 0) (sorted_resources m)"
  by (simp add: sorted_resources_def compareGroupResources_le)

section \<open>What is sent\<close>

lemma SendToStream_cases:
  assumes "SendToStream req s = (r, s')"
  shows "rs_sent s' = rs_sent s @ (case r of Inl _ \<Rightarrow> [] | Inr _ \<Rightarrow> [req])"
    and "rs_cache s' = rs_cache s" and "rs_pending s' = rs_pending s" and "rs_liveness s' = rs_liveness s"
  using assms by (auto simp: SendToStream_def split: if_splits list.splits option.splits)

lemma list_handler_frame:
  "rs_sent (snd (list_handler None obj md s)) = rs_sent s" "rs_cache (snd (list_handler None obj md s)) = rs_cache s"
  by (auto simp: list_handler_def newRuntimeCacheHandler_def Let_def split: sum.splits)

lemma run_handler_frame:
  assumes "wa_handler w = None \<or> wa_handler w = Some list_handler"
  shows "rs_sent (run_handler w None obj md s) = rs_sent s" "rs_cache (run_handler w None obj md s) = rs_cache s"
  using assms by (auto simp: run_handler_def list_handler_frame)

definition all_data :: "res_request list \<Rightarrow> bool" where
  "all_data rs = list_all (\<lambda>r. \<exists>md. r = RqResourceData md) rs"

definition all_mutations :: "res_request list \<Rightarrow> bool" where
  "all_mutations rs = list_all (\<lambda>r. \<exists>m. r = RqMutation m) rs"

lemma list_items_sent:
  assumes "wa_handler w = None \<or> wa_handler w = Some list_handler"
  shows "list_items w SendObjectData k items s = (r, s') \<Longrightarrow>
    \<exists>ds. rs_sent s' = rs_sent s @ ds \<and> all_data ds \<and> rs_cache s' = rs_cache s"
proof (induction items arbitrary: s)
  case Nil
  then show ?case by (auto simp: all_data_def)
next
  case (Cons item items)
  define obj where "obj = (if un_kind item = [] then item\<lparr>un_kind := k\<rparr> else item)"
  show ?case
  proof (cases "wa_converter w obj")
    case (Inl e)
    then show ?thesis using Cons by (simp add: Let_def obj_def split: if_splits)
  next
    case (Inr md)
    obtain r1 s1 where send: "SendToStream (RqResourceData md) s = (r1, s1)" by (metis surj_pair)
    note sc = SendToStream_cases [OF send]
    note fr = run_handler_frame [OF assms, of obj md s1]
    show ?thesis
    proof (cases r1)
      case (Inl e)
      then show ?thesis using Cons.prems Inr send sc
        by (auto simp: Let_def obj_def [symmetric] SendObjectData_def [of md] all_data_def)
    next
      case r1: (Inr u)
      then have "list_items w SendObjectData k items (run_handler w None obj md s1) = (r, s')"
        using Cons.prems Inr send by (simp add: Let_def obj_def [symmetric] SendObjectData_def [of md])
      from Cons.IH [OF this] obtain ds where "rs_sent s' = rs_sent s @ RqResourceData md # ds" "all_data ds" "rs_cache s' = rs_cache s"
        using fr sc r1 by auto
      then show ?thesis by (intro exI [of _ "RqResourceData md # ds"]) (simp add: all_data_def)
    qed
  qed
qed

lemma new_watcher_handler: "wa_handler (new_watcher cvs gr info) = None \<or> wa_handler (new_watcher cvs gr info) = Some list_handler"
  by (simp add: new_watcher_def)

lemma DynamicListResources_sent:
  assumes "DynamicListResources (new_watcher cvs gr info) SendObjectData listed cancelled s = (r, s')"
  shows "\<exists>ds. rs_sent s' = rs_sent s @ ds \<and> all_data ds \<and> rs_cache s' = rs_cache s"
proof (cases "FetchResources (new_watcher cvs gr info) listed")
  case (Inl e)
  then show ?thesis using assms by (auto simp: DynamicListResources_def all_data_def)
next
  case (Inr l)
  obtain r1 s1 where items: "list_items (new_watcher cvs gr info) SendObjectData (removeListSuffix (ul_kind l)) (ul_items l) s = (r1, s1)"
    by (metis surj_pair)
  have "s' = s1" using assms Inr items by (cases r1) (auto simp: DynamicListResources_def)
  then show ?thesis using list_items_sent [OF new_watcher_handler items] by simp
qed

lemma all_data_append: "all_data (xs @ ys) \<longleftrightarrow> all_data xs \<and> all_data ys"
  by (simp add: all_data_def)

lemma list_phase_sent:
  "list_phase cvs m inp grs s = (r, s') \<Longrightarrow> \<exists>ds. rs_sent s' = rs_sent s @ ds \<and> all_data ds \<and> rs_cache s' = rs_cache s"
proof (induction grs arbitrary: s r s')
  case Nil
  then show ?case by (auto simp: all_data_def)
next
  case (Cons gr grs)
  obtain cancelled listed cancelled' where inp: "inp gr = (cancelled, listed, cancelled')" by (metis surj_pair)
  obtain r1 s1 where dl: "DynamicListResources (new_watcher cvs gr (the (gm_get m gr))) SendObjectData listed cancelled' s = (r1, s1)"
    by (metis surj_pair)
  from DynamicListResources_sent [OF dl] obtain ds where ds: "rs_sent s1 = rs_sent s @ ds" "all_data ds" "rs_cache s1 = rs_cache s"
    by blast
  obtain r2 s2 where rest: "list_phase cvs m inp grs s1 = (r2, s2)" by (metis surj_pair)
  from Cons.IH [OF rest] obtain ds2 where ds2: "rs_sent s2 = rs_sent s1 @ ds2" "all_data ds2" "rs_cache s2 = rs_cache s1" by blast
  consider "cancelled" "s' = s" | "s' = s1" | "s' = s2"
    using Cons.prems inp dl rest by (auto split: if_splits sum.splits)
  then show ?case
  proof cases
    case 1
    then show ?thesis by (auto simp: all_data_def)
  next
    case 2
    then show ?thesis using ds by blast
  next
    case 3
    then show ?thesis using ds ds2 by (intro exI [of _ "ds @ ds2"]) (simp add: all_data_append)
  qed
qed

lemma mutation_loop_sent:
  "mutation_loop es s = (r, s') \<Longrightarrow> \<exists>ms. rs_sent s' = rs_sent s @ ms \<and> all_mutations ms \<and> rs_cache s' = rs_cache s"
proof (induction es arbitrary: s)
  case (Cons e es)
  show ?case
  proof (cases e)
    case (MutReceived m)
    obtain r1 s1 where send: "SendToStream (RqMutation m) s = (r1, s1)" by (metis surj_pair)
    note sc = SendToStream_cases [OF send]
    show ?thesis
    proof (cases r1)
      case (Inl x)
      then show ?thesis using Cons.prems MutReceived send sc by (auto simp: all_mutations_def)
    next
      case (Inr x)
      then obtain ms where "rs_sent s' = (rs_sent s @ [RqMutation m]) @ ms" "all_mutations ms" "rs_cache s' = rs_cache s"
        using Cons.IH [of "s1\<lparr>rs_stats := IncrementResourceMutations (rs_stats s1)\<rparr>"] Cons.prems MutReceived send sc by auto
      then show ?thesis by (intro exI [of _ "RqMutation m # ms"]) (simp add: all_mutations_def)
    qed
  qed (use Cons.prems in \<open>auto simp: all_mutations_def\<close>)
qed (auto simp: all_mutations_def)

lemma snapshot_phase_sent:
  assumes "Returns (r, s') \<in> set (snapshot_phase env cvs now m inp cancelled s)"
  shows "(rs_sent s' = rs_sent s \<or> (\<exists>md ds. rs_sent s' = rs_sent s @ RqClusterMetadata md # ds \<and> all_data ds)) \<and> (\<exists>e. r = Inl e) \<or>
    (\<exists>md ds. rs_sent s' = rs_sent s @ RqClusterMetadata md # ds @ [RqSnapshotComplete] \<and> all_data ds) \<and> (\<exists>x. r = Inr x) \<and> oc_ready (rs_cache s')"
proof -
  let ?s0 = "set_processing now True s\<lparr>rs_pending := []\<rparr>"
  obtain r1 s1 where md: "sendClusterMetadata env ?s0 = (r1, s1)" by (metis surj_pair)
  have s0: "rs_sent ?s0 = rs_sent s" by (simp add: set_processing_def)
  have sent1: "(\<exists>e. r1 = Inl e) \<and> rs_sent s1 = rs_sent s \<or> (\<exists>x. r1 = Inr () \<and> rs_sent s1 = rs_sent s @ [RqClusterMetadata x])"
  proof (cases "ce_clusterID env")
    case (Inr uid)
    then show ?thesis
    proof (cases "ce_version env")
      case v: (Inr ver)
      with md Inr have "SendToStream (RqClusterMetadata (cluster_metadata_of env uid ver)) ?s0 = (r1, s1)"
        by (simp add: sendClusterMetadata_def)
      from SendToStream_cases(1) [OF this] s0 show ?thesis by (cases r1) auto
    qed (use md Inr s0 in \<open>auto simp: sendClusterMetadata_def\<close>)
  qed (use md s0 in \<open>auto simp: sendClusterMetadata_def\<close>)
  show ?thesis
  proof (cases r1)
    case (Inl e)
    then show ?thesis using assms md sent1 by (auto simp: snapshot_phase_def)
  next
    case (Inr u)
    with sent1 obtain x where s1: "rs_sent s1 = rs_sent s @ [RqClusterMetadata x]" by auto
    obtain r2 s2 where lp: "list_phase cvs m inp (sorted_resources m) s1 = (r2, s2)" by (metis surj_pair)
    from list_phase_sent [OF lp] obtain ds where s2: "rs_sent s2 = rs_sent s1 @ ds" "all_data ds" by blast
    show ?thesis
    proof (cases r2)
      case (Inl e)
      then show ?thesis using assms md Inr lp s1 s2 by (auto simp: snapshot_phase_def)
    next
      case r2: (Inr infos)
      from assms md Inr lp r2 obtain r3 c where ra: "Returns (r3, c) \<in> set (ReplaceAll cancelled (rs_pending s2) (rs_cache s2))"
        and out: "(r, s') = (let s3 = s2\<lparr>rs_cache := c\<rparr> in
            case r3 of Inl e \<Rightarrow> (Inl e, s3)
            | Inr _ \<Rightarrow> (case sendResourceSnapshotComplete s3 of (Inl e, s4) \<Rightarrow> (Inl e, s4) | (Inr _, s4) \<Rightarrow> (Inr infos, s4)))"
        by (auto simp: snapshot_phase_def)
      show ?thesis
      proof (cases r3)
        case (Inl e)
        then show ?thesis using out s1 s2 by (auto simp: Let_def)
      next
        case r3: (Inr v)
        have ready: "oc_ready c" using ra r3 by (auto dest: ReplaceAll_ready)
        obtain r4 s4 where send: "SendToStream RqSnapshotComplete (s2\<lparr>rs_cache := c\<rparr>) = (r4, s4)" by (metis surj_pair)
        note sc = SendToStream_cases [OF send]
        show ?thesis using out r3 send sc s1 s2 ready
          by (cases r4) (auto simp: Let_def sendResourceSnapshotComplete_def)
      qed
    qed
  qed
qed

section \<open>Runs of the handler\<close>

type_synonym handler_event = "watch_type option \<times> unstructured \<times> object_data"

inductive handler_run :: "handler_event list \<Rightarrow> res_state \<Rightarrow> res_state \<Rightarrow> bool" where
  hr_nil: "handler_run [] s s"
| hr_event: "handler_run es s s1 \<Longrightarrow> Returns (r, s2) \<in> set (newRuntimeCacheHandler cancelled t obj md s1) \<Longrightarrow>
     handler_run (es @ [(t, obj, md)]) s s2"
| hr_snapshot: "handler_run es s s1 \<Longrightarrow> Returns (r, c) \<in> set (ReplaceAll cancelled (rs_pending s1) (rs_cache s1)) \<Longrightarrow>
     handler_run es s (s1\<lparr>rs_cache := c\<rparr>)"
| hr_drain: "handler_run es s s1 \<Longrightarrow>
     handler_run es s (s1\<lparr>rs_cache := (rs_cache s1)\<lparr>oc_changed := chan_drop (oc_changed (rs_cache s1))\<rparr>\<rparr>)"

lemma on_runtime_cache_Returns:
  "Returns (r, s') \<in> set (on_runtime_cache msg key f s) \<longleftrightarrow>
     (\<exists>r0 c. Returns (r0, c) \<in> set (f (rs_cache s)) \<and> r = wrap_key msg key r0 \<and> s' = s\<lparr>rs_cache := c\<rparr>)"
  by (force simp: on_runtime_cache_def)

text \<open>The four things one call of the handler can do.\<close>

lemma handler_cases:
  assumes "Returns (r, s') \<in> set (newRuntimeCacheHandler cancelled t obj md s)"
  obtains (skip) "s' = s"
  | (collect) c where "t = None" "BuildConfiguredFromMetadata md = Inr c" "s' = s\<lparr>rs_pending := gm_put (metadata_key md) c (rs_pending s)\<rparr>"
      "hasFieldManager obj FieldManager \<or> gm_get (oc_objects (rs_cache s)) (metadata_key md) \<noteq> None"
  | (insert) r0 c x where "BuildConfiguredFromMetadata md = Inr c" "s' = s\<lparr>rs_cache := x\<rparr>"
      "Returns (r0, x) \<in> set (Insert proto_equal cancelled (metadata_key md) c (rs_cache s))"
      "hasFieldManager obj FieldManager \<or> gm_get (oc_objects (rs_cache s)) (metadata_key md) \<noteq> None"
  | (delete) r0 x where "s' = s\<lparr>rs_cache := x\<rparr>" "Returns (r0, x) \<in> set (Delete cancelled (metadata_key md) (rs_cache s))"
proof (cases "\<not> hasFieldManager obj FieldManager \<and> gm_get (oc_objects (rs_cache s)) (metadata_key md) = None")
  case True
  then show ?thesis using assms skip by (simp add: newRuntimeCacheHandler_def Get_def)
next
  case owned: False
  show ?thesis
  proof (cases "BuildConfiguredFromMetadata md")
    case (Inl e)
    then show ?thesis using assms owned skip by (auto simp: newRuntimeCacheHandler_def Get_def)
  next
    case (Inr c)
    with assms owned have *: "Returns (r, s') \<in> set (case t of
         None \<Rightarrow> [Returns (Inr (), s\<lparr>rs_pending := gm_put (metadata_key md) c (rs_pending s)\<rparr>)]
       | Some Added \<Rightarrow> on_runtime_cache ''failed to insert resource into runtime cache'' (metadata_key md) (Insert proto_equal cancelled (metadata_key md) c) s
       | Some Modified \<Rightarrow> on_runtime_cache ''failed to insert resource into runtime cache'' (metadata_key md) (Insert proto_equal cancelled (metadata_key md) c) s
       | Some Deleted \<Rightarrow> on_runtime_cache ''failed to delete resource from runtime cache'' (metadata_key md) (Delete cancelled (metadata_key md)) s
       | Some _ \<Rightarrow> [Returns (Inr (), s)])"
      by (auto simp: newRuntimeCacheHandler_def Get_def Let_def)
    show ?thesis
    proof (cases t)
      case None
      then show ?thesis using * collect [OF None Inr] owned by auto
    next
      case (Some ty)
      then show ?thesis using * skip insert [OF Inr] delete owned
        by (cases ty) (auto simp: on_runtime_cache_Returns)
    qed
  qed
qed

text \<open>Keys enter the pending snapshot and the cache only from an object the operator applied.\<close>

definition owned_keys :: "handler_event list \<Rightarrow> string set" where
  "owned_keys es = {metadata_key md | t obj md. (t, obj, md) \<in> set es \<and> hasFieldManager obj FieldManager}"

lemma owned_keys_snoc: "owned_keys es \<subseteq> owned_keys (es @ [e])"
  by (auto simp: owned_keys_def)

definition keys_within :: "string set \<Rightarrow> res_state \<Rightarrow> bool" where
  "keys_within K s \<longleftrightarrow> dom (gm_get (oc_objects (rs_cache s))) \<subseteq> K \<and> dom (gm_get (rs_pending s)) \<subseteq> K"

lemma handler_run_owned:
  assumes "handler_run es s s'" and "keys_within K s"
  shows "keys_within (K \<union> owned_keys es) s'"
  using assms
proof (induction rule: handler_run.induct)
  case (hr_event es s s1 r s2 cancelled t obj md)
  have IH: "keys_within (K \<union> owned_keys (es @ [(t, obj, md)])) s1"
    using hr_event.IH [OF hr_event.prems] owned_keys_snoc [of es] by (fastforce simp: keys_within_def)
  have own: "metadata_key md \<in> K \<union> owned_keys (es @ [(t, obj, md)])"
    if "hasFieldManager obj FieldManager \<or> gm_get (oc_objects (rs_cache s1)) (metadata_key md) \<noteq> None"
  proof (cases "hasFieldManager obj FieldManager")
    case True
    then have "metadata_key md \<in> owned_keys (es @ [(t, obj, md)])"
      unfolding owned_keys_def by (intro CollectI exI [of _ t] exI [of _ obj] exI [of _ md]) simp
    then show ?thesis by simp
  qed (use that IH in \<open>auto simp: keys_within_def\<close>)
  from hr_event.hyps(2) show ?case
  proof (cases rule: handler_cases)
    case (collect c)
    then show ?thesis using IH own by (simp add: keys_within_def update_conv')
  next
    case (insert r0 c x)
    then show ?thesis using IH own Insert_objects [OF insert(3)] by (simp add: keys_within_def update_conv')
  next
    case (delete r0 x)
    then show ?thesis using IH Delete_objects [OF delete(2)] by (auto simp: keys_within_def delete_conv')
  qed (use IH in simp)
next
  case (hr_snapshot es s s1 r c cancelled)
  then show ?case using ReplaceAll_objects [OF hr_snapshot.hyps(2)] by (simp add: keys_within_def)
qed (auto simp: keys_within_def)

definition converted_ok :: "object_data \<Rightarrow> bool" where
  "converted_ok md \<longleftrightarrow> kind_consistent md \<and> od_kind_specific md \<noteq> None"

lemma handler_run_keyed:
  assumes "handler_run es s s'" and "keyed (rs_cache s)" and "keyed_map (rs_pending s)"
    and "list_all (\<lambda>(t, obj, md). converted_ok md) es"
  shows "keyed (rs_cache s') \<and> keyed_map (rs_pending s')"
  using assms
proof (induction rule: handler_run.induct)
  case (hr_event es s s1 r s2 cancelled t obj md)
  have IH: "keyed (rs_cache s1)" "keyed_map (rs_pending s1)" using hr_event.IH hr_event.prems by auto
  have key: "CacheKeyForObject c = Inr (metadata_key md)" if "BuildConfiguredFromMetadata md = Inr c" for c
    using BuildConfigured_key [OF that] hr_event.prems(3) by (simp add: converted_ok_def metadata_key_def)
  from hr_event.hyps(2) show ?case
  proof (cases rule: handler_cases)
    case (collect c)
    then show ?thesis using IH key by (auto intro: keyed_map_put)
  next
    case (insert r0 c x)
    then show ?thesis using IH key keyed_ops(1) by fastforce
  next
    case (delete r0 x)
    then show ?thesis using IH keyed_ops(2) by fastforce
  qed (use IH in simp)
next
  case (hr_snapshot es s s1 r c cancelled)
  then show ?case using keyed_ops(3) by fastforce
next
  case (hr_drain es s s1)
  then show ?case by (auto simp: keyed_def)
qed auto

section \<open>Properties\<close>

definition sample_res :: res_state where
  "sample_res = \<lparr>rs_closed = False, rs_results = [None, None, None], rs_sent = [], rs_pending = [], rs_cache = NewObjectCache,
     rs_stats = NewStats, rs_liveness = dd_init\<rparr>"

definition owned_object :: unstructured where
  "owned_object = (bare_object ''CiliumCIDRGroup'' [] ''g'')
     \<lparr>un_managedFields := [\<lparr>mf_manager = FieldManager, mf_operation = ''Apply'', mf_subresource = []\<rparr>]\<rparr>"

definition owned_md :: object_data where
  "owned_md = (sample_md ''1'')\<lparr>od_kind := ''CiliumCIDRGroup'', od_name := ''g'', od_namespace := None,
     od_kind_specific := Some (KsCiliumCidrGroup None)\<rparr>"

definition owned_configured :: configured_object where
  "owned_configured = \<lparr>co_annotations = None, co_labels = None, co_name = ''g'', co_namespace = None,
     co_kind_specific = Some (CksCiliumCidrGroup None)\<rparr>"

definition sample_res' :: res_state where
  "sample_res' = sample_res\<lparr>rs_cache := NewObjectCache\<lparr>oc_objects := [(''CiliumCIDRGroup//g'', owned_configured)],
     oc_changed := \<lparr>chan_buf = [''CiliumCIDRGroup//g''], chan_cap = 1, chan_closed = False\<rparr>\<rparr>\<rparr>"

lemma sample_handler_run: "handler_run [(Some Added, owned_object, owned_md)] sample_res sample_res'"
proof -
  have "handler_run ([] @ [(Some Added, owned_object, owned_md)]) sample_res sample_res'"
    by (rule hr_event [OF hr_nil, of "Inr ()" _ False])
       (simp add: newRuntimeCacheHandler_def hasFieldManager_def owned_object_def owned_md_def sample_md_def
         BuildConfiguredFromMetadata_def on_runtime_cache_def Insert_def Insert_locked_def notify_select_def metadata_key_def
         CacheKey_def sample_res_def sample_res'_def NewObjectCache_def make_chan_def chan_simps wrap_key_def owned_configured_def Let_def)
  then show ?thesis by simp
qed

text \<open>
  The runtime cache never takes in an object the operator has not applied itself: whatever the watchers
  deliver, each key of the cache (and of the pending snapshot) was in it from the start or came with an
  object whose managed fields name the operator.
\<close>

theorem runtime_cache_only_owned:
  assumes "handler_run es s s'" and "gm_get (oc_objects (rs_cache s')) k \<noteq> None"
    and "gm_get (oc_objects (rs_cache s)) k = None" and "gm_get (rs_pending s) k = None"
  shows "\<exists>t obj md. (t, obj, md) \<in> set es \<and> hasFieldManager obj FieldManager \<and> metadata_key md = k"
proof -
  let ?K = "dom (gm_get (oc_objects (rs_cache s))) \<union> dom (gm_get (rs_pending s))"
  have "keys_within ?K s" by (simp add: keys_within_def)
  from handler_run_owned [OF assms(1) this] have "dom (gm_get (oc_objects (rs_cache s'))) \<subseteq> ?K \<union> owned_keys es"
    by (simp add: keys_within_def)
  moreover have "k \<notin> ?K" using assms(3,4) by (simp add: domIff)
  ultimately have "k \<in> owned_keys es" using assms(2) by blast
  then show ?thesis unfolding owned_keys_def by blast
qed

theorem runtime_cache_only_owned_witness:
  "gm_get (oc_objects (rs_cache sample_res')) ''CiliumCIDRGroup//g'' \<noteq> None \<and>
   (\<exists>t obj md. (t, obj, md) \<in> set [(Some Added, owned_object, owned_md)] \<and> hasFieldManager obj FieldManager \<and>
      metadata_key md = ''CiliumCIDRGroup//g'')"
proof -
  have k: "gm_get (oc_objects (rs_cache sample_res')) ''CiliumCIDRGroup//g'' \<noteq> None" by (simp add: sample_res'_def)
  show ?thesis using runtime_cache_only_owned [OF sample_handler_run k] k
    by (simp add: sample_res_def NewObjectCache_def)
qed

text \<open>
  The runtime cache stores every object under the key the configuration stream computes for it, provided
  the converters name the kind they convert, so the reconciler compares like with like.
\<close>

theorem runtime_cache_keyed:
  assumes "handler_run es s s'" and "keyed (rs_cache s)" and "keyed_map (rs_pending s)"
    and "list_all (\<lambda>(t, obj, md). converted_ok md) es"
    and "gm_get (oc_objects (rs_cache s')) k = Some obj"
  shows "CacheKeyForObject obj = Inr k"
  using handler_run_keyed [OF assms(1-4)] assms(5) by (blast intro: keyedD)

theorem runtime_cache_keyed_witness: "CacheKeyForObject owned_configured = Inr ''CiliumCIDRGroup//g''"
  by (rule runtime_cache_keyed [OF sample_handler_run])
     (simp_all add: sample_res_def sample_res'_def keyed_def NewObjectCache_def converted_ok_def owned_md_def)


definition sample_env :: cluster_env where
  "sample_env = \<lparr>ce_clusterID = Inr ''uid'', ce_version = Inr (''v1.30.0'', ''v1.30.0''), ce_http = (\<lambda>_. HttpError),
     ce_operatorVersion = ''1'', ce_flowCollector = 1, ce_clusterName = []\<rparr>"

definition sample_converters :: converters where
  "sample_converters = (let f = (\<lambda>_. Inl (ErrMsg ''no'')) in
     \<lparr>cv_core = f, cv_cilium = f, cv_anp = f, cv_egress = f, cv_aws = f\<rparr>)"

definition no_groups :: discovery where
  "no_groups = \<lparr>di_ServerGroups = Inr [], di_ServerResources = (\<lambda>_. Inr [])\<rparr>"

definition sample_run_end :: res_state where
  "sample_run_end = set_processing 0 False (set_processing 0 False (set_processing 0 True
     sample_res\<lparr>rs_pending := [], rs_results := [], rs_stats := IncrementResourceMutations NewStats,
       rs_sent := [RqClusterMetadata (cluster_metadata_of sample_env ''uid'' (''v1.30.0'', ''v1.30.0'')), RqSnapshotComplete, RqMutation None],
       rs_cache := \<lparr>oc_objects = [], oc_ready = True, oc_changed = \<lparr>chan_buf = [SnapshotReplaced], chan_cap = 1, chan_closed = False\<rparr>\<rparr>\<rparr>))"


end
