(* ===== verification/Convert_Shared.thy ===== *)
theory Convert_Shared
  imports Kube_Types
begin

text \<open>
  The conversions that all converters share: \<open>internal/convert/shared.go\<close> and the functions of
  \<open>k8s_resources.go\<close> and \<open>lb_bindings.go\<close> it exports or that several files call. A Go function that
  returns nil for an empty slice returns the empty list here, like the field it is stored in. Also the
  meaning of a label selector, on the API type and on the message.
\<close>

section \<open>Definitions\<close>

definition convertLabelSelectorRequirementsToProto :: "selector_requirement list \<Rightarrow> label_selector_requirement list" where
  "convertLabelSelectorRequirementsToProto requirements =
     map (\<lambda>req. \<lparr>lsr_key = sr_Key req, lsr_operator = sr_Operator req, lsr_values = sr_Values req\<rparr>) requirements"

definition convertLabelSelectorToProto :: "label_selector option \<Rightarrow> pb_label_selector option" where
  "convertLabelSelectorToProto podSelector =
     map_option (\<lambda>s. \<lparr>ls_match_labels = sel_MatchLabels s,
                      ls_match_expressions = convertLabelSelectorRequirementsToProto (sel_MatchExpressions s)\<rparr>) podSelector"

definition convertIPBlockToProto :: "ip_block option \<Rightarrow> pb_ip_block option" where
  "convertIPBlockToProto iPBlock =
     map_option (\<lambda>b. \<lparr>pib_cidr = ib_CIDR b, pib_except = ib_Except b\<rparr>) iPBlock"

definition deref_bool :: "bool option \<Rightarrow> bool" where
  "deref_bool b = (case b of None \<Rightarrow> False | Some x \<Rightarrow> x)"

definition convertOwnerReferences :: "owner_reference list \<Rightarrow> pb_owner_reference list" where
  "convertOwnerReferences ownerReferences =
     map (\<lambda>ownerRef. \<lparr>por_api_version = ow_APIVersion ownerRef,
            por_block_owner_deletion = deref_bool (ow_BlockOwnerDeletion ownerRef),
            por_controller = deref_bool (ow_Controller ownerRef), por_kind = ow_Kind ownerRef,
            por_name = ow_Name ownerRef, por_uid = ow_UID ownerRef\<rparr>) ownerReferences"

definition ConvertOwnerReferences :: "owner_reference list \<Rightarrow> pb_owner_reference list" where
  "ConvertOwnerReferences = convertOwnerReferences"

definition ConvertLabelSelectorToProto :: "label_selector option \<Rightarrow> pb_label_selector option" where
  "ConvertLabelSelectorToProto = convertLabelSelectorToProto"

definition ConvertIPBlockToProto :: "ip_block option \<Rightarrow> pb_ip_block option" where
  "ConvertIPBlockToProto = convertIPBlockToProto"

definition nonEmptyString :: "string option \<Rightarrow> string option" where
  "nonEmptyString s = (case s of None \<Rightarrow> None | Some x \<Rightarrow> if x = [] then None else Some x)"

text \<open>
  The metadata each converter of a custom resource fills in. The creation time is copied into a
  timestamp message; both are nanoseconds since the epoch here.
\<close>

definition crd_metadata :: "unstructured \<Rightarrow> object_data" where
  "crd_metadata obj =
     \<lparr>od_annotations = un_annotations obj, od_creation_timestamp = un_creationTimestamp obj, od_kind = un_kind obj,
      od_labels = un_labels obj, od_name = un_name obj, od_namespace = None,
      od_owner_references = ConvertOwnerReferences (un_ownerReferences obj),
      od_resource_version = un_resourceVersion obj, od_uid = un_uid obj, od_api_group = un_group obj,
      od_api_version = un_version obj, od_kind_specific = None\<rparr>"

definition set_namespace :: "string \<Rightarrow> object_data \<Rightarrow> object_data" where
  "set_namespace ns md = (if ns \<noteq> [] then md\<lparr>od_namespace := Some ns\<rparr> else md)"

section \<open>The meaning of a selector\<close>

text \<open>The operators of a requirement as the Kubernetes API documents them.\<close>

definition requirement_holds :: "string \<Rightarrow> string \<Rightarrow> string list \<Rightarrow> strmap \<Rightarrow> bool" where
  "requirement_holds key op vals labels =
     (if op = ''In'' then (\<exists>v. fmlookup labels key = Some v \<and> v \<in> set vals)
      else if op = ''NotIn'' then (\<forall>v. fmlookup labels key = Some v \<longrightarrow> v \<notin> set vals)
      else if op = ''Exists'' then fmlookup labels key \<noteq> None
      else op = ''DoesNotExist'' \<and> fmlookup labels key = None)"

definition labels_hold :: "strmap \<Rightarrow> strmap \<Rightarrow> bool" where
  "labels_hold want labels \<longleftrightarrow> fmsubset want labels"

definition selector_matches :: "label_selector \<Rightarrow> strmap \<Rightarrow> bool" where
  "selector_matches s labels \<longleftrightarrow>
     labels_hold (sel_MatchLabels s) labels \<and>
     list_all (\<lambda>r. requirement_holds (sr_Key r) (sr_Operator r) (sr_Values r) labels) (sel_MatchExpressions s)"

definition pb_selector_matches :: "pb_label_selector \<Rightarrow> strmap \<Rightarrow> bool" where
  "pb_selector_matches s labels \<longleftrightarrow>
     labels_hold (ls_match_labels s) labels \<and>
     list_all (\<lambda>r. requirement_holds (lsr_key r) (lsr_operator r) (lsr_values r) labels) (ls_match_expressions s)"

definition selector_of :: "label_selector \<Rightarrow> pb_label_selector" where
  "selector_of s = \<lparr>ls_match_labels = sel_MatchLabels s,
     ls_match_expressions = convertLabelSelectorRequirementsToProto (sel_MatchExpressions s)\<rparr>"

lemma convertLabelSelector_simps [simp]:
  "convertLabelSelectorToProto None = None"
  "convertLabelSelectorToProto (Some s) = Some (selector_of s)"
  "ConvertLabelSelectorToProto = convertLabelSelectorToProto"
  by (simp_all add: convertLabelSelectorToProto_def selector_of_def ConvertLabelSelectorToProto_def)

lemma selector_of_matches [simp]: "pb_selector_matches (selector_of s) labels = selector_matches s labels"
  by (simp add: pb_selector_matches_def selector_matches_def selector_of_def convertLabelSelectorRequirementsToProto_def
      list.pred_map comp_def)

lemma empty_selector_matches:
  "sel_MatchLabels s = fmempty \<Longrightarrow> sel_MatchExpressions s = [] \<Longrightarrow> selector_matches s labels"
  by (simp add: selector_matches_def labels_hold_def fmsubset.rep_eq map_le_def)

lemma selector_of_inject: "selector_of s = selector_of t \<longleftrightarrow> s = t"
proof
  have inj: "inj (\<lambda>req :: selector_requirement. \<lparr>lsr_key = sr_Key req, lsr_operator = sr_Operator req, lsr_values = sr_Values req\<rparr>)"
    by (rule injI) simp
  assume "selector_of s = selector_of t"
  then show "s = t"
    by (auto simp: selector_of_def convertLabelSelectorRequirementsToProto_def inj_map_eq_map [OF inj]
        intro: label_selector.equality)
qed simp

end
