(* ===== verification/Json_Decode.thy ===== *)
theory Json_Decode
  imports Convert_Shared
begin

text \<open>
  \<open>json.Unmarshal\<close> into Go structs, one decoder per Go type: an absent or null field is the zero value, a
  value of another JSON type is an error, keys are spelled as in the struct tags. The converters whose
  objects the operator also applies use these decoders, so that applying and reading back can be composed.
\<close>

section \<open>Decoders\<close>

definition result_bind :: "'a result \<Rightarrow> ('a \<Rightarrow> 'b result) \<Rightarrow> 'b result" where
  "result_bind r f = (case r of Inl e \<Rightarrow> Inl e | Inr x \<Rightarrow> f x)"

lemma result_bind_simps [simp]: "result_bind (Inr x) f = f x" "result_bind (Inl e) f = Inl e"
  by (simp_all add: result_bind_def)

definition type_error :: go_error where
  "type_error = ErrMsg ''json: cannot unmarshal''"

fun dec_string :: "json \<Rightarrow> string result" where
  "dec_string (JStr s) = Inr s"
| "dec_string JNull = Inr []"
| "dec_string _ = Inl type_error"

fun dec_int32 :: "json \<Rightarrow> int result" where
  "dec_int32 (JNum i) = (if - (2 ^ 31) \<le> i \<and> i < 2 ^ 31 then Inr i else Inl type_error)"
| "dec_int32 JNull = Inr 0"
| "dec_int32 _ = Inl type_error"

fun dec_items :: "(json \<Rightarrow> 'a result) \<Rightarrow> json list \<Rightarrow> 'a list result" where
  "dec_items d [] = Inr []"
| "dec_items d (j # js) = result_bind (d j) (\<lambda>x. result_bind (dec_items d js) (\<lambda>xs. Inr (x # xs)))"

fun dec_list :: "(json \<Rightarrow> 'a result) \<Rightarrow> json \<Rightarrow> 'a list result" where
  "dec_list d (JArr js) = dec_items d js"
| "dec_list d JNull = Inr []"
| "dec_list d _ = Inl type_error"

fun dec_ptr :: "(json \<Rightarrow> 'a result) \<Rightarrow> json \<Rightarrow> 'a option result" where
  "dec_ptr d JNull = Inr None"
| "dec_ptr d j = map_sum id Some (d j)"

text \<open>A struct: its fields are read from the object; null leaves the zero value.\<close>

fun dec_struct :: "(json_obj \<Rightarrow> 'a result) \<Rightarrow> json \<Rightarrow> 'a result" where
  "dec_struct d (JObj m) = d m"
| "dec_struct d JNull = d []"
| "dec_struct d _ = Inl type_error"

definition dec_field :: "'a \<Rightarrow> (json \<Rightarrow> 'a result) \<Rightarrow> string \<Rightarrow> json_obj \<Rightarrow> 'a result" where
  "dec_field zero d name m = (case gm_get m name of None \<Rightarrow> Inr zero | Some j \<Rightarrow> d j)"

end
