(* ===== verification/Convert_AWS.thy ===== *)
theory Convert_AWS
  imports Json_Decode
begin

text \<open>
  \<open>internal/convert/awsvpccni\<close>: cluster and application network policies of the AWS VPC CNI.
  \<open>json.Unmarshal\<close> into the structs of \<open>awsvpccni_types.go\<close> is written out for cluster policies, because
  the operator applies those and reads them back. The label selector is a Kubernetes type; decoding one is
  a field of \<open>aws_lib\<close>, like the decoding of application policies, which are only read.
\<close>

section \<open>Cluster network policies\<close>

record awsNamespacedPod =
  anp_NamespaceSelector :: label_selector
  anp_PodSelector :: label_selector

record awsSubject =
  asj_Namespaces :: "label_selector option"
  asj_Pods :: "awsNamespacedPod option"

record awsPortNumber =
  awn_Protocol :: string
  awn_Port :: int

record awsPortRange =
  awg_Protocol :: string
  awg_Start :: int
  awg_End :: int

record awsPort =
  awp_PortNumber :: "awsPortNumber option"
  awp_PortRange :: "awsPortRange option"
  awp_NamedPort :: "string option"

record awsIngressPeer =
  awi_Namespaces :: "label_selector option"
  awi_Pods :: "awsNamespacedPod option"

record awsEgressPeer =
  awe_Namespaces :: "label_selector option"
  awe_Pods :: "awsNamespacedPod option"
  awe_Networks :: "string list"
  awe_DomainNames :: "string list"

record awsIngressRule =
  ari_Name :: string
  ari_Action :: string
  ari_From :: "awsIngressPeer list"
  ari_Ports :: "awsPort list option"

record awsEgressRule =
  are_Name :: string
  are_Action :: string
  are_To :: "awsEgressPeer list"
  are_Ports :: "awsPort list option"

record awsClusterNetworkPolicySpec =
  acs_Priority :: int
  acs_Tier :: string
  acs_Subject :: awsSubject
  acs_Ingress :: "awsIngressRule list"
  acs_Egress :: "awsEgressRule list"

section \<open>Conversion of cluster network policies\<close>

definition convertAWSNamespacedPod :: "awsNamespacedPod option \<Rightarrow> aws_pod_selector option" where
  "convertAWSNamespacedPod p =
     map_option (\<lambda>x. \<lparr>aps_namespace_selector = ConvertLabelSelectorToProto (Some (anp_NamespaceSelector x)),
                      aps_pod_selector = ConvertLabelSelectorToProto (Some (anp_PodSelector x))\<rparr>) p"

definition convertAWSSubject :: "awsSubject \<Rightarrow> aws_subject" where
  "convertAWSSubject sub =
     \<lparr>asu_pods = (case asj_Pods sub of None \<Rightarrow> None | Some p \<Rightarrow> convertAWSNamespacedPod (Some p)),
      asu_namespaces = (case asj_Namespaces sub of None \<Rightarrow> None | Some n \<Rightarrow> ConvertLabelSelectorToProto (Some n))\<rparr>"

definition convertAWSPorts :: "awsPort list option \<Rightarrow> aws_policy_port list" where
  "convertAWSPorts ports =
     (case ports of
        None \<Rightarrow> []
      | Some ps \<Rightarrow> map (\<lambda>p. \<lparr>app_port_number = map_option (\<lambda>n. (awn_Protocol n, awn_Port n)) (awp_PortNumber p),
                             app_port_range = map_option (\<lambda>r. (awg_Protocol r, awg_Start r, awg_End r)) (awp_PortRange p),
                             app_named_port = awp_NamedPort p\<rparr>) ps)"

definition convertAWSIngressPeers :: "awsIngressPeer list \<Rightarrow> aws_ingress_peer list" where
  "convertAWSIngressPeers peers =
     map (\<lambda>p. \<lparr>aip_pods = convertAWSNamespacedPod (awi_Pods p), aip_namespaces = ConvertLabelSelectorToProto (awi_Namespaces p)\<rparr>) peers"

definition convertAWSEgressPeers :: "awsEgressPeer list \<Rightarrow> aws_egress_peer list" where
  "convertAWSEgressPeers peers =
     map (\<lambda>p. \<lparr>aep_pods = convertAWSNamespacedPod (awe_Pods p), aep_namespaces = ConvertLabelSelectorToProto (awe_Namespaces p),
               aep_networks = awe_Networks p, aep_domain_names = awe_DomainNames p\<rparr>) peers"

definition convertAWSIngressRules :: "awsIngressRule list \<Rightarrow> aws_ingress_rule list" where
  "convertAWSIngressRules rules =
     map (\<lambda>r. \<lparr>air_name = (if ari_Name r \<noteq> [] then Some (ari_Name r) else None), air_action = ari_Action r,
               air_ports = convertAWSPorts (ari_Ports r), air_from = convertAWSIngressPeers (ari_From r)\<rparr>) rules"

definition convertAWSEgressRules :: "awsEgressRule list \<Rightarrow> aws_egress_rule list" where
  "convertAWSEgressRules rules =
     map (\<lambda>r. \<lparr>aer_name = (if are_Name r \<noteq> [] then Some (are_Name r) else None), aer_action = are_Action r,
               aer_ports = convertAWSPorts (are_Ports r), aer_to = convertAWSEgressPeers (are_To r)\<rparr>) rules"

definition convertAWSClusterNetworkPolicy :: "awsClusterNetworkPolicySpec \<Rightarrow> aws_cluster_policy" where
  "convertAWSClusterNetworkPolicy spec =
     \<lparr>acp_priority = Some (acs_Priority spec), acp_tier = acs_Tier spec, acp_subject = Some (convertAWSSubject (acs_Subject spec)),
      acp_ingress = convertAWSIngressRules (acs_Ingress spec), acp_egress = convertAWSEgressRules (acs_Egress spec)\<rparr>"

section \<open>Application network policies\<close>

record awsANPEgressPeer =
  awx_PodSelector :: "label_selector option"
  awx_NamespaceSelector :: "label_selector option"
  awx_IPBlock :: "ip_block option"
  awx_DomainNames :: "string list"

record awsANPEgressRule =
  awy_Ports :: "np_port list"
  awy_To :: "awsANPEgressPeer list"

record awsApplicationNetworkPolicySpec =
  awz_PodSelector :: label_selector
  awz_PolicyTypes :: "string list"
  awz_Ingress :: "np_ingress_rule list"
  awz_Egress :: "awsANPEgressRule list"

text \<open>The values that are not known policy types are logged; every value is passed on.\<close>

definition convertAWSANPPolicyTypes :: "string list \<Rightarrow> string list \<times> string list" where
  "convertAWSANPPolicyTypes policyTypes =
     (filter (\<lambda>pt. pt \<noteq> ''Ingress'' \<and> pt \<noteq> ''Egress'') policyTypes, policyTypes)"

definition convertANPPorts :: "np_port list \<Rightarrow> aws_anp_port list" where
  "convertANPPorts ports =
     map (\<lambda>p. \<lparr>aap_protocol = npp_Protocol p,
               aap_port = (case npp_Port p of None \<Rightarrow> None | Some (IntVal i) \<Rightarrow> Some (NumberValue i) | Some (StrVal s) \<Rightarrow> Some (StringValue s)),
               aap_end_port = npp_EndPort p\<rparr>) ports"

definition convertAWSANPIngressPeers :: "np_peer list \<Rightarrow> aws_anp_ingress_peer list" where
  "convertAWSANPIngressPeers peers =
     map (\<lambda>p. \<lparr>aai_pod_selector = ConvertLabelSelectorToProto (npe_PodSelector p),
               aai_namespace_selector = ConvertLabelSelectorToProto (npe_NamespaceSelector p),
               aai_ip_block = ConvertIPBlockToProto (npe_IPBlock p)\<rparr>) peers"

definition convertAWSANPEgressPeers :: "awsANPEgressPeer list \<Rightarrow> aws_anp_egress_peer list" where
  "convertAWSANPEgressPeers peers =
     map (\<lambda>p. \<lparr>aae_pod_selector = ConvertLabelSelectorToProto (awx_PodSelector p),
               aae_namespace_selector = ConvertLabelSelectorToProto (awx_NamespaceSelector p),
               aae_ip_block = ConvertIPBlockToProto (awx_IPBlock p), aae_domain_names = awx_DomainNames p\<rparr>) peers"

definition convertAWSANPIngressRules :: "np_ingress_rule list \<Rightarrow> (aws_anp_ingress_peer list \<times> aws_anp_port list) list" where
  "convertAWSANPIngressRules rules = map (\<lambda>r. (convertAWSANPIngressPeers (nin_From r), convertANPPorts (nin_Ports r))) rules"

definition convertAWSANPEgressRules :: "awsANPEgressRule list \<Rightarrow> (aws_anp_egress_peer list \<times> aws_anp_port list) list" where
  "convertAWSANPEgressRules rules = map (\<lambda>r. (convertAWSANPEgressPeers (awy_To r), convertANPPorts (awy_Ports r))) rules"

definition convertAWSApplicationNetworkPolicy :: "awsApplicationNetworkPolicySpec \<Rightarrow> aws_application_policy" where
  "convertAWSApplicationNetworkPolicy spec =
     \<lparr>aan_pod_selector = ConvertLabelSelectorToProto (Some (awz_PodSelector spec)),
      aan_policy_types = snd (convertAWSANPPolicyTypes (awz_PolicyTypes spec)),
      aan_ingress = convertAWSANPIngressRules (awz_Ingress spec), aan_egress = convertAWSANPEgressRules (awz_Egress spec)\<rparr>"

section \<open>Reading a cluster network policy\<close>

definition dec_NamespacedPod :: "(json \<Rightarrow> label_selector result) \<Rightarrow> json_obj \<Rightarrow> awsNamespacedPod result" where
  "dec_NamespacedPod sel m =
     result_bind (dec_field empty_selector sel ''namespaceSelector'' m) (\<lambda>ns.
     result_bind (dec_field empty_selector sel ''podSelector'' m) (\<lambda>pod.
     Inr \<lparr>anp_NamespaceSelector = ns, anp_PodSelector = pod\<rparr>))"

definition dec_Subject :: "(json \<Rightarrow> label_selector result) \<Rightarrow> json_obj \<Rightarrow> awsSubject result" where
  "dec_Subject sel m =
     result_bind (dec_field None (dec_ptr sel) ''namespaces'' m) (\<lambda>ns.
     result_bind (dec_field None (dec_ptr (dec_struct (dec_NamespacedPod sel))) ''pods'' m) (\<lambda>pods.
     Inr \<lparr>asj_Namespaces = ns, asj_Pods = pods\<rparr>))"

definition dec_PortNumber :: "json_obj \<Rightarrow> awsPortNumber result" where
  "dec_PortNumber m =
     result_bind (dec_field [] dec_string ''protocol'' m) (\<lambda>proto.
     result_bind (dec_field 0 dec_int32 ''port'' m) (\<lambda>port.
     Inr \<lparr>awn_Protocol = proto, awn_Port = port\<rparr>))"

definition dec_PortRange :: "json_obj \<Rightarrow> awsPortRange result" where
  "dec_PortRange m =
     result_bind (dec_field [] dec_string ''protocol'' m) (\<lambda>proto.
     result_bind (dec_field 0 dec_int32 ''start'' m) (\<lambda>lo.
     result_bind (dec_field 0 dec_int32 ''end'' m) (\<lambda>hi.
     Inr \<lparr>awg_Protocol = proto, awg_Start = lo, awg_End = hi\<rparr>)))"

definition dec_Port :: "json_obj \<Rightarrow> awsPort result" where
  "dec_Port m =
     result_bind (dec_field None (dec_ptr (dec_struct dec_PortNumber)) ''portNumber'' m) (\<lambda>num.
     result_bind (dec_field None (dec_ptr (dec_struct dec_PortRange)) ''portRange'' m) (\<lambda>range.
     result_bind (dec_field None (dec_ptr dec_string) ''namedPort'' m) (\<lambda>name.
     Inr \<lparr>awp_PortNumber = num, awp_PortRange = range, awp_NamedPort = name\<rparr>)))"

definition dec_IngressPeer :: "(json \<Rightarrow> label_selector result) \<Rightarrow> json_obj \<Rightarrow> awsIngressPeer result" where
  "dec_IngressPeer sel m =
     result_bind (dec_field None (dec_ptr sel) ''namespaces'' m) (\<lambda>ns.
     result_bind (dec_field None (dec_ptr (dec_struct (dec_NamespacedPod sel))) ''pods'' m) (\<lambda>pods.
     Inr \<lparr>awi_Namespaces = ns, awi_Pods = pods\<rparr>))"

definition dec_EgressPeer :: "(json \<Rightarrow> label_selector result) \<Rightarrow> json_obj \<Rightarrow> awsEgressPeer result" where
  "dec_EgressPeer sel m =
     result_bind (dec_field None (dec_ptr sel) ''namespaces'' m) (\<lambda>ns.
     result_bind (dec_field None (dec_ptr (dec_struct (dec_NamespacedPod sel))) ''pods'' m) (\<lambda>pods.
     result_bind (dec_field [] (dec_list dec_string) ''networks'' m) (\<lambda>networks.
     result_bind (dec_field [] (dec_list dec_string) ''domainNames'' m) (\<lambda>domains.
     Inr \<lparr>awe_Namespaces = ns, awe_Pods = pods, awe_Networks = networks, awe_DomainNames = domains\<rparr>))))"

definition dec_IngressRule :: "(json \<Rightarrow> label_selector result) \<Rightarrow> json_obj \<Rightarrow> awsIngressRule result" where
  "dec_IngressRule sel m =
     result_bind (dec_field [] dec_string ''name'' m) (\<lambda>name.
     result_bind (dec_field [] dec_string ''action'' m) (\<lambda>action.
     result_bind (dec_field [] (dec_list (dec_struct (dec_IngressPeer sel))) ''from'' m) (\<lambda>peers.
     result_bind (dec_field None (dec_ptr (dec_list (dec_struct dec_Port))) ''ports'' m) (\<lambda>ports.
     Inr \<lparr>ari_Name = name, ari_Action = action, ari_From = peers, ari_Ports = ports\<rparr>))))"

definition dec_EgressRule :: "(json \<Rightarrow> label_selector result) \<Rightarrow> json_obj \<Rightarrow> awsEgressRule result" where
  "dec_EgressRule sel m =
     result_bind (dec_field [] dec_string ''name'' m) (\<lambda>name.
     result_bind (dec_field [] dec_string ''action'' m) (\<lambda>action.
     result_bind (dec_field [] (dec_list (dec_struct (dec_EgressPeer sel))) ''to'' m) (\<lambda>peers.
     result_bind (dec_field None (dec_ptr (dec_list (dec_struct dec_Port))) ''ports'' m) (\<lambda>ports.
     Inr \<lparr>are_Name = name, are_Action = action, are_To = peers, are_Ports = ports\<rparr>))))"

definition dec_ClusterNetworkPolicySpec :: "(json \<Rightarrow> label_selector result) \<Rightarrow> json_obj \<Rightarrow> awsClusterNetworkPolicySpec result" where
  "dec_ClusterNetworkPolicySpec sel m =
     result_bind (dec_field 0 dec_int32 ''priority'' m) (\<lambda>priority.
     result_bind (dec_field [] dec_string ''tier'' m) (\<lambda>tier.
     result_bind (dec_field \<lparr>asj_Namespaces = None, asj_Pods = None\<rparr> (dec_struct (dec_Subject sel)) ''subject'' m) (\<lambda>subject.
     result_bind (dec_field [] (dec_list (dec_struct (dec_IngressRule sel))) ''ingress'' m) (\<lambda>ingress.
     result_bind (dec_field [] (dec_list (dec_struct (dec_EgressRule sel))) ''egress'' m) (\<lambda>egress.
     Inr \<lparr>acs_Priority = priority, acs_Tier = tier, acs_Subject = subject, acs_Ingress = ingress, acs_Egress = egress\<rparr>)))))"

text \<open>The top-level struct has the spec as its only field.\<close>

definition dec_ClusterNetworkPolicy :: "(json \<Rightarrow> label_selector result) \<Rightarrow> json_obj \<Rightarrow> awsClusterNetworkPolicySpec result" where
  "dec_ClusterNetworkPolicy sel m =
     (case gm_get m ''spec'' of
        None \<Rightarrow> dec_ClusterNetworkPolicySpec sel []
      | Some j \<Rightarrow> dec_struct (dec_ClusterNetworkPolicySpec sel) j)"

section \<open>The converter\<close>

record aws_lib =
  al_MarshalJSON :: "unstructured \<Rightarrow> json_obj result"
  al_LabelSelector :: "json \<Rightarrow> label_selector result"
  al_ApplicationNetworkPolicy :: "json_obj \<Rightarrow> awsApplicationNetworkPolicySpec result"

definition ConvertUnstructuredToAWSResource :: "aws_lib \<Rightarrow> unstructured option \<Rightarrow> object_data result" where
  "ConvertUnstructuredToAWSResource lib obj =
     (case obj of
        None \<Rightarrow> Inl (ErrMsg ''cannot convert nil object'')
      | Some u \<Rightarrow>
          if un_group u \<noteq> awsVPCCNIAPIGroup then Inl (ErrMsg ''unsupported AWS API group'')
          else let md = crd_metadata u in
            case al_MarshalJSON lib u of
              Inl e \<Rightarrow> Inl (WrapErr (''marshaling '' @ un_kind u @ '' to JSON'') e)
            | Inr json \<Rightarrow>
                if un_kind u = ''ClusterNetworkPolicy'' then
                  (case dec_ClusterNetworkPolicy (al_LabelSelector lib) json of
                     Inl e \<Rightarrow> Inl (WrapErr (''deserializing '' @ un_kind u) e)
                   | Inr cnp \<Rightarrow> Inr (md\<lparr>od_kind_specific := Some (KsAwsClusterNetworkPolicy (convertAWSClusterNetworkPolicy cnp))\<rparr>))
                else if un_kind u = ''ApplicationNetworkPolicy'' then
                  (case al_ApplicationNetworkPolicy lib json of
                     Inl e \<Rightarrow> Inl (WrapErr (''deserializing '' @ un_kind u) e)
                   | Inr anp \<Rightarrow> Inr ((set_namespace (un_namespace u) md)
                       \<lparr>od_kind_specific := Some (KsAwsApplicationNetworkPolicy (convertAWSApplicationNetworkPolicy anp))\<rparr>))
                else Inl (ErrMsg (''unsupported AWS resource kind: '' @ un_kind u)))"

definition NewAWSResourceConverter :: "aws_lib \<Rightarrow> unstructured \<Rightarrow> object_data result" where
  "NewAWSResourceConverter lib obj = ConvertUnstructuredToAWSResource lib (Some obj)"

end
