(* ===== verification/Convert_Cilium.thy ===== *)
theory Convert_Cilium
  imports Json_Decode Go_Strings
begin

text \<open>
  \<open>internal/convert/cilium/cilium.go\<close>: Cilium network policies, clusterwide policies and CIDR groups.
  The rule types are Cilium's; the records hold the fields the code reads. An \<open>EndpointSelector\<close> is its
  label selector, which may be nil. \<open>fromEndpoints\<close> and \<open>toEndpoints\<close> are optional lists, because Cilium
  gives nil and empty different meanings. Decoding a rule is Cilium's code, a field of \<open>cilium_decoder\<close>;
  the local structs around it (\<open>cilium_types.go\<close>) are decoded here.
\<close>

section \<open>Cilium's rule types\<close>

type_synonym endpoint_selector = "label_selector option"

record cil_port =
  cpt_Port :: string
  cpt_EndPort :: int
  cpt_Protocol :: string

record cil_cidr_rule =
  ccr_Cidr :: string
  ccr_CIDRGroupRef :: string
  ccr_CIDRGroupSelector :: endpoint_selector
  ccr_ExceptCIDRs :: "string list"

record cil_icmp_field =
  cic_Family :: string
  cic_Type :: "int_or_string option"

record cil_fqdn =
  cfd_MatchName :: string
  cfd_MatchPattern :: string

record cil_service_selector =
  csl_Selector :: endpoint_selector
  csl_Namespace :: string

record cil_k8s_service =
  csn_ServiceName :: string
  csn_Namespace :: string

record cil_service =
  csv_K8sServiceSelector :: "cil_service_selector option"
  csv_K8sService :: "cil_k8s_service option"

record cil_aws_group =
  caw_Labels :: strmap
  caw_SecurityGroupsIds :: "string list"
  caw_SecurityGroupsNames :: "string list"

text \<open>A group of another cloud provider is \<open>None\<close>.\<close>

type_synonym cil_group = "cil_aws_group option"

record cil_ingress_common =
  cco_FromEndpoints :: "endpoint_selector list option"
  cco_FromCIDR :: "string list"
  cco_FromCIDRSet :: "cil_cidr_rule list"
  cco_FromEntities :: "string list"
  cco_FromGroups :: "cil_group list"
  cco_FromNodes :: "endpoint_selector list"

record cil_egress_common =
  ceo_ToEndpoints :: "endpoint_selector list option"
  ceo_ToCIDR :: "string list"
  ceo_ToCIDRSet :: "cil_cidr_rule list"
  ceo_ToEntities :: "string list"
  ceo_ToServices :: "cil_service list"
  ceo_ToGroups :: "cil_group list"
  ceo_ToNodes :: "endpoint_selector list"

text \<open>Port rules are the lists of their ports, ICMP rules the lists of their fields.\<close>

record cil_ingress_rule =
  cin_common :: cil_ingress_common
  cin_ToPorts :: "cil_port list list"
  cin_ICMPs :: "cil_icmp_field list list"
  cin_Authentication :: "string option"

record cil_ingress_deny_rule =
  cid_common :: cil_ingress_common
  cid_ToPorts :: "cil_port list list"
  cid_ICMPs :: "cil_icmp_field list list"

record cil_egress_rule =
  ceg_common :: cil_egress_common
  ceg_ToPorts :: "cil_port list list"
  ceg_ToFQDNs :: "cil_fqdn list"
  ceg_ICMPs :: "cil_icmp_field list list"
  ceg_Authentication :: "string option"

record cil_egress_deny_rule =
  ced_common :: cil_egress_common
  ced_ToPorts :: "cil_port list list"
  ced_ICMPs :: "cil_icmp_field list list"

record cil_rule =
  crl_EndpointSelector :: endpoint_selector
  crl_NodeSelector :: endpoint_selector
  crl_Ingress :: "cil_ingress_rule list"
  crl_IngressDeny :: "cil_ingress_deny_rule list"
  crl_Egress :: "cil_egress_rule list"
  crl_EgressDeny :: "cil_egress_deny_rule list"
  crl_Labels :: "(string \<times> string) list"
  crl_EnableDefaultDeny :: "bool option \<times> bool option"
  crl_Description :: string

section \<open>Selectors, ports and peers\<close>

definition convertSlimLabelSelector :: "label_selector option \<Rightarrow> pb_label_selector option" where
  "convertSlimLabelSelector sel =
     map_option (\<lambda>s. \<lparr>ls_match_labels = sel_MatchLabels s,
       ls_match_expressions = map (\<lambda>expr. \<lparr>lsr_key = sr_Key expr, lsr_operator = sr_Operator expr, lsr_values = sr_Values expr\<rparr>)
         (sel_MatchExpressions s)\<rparr>) sel"

definition convertEndpointSelector :: "endpoint_selector \<Rightarrow> pb_label_selector option" where
  "convertEndpointSelector sel = convertSlimLabelSelector sel"

definition convertEndpointSelectors :: "endpoint_selector list \<Rightarrow> pb_label_selector option list" where
  "convertEndpointSelectors sels = map convertEndpointSelector sels"

definition convertPortProtocols :: "cil_port list \<Rightarrow> cilium_policy_port list" where
  "convertPortProtocols ports =
     map (\<lambda>p. \<lparr>cpp_port = cpt_Port p, cpp_end_port = (if cpt_EndPort p \<noteq> 0 then Some (cpt_EndPort p) else None),
               cpp_protocol = (if cpt_Protocol p \<noteq> [] then Some (cpt_Protocol p) else None)\<rparr>) ports"

definition convertPortRules :: "cil_port list list \<Rightarrow> cilium_policy_port list list" where
  "convertPortRules rules = map convertPortProtocols rules"

definition convertPortDenyRules :: "cil_port list list \<Rightarrow> cilium_policy_port list list" where
  "convertPortDenyRules rules = map convertPortProtocols rules"

definition cidrSliceToStrings :: "string list \<Rightarrow> string list" where
  "cidrSliceToStrings cidrs = map (\<lambda>c. c) cidrs"

definition entitySliceToStrings :: "string list \<Rightarrow> string list" where
  "entitySliceToStrings entities = map (\<lambda>e. e) entities"

definition convertCIDRRules :: "cil_cidr_rule list \<Rightarrow> cilium_policy_cidr_set list" where
  "convertCIDRRules rules =
     map (\<lambda>rule. \<lparr>ccs_cidr = (if ccr_Cidr rule \<noteq> [] then Some (ccr_Cidr rule) else None),
                  ccs_cidr_group_ref = (if ccr_CIDRGroupRef rule \<noteq> [] then Some (ccr_CIDRGroupRef rule) else None),
                  ccs_cidr_group_selector = (if ccr_CIDRGroupSelector rule \<noteq> None then convertEndpointSelector (ccr_CIDRGroupSelector rule) else None),
                  ccs_except = (if ccr_ExceptCIDRs rule \<noteq> [] then cidrSliceToStrings (ccr_ExceptCIDRs rule) else [])\<rparr>) rules"

definition convertICMPType :: "int_or_string \<Rightarrow> icmp_type option" where
  "convertICMPType t =
     (case t of
        IntVal v \<Rightarrow> if v \<ge> 0 \<and> v \<le> 255 then Some (TypeInt (uint32 v)) else None
      | StrVal s \<Rightarrow>
          if (case ParseUint 32 s of Some intVal \<Rightarrow> intVal \<le> 255 | None \<Rightarrow> False)
          then Some (TypeInt (word_of_nat (the (ParseUint 32 s))))
          else if ParseInt64 s \<noteq> None then None
          else Some (TypeString s))"

definition convertICMPFields :: "cil_icmp_field list \<Rightarrow> cilium_policy_icmp_field list" where
  "convertICMPFields fs =
     map (\<lambda>f. \<lparr>cif_family = (if cic_Family f \<noteq> [] then Some (cic_Family f) else None),
               cif_type = (case cic_Type f of None \<Rightarrow> None | Some t \<Rightarrow> convertICMPType t)\<rparr>) fs"

definition convertICMPRules :: "cil_icmp_field list list \<Rightarrow> cilium_policy_icmp_field list list" where
  "convertICMPRules rules = map convertICMPFields rules"

definition convertFQDNSelectors :: "cil_fqdn list \<Rightarrow> cilium_policy_fqdn_selector list" where
  "convertFQDNSelectors fqdns =
     map (\<lambda>f. \<lparr>cfq_match_name = (if cfd_MatchName f \<noteq> [] then Some (cfd_MatchName f) else None),
               cfq_match_pattern = (if cfd_MatchPattern f \<noteq> [] then Some (cfd_MatchPattern f) else None)\<rparr>) fqdns"

definition convertServices :: "cil_service list \<Rightarrow> cilium_policy_service list" where
  "convertServices services =
     map (\<lambda>svc. \<lparr>cps_k8s_service_selector =
                   map_option (\<lambda>s. \<lparr>css_selector = convertSlimLabelSelector (csl_Selector s),
                                    css_namespace = (if csl_Namespace s \<noteq> [] then Some (csl_Namespace s) else None)\<rparr>) (csv_K8sServiceSelector svc),
                 cps_k8s_service =
                   map_option (\<lambda>s. \<lparr>cks_service_name = (if csn_ServiceName s \<noteq> [] then Some (csn_ServiceName s) else None),
                                    cks_namespace = (if csn_Namespace s \<noteq> [] then Some (csn_Namespace s) else None)\<rparr>) (csv_K8sService svc)\<rparr>) services"

definition convertGroups :: "cil_group list \<Rightarrow> cilium_policy_aws_group list" where
  "convertGroups groups =
     List.map_filter (\<lambda>g. map_option (\<lambda>aws. \<lparr>cag_labels = caw_Labels aws, cag_security_group_ids = caw_SecurityGroupsIds aws,
       cag_security_group_names = caw_SecurityGroupsNames aws, cag_region = None\<rparr>) g) groups"

definition convertAuthentication :: "string option \<Rightarrow> string option" where
  "convertAuthentication auth = auth"

definition convertDefaultDeny :: "bool option \<times> bool option \<Rightarrow> cilium_policy_default_deny option" where
  "convertDefaultDeny config =
     (if fst config = None \<and> snd config = None then None else Some \<lparr>cdd_ingress = fst config, cdd_egress = snd config\<rparr>)"

definition convertLabelArray :: "(string \<times> string) list \<Rightarrow> strmap" where
  "convertLabelArray arr = fold (\<lambda>(k, v) m. if k \<noteq> [] then fmupd k v m else m) arr fmempty"

section \<open>Rules\<close>

definition convertIngressCommonFields :: "cil_ingress_common \<Rightarrow> cilium_ingress_rule" where
  "convertIngressCommonFields common =
     \<lparr>cir_from_endpoints = (case cco_FromEndpoints common of None \<Rightarrow> None | Some sels \<Rightarrow> if sels \<noteq> [] then Some (convertEndpointSelectors sels) else None),
      cir_from_cidr = (if cco_FromCIDR common \<noteq> [] then cidrSliceToStrings (cco_FromCIDR common) else []),
      cir_from_cidr_set = (if cco_FromCIDRSet common \<noteq> [] then convertCIDRRules (cco_FromCIDRSet common) else []),
      cir_from_entities = (if cco_FromEntities common \<noteq> [] then entitySliceToStrings (cco_FromEntities common) else []),
      cir_from_groups = (if cco_FromGroups common \<noteq> [] then convertGroups (cco_FromGroups common) else []),
      cir_from_nodes = (if cco_FromNodes common \<noteq> [] then convertEndpointSelectors (cco_FromNodes common) else []),
      cir_to_ports = [], cir_icmps = [], cir_authentication = None\<rparr>"

definition convertIngressRules :: "cil_ingress_rule list \<Rightarrow> cilium_ingress_rule list" where
  "convertIngressRules rules =
     map (\<lambda>rule. (convertIngressCommonFields (cin_common rule))
            \<lparr>cir_to_ports := convertPortRules (cin_ToPorts rule), cir_icmps := convertICMPRules (cin_ICMPs rule),
             cir_authentication := convertAuthentication (cin_Authentication rule)\<rparr>) rules"

definition convertIngressDenyRules :: "cil_ingress_deny_rule list \<Rightarrow> cilium_ingress_rule list" where
  "convertIngressDenyRules rules =
     map (\<lambda>rule. (convertIngressCommonFields (cid_common rule))
            \<lparr>cir_to_ports := convertPortDenyRules (cid_ToPorts rule), cir_icmps := convertICMPRules (cid_ICMPs rule)\<rparr>) rules"

definition convertEgressCommonFields :: "cil_egress_common \<Rightarrow> cilium_egress_rule" where
  "convertEgressCommonFields common =
     \<lparr>cer_to_endpoints = (case ceo_ToEndpoints common of None \<Rightarrow> None | Some sels \<Rightarrow> if sels \<noteq> [] then Some (convertEndpointSelectors sels) else None),
      cer_to_cidr = (if ceo_ToCIDR common \<noteq> [] then cidrSliceToStrings (ceo_ToCIDR common) else []),
      cer_to_cidr_set = (if ceo_ToCIDRSet common \<noteq> [] then convertCIDRRules (ceo_ToCIDRSet common) else []),
      cer_to_entities = (if ceo_ToEntities common \<noteq> [] then entitySliceToStrings (ceo_ToEntities common) else []),
      cer_to_fqdns = [],
      cer_to_services = (if ceo_ToServices common \<noteq> [] then convertServices (ceo_ToServices common) else []),
      cer_to_groups = (if ceo_ToGroups common \<noteq> [] then convertGroups (ceo_ToGroups common) else []),
      cer_to_nodes = (if ceo_ToNodes common \<noteq> [] then convertEndpointSelectors (ceo_ToNodes common) else []),
      cer_to_ports = [], cer_icmps = [], cer_authentication = None\<rparr>"

definition convertEgressRules :: "cil_egress_rule list \<Rightarrow> cilium_egress_rule list" where
  "convertEgressRules rules =
     map (\<lambda>rule. (convertEgressCommonFields (ceg_common rule))
            \<lparr>cer_to_ports := convertPortRules (ceg_ToPorts rule), cer_to_fqdns := convertFQDNSelectors (ceg_ToFQDNs rule),
             cer_icmps := convertICMPRules (ceg_ICMPs rule), cer_authentication := convertAuthentication (ceg_Authentication rule)\<rparr>) rules"

definition convertEgressDenyRules :: "cil_egress_deny_rule list \<Rightarrow> cilium_egress_rule list" where
  "convertEgressDenyRules rules =
     map (\<lambda>rule. (convertEgressCommonFields (ced_common rule))
            \<lparr>cer_to_ports := convertPortDenyRules (ced_ToPorts rule), cer_icmps := convertICMPRules (ced_ICMPs rule)\<rparr>) rules"

definition convertCiliumPolicyRule :: "cil_rule \<Rightarrow> cilium_policy_rule" where
  "convertCiliumPolicyRule rule =
     \<lparr>cpr_endpoint_selector = convertEndpointSelector (crl_EndpointSelector rule),
      cpr_node_selector = convertEndpointSelector (crl_NodeSelector rule),
      cpr_description = (if crl_Description rule \<noteq> [] then Some (crl_Description rule) else None),
      cpr_labels = convertLabelArray (crl_Labels rule),
      cpr_enable_default_deny = convertDefaultDeny (crl_EnableDefaultDeny rule),
      cpr_ingress = (if crl_Ingress rule \<noteq> [] then convertIngressRules (crl_Ingress rule) else []),
      cpr_egress = (if crl_Egress rule \<noteq> [] then convertEgressRules (crl_Egress rule) else []),
      cpr_ingress_deny = (if crl_IngressDeny rule \<noteq> [] then convertIngressDenyRules (crl_IngressDeny rule) else []),
      cpr_egress_deny = (if crl_EgressDeny rule \<noteq> [] then convertEgressDenyRules (crl_EgressDeny rule) else [])\<rparr>"

definition convertCiliumSpecs :: "cil_rule option \<Rightarrow> cil_rule option list \<Rightarrow> cilium_policy_rule list" where
  "convertCiliumSpecs spec specs =
     (case spec of Some s \<Rightarrow> [convertCiliumPolicyRule s] | None \<Rightarrow> []) @ List.map_filter (map_option convertCiliumPolicyRule) specs"

section \<open>The converter\<close>

record cilium_decoder =
  cy_MarshalJSON :: "unstructured \<Rightarrow> json_obj result"
  cy_Rule :: "json \<Rightarrow> cil_rule result"

text \<open>The structs \<open>ciliumNetworkPolicy\<close> and \<open>ciliumClusterwideNetworkPolicy\<close>, and \<open>ciliumCIDRGroup\<close>.\<close>

definition dec_ciliumNetworkPolicy :: "(json \<Rightarrow> cil_rule result) \<Rightarrow> json_obj \<Rightarrow> (cil_rule option \<times> cil_rule option list) result" where
  "dec_ciliumNetworkPolicy rule m =
     result_bind (dec_field None (dec_ptr rule) ''spec'' m) (\<lambda>spec.
     result_bind (dec_field [] (dec_list (dec_ptr rule)) ''specs'' m) (\<lambda>specs.
     Inr (spec, specs)))"

definition dec_ciliumCIDRGroupSpec :: "json_obj \<Rightarrow> string list result" where
  "dec_ciliumCIDRGroupSpec m = dec_field [] (dec_list dec_string) ''externalCIDRs'' m"

definition dec_ciliumCIDRGroup :: "json_obj \<Rightarrow> string list result" where
  "dec_ciliumCIDRGroup m = dec_field [] (dec_struct dec_ciliumCIDRGroupSpec) ''spec'' m"

definition convertCiliumCIDRGroupData :: "string list \<Rightarrow> string list option" where
  "convertCiliumCIDRGroupData externalCIDRs = Some externalCIDRs"

definition ConvertUnstructuredToCiliumResource :: "cilium_decoder \<Rightarrow> unstructured option \<Rightarrow> object_data result" where
  "ConvertUnstructuredToCiliumResource dec obj =
     (case obj of
        None \<Rightarrow> Inl (ErrMsg ''cannot convert nil object'')
      | Some u \<Rightarrow>
          if un_group u \<noteq> ciliumAPIGroup then Inl (ErrMsg ''unsupported Cilium API group'')
          else let md = set_namespace (un_namespace u) (crd_metadata u) in
            case cy_MarshalJSON dec u of
              Inl e \<Rightarrow> Inl (WrapErr (''marshaling '' @ un_kind u @ '' to JSON'') e)
            | Inr json \<Rightarrow>
                if un_kind u = ''CiliumNetworkPolicy'' then
                  (case dec_ciliumNetworkPolicy (cy_Rule dec) json of
                     Inl e \<Rightarrow> Inl (WrapErr (''deserializing '' @ un_kind u) e)
                   | Inr (spec, specs) \<Rightarrow> Inr (md\<lparr>od_kind_specific := Some (KsCiliumNetworkPolicy (convertCiliumSpecs spec specs))\<rparr>))
                else if un_kind u = ''CiliumClusterwideNetworkPolicy'' then
                  (case dec_ciliumNetworkPolicy (cy_Rule dec) json of
                     Inl e \<Rightarrow> Inl (WrapErr (''deserializing '' @ un_kind u) e)
                   | Inr (spec, specs) \<Rightarrow> Inr (md\<lparr>od_kind_specific := Some (KsCiliumClusterwideNetworkPolicy (convertCiliumSpecs spec specs))\<rparr>))
                else if un_kind u = ''CiliumCIDRGroup'' then
                  (case dec_ciliumCIDRGroup json of
                     Inl e \<Rightarrow> Inl (WrapErr (''deserializing '' @ un_kind u) e)
                   | Inr ccg \<Rightarrow> Inr (md\<lparr>od_kind_specific := Some (KsCiliumCidrGroup (convertCiliumCIDRGroupData ccg))\<rparr>))
                else Inl (ErrMsg (''unsupported Cilium resource kind: '' @ un_kind u)))"

section \<open>ICMP types\<close>

lemma ParseUint_ParseInt:
  assumes "ParseUint 32 s = Some n"
  shows "ParseInt64 s = Some (int n)"
proof -
  have s: "s \<noteq> []" "list_all is_digit s" "digits_val s = n" "n < 2 ^ 32"
    using assms by (auto simp: ParseUint_def split: if_splits)
  then obtain c r where "s = c # r" "is_digit c" by (cases s) auto
  then show ?thesis using s by (auto simp: ParseInt64_def Let_def is_digit_def)
qed

text \<open>
  An ICMP type is sent as a number exactly when it is one from 0 to 255, whether the
  policy writes it as an integer or as a decimal string; any other number, negative, too large or with a
  sign, is dropped; a string that is no number is sent as a name. No number above 255 is ever sent.
\<close>

theorem icmp_type_conversion:
  "convertICMPType t =
     (case (case t of IntVal v \<Rightarrow> Some v | StrVal s \<Rightarrow> ParseInt64 s) of
        Some v \<Rightarrow> if 0 \<le> v \<and> v \<le> 255 \<and> (case t of StrVal s \<Rightarrow> list_all is_digit s | IntVal _ \<Rightarrow> True)
                 then Some (TypeInt (word_of_int v)) else None
      | None \<Rightarrow> (case t of StrVal s \<Rightarrow> Some (TypeString s) | IntVal _ \<Rightarrow> None))"
proof (cases t)
  case (IntVal v)
  then show ?thesis by (simp add: convertICMPType_def uint32_def)
next
  case (StrVal s)
  show ?thesis
  proof (cases "ParseUint 32 s")
    case (Some n)
    then show ?thesis using ParseUint_ParseInt [OF Some] StrVal
      by (auto simp: convertICMPType_def ParseUint_def split: if_splits)
  next
    case None
    have "\<not> (0 \<le> v \<and> v \<le> 255 \<and> list_all is_digit s)" if "ParseInt64 s = Some v" for v
    proof
      assume v: "0 \<le> v \<and> v \<le> 255 \<and> list_all is_digit s"
      have ne: "s \<noteq> []" using that by (auto simp: ParseInt64_def)
      with v have "s = hd s # tl s" "is_digit (hd s)" by (cases s; simp)+
      with v that ne have "int (digits_val s) = v"
        by (cases s) (auto simp: ParseInt64_def Let_def is_digit_def split: if_splits)
      with v ne None show False by (auto simp: ParseUint_def split: if_splits)
    qed
    then show ?thesis using StrVal None by (auto simp: convertICMPType_def split: option.splits)
  qed
qed

end
