(* ===== verification/Logging.thy ===== *)
theory Logging
  imports Prelude "HOL-Library.Multiset"
begin

text \<open>
  \<open>internal/controller/logging/grpc_logger.go\<close> and \<open>internal/controller/stream/logs\<close>: the buffered log
  writer behind the operator's logger. What lies outside is explicit in \<open>log_world\<close>: the successive
  answers of \<open>conn.GetState\<close> (ready or not), the successive results of \<open>stream.Send\<close>, and the requests
  the stream accepted. zap's encoder is the argument \<open>enc\<close>.
  A request that reports lost entries is tagged with the count it reports, so that the accounting
  can be stated; on the wire both are log entries.
\<close>

section \<open>State\<close>

datatype log_request = LogEntry string | LostNotice nat string | LogKeepalive

record log_world =
  lw_ready :: "bool list"
  lw_results :: "go_error option list"
  lw_sent :: "log_request list"
  lw_closed :: "nat list"
  lw_panic :: bool

text \<open>zap's levels, less the two panicking ones, which the operator does not use.\<close>

datatype zap_level = DebugLevel | InfoLevel | WarnLevel | ErrorLevel | FatalLevel

datatype pb_log_level = LOG_LEVEL_UNSPECIFIED | LOG_LEVEL_DEBUG | LOG_LEVEL_INFO | LOG_LEVEL_WARN | LOG_LEVEL_ERROR
  | LOG_LEVEL_OTHER int

text \<open>Streams, connections and \<open>done\<close> channels are named by numbers; \<open>bw_running\<close> is the \<open>run\<close> goroutine.\<close>

record buffered_syncer =
  bw_client :: "nat option"
  bw_conn :: "nat option"
  bw_buffer :: "string list"
  bw_done :: nat
  bw_level :: zap_level
  bw_lost :: nat
  bw_lostErr :: "go_error option"
  bw_running :: bool

definition logMaxBufferSize :: nat where
  "logMaxBufferSize = 2048"

definition NewBufferedGrpcWriteSyncer :: "nat \<Rightarrow> buffered_syncer" where
  "NewBufferedGrpcWriteSyncer d =
     \<lparr>bw_client = None, bw_conn = None, bw_buffer = [], bw_done = d, bw_level = InfoLevel, bw_lost = 0,
      bw_lostErr = None, bw_running = True\<rparr>"

type_synonym log_sys = "buffered_syncer \<times> log_world"

text \<open>What the encoder makes of the lost-entries record, and of an ordinary record.\<close>

record log_encoder =
  enc_lost :: "nat \<Rightarrow> go_error option \<Rightarrow> string result"
  enc_entry :: "zap_level \<Rightarrow> string \<Rightarrow> string result"

section \<open>The connection and the stream\<close>

definition get_state_ready :: "log_world \<Rightarrow> bool \<times> log_world" where
  "get_state_ready w = (case lw_ready w of [] \<Rightarrow> (False, w) | r # rs \<Rightarrow> (r, w\<lparr>lw_ready := rs\<rparr>))"

definition stream_send :: "log_request \<Rightarrow> log_world \<Rightarrow> go_error option \<times> log_world" where
  "stream_send req w =
     (case lw_results w of
        [] \<Rightarrow> (Some IoEOF, w)
      | Some e # rs \<Rightarrow> (Some e, w\<lparr>lw_results := rs\<rparr>)
      | None # rs \<Rightarrow> (None, w\<lparr>lw_results := rs, lw_sent := lw_sent w @ [req]\<rparr>))"

text \<open>\<open>conn != nil && conn.GetState() == Ready\<close>: the state is asked only of a connection that is there.\<close>

definition conn_ready :: "buffered_syncer \<Rightarrow> log_world \<Rightarrow> bool \<times> log_world" where
  "conn_ready b w = (if bw_conn b = None then (False, w) else get_state_ready w)"

text \<open>\<open>b.client.Send\<close>: a call on a nil client panics.\<close>

definition sendLogEntry :: "buffered_syncer \<Rightarrow> log_request \<Rightarrow> log_world \<Rightarrow> go_error option \<times> log_world" where
  "sendLogEntry b req w =
     (if bw_client b = None then (Some (ErrMsg ''nil client''), w\<lparr>lw_panic := True\<rparr>) else stream_send req w)"

section \<open>Flush and write\<close>

text \<open>The send loop of flush: the error that stopped it, if any, and the number of messages sent.\<close>

fun flush_loop :: "buffered_syncer \<Rightarrow> string list \<Rightarrow> log_world \<Rightarrow> (go_error option \<times> nat) \<times> log_world" where
  "flush_loop b [] w = ((None, 0), w)"
| "flush_loop b (m # ms) w =
     (case sendLogEntry b (LogEntry m) w of
        (Some e, w1) \<Rightarrow> ((Some e, 0), w1)
      | (None, w1) \<Rightarrow> (case flush_loop b ms w1 of ((r, n), w2) \<Rightarrow> ((r, Suc n), w2)))"

definition flush_buffer :: "log_sys \<Rightarrow> log_sys" where
  "flush_buffer s =
     (case s of (b, w) \<Rightarrow> case flush_loop b (bw_buffer b) w of ((r, sent), w1) \<Rightarrow>
        let b1 = (case r of Some e \<Rightarrow> b\<lparr>bw_lostErr := Some e\<rparr> | None \<Rightarrow> b)
        in (if sent > 0 then b1\<lparr>bw_buffer := drop sent (bw_buffer b1)\<rparr> else b1, w1))"

definition flush :: "log_encoder \<Rightarrow> log_sys \<Rightarrow> log_sys" where
  "flush enc s =
     (case s of (b, w) \<Rightarrow>
        if bw_buffer b = [] then (b, w)
        else case conn_ready b w of (ready, w1) \<Rightarrow>
          if \<not> ready then (b, w1)
          else if bw_lost b > 0 then
            (case enc_lost enc (bw_lost b) (bw_lostErr b) of
               Inl _ \<Rightarrow> flush_buffer (b, w1)
             | Inr msg \<Rightarrow>
                 (case sendLogEntry b (LostNotice (bw_lost b) msg) w1 of
                    (Some e, w2) \<Rightarrow> (b\<lparr>bw_lostErr := Some e\<rparr>, w2)
                  | (None, w2) \<Rightarrow> flush_buffer (b\<lparr>bw_lost := 0, bw_lostErr := None\<rparr>, w2)))
          else flush_buffer (b, w1))"

definition buffer_message :: "string \<Rightarrow> buffered_syncer \<Rightarrow> buffered_syncer" where
  "buffer_message msg b =
     (if length (bw_buffer b) < logMaxBufferSize then b\<lparr>bw_buffer := bw_buffer b @ [msg]\<rparr>
      else b\<lparr>bw_lost := bw_lost b + 1\<rparr>)"

definition Syncer_write :: "log_encoder \<Rightarrow> string \<Rightarrow> log_sys \<Rightarrow> log_sys" where
  "Syncer_write enc msg s =
     (case s of (b, w) \<Rightarrow> case conn_ready b w of (ready, w1) \<Rightarrow>
        if \<not> ready then (buffer_message msg b, w1)
        else case flush enc (b, w1) of (b2, w2) \<Rightarrow>
          (case sendLogEntry b2 (LogEntry msg) w2 of
             (Some _, w3) \<Rightarrow> (buffer_message msg b2, w3)
           | (None, w3) \<Rightarrow> (b2, w3)))"

section \<open>The other operations\<close>

definition UpdateClient :: "log_encoder \<Rightarrow> nat \<Rightarrow> nat \<Rightarrow> log_sys \<Rightarrow> log_sys" where
  "UpdateClient enc client conn s =
     (case s of (b, w) \<Rightarrow> flush enc (b\<lparr>bw_client := Some client, bw_conn := Some conn\<rparr>, w))"

text \<open>\<open>zapCoreWrapper.Check\<close> and \<open>Write\<close>: an enabled entry is encoded and handed to the syncer.\<close>

fun level_rank :: "zap_level \<Rightarrow> nat" where
  "level_rank DebugLevel = 0" | "level_rank InfoLevel = 1" | "level_rank WarnLevel = 2" | "level_rank ErrorLevel = 3"
| "level_rank FatalLevel = 4"

definition log_at :: "log_encoder \<Rightarrow> zap_level \<Rightarrow> string \<Rightarrow> log_sys \<Rightarrow> log_sys" where
  "log_at enc lvl msg s =
     (if level_rank (bw_level (fst s)) \<le> level_rank lvl
      then (case enc_entry enc lvl msg of Inl _ \<Rightarrow> s | Inr json \<Rightarrow> Syncer_write enc json s)
      else s)"

definition set_level :: "zap_level \<Rightarrow> log_sys \<Rightarrow> log_sys" where
  "set_level lvl s = ((fst s)\<lparr>bw_level := lvl\<rparr>, snd s)"

fun UpdateLogLevel :: "log_encoder \<Rightarrow> pb_log_level \<Rightarrow> log_sys \<Rightarrow> log_sys" where
  "UpdateLogLevel enc LOG_LEVEL_UNSPECIFIED s =
     set_level InfoLevel (log_at enc WarnLevel ''Unspecified log level received, defaulting to INFO'' s)"
| "UpdateLogLevel enc LOG_LEVEL_DEBUG s = set_level DebugLevel (log_at enc InfoLevel ''Set to DEBUG level log'' s)"
| "UpdateLogLevel enc LOG_LEVEL_ERROR s = set_level ErrorLevel (log_at enc InfoLevel ''Set to ERROR level log'' s)"
| "UpdateLogLevel enc LOG_LEVEL_INFO s = set_level InfoLevel (log_at enc InfoLevel ''Set to INFO level log'' s)"
| "UpdateLogLevel enc LOG_LEVEL_WARN s = set_level WarnLevel (log_at enc InfoLevel ''Set to WARN level log'' s)"
| "UpdateLogLevel enc (LOG_LEVEL_OTHER _) s =
     set_level InfoLevel (log_at enc WarnLevel ''Unknown log level received, defaulting to INFO'' s)"

definition SetDone :: "nat \<Rightarrow> log_sys \<Rightarrow> log_sys" where
  "SetDone d s = ((fst s)\<lparr>bw_done := d\<rparr>, snd s)"

text \<open>\<open>BufferedGrpcWriteSyncer.Close\<close>: with no connection yet, \<open>b.conn.Close()\<close> is a nil call.\<close>

definition Syncer_Close :: "log_encoder \<Rightarrow> log_sys \<Rightarrow> log_sys" where
  "Syncer_Close enc s =
     (case flush enc s of (b, w) \<Rightarrow>
        if bw_done b \<in> set (lw_closed w) then (b, w)
        else (b, w\<lparr>lw_closed := bw_done b # lw_closed w, lw_panic := (lw_panic w \<or> bw_conn b = None)\<rparr>))"

definition sendLogsKeepalive :: "log_encoder \<Rightarrow> log_sys \<Rightarrow> log_sys" where
  "sendLogsKeepalive enc s =
     (case s of (b, w) \<Rightarrow>
        if bw_client b = None then (b, w)
        else case stream_send LogKeepalive w of
               (None, w1) \<Rightarrow> (b, w1)
             | (Some _, w1) \<Rightarrow> log_at enc ErrorLevel ''Failed to send logs keepalive'' (b, w1))"

text \<open>
  The goroutine \<open>run\<close>, started once by the constructor: it flushes on one ticker, sends keepalives on
  the other and returns when the channel currently in \<open>b.done\<close> is closed.
\<close>

datatype run_event = FlushTick | KeepaliveTick | DoneClosed

fun run_select :: "log_encoder \<Rightarrow> run_event \<Rightarrow> log_sys \<Rightarrow> log_sys option" where
  "run_select enc FlushTick s = (if bw_running (fst s) then Some (flush enc s) else None)"
| "run_select enc KeepaliveTick s = (if bw_running (fst s) then Some (sendLogsKeepalive enc s) else None)"
| "run_select enc DoneClosed s =
     (if bw_running (fst s) \<and> bw_done (fst s) \<in> set (lw_closed (snd s))
      then Some ((fst s)\<lparr>bw_running := False\<rparr>, snd s) else None)"

section \<open>The logs stream client\<close>

text \<open>
  The factory makes a fresh \<open>done\<close> channel per session and installs it; \<open>Run\<close> installs the stream and then
  only receives; \<open>Close\<close> closes the session's channel.
\<close>

definition Logs_NewStreamClient :: "nat \<Rightarrow> log_sys \<Rightarrow> log_sys" where
  "Logs_NewStreamClient d s = SetDone d s"

definition Logs_Run_start :: "log_encoder \<Rightarrow> nat \<Rightarrow> nat \<Rightarrow> log_sys \<Rightarrow> log_sys" where
  "Logs_Run_start enc client conn s = UpdateClient enc client conn s"

text \<open>The receive loop: \<open>Inl\<close> an error of \<open>Recv\<close>, \<open>Inr\<close> a message; a cancelled context ends it first.\<close>

fun Logs_Run_loop :: "(bool \<times> unit result) list \<Rightarrow> unit result option" where
  "Logs_Run_loop [] = None"
| "Logs_Run_loop ((cancelled, recv) # rs) =
     (if cancelled then Some (Inl CtxErr)
      else case recv of
             Inl e \<Rightarrow> Some (if errors_is e IoEOF then Inr () else Inl e)
           | Inr _ \<Rightarrow> Logs_Run_loop rs)"

definition Logs_SendKeepalive :: "unit result" where
  "Logs_SendKeepalive = Inr ()"

definition Logs_Close :: "nat \<Rightarrow> log_sys \<Rightarrow> log_sys outcome" where
  "Logs_Close d s =
     (if d \<in> set (lw_closed (snd s)) then Panics ''close of closed channel''
      else Returns (fst s, (snd s)\<lparr>lw_closed := d # lw_closed (snd s)\<rparr>))"

section \<open>Runs of the writer\<close>

datatype log_event =
    EvWrite string
  | EvUpdateClient nat nat
  | EvLogLevel pb_log_level
  | EvRun run_event
  | EvNewClient nat
  | EvCloseClient nat

definition or_stay :: "'a \<Rightarrow> 'a option \<Rightarrow> 'a" where
  "or_stay s r = (case r of None \<Rightarrow> s | Some t \<Rightarrow> t)"

fun log_apply :: "log_encoder \<Rightarrow> log_event \<Rightarrow> log_sys \<Rightarrow> log_sys" where
  "log_apply enc (EvWrite m) s = Syncer_write enc m s"
| "log_apply enc (EvUpdateClient c n) s = UpdateClient enc c n s"
| "log_apply enc (EvLogLevel l) s = UpdateLogLevel enc l s"
| "log_apply enc (EvRun e) s = or_stay s (run_select enc e s)"
| "log_apply enc (EvNewClient d) s = Logs_NewStreamClient d s"
| "log_apply enc (EvCloseClient d) s = or_stay s (outcome_result (Logs_Close d s))"

text \<open>Every entry handed to \<open>write\<close> by a run, in order: the explicit ones and those the writer logs itself.\<close>

definition own_entry :: "log_encoder \<Rightarrow> zap_level \<Rightarrow> string \<Rightarrow> log_sys \<Rightarrow> string list" where
  "own_entry enc lvl msg s =
     (if level_rank (bw_level (fst s)) \<le> level_rank lvl
      then (case enc_entry enc lvl msg of Inl _ \<Rightarrow> [] | Inr json \<Rightarrow> [json]) else [])"

fun level_message :: "pb_log_level \<Rightarrow> zap_level \<times> string" where
  "level_message LOG_LEVEL_UNSPECIFIED = (WarnLevel, ''Unspecified log level received, defaulting to INFO'')"
| "level_message LOG_LEVEL_DEBUG = (InfoLevel, ''Set to DEBUG level log'')"
| "level_message LOG_LEVEL_ERROR = (InfoLevel, ''Set to ERROR level log'')"
| "level_message LOG_LEVEL_INFO = (InfoLevel, ''Set to INFO level log'')"
| "level_message LOG_LEVEL_WARN = (InfoLevel, ''Set to WARN level log'')"
| "level_message (LOG_LEVEL_OTHER _) = (WarnLevel, ''Unknown log level received, defaulting to INFO'')"

fun entries_of :: "log_encoder \<Rightarrow> log_event \<Rightarrow> log_sys \<Rightarrow> string list" where
  "entries_of enc (EvWrite m) s = [m]"
| "entries_of enc (EvLogLevel l) s = (case level_message l of (lvl, msg) \<Rightarrow> own_entry enc lvl msg s)"
| "entries_of enc (EvRun KeepaliveTick) s =
     (if bw_running (fst s) \<and> bw_client (fst s) \<noteq> None \<and> fst (stream_send LogKeepalive (snd s)) \<noteq> None
      then own_entry enc ErrorLevel ''Failed to send logs keepalive'' s else [])"
| "entries_of enc _ s = []"

fun log_run :: "log_encoder \<Rightarrow> log_event list \<Rightarrow> log_sys \<Rightarrow> string list \<times> log_sys" where
  "log_run enc [] s = ([], s)"
| "log_run enc (e # es) s =
     (case log_run enc es (log_apply enc e s) of (ms, t) \<Rightarrow> (entries_of enc e s @ ms, t))"

section \<open>Accounting\<close>

fun sent_entries :: "log_request list \<Rightarrow> string list" where
  "sent_entries [] = []"
| "sent_entries (LogEntry m # rs) = m # sent_entries rs"
| "sent_entries (_ # rs) = sent_entries rs"

fun reported_lost :: "log_request list \<Rightarrow> nat" where
  "reported_lost [] = 0"
| "reported_lost (LostNotice n _ # rs) = n + reported_lost rs"
| "reported_lost (_ # rs) = reported_lost rs"

lemma sent_entries_append [simp]: "sent_entries (xs @ ys) = sent_entries xs @ sent_entries ys"
  by (induction xs rule: sent_entries.induct) auto

lemma reported_lost_append [simp]: "reported_lost (xs @ ys) = reported_lost xs + reported_lost ys"
  by (induction xs rule: reported_lost.induct) auto

text \<open>What the writer still answers for: the entries sent or buffered, and the number lost.\<close>

definition kept_entries :: "log_sys \<Rightarrow> string multiset" where
  "kept_entries s = mset (sent_entries (lw_sent (snd s))) + mset (bw_buffer (fst s))"

definition lost_entries :: "log_sys \<Rightarrow> nat" where
  "lost_entries s = reported_lost (lw_sent (snd s)) + bw_lost (fst s)"

definition syncer_ok :: "log_sys \<Rightarrow> bool" where
  "syncer_ok s \<longleftrightarrow> length (bw_buffer (fst s)) \<le> logMaxBufferSize \<and>
     (bw_client (fst s) = None \<longleftrightarrow> bw_conn (fst s) = None) \<and> \<not> lw_panic (snd s)"

text \<open>How one operation that takes in the entries \<open>ms\<close> moves the accounts.\<close>

definition accounts :: "string list \<Rightarrow> log_sys \<Rightarrow> log_sys \<Rightarrow> bool" where
  "accounts ms s t \<longleftrightarrow> (syncer_ok s \<longrightarrow> syncer_ok t) \<and>
     kept_entries t \<subseteq># kept_entries s + mset ms \<and>
     size (kept_entries t) + lost_entries t = size (kept_entries s) + lost_entries s + length ms"

lemma accounts_refl [simp]: "accounts [] s s"
  by (simp add: accounts_def)

lemma accounts_trans:
  assumes "accounts ms s t" and "accounts ns t u"
  shows "accounts (ms @ ns) s u"
proof -
  have "kept_entries u \<subseteq># kept_entries s + mset ms + mset ns"
    using assms unfolding accounts_def by (meson subset_mset.add_right_mono subset_mset.order_trans)
  with assms show ?thesis by (simp add: accounts_def add.assoc)
qed

lemma accounts_trans0: "accounts [] s t \<Longrightarrow> accounts ms t u \<Longrightarrow> accounts ms s u"
  using accounts_trans [of "[]" s t ms u] by simp

text \<open>A change that leaves the buffer, the counter, the clients and the sent requests alone costs nothing.\<close>

lemma accounts_same:
  "bw_buffer b' = bw_buffer b \<Longrightarrow> bw_lost b' = bw_lost b \<Longrightarrow> bw_client b' = bw_client b \<Longrightarrow> bw_conn b' = bw_conn b \<Longrightarrow>
   sent_entries (lw_sent w') = sent_entries (lw_sent w) \<Longrightarrow> reported_lost (lw_sent w') = reported_lost (lw_sent w) \<Longrightarrow>
   lw_panic w' = lw_panic w \<Longrightarrow> accounts [] (b, w) (b', w')"
  by (simp add: accounts_def syncer_ok_def kept_entries_def lost_entries_def)

section \<open>The accounts of each operation\<close>

lemma stream_send_cases:
  assumes "stream_send req w = (r, w')"
  shows "r \<noteq> None \<and> lw_sent w' = lw_sent w \<or> r = None \<and> lw_sent w' = lw_sent w @ [req]"
    and "lw_panic w' = lw_panic w" and "lw_closed w' = lw_closed w"
  using assms by (auto simp: stream_send_def split: list.splits option.splits)

lemma sendLogEntry_cases:
  assumes "sendLogEntry b req w = (r, w')"
  shows "r \<noteq> None \<and> lw_sent w' = lw_sent w \<or> r = None \<and> lw_sent w' = lw_sent w @ [req]"
    and "bw_client b \<noteq> None \<Longrightarrow> lw_panic w' = lw_panic w" and "lw_closed w' = lw_closed w"
  using assms by (auto simp: sendLogEntry_def dest: stream_send_cases split: if_splits)

lemma conn_ready_world:
  assumes "conn_ready b w = (ready, w')"
  shows "lw_sent w' = lw_sent w" and "lw_panic w' = lw_panic w" and "lw_closed w' = lw_closed w"
    and "ready \<Longrightarrow> bw_conn b \<noteq> None"
  using assms by (auto simp: conn_ready_def get_state_ready_def split: if_splits list.splits)

lemma flush_loop_result:
  "flush_loop b ms w = ((r, n), w') \<Longrightarrow>
     n \<le> length ms \<and> (r = None \<longrightarrow> n = length ms) \<and>
     sent_entries (lw_sent w') = sent_entries (lw_sent w) @ take n ms \<and>
     reported_lost (lw_sent w') = reported_lost (lw_sent w) \<and>
     (bw_client b \<noteq> None \<longrightarrow> lw_panic w' = lw_panic w) \<and> lw_closed w' = lw_closed w"
proof (induction ms arbitrary: r n w w')
  case (Cons m ms)
  obtain r1 w1 where send: "sendLogEntry b (LogEntry m) w = (r1, w1)" by (cases "sendLogEntry b (LogEntry m) w")
  note sc = sendLogEntry_cases [OF send]
  show ?case
  proof (cases r1)
    case None
    obtain r2 n2 w2 where rest: "flush_loop b ms w1 = ((r2, n2), w2)" by (metis surj_pair)
    then show ?thesis using Cons.IH [OF rest] Cons.prems None send sc by auto
  next
    case (Some e)
    then show ?thesis using Cons.prems send sc by auto
  qed
qed auto

lemma flush_buffer_accounts:
  assumes "bw_conn (fst s) \<noteq> None"
  shows "accounts [] s (flush_buffer s)"
proof -
  obtain b w where s: "s = (b, w)" by (cases s)
  obtain r n w1 where loop: "flush_loop b (bw_buffer b) w = ((r, n), w1)" by (metis surj_pair)
  note lr = flush_loop_result [OF loop]
  have "mset (take n (bw_buffer b)) + mset (drop n (bw_buffer b)) = mset (bw_buffer b)"
    by (metis append_take_drop_id mset_append)
  then show ?thesis using lr assms
    by (auto simp: s flush_buffer_def loop Let_def accounts_def kept_entries_def lost_entries_def syncer_ok_def
        add.assoc split: option.splits)
qed

lemma flush_accounts: "accounts [] s (flush enc s)"
proof -
  obtain b w where s: "s = (b, w)" by (cases s)
  obtain ready w1 where cr: "conn_ready b w = (ready, w1)" by (cases "conn_ready b w")
  note cw = conn_ready_world [OF cr]
  have same: "accounts [] (b, w) (b, w1)" using cw by (intro accounts_same) auto
  consider "bw_buffer b = [] \<or> \<not> ready" | "bw_buffer b \<noteq> []" "ready" "bw_lost b = 0 \<or> (\<exists>e. enc_lost enc (bw_lost b) (bw_lostErr b) = Inl e)"
    | msg where "bw_buffer b \<noteq> []" "ready" "bw_lost b > 0" "enc_lost enc (bw_lost b) (bw_lostErr b) = Inr msg"
    by (cases "enc_lost enc (bw_lost b) (bw_lostErr b)") auto
  then show ?thesis
  proof cases
    case 1
    then show ?thesis using same by (auto simp: s flush_def cr)
  next
    case 2
    then have "flush enc s = flush_buffer (b, w1)" by (auto simp: s flush_def cr)
    then show ?thesis using accounts_trans0 [OF same flush_buffer_accounts] 2 cw by (simp add: s)
  next
    case 3
    obtain r w2 where send: "sendLogEntry b (LostNotice (bw_lost b) msg) w1 = (r, w2)"
      by (cases "sendLogEntry b (LostNotice (bw_lost b) msg) w1")
    note sc = sendLogEntry_cases [OF send]
    have conn: "bw_conn b \<noteq> None" using 3 cw by simp
    show ?thesis
    proof (cases r)
      case (Some e)
      then have "accounts [] (b, w1) (b\<lparr>bw_lostErr := Some e\<rparr>, w2)"
        using sc conn by (auto simp: accounts_def syncer_ok_def kept_entries_def lost_entries_def)
      then show ?thesis using accounts_trans0 [OF same] 3 send Some by (simp add: s flush_def cr)
    next
      case None
      then have "accounts [] (b, w1) (b\<lparr>bw_lost := 0, bw_lostErr := None\<rparr>, w2)"
        using sc conn by (auto simp: accounts_def syncer_ok_def kept_entries_def lost_entries_def)
      then have "accounts [] (b, w1) (flush_buffer (b\<lparr>bw_lost := 0, bw_lostErr := None\<rparr>, w2))"
        by (rule accounts_trans0) (rule flush_buffer_accounts, simp add: conn)
      then show ?thesis using accounts_trans0 [OF same] 3 send None by (simp add: s flush_def cr)
    qed
  qed
qed

text \<open>Flushing never drops the connection and never takes a message into the buffer.\<close>

lemma flush_frame:
  "bw_client (fst (flush enc s)) = bw_client (fst s)" "bw_conn (fst (flush enc s)) = bw_conn (fst s)"
  "bw_level (fst (flush enc s)) = bw_level (fst s)" "bw_running (fst (flush enc s)) = bw_running (fst s)"
  "bw_done (fst (flush enc s)) = bw_done (fst s)"
  by (auto simp: flush_def flush_buffer_def Let_def split: prod.splits option.splits sum.splits)

lemma buffer_message_accounts: "accounts [m] (b, w) (buffer_message m b, w)"
  by (auto simp: accounts_def buffer_message_def kept_entries_def lost_entries_def syncer_ok_def
      subset_mset.add_mono)

lemma write_accounts: "accounts [m] s (Syncer_write enc m s)"
proof -
  obtain b w where s: "s = (b, w)" by (cases s)
  obtain ready w1 where cr: "conn_ready b w = (ready, w1)" by (cases "conn_ready b w")
  note cw = conn_ready_world [OF cr]
  have same: "accounts [] (b, w) (b, w1)" using cw by (intro accounts_same) auto
  show ?thesis
  proof (cases ready)
    case False
    then show ?thesis using accounts_trans0 [OF same buffer_message_accounts] by (simp add: s Syncer_write_def cr)
  next
    case True
    obtain b2 w2 where fl: "flush enc (b, w1) = (b2, w2)" by (cases "flush enc (b, w1)")
    have a2: "accounts [] (b, w) (b2, w2)" using accounts_trans0 [OF same flush_accounts] fl by metis
    have conn: "bw_conn b2 \<noteq> None" using flush_frame(2) [of enc "(b, w1)"] fl cw(4) True by simp
    obtain r w3 where send: "sendLogEntry b2 (LogEntry m) w2 = (r, w3)" by (cases "sendLogEntry b2 (LogEntry m) w2")
    note sc = sendLogEntry_cases [OF send]
    show ?thesis
    proof (cases r)
      case None
      then have "accounts [m] (b2, w2) (b2, w3)"
        using sc conn by (auto simp: accounts_def syncer_ok_def kept_entries_def lost_entries_def)
      then show ?thesis using accounts_trans0 [OF a2] True fl send None by (simp add: s Syncer_write_def cr)
    next
      case (Some e)
      then have "accounts [] (b2, w2) (b2, w3)"
        using sc conn by (auto simp: accounts_def syncer_ok_def kept_entries_def lost_entries_def)
      then have "accounts [m] (b2, w2) (buffer_message m b2, w3)"
        using accounts_trans0 buffer_message_accounts by metis
      then show ?thesis using accounts_trans0 [OF a2] True fl send Some by (simp add: s Syncer_write_def cr)
    qed
  qed
qed

lemma log_at_accounts: "accounts (own_entry enc lvl m s) s (log_at enc lvl m s)"
  by (auto simp: own_entry_def log_at_def write_accounts split: sum.splits)

lemma set_level_accounts: "accounts ms s t \<Longrightarrow> accounts ms s (set_level l t)"
  by (simp add: accounts_def set_level_def syncer_ok_def kept_entries_def lost_entries_def)

lemma UpdateLogLevel_accounts: "accounts (entries_of enc (EvLogLevel l) s) s (UpdateLogLevel enc l s)"
  by (cases l) (auto intro: set_level_accounts log_at_accounts)

lemma keepalive_accounts:
  "accounts (if bw_client (fst s) \<noteq> None \<and> fst (stream_send LogKeepalive (snd s)) \<noteq> None
             then own_entry enc ErrorLevel ''Failed to send logs keepalive'' s else []) s (sendLogsKeepalive enc s)"
proof -
  obtain b w where s: "s = (b, w)" by (cases s)
  obtain r w1 where send: "stream_send LogKeepalive w = (r, w1)" by (cases "stream_send LogKeepalive w")
  note sc = stream_send_cases [OF send]
  have same: "accounts [] (b, w) (b, w1)" using sc by (intro accounts_same) auto
  have own: "own_entry enc lvl m (b, w) = own_entry enc lvl m (b, w1)" for lvl m by (simp add: own_entry_def)
  show ?thesis
    using same accounts_trans0 [OF same log_at_accounts]
    by (auto simp: s sendLogsKeepalive_def send own split: option.splits)
qed

lemma accounts_frame:
  "bw_buffer (fst t) = bw_buffer (fst s) \<Longrightarrow> bw_lost (fst t) = bw_lost (fst s) \<Longrightarrow>
   bw_client (fst t) = bw_client (fst s) \<Longrightarrow> bw_conn (fst t) = bw_conn (fst s) \<Longrightarrow>
   lw_sent (snd t) = lw_sent (snd s) \<Longrightarrow> lw_panic (snd t) = lw_panic (snd s) \<Longrightarrow> accounts [] s t"
  by (simp add: accounts_def syncer_ok_def kept_entries_def lost_entries_def)

lemma log_apply_accounts: "accounts (entries_of enc e s) s (log_apply enc e s)"
proof (cases e)
  case (EvUpdateClient c n)
  have "accounts [] s ((fst s)\<lparr>bw_client := Some c, bw_conn := Some n\<rparr>, snd s)"
    by (simp add: accounts_def syncer_ok_def kept_entries_def lost_entries_def)
  then show ?thesis using EvUpdateClient accounts_trans0 flush_accounts
    by (simp add: UpdateClient_def split: prod.splits)
next
  case (EvLogLevel l)
  then show ?thesis using UpdateLogLevel_accounts [of enc l s] by simp
next
  case (EvRun r)
  have "accounts [] s ((fst s)\<lparr>bw_running := False\<rparr>, snd s)" by (rule accounts_frame) simp_all
  then show ?thesis using EvRun flush_accounts keepalive_accounts [of s enc]
    by (cases r) (simp_all add: or_stay_def split: if_splits, auto)
next
  case (EvCloseClient d)
  then show ?thesis by (auto simp: or_stay_def Logs_Close_def intro!: accounts_frame)
next
  case (EvNewClient d)
  then show ?thesis by (auto simp: Logs_NewStreamClient_def SetDone_def intro!: accounts_frame)
qed (simp add: write_accounts)

lemma log_run_accounts: "log_run enc es s = (ms, t) \<Longrightarrow> accounts ms s t"
proof (induction es arbitrary: s ms t)
  case (Cons e es)
  obtain ns u where rest: "log_run enc es (log_apply enc e s) = (ns, u)" by (metis surj_pair)
  then show ?case
    using Cons.prems accounts_trans [OF log_apply_accounts Cons.IH [OF rest]] by simp
qed simp

section \<open>The background goroutine\<close>

text \<open>Nothing restarts \<open>run\<close>: once it has returned it never flushes or sends a keepalive again.\<close>

lemma write_running: "bw_running (fst (Syncer_write enc m s)) = bw_running (fst s)"
  by (auto simp: Syncer_write_def buffer_message_def split: prod.splits option.splits
      dest: arg_cong [where f = "\<lambda>t. bw_running (fst t)"] simp: flush_frame(4))

lemma log_at_running: "bw_running (fst (log_at enc l m s)) = bw_running (fst s)"
  by (simp add: log_at_def write_running split: sum.splits)

lemma stopped_stays: "\<not> bw_running (fst s) \<Longrightarrow> \<not> bw_running (fst (log_apply enc e s))"
proof (cases e)
  case (EvLogLevel l)
  then show "\<not> bw_running (fst s) \<Longrightarrow> ?thesis" by (cases l) (simp_all add: set_level_def log_at_running)
next
  case (EvRun r)
  then show "\<not> bw_running (fst s) \<Longrightarrow> ?thesis" by (cases r) (simp_all add: or_stay_def)
qed (auto simp: write_running UpdateClient_def flush_frame Logs_NewStreamClient_def SetDone_def or_stay_def
      Logs_Close_def split: prod.splits)

interpretation log_stopped: invariant_fold "log_apply enc" "\<lambda>s. \<not> bw_running (fst s)" for enc
  by unfold_locales (rule stopped_stays)

lemma run_select_stopped: "\<not> bw_running (fst s) \<Longrightarrow> run_select enc e s = None"
  by (cases e) auto

section \<open>Properties\<close>

definition fresh_syncer :: "nat \<Rightarrow> bool list \<Rightarrow> go_error option list \<Rightarrow> log_sys" where
  "fresh_syncer d ready results =
     (NewBufferedGrpcWriteSyncer d,
      \<lparr>lw_ready = ready, lw_results = results, lw_sent = [], lw_closed = [], lw_panic = False\<rparr>)"

text \<open>
  Whatever the connection answers, and in every interleaving of writes, level changes, session
  changes and background ticks, a log entry handed to the writer is sent once, or still buffered, or
  counted as lost (reported or still to be reported); the buffer never exceeds its capacity, and no
  call is made on a missing stream.
\<close>

theorem log_accounting:
  assumes "log_run enc es (fresh_syncer d ready results) = (ms, (b, w))"
  shows "mset (sent_entries (lw_sent w)) + mset (bw_buffer b) \<subseteq># mset ms \<and>
    length ms = length (sent_entries (lw_sent w)) + length (bw_buffer b) + reported_lost (lw_sent w) + bw_lost b \<and>
    length (bw_buffer b) \<le> logMaxBufferSize \<and> \<not> lw_panic w"
  using log_run_accounts [OF assms]
  by (simp add: accounts_def fresh_syncer_def NewBufferedGrpcWriteSyncer_def kept_entries_def lost_entries_def
      syncer_ok_def)

definition plain_encoder :: log_encoder where
  "plain_encoder = \<lparr>enc_lost = (\<lambda>n _. Inr (''lost '' @ string_of_nat n)), enc_entry = (\<lambda>_ m. Inr m)\<rparr>"

definition sample_log_run :: "string list \<times> log_sys" where
  "sample_log_run =
     log_run plain_encoder
       [EvWrite ''a'', EvNewClient 1, EvUpdateClient 7 7, EvWrite ''b'', EvRun KeepaliveTick, EvCloseClient 1, EvRun DoneClosed]
       (fresh_syncer 0 [True, True, True] [None, Some IoEOF, Some IoEOF])"

lemmas log_eval = fresh_syncer_def NewBufferedGrpcWriteSyncer_def Syncer_write_def flush_def flush_buffer_def conn_ready_def
  get_state_ready_def sendLogEntry_def stream_send_def buffer_message_def UpdateClient_def log_at_def set_level_def
  sendLogsKeepalive_def or_stay_def Logs_NewStreamClient_def SetDone_def Logs_Close_def plain_encoder_def own_entry_def
  logMaxBufferSize_def

theorem log_accounting_witness:
  "fst sample_log_run = [''a'', ''b'', ''Failed to send logs keepalive''] \<and>
   (case snd sample_log_run of (b, w) \<Rightarrow> sent_entries (lw_sent w) = [''a''] \<and> \<not> lw_panic w \<and>
     length [''a'', ''b'', ''Failed to send logs keepalive''] =
       length (sent_entries (lw_sent w)) + length (bw_buffer b) + reported_lost (lw_sent w) + bw_lost b)"
proof -
  obtain ms b w where run: "sample_log_run = (ms, (b, w))" by (metis surj_pair)
  have ms: "fst sample_log_run = [''a'', ''b'', ''Failed to send logs keepalive'']"
    by (simp add: sample_log_run_def log_eval)
  have sent: "sent_entries (lw_sent (snd (snd sample_log_run))) = [''a'']"
    by (simp add: sample_log_run_def log_eval)
  show ?thesis using log_accounting [OF run [unfolded sample_log_run_def]] ms sent by (simp add: run)
qed

text \<open>
  A flush over a ready connection whose sends succeed delivers the buffered entries in the order they were
  written and leaves the buffer empty.
\<close>

theorem flush_delivers:
  assumes "bw_client b \<noteq> None" and "bw_conn b \<noteq> None" and "bw_lost b = 0"
    and "lw_ready w = True # rs" and "lw_results w = replicate (length (bw_buffer b)) None @ qs"
    and "bw_buffer b \<noteq> []"
  shows "\<exists>w'. flush enc (b, w) = (b\<lparr>bw_buffer := []\<rparr>, w') \<and> lw_sent w' = lw_sent w @ map LogEntry (bw_buffer b)"
proof -
  have loop: "\<exists>w'. flush_loop b ms v = ((None, length ms), w') \<and> lw_sent w' = lw_sent v @ map LogEntry ms"
    if "lw_results v = replicate (length ms) None @ qs" for ms v
    using that
  proof (induction ms arbitrary: v)
    case (Cons m ms)
    let ?v = "v\<lparr>lw_results := replicate (length ms) None @ qs, lw_sent := lw_sent v @ [LogEntry m]\<rparr>"
    have "sendLogEntry b (LogEntry m) v = (None, ?v)"
      using Cons.prems assms(1) by (auto simp: sendLogEntry_def stream_send_def)
    then show ?case using Cons.IH [of ?v] by auto
  qed simp
  from loop [of "w\<lparr>lw_ready := rs\<rparr>" "bw_buffer b"] assms(5)
  obtain w' where "flush_loop b (bw_buffer b) (w\<lparr>lw_ready := rs\<rparr>) = ((None, length (bw_buffer b)), w')"
    "lw_sent w' = lw_sent w @ map LogEntry (bw_buffer b)"
    by auto
  then show ?thesis using assms by (auto simp: flush_def conn_ready_def get_state_ready_def flush_buffer_def Let_def)
qed

theorem flush_delivers_witness:
  "\<exists>w'. flush plain_encoder ((NewBufferedGrpcWriteSyncer 0)\<lparr>bw_client := Some 1, bw_conn := Some 1, bw_buffer := [''a'', ''b'']\<rparr>,
       snd (fresh_syncer 0 [True] [None, None])) =
     ((NewBufferedGrpcWriteSyncer 0)\<lparr>bw_client := Some 1, bw_conn := Some 1, bw_buffer := []\<rparr>, w') \<and>
     lw_sent w' = [LogEntry ''a'', LogEntry ''b'']"
  using flush_delivers [of "(NewBufferedGrpcWriteSyncer 0)\<lparr>bw_client := Some 1, bw_conn := Some 1, bw_buffer := [''a'', ''b'']\<rparr>"
      "snd (fresh_syncer 0 [True] [None, None])" "[]" "[]" plain_encoder]
  by (simp add: fresh_syncer_def NewBufferedGrpcWriteSyncer_def)

text \<open>
  C39: closing one logs session ends the background goroutine for good: once it has seen the session's channel
  closed, no later session brings the periodic flush or the keepalives back.
\<close>

theorem log_goroutine_not_restarted:
  assumes "run_select enc DoneClosed s = Some t"
  shows "run_select enc e (fold (log_apply enc) es t) = None"
proof -
  have "\<not> bw_running (fst t)" using assms by (auto split: if_splits)
  then show ?thesis by (intro run_select_stopped log_stopped.inv_fold)
qed

theorem log_goroutine_not_restarted_witness:
  "run_select plain_encoder DoneClosed (fold (log_apply plain_encoder) [EvNewClient 1, EvCloseClient 1] (fresh_syncer 0 [] [])) \<noteq> None \<and>
   run_select plain_encoder KeepaliveTick
     (fold (log_apply plain_encoder) [EvNewClient 2, EvUpdateClient 7 7]
       (the (run_select plain_encoder DoneClosed
         (fold (log_apply plain_encoder) [EvNewClient 1, EvCloseClient 1] (fresh_syncer 0 [] []))))) = None"
proof -
  let ?s = "fold (log_apply plain_encoder) [EvNewClient 1, EvCloseClient 1] (fresh_syncer 0 [] [])"
  have "run_select plain_encoder DoneClosed ?s \<noteq> None" by (simp add: log_eval)
  then obtain t where t: "run_select plain_encoder DoneClosed ?s = Some t" by blast
  show ?thesis using log_goroutine_not_restarted [OF t, of KeepaliveTick "[EvNewClient 2, EvUpdateClient 7 7]"] t
    by (simp only: option.sel) simp
qed

end
