(* ===== verification/Config_Client.thy ===== *)
theory Config_Client
  imports Objects Stats Logging Stream_Client
begin

text \<open>
  \<open>internal/controller/stream/config/client.go\<close>: the client of the configuration stream. It collects the
  server's snapshot in a local map, swaps it into the shared cache when the server says it is
  complete, and applies mutations one by one afterwards. The cache operations have several outcomes
  (and none while the consumer of the cache leaves its channel full), so the handlers return the list
  of their outcomes.
\<close>

section \<open>Messages and state\<close>

datatype config_mutation =
    CreateOrUpdateObject configured_object
  | DeleteObject string string string
  | UnknownMutation

datatype config_response =
    UpdateConfiguration pb_log_level
  | ResourceData configured_object
  | ResourceSnapshotComplete
  | ResourceMutation config_mutation
  | UnknownResponse

text \<open>
  The client, the components it shares with others (cache, statistics, log writer), and the two local
  variables of \<open>Run\<close>.
\<close>

record config_client =
  cc_verboseDebugging :: bool
  cc_logs :: log_sys
  cc_stats :: stats
  cc_cache :: "configured_object object_cache"
  cc_closed :: bool
  cc_pendingSnapshot :: "(string, configured_object) gomap"
  cc_snapshotComplete :: bool

type_synonym config_outcome = "(unit result \<times> config_client) outcome"

text \<open>An operation on the shared cache, run by the client.\<close>

definition on_cache ::
  "(configured_object object_cache \<Rightarrow> (unit result \<times> configured_object object_cache) outcome list) \<Rightarrow>
   config_client \<Rightarrow> config_outcome list" where
  "on_cache f c = map (map_outcome (\<lambda>(r, x). (r, c\<lparr>cc_cache := x\<rparr>))) (f (cc_cache c))"

text \<open>Continue after a call that succeeded; an error is returned at once.\<close>

definition and_then :: "config_outcome list \<Rightarrow> (config_client \<Rightarrow> config_client) \<Rightarrow> config_outcome list" where
  "and_then os f = map (map_outcome (\<lambda>(r, c). (r, case r of Inl _ \<Rightarrow> c | Inr _ \<Rightarrow> f c))) os"

section \<open>The handlers\<close>

definition handleUpdateConfiguration :: "log_encoder \<Rightarrow> pb_log_level \<Rightarrow> config_client \<Rightarrow> config_client" where
  "handleUpdateConfiguration enc level c =
     c\<lparr>cc_logs := UpdateLogLevel enc (if cc_verboseDebugging c then LOG_LEVEL_DEBUG else level) (cc_logs c)\<rparr>"

fun handleMutation :: "bool \<Rightarrow> string \<Rightarrow> config_mutation \<Rightarrow> config_client \<Rightarrow> config_outcome list" where
  "handleMutation cancelled key (CreateOrUpdateObject obj) c = on_cache (Insert proto_equal cancelled key obj) c"
| "handleMutation cancelled key (DeleteObject _ _ _) c = on_cache (Delete cancelled key) c"
| "handleMutation cancelled key UnknownMutation c =
     [Returns (Inl (ErrMsg ''server sent unknown configured object mutation type''), c)]"

definition count_mutation :: "config_client \<Rightarrow> config_client" where
  "count_mutation c = c\<lparr>cc_stats := IncrementConfiguredObjectMutations (cc_stats c)\<rparr>"

text \<open>The cache key of a mutation; \<open>None\<close> is the early return for an unsupported kind.\<close>

fun mutation_key :: "config_mutation \<Rightarrow> string option" where
  "mutation_key (CreateOrUpdateObject obj) =
     (case CacheKeyForObject obj of Inl _ \<Rightarrow> None | Inr key \<Rightarrow> Some key)"
| "mutation_key (DeleteObject kind namespace name) = Some (CacheKey kind namespace name)"
| "mutation_key UnknownMutation = Some []"

fun handleConfigUpdate :: "log_encoder \<Rightarrow> bool \<Rightarrow> config_response \<Rightarrow> config_client \<Rightarrow> config_outcome list" where
  "handleConfigUpdate enc cancelled (UpdateConfiguration level) c =
     [Returns (Inr (), handleUpdateConfiguration enc level c)]"
| "handleConfigUpdate enc cancelled (ResourceData obj) c =
     (if cc_snapshotComplete c then [Returns (Inl (ErrMsg ''server sent ResourceData after snapshot complete''), c)]
      else case CacheKeyForObject obj of
             Inl _ \<Rightarrow> [Returns (Inr (), c)]
           | Inr key \<Rightarrow> [Returns (Inr (), c\<lparr>cc_pendingSnapshot := gm_put key obj (cc_pendingSnapshot c)\<rparr>)])"
| "handleConfigUpdate enc cancelled ResourceSnapshotComplete c =
     (if cc_snapshotComplete c then [Returns (Inl (ErrMsg ''server sent duplicate ResourceSnapshotComplete''), c)]
      else and_then (on_cache (ReplaceAll cancelled (cc_pendingSnapshot c)) c) (\<lambda>x. x\<lparr>cc_snapshotComplete := True\<rparr>))"
| "handleConfigUpdate enc cancelled (ResourceMutation m) c =
     (if \<not> cc_snapshotComplete c then [Returns (Inl (ErrMsg ''server sent ResourceMutation before snapshot complete''), c)]
      else case mutation_key m of
             None \<Rightarrow> [Returns (Inr (), c)]
           | Some key \<Rightarrow> and_then (handleMutation cancelled key m c) count_mutation)"
| "handleConfigUpdate enc cancelled UnknownResponse c =
     [Returns (Inl (ErrMsg ''server sent unknown configuration update type''), c)]"

text \<open>
  One iteration of the loop in \<open>Run\<close>: whether the context is found cancelled at the top, what \<open>Recv\<close>
  returns, and whether the context is cancelled while the message is handled.
\<close>

type_synonym recv_event = "bool \<times> config_response result \<times> bool"

fun Run_iteration :: "log_encoder \<Rightarrow> recv_event \<Rightarrow> config_client \<Rightarrow> (unit result \<times> config_client, config_client) loop outcome list" where
  "Run_iteration enc (cancelled, recv, cancelled') c =
     (if cancelled then [Returns (Break (Inl CtxErr, c))]
      else case recv of
             Inl e \<Rightarrow> [Returns (Break (if errors_is e IoEOF then Inr () else Inl e, c))]
           | Inr resp \<Rightarrow>
               map (map_outcome (\<lambda>(r, c1). case r of Inl e \<Rightarrow> Break (Inl e, c1) | Inr _ \<Rightarrow> Again c1))
                 (handleConfigUpdate enc cancelled' resp c))"

definition Run_init :: "config_client \<Rightarrow> config_client" where
  "Run_init c = c\<lparr>cc_pendingSnapshot := [], cc_snapshotComplete := False\<rparr>"

text \<open>
  The loop beside the reconciler, which may take an announcement off the cache's channel between
  iterations. The index lists the messages handled.
\<close>

inductive Run_loop :: "log_encoder \<Rightarrow> config_response list \<Rightarrow> config_client \<Rightarrow> config_client \<Rightarrow> bool" for enc where
  run_nil: "Run_loop enc [] c c"
| run_message: "Run_loop enc ms c c1 \<Longrightarrow> Returns (Again c2) \<in> set (Run_iteration enc (False, Inr m, cancelled) c1) \<Longrightarrow>
     Run_loop enc (ms @ [m]) c c2"
| run_drain: "Run_loop enc ms c c1 \<Longrightarrow> chan_buf (oc_changed (cc_cache c1)) \<noteq> [] \<Longrightarrow>
     Run_loop enc ms c (c1\<lparr>cc_cache := (cc_cache c1)\<lparr>oc_changed := chan_drop (oc_changed (cc_cache c1))\<rparr>\<rparr>)"

inductive_cases Run_loop_NilE: "Run_loop enc [] c c'"

section \<open>Keepalive and close\<close>

definition Config_SendKeepalive :: "unit \<Rightarrow> go_error option \<Rightarrow> config_client \<Rightarrow> unit result \<times> unit list" where
  "Config_SendKeepalive _ r c =
     (if cc_closed c then (Inl stream_closed, []) else (send_result r, [()]))"

definition Config_Close :: "config_client \<Rightarrow> config_client" where
  "Config_Close c = c\<lparr>cc_closed := True\<rparr>"

interpretation config_sender: closable_sender cc_closed Config_Close Config_SendKeepalive
  by unfold_locales (simp_all add: Config_SendKeepalive_def Config_Close_def)

section \<open>The protocol\<close>

text \<open>
  What the stream means: the snapshot gathered so far, whether it is complete, and the configured
  objects the reconciler sees. A message that breaks the protocol has no successor state.
\<close>

record config_spec =
  sp_pending :: "string \<rightharpoonup> configured_object"
  sp_complete :: bool
  sp_objects :: "string \<rightharpoonup> configured_object"

fun spec_mutation :: "config_mutation \<Rightarrow> (string \<rightharpoonup> configured_object) \<Rightarrow> (string \<rightharpoonup> configured_object) option" where
  "spec_mutation (CreateOrUpdateObject obj) m =
     Some (case CacheKeyForObject obj of Inl _ \<Rightarrow> m | Inr key \<Rightarrow> m(key \<mapsto> obj))"
| "spec_mutation (DeleteObject kind namespace name) m = Some (m(CacheKey kind namespace name := None))"
| "spec_mutation UnknownMutation m = None"

fun spec_response :: "config_response \<Rightarrow> config_spec \<Rightarrow> config_spec option" where
  "spec_response (UpdateConfiguration _) s = Some s"
| "spec_response (ResourceData obj) s =
     (if sp_complete s then None
      else Some (case CacheKeyForObject obj of
                   Inl _ \<Rightarrow> s
                 | Inr key \<Rightarrow> s\<lparr>sp_pending := (sp_pending s)(key \<mapsto> obj)\<rparr>))"
| "spec_response ResourceSnapshotComplete s =
     (if sp_complete s then None else Some (s\<lparr>sp_complete := True, sp_objects := sp_pending s\<rparr>))"
| "spec_response (ResourceMutation m) s =
     (if sp_complete s then map_option (\<lambda>x. s\<lparr>sp_objects := x\<rparr>) (spec_mutation m (sp_objects s)) else None)"
| "spec_response UnknownResponse s = None"

definition spec_run :: "config_response list \<Rightarrow> config_spec \<Rightarrow> config_spec option" where
  "spec_run ms s = foldl (\<lambda>r m. Option.bind r (spec_response m)) (Some s) ms"

definition abs_client :: "config_client \<Rightarrow> config_spec" where
  "abs_client c = \<lparr>sp_pending = gm_get (cc_pendingSnapshot c), sp_complete = cc_snapshotComplete c,
     sp_objects = gm_get (oc_objects (cc_cache c))\<rparr>"

section \<open>Refinement\<close>

lemma on_cache_Returns:
  "Returns (r, c') \<in> set (on_cache f c) \<longleftrightarrow> (\<exists>x. Returns (r, x) \<in> set (f (cc_cache c)) \<and> c' = c\<lparr>cc_cache := x\<rparr>)"
  by (force simp: on_cache_def)

lemma and_then_Returns:
  "Returns (r, c') \<in> set (and_then os f) \<longleftrightarrow>
     (\<exists>c. Returns (r, c) \<in> set os \<and> c' = (case r of Inl _ \<Rightarrow> c | Inr _ \<Rightarrow> f c))"
  by (force simp: and_then_def)

lemma on_cache_Nil: "on_cache f c = [] \<longleftrightarrow> f (cc_cache c) = []"
  by (simp add: on_cache_def)

lemma and_then_Nil: "and_then os f = [] \<longleftrightarrow> os = []"
  by (simp add: and_then_def)

lemmas cache_contents = cache_store.put_contents cache_store.remove_contents cache_store.swap_contents

lemma handleMutation_abs:
  assumes "Returns (Inr (), c') \<in> set (handleMutation cancelled key m c)" and "mutation_key m = Some key"
  shows "spec_mutation m (gm_get (oc_objects (cc_cache c))) = Some (gm_get (oc_objects (cc_cache c')))
    \<and> cc_pendingSnapshot c' = cc_pendingSnapshot c \<and> cc_snapshotComplete c' = cc_snapshotComplete c \<and> cc_stats c' = cc_stats c"
  using assms
  by (cases m) (auto simp: on_cache_Returns split: sum.splits dest!: cache_contents)

lemma handleConfigUpdate_abs:
  assumes "Returns (Inr (), c') \<in> set (handleConfigUpdate enc cancelled resp c)"
  shows "spec_response resp (abs_client c) = Some (abs_client c')"
proof (cases resp)
  case (ResourceMutation m)
  show ?thesis
  proof (cases "mutation_key m")
    case None
    then have "spec_mutation m x = Some x" for x by (cases m) (auto split: sum.splits)
    then show ?thesis using assms ResourceMutation None by (auto simp: abs_client_def split: if_splits)
  next
    case (Some key)
    then show ?thesis using assms ResourceMutation
      by (auto simp: and_then_Returns abs_client_def count_mutation_def split: if_splits dest!: handleMutation_abs)
  qed
qed (use assms in \<open>auto simp: handleUpdateConfiguration_def abs_client_def and_then_Returns on_cache_Returns
      split: if_splits sum.splits dest!: cache_contents\<close>)

lemma notify_select_err: "Returns (Inl e, c') \<in> set (notify_select cancelled k c) \<Longrightarrow> cancelled \<and> e = CtxErr"
  by (auto simp: notify_select_def split: if_splits)

lemma ReplaceAll_loop_err: "Returns (Inl e, ch') \<in> set (ReplaceAll_loop cancelled ch) \<Longrightarrow> cancelled \<and> e = CtxErr"
proof (induction cancelled ch rule: ReplaceAll_loop.induct)
  case (1 cancelled ch)
  then show ?case by (subst (asm) (2) ReplaceAll_loop.simps) (auto split: if_splits)
qed

lemma ReplaceAll_err: "Returns (Inl e, c') \<in> set (ReplaceAll cancelled m c) \<Longrightarrow> cancelled \<and> e = CtxErr"
proof -
  assume "Returns (Inl e, c') \<in> set (ReplaceAll cancelled m c)"
  then obtain r c1 where swap: "(r, c1) \<in> set (ReplaceAll_swap cancelled m c)"
    and ret: "Returns (Inl e, c') \<in> set (case r of Inl e \<Rightarrow> [Returns (Inl e, c1)]
       | Inr _ \<Rightarrow> map (map_outcome (\<lambda>(r', ch). (r', c1\<lparr>oc_changed := ch\<rparr>))) (ReplaceAll_loop cancelled (oc_changed c1)))"
    by (auto simp: ReplaceAll_def)
  from swap ret show ?thesis
    by (cases r) (auto dest: ReplaceAll_swap_cancelled ReplaceAll_loop_err)
qed

lemma Insert_err: "Returns (Inl e, c') \<in> set (Insert eq cancelled k v c) \<Longrightarrow> cancelled \<and> e = CtxErr"
  by (auto simp: Insert_def split: prod.splits if_splits dest!: notify_select_err)

lemma Delete_err: "Returns (Inl e, c') \<in> set (Delete cancelled k c) \<Longrightarrow> cancelled \<and> e = CtxErr"
  by (auto simp: Delete_def split: prod.splits if_splits dest!: notify_select_err)

lemmas cache_errs = ReplaceAll_err Insert_err Delete_err

text \<open>A handler fails exactly on a protocol violation, or because the context was cancelled.\<close>

lemma handleConfigUpdate_err:
  assumes "Returns (Inl e, c') \<in> set (handleConfigUpdate enc cancelled resp c)"
  shows "spec_response resp (abs_client c) = None \<and> c' = c \<or> cancelled \<and> e = CtxErr"
proof (cases resp)
  case (ResourceMutation m)
  show ?thesis
  proof (cases "mutation_key m")
    case (Some key)
    then show ?thesis using assms ResourceMutation
      by (cases m) (auto simp: abs_client_def and_then_Returns on_cache_Returns split: if_splits dest!: cache_errs)
  qed (use assms ResourceMutation in \<open>auto simp: abs_client_def split: if_splits\<close>)
qed (use assms in \<open>auto simp: abs_client_def and_then_Returns on_cache_Returns split: if_splits sum.splits dest!: cache_errs\<close>)

lemma loop_again_iff:
  "Again c2 = (case r of Inl e \<Rightarrow> Break (Inl e, c1) | Inr _ \<Rightarrow> Again c1) \<longleftrightarrow> r = Inr () \<and> c2 = c1"
  by (cases r) auto

lemma loop_break_iff:
  "Break x = (case r of Inl e \<Rightarrow> Break (Inl e, c1) | Inr _ \<Rightarrow> Again c1) \<longleftrightarrow> (\<exists>e. r = Inl e \<and> x = (Inl e, c1))"
  by (cases r) auto

lemma Run_loop_abs: "Run_loop enc ms c c' \<Longrightarrow> spec_run ms (abs_client c) = Some (abs_client c')"
proof (induction rule: Run_loop.induct)
  case (run_message ms c c1 c2 m cancelled)
  then have "Returns (Inr (), c2) \<in> set (handleConfigUpdate enc cancelled m c1)"
    by (auto simp: loop_again_iff)
  then show ?case using run_message.IH handleConfigUpdate_abs by (simp add: spec_run_def)
next
  case run_drain
  then show ?case by (simp add: abs_client_def)
qed (simp add: spec_run_def)

text \<open>Until the snapshot is complete only the local map changes.\<close>

lemma Run_loop_incomplete:
  assumes "Run_loop enc ms c c'" and "ResourceSnapshotComplete \<notin> set ms" and "\<not> cc_snapshotComplete c"
  shows "\<not> cc_snapshotComplete c' \<and> oc_objects (cc_cache c') = oc_objects (cc_cache c) \<and>
    oc_ready (cc_cache c') = oc_ready (cc_cache c)"
  using assms
proof (induction rule: Run_loop.induct)
  case (run_message ms c c1 c2 m cancelled)
  then have "Returns (Inr (), c2) \<in> set (handleConfigUpdate enc cancelled m c1)"
    by (auto simp: loop_again_iff)
  then show ?case using run_message
    by (cases m) (auto simp: handleUpdateConfiguration_def split: sum.splits)
qed auto

lemma handleConfigUpdate_incomplete:
  assumes "Returns (r, c') \<in> set (handleConfigUpdate enc cancelled m c)" and "m \<noteq> ResourceSnapshotComplete"
    and "\<not> cc_snapshotComplete c"
  shows "oc_objects (cc_cache c') = oc_objects (cc_cache c) \<and> oc_ready (cc_cache c') = oc_ready (cc_cache c)"
  using assms by (cases m) (auto simp: handleUpdateConfiguration_def split: sum.splits)

lemma ReplaceAll_live_returns:
  assumes "chan_live c"
  shows "ReplaceAll cancelled m c \<noteq> []"
proof -
  have loop: "ReplaceAll_loop cancelled ch \<noteq> []" if "\<not> chan_closed ch" "chan_cap ch = 1" "length (chan_buf ch) \<le> 1" for ch
  proof (cases cancelled)
    case True
    then show ?thesis by (subst ReplaceAll_loop.simps) simp
  next
    case False
    have "set (ReplaceAll_loop False ch) \<noteq> {}" by (simp only: ReplaceAll_loop_live [OF that]) simp
    then show ?thesis by (simp only: False set_empty) simp
  qed
  obtain r c1 where swap: "(r, c1) \<in> set (ReplaceAll_swap cancelled m c)"
    by (cases "ReplaceAll_swap cancelled m c") (auto simp: ReplaceAll_swap_def Let_def split: if_splits)
  have ch: "\<not> chan_closed (oc_changed c1)" "chan_cap (oc_changed c1) = 1" "length (chan_buf (oc_changed c1)) \<le> 1"
    using ReplaceAll_swap_objects [OF swap] assms by (auto simp: chan_live_def)
  show ?thesis using swap loop [OF ch] by (cases r) (force simp: ReplaceAll_def)+
qed

text \<open>A handler blocks only while an announcement is waiting for the reconciler.\<close>

lemma handleConfigUpdate_blocks:
  assumes "chan_live (cc_cache c)" and "handleConfigUpdate enc cancelled resp c = []"
  shows "\<not> cancelled \<and> chan_buf (oc_changed (cc_cache c)) \<noteq> []"
proof (cases resp)
  case (ResourceMutation m)
  have live: "chan_live (fst (Insert_locked eq k v (cc_cache c)))" "chan_live (fst (Delete_locked k (cc_cache c)))"
    for eq :: "configured_object \<Rightarrow> configured_object \<Rightarrow> bool" and k v
    using assms(1) by (simp_all add: chan_live_def Insert_locked_def Delete_locked_def)
  from assms(2) ResourceMutation obtain key where "handleMutation cancelled key m c = []"
    by (auto simp: and_then_Nil split: if_splits option.splits)
  then show ?thesis
    using notify_select_blocks [OF live(1)] notify_select_blocks [OF live(2)]
    by (cases m) (auto simp: on_cache_Nil Insert_def Delete_def Insert_locked_def Delete_locked_def
        split: prod.splits if_splits)
next
  case ResourceSnapshotComplete
  then show ?thesis using assms ReplaceAll_live_returns [OF assms(1)]
    by (auto simp: and_then_Nil on_cache_Nil split: if_splits)
qed (use assms in \<open>auto split: if_splits sum.splits\<close>)

section \<open>Properties\<close>

definition sample_object :: configured_object where
  "sample_object = \<lparr>co_annotations = None, co_labels = None, co_name = ''g'', co_namespace = None,
     co_kind_specific = Some (CksCiliumCidrGroup None)\<rparr>"

definition sample_client :: config_client where
  "sample_client = \<lparr>cc_verboseDebugging = False, cc_logs = fresh_syncer 0 [] [], cc_stats = NewStats,
     cc_cache = NewObjectCache, cc_closed = False, cc_pendingSnapshot = [], cc_snapshotComplete = False\<rparr>"

lemma sample_key: "CacheKeyForObject sample_object = Inr ''CiliumCIDRGroup//g''"
  by (simp add: CacheKeyForObject_def ExtractKind_def sample_object_def CacheKey_def str_get_def)

definition sample_client' :: config_client where
  "sample_client' = sample_client\<lparr>cc_pendingSnapshot := [(''CiliumCIDRGroup//g'', sample_object)], cc_snapshotComplete := True,
     cc_cache := \<lparr>oc_objects = [(''CiliumCIDRGroup//g'', sample_object)], oc_ready = True,
       oc_changed = \<lparr>chan_buf = [SnapshotReplaced], chan_cap = 1, chan_closed = False\<rparr>\<rparr>\<rparr>"

lemma sample_run: "Run_loop enc [ResourceData sample_object, ResourceSnapshotComplete] (Run_init sample_client) sample_client'"
proof -
  let ?c1 = "sample_client\<lparr>cc_pendingSnapshot := [(''CiliumCIDRGroup//g'', sample_object)]\<rparr>"
  have "Run_loop enc ([] @ [ResourceData sample_object]) (Run_init sample_client) ?c1"
    by (rule run_message [OF run_nil, of _ _ _ False]) (simp add: Run_init_def sample_client_def sample_key)
  then have "Run_loop enc [ResourceData sample_object] (Run_init sample_client) ?c1" by simp
  then have "Run_loop enc ([ResourceData sample_object] @ [ResourceSnapshotComplete]) (Run_init sample_client) sample_client'"
    by (rule run_message [where cancelled = False])
       (simp add: sample_client_def sample_client'_def and_then_def on_cache_def ReplaceAll_def ReplaceAll_swap_def
         NewObjectCache_def make_chan_def ReplaceAll_loop.simps chan_simps)
  then show ?thesis by simp
qed

text \<open>
  C1: one run of the configuration stream implements the protocol: after handling the messages \<open>ms\<close>, with the
  reconciler taking announcements at any time, the gathered snapshot, the completion flag and the
  objects the reconciler sees are those the protocol gives for \<open>ms\<close>.
\<close>

theorem config_refines_protocol:
  assumes "Run_loop enc ms (Run_init c) c'"
  shows "spec_run ms \<lparr>sp_pending = Map.empty, sp_complete = False, sp_objects = gm_get (oc_objects (cc_cache c))\<rparr>
    = Some (abs_client c')"
  using Run_loop_abs [OF assms] by (simp add: abs_client_def Run_init_def)

theorem config_refines_protocol_witness:
  "spec_run [ResourceData sample_object, ResourceSnapshotComplete]
     \<lparr>sp_pending = Map.empty, sp_complete = False, sp_objects = Map.empty\<rparr> = Some (abs_client sample_client') \<and>
   sp_objects (abs_client sample_client') ''CiliumCIDRGroup//g'' = Some sample_object"
  using config_refines_protocol [OF sample_run [of plain_encoder]]
  by (simp add: sample_client_def sample_client'_def abs_client_def NewObjectCache_def)

text \<open>
  A stream that ends for any reason before its snapshot is complete (an error, a protocol violation,
  a cancelled context, the server closing it) leaves the objects and the readiness of the cache as
  they were when the stream started.
\<close>

theorem config_keeps_previous_state:
  assumes "Run_loop enc ms (Run_init c) c1" and "ResourceSnapshotComplete \<notin> set ms"
    and "Returns (Break (r, c2)) \<in> set (Run_iteration enc (cancelled, recv, cancelled') c1)"
    and "recv \<noteq> Inr ResourceSnapshotComplete"
  shows "oc_objects (cc_cache c2) = oc_objects (cc_cache c) \<and> oc_ready (cc_cache c2) = oc_ready (cc_cache c)"
proof -
  have run: "\<not> cc_snapshotComplete c1 \<and> oc_objects (cc_cache c1) = oc_objects (cc_cache c) \<and>
      oc_ready (cc_cache c1) = oc_ready (cc_cache c)"
    using Run_loop_incomplete [OF assms(1,2)] by (simp add: Run_init_def)
  show ?thesis
  proof (cases "cancelled \<or> (\<exists>e. recv = Inl e)")
    case True
    then show ?thesis using assms(3) run by (auto split: if_splits)
  next
    case False
    then obtain m where m: "recv = Inr m" "\<not> cancelled" by (cases recv) auto
    then obtain r' where "Returns (r', c2) \<in> set (handleConfigUpdate enc cancelled' m c1)"
      using assms(3) by (auto simp: loop_break_iff)
    then show ?thesis using handleConfigUpdate_incomplete run m assms(4) by metis
  qed
qed

theorem config_keeps_previous_state_witness:
  "oc_objects (cc_cache (sample_client'\<lparr>cc_pendingSnapshot := [], cc_snapshotComplete := False\<rparr>)) =
     oc_objects (cc_cache sample_client') \<and>
   Returns (Break (Inl (ErrMsg ''server sent ResourceMutation before snapshot complete''),
       sample_client'\<lparr>cc_pendingSnapshot := [], cc_snapshotComplete := False\<rparr>))
     \<in> set (Run_iteration plain_encoder (False, Inr (ResourceMutation UnknownMutation), False) (Run_init sample_client'))"
proof -
  have step: "Returns (Break (Inl (ErrMsg ''server sent ResourceMutation before snapshot complete''),
       sample_client'\<lparr>cc_pendingSnapshot := [], cc_snapshotComplete := False\<rparr>))
     \<in> set (Run_iteration plain_encoder (False, Inr (ResourceMutation UnknownMutation), False) (Run_init sample_client'))"
    by (simp add: Run_init_def)
  show ?thesis using config_keeps_previous_state [OF run_nil _ step] step by simp
qed

text \<open>
  The handler of a message returns an error only for a message the protocol does not allow in the
  current state (and then changes nothing), or because the context was cancelled; a message of an
  unsupported kind is never an error.
\<close>

theorem config_errors_are_violations:
  "list_all (\<lambda>out. case out of Returns (Inl e, c') \<Rightarrow> spec_response resp (abs_client c) = None \<and> c' = c \<or> cancelled \<and> e = CtxErr
      | _ \<Rightarrow> True) (handleConfigUpdate enc cancelled resp c)"
  using handleConfigUpdate_err [of _ _ enc cancelled resp c]
  by (auto simp: list_all_iff split: outcome.splits sum.splits)

text \<open>
  While the cache's channel is open the handler of a message can block only when an announcement is
  already waiting to be taken by the reconciler; with an empty channel it always returns.
\<close>

theorem config_blocks_only_on_reconciler:
  assumes "chan_live (cc_cache c)" and "chan_buf (oc_changed (cc_cache c)) = []"
  shows "handleConfigUpdate enc cancelled resp c \<noteq> []"
  using handleConfigUpdate_blocks [OF assms(1)] assms(2) by blast

theorem config_blocks_only_on_reconciler_witness:
  "handleConfigUpdate plain_encoder False (ResourceMutation (DeleteObject ''a'' ''b'' ''c'')) sample_client \<noteq> []"
  by (rule config_blocks_only_on_reconciler) (simp_all add: sample_client_def, simp add: NewObjectCache_def make_chan_def)

end
