(* ===== verification/Flow_Keys.thy ===== *)
theory Flow_Keys
  imports Prelude "HOL-Library.Word"
begin

text \<open>
  \<open>api/illumio/cloud/k8sclustersync/v1/{flow,five_tuple_flow,cilium_flow}.go\<close>: the two kinds of network
  flow, their timestamps and the keys by which the flow cache aggregates them. A nil message pointer
  or an unset oneof is \<open>None\<close>; the getters give the zero value for it. A time is a number of nanoseconds.
\<close>

section \<open>Flows\<close>

type_synonym u32 = "32 word"

datatype ip_version = IP_NOT_USED | IPV4 | IPV6

record ip_header =
  ip_source :: string
  ip_destination :: string
  ip_ip_version :: ip_version

record tcp_flags =
  tf_fin :: bool
  tf_syn :: bool
  tf_rst :: bool
  tf_psh :: bool
  tf_ack :: bool
  tf_urg :: bool
  tf_ece :: bool
  tf_cwr :: bool
  tf_ns :: bool

datatype layer4 =
    L4Tcp u32 u32 "tcp_flags option"
  | L4Udp u32 u32
  | L4Sctp u32 u32
  | L4Icmpv4 u32 u32
  | L4Icmpv6 u32 u32

record five_tuple_flow =
  ft_layer3 :: "ip_header option"
  ft_layer4 :: "layer4 option"
  ft_timestamp :: "int option"

record flow_endpoint =
  ep_uid :: u32
  ep_cluster_name :: string
  ep_namespace :: string
  ep_labels :: "string list"
  ep_pod_name :: string
  ep_workloads :: "(string \<times> string) list"

record flow_policy =
  fp_name :: string
  fp_namespace :: string
  fp_labels :: "string list"
  fp_revision :: "64 word"
  fp_kind :: string

text \<open>A traffic direction and a verdict are the numbers of their enumerations; a service is its name and namespace.\<close>

record cilium_flow =
  cf_time :: "int option"
  cf_node_name :: string
  cf_traffic_direction :: int
  cf_verdict :: int
  cf_layer3 :: "ip_header option"
  cf_layer4 :: "layer4 option"
  cf_is_reply :: "bool option"
  cf_source_endpoint :: "flow_endpoint option"
  cf_destination_endpoint :: "flow_endpoint option"
  cf_destination_service :: "(string \<times> string) option"
  cf_egress_allowed_by :: "flow_policy list"
  cf_ingress_allowed_by :: "flow_policy list"
  cf_egress_denied_by :: "flow_policy list"
  cf_ingress_denied_by :: "flow_policy list"

datatype flow = FiveTupleFlow five_tuple_flow | CiliumFlow cilium_flow

section \<open>Keys\<close>

record five_tuple_key =
  fk_SourceIP :: string
  fk_DestinationIP :: string
  fk_SourcePort :: int
  fk_DestinationPort :: int
  fk_Protocol :: string

record cilium_key =
  ck_SourceIP :: string
  ck_DestinationIP :: string
  ck_SourcePort :: int
  ck_DestinationPort :: int
  ck_Protocol :: string
  ck_SourceK8sMeta :: u32
  ck_DestinationK8sMeta :: u32

datatype flow_key = FiveTupleFlowKey five_tuple_key | CiliumFlowKey cilium_key

definition GetSource :: "ip_header option \<Rightarrow> string" where
  "GetSource l3 = (case l3 of None \<Rightarrow> [] | Some h \<Rightarrow> ip_source h)"

definition GetDestination :: "ip_header option \<Rightarrow> string" where
  "GetDestination l3 = (case l3 of None \<Rightarrow> [] | Some h \<Rightarrow> ip_destination h)"

definition GetUid :: "flow_endpoint option \<Rightarrow> u32" where
  "GetUid ep = (case ep of None \<Rightarrow> 0 | Some e \<Rightarrow> ep_uid e)"

text \<open>The ports and the protocol name of the key, from the layer 4 header: the type switch both keys share.\<close>

fun l4_key :: "layer4 option \<Rightarrow> int \<times> int \<times> string" where
  "l4_key (Some (L4Tcp s d _)) = (uint s, uint d, ''TCP'')"
| "l4_key (Some (L4Udp s d)) = (uint s, uint d, ''UDP'')"
| "l4_key (Some (L4Sctp s d)) = (uint s, uint d, ''SCTP'')"
| "l4_key (Some (L4Icmpv4 _ _)) = (0, 0, ''ICMPv4'')"
| "l4_key (Some (L4Icmpv6 _ _)) = (0, 0, ''ICMPv6'')"
| "l4_key None = (0, 0, ''UNKNOWN'')"

definition FiveTuple_Key :: "five_tuple_flow \<Rightarrow> five_tuple_key" where
  "FiveTuple_Key f =
     (case l4_key (ft_layer4 f) of (sport, dport, proto) \<Rightarrow>
        \<lparr>fk_SourceIP = GetSource (ft_layer3 f), fk_DestinationIP = GetDestination (ft_layer3 f),
         fk_SourcePort = sport, fk_DestinationPort = dport, fk_Protocol = proto\<rparr>)"

definition swap_key :: "cilium_key \<Rightarrow> cilium_key" where
  "swap_key k = \<lparr>ck_SourceIP = ck_DestinationIP k, ck_DestinationIP = ck_SourceIP k,
     ck_SourcePort = ck_DestinationPort k, ck_DestinationPort = ck_SourcePort k, ck_Protocol = ck_Protocol k,
     ck_SourceK8sMeta = ck_DestinationK8sMeta k, ck_DestinationK8sMeta = ck_SourceK8sMeta k\<rparr>"

definition Cilium_Key :: "cilium_flow \<Rightarrow> cilium_key" where
  "Cilium_Key f =
     (case l4_key (cf_layer4 f) of (sport, dport, proto) \<Rightarrow>
        let key = \<lparr>ck_SourceIP = GetSource (cf_layer3 f), ck_DestinationIP = GetDestination (cf_layer3 f),
              ck_SourcePort = sport, ck_DestinationPort = dport, ck_Protocol = proto,
              ck_SourceK8sMeta = GetUid (cf_source_endpoint f), ck_DestinationK8sMeta = GetUid (cf_destination_endpoint f)\<rparr>
        in if cf_is_reply f = Some True then swap_key key else key)"

fun Key :: "flow \<Rightarrow> flow_key" where
  "Key (FiveTupleFlow f) = FiveTupleFlowKey (FiveTuple_Key f)"
| "Key (CiliumFlow f) = CiliumFlowKey (Cilium_Key f)"

text \<open>\<open>AsTime\<close> of a nil timestamp is the epoch.\<close>

fun StartTimestamp :: "flow \<Rightarrow> int" where
  "StartTimestamp (FiveTupleFlow f) = (case ft_timestamp f of None \<Rightarrow> 0 | Some t \<Rightarrow> t)"
| "StartTimestamp (CiliumFlow f) = (case cf_time f of None \<Rightarrow> 0 | Some t \<Rightarrow> t)"

section \<open>Replies share the key of their connection\<close>

text \<open>The same packet seen in the other direction: addresses, ports and endpoints exchanged.\<close>

fun reverse_l4 :: "layer4 \<Rightarrow> layer4" where
  "reverse_l4 (L4Tcp s d fl) = L4Tcp d s fl"
| "reverse_l4 (L4Udp s d) = L4Udp d s"
| "reverse_l4 (L4Sctp s d) = L4Sctp d s"
| "reverse_l4 l = l"

definition reverse_ip :: "ip_header \<Rightarrow> ip_header" where
  "reverse_ip h = h\<lparr>ip_source := ip_destination h, ip_destination := ip_source h\<rparr>"

definition reply_of :: "cilium_flow \<Rightarrow> cilium_flow" where
  "reply_of f = f\<lparr>cf_layer3 := map_option reverse_ip (cf_layer3 f), cf_layer4 := map_option reverse_l4 (cf_layer4 f),
     cf_is_reply := Some (cf_is_reply f \<noteq> Some True),
     cf_source_endpoint := cf_destination_endpoint f, cf_destination_endpoint := cf_source_endpoint f\<rparr>"

lemma l4_key_reverse: "l4_key (map_option reverse_l4 l) = (case l4_key l of (s, d, p) \<Rightarrow> (d, s, p))"
  by (cases l rule: l4_key.cases) auto

lemma swap_key_swap [simp]: "swap_key (swap_key k) = k"
  by (simp add: swap_key_def)

lemma Cilium_Key_reply: "Cilium_Key (reply_of f) = Cilium_Key f"
  by (auto simp: Cilium_Key_def reply_of_def l4_key_reverse swap_key_def GetSource_def GetDestination_def
      reverse_ip_def Let_def split: prod.splits option.splits)

section \<open>Properties\<close>

text \<open>
  A Cilium flow and its reply have the same key, so the cache aggregates both directions of a
  connection; the key of a flow not marked as a reply is its own five-tuple with the endpoint ids.
\<close>

theorem reply_same_key:
  "Key (CiliumFlow (reply_of f)) = Key (CiliumFlow f) \<and>
   (cf_is_reply f \<noteq> Some True \<longrightarrow> ck_SourceIP (Cilium_Key f) = GetSource (cf_layer3 f) \<and>
      ck_DestinationK8sMeta (Cilium_Key f) = GetUid (cf_destination_endpoint f))"
  by (simp add: Cilium_Key_reply) (simp add: Cilium_Key_def Let_def split: prod.splits)

definition sample_cilium_flow :: cilium_flow where
  "sample_cilium_flow = \<lparr>cf_time = Some 5, cf_node_name = ''n'', cf_traffic_direction = 2, cf_verdict = 1,
     cf_layer3 = Some \<lparr>ip_source = ''10.0.0.1'', ip_destination = ''10.0.0.2'', ip_ip_version = IPV4\<rparr>,
     cf_layer4 = Some (L4Tcp 40000 443 None), cf_is_reply = Some False, cf_source_endpoint = None,
     cf_destination_endpoint = Some \<lparr>ep_uid = 7, ep_cluster_name = [], ep_namespace = [], ep_labels = [], ep_pod_name = [],
       ep_workloads = []\<rparr>,
     cf_destination_service = None, cf_egress_allowed_by = [], cf_ingress_allowed_by = [], cf_egress_denied_by = [],
     cf_ingress_denied_by = []\<rparr>"

theorem reply_same_key_witness:
  "Key (CiliumFlow (reply_of sample_cilium_flow)) = Key (CiliumFlow sample_cilium_flow) \<and>
   ck_SourceIP (Cilium_Key sample_cilium_flow) = ''10.0.0.1'' \<and> ck_DestinationK8sMeta (Cilium_Key sample_cilium_flow) = 7"
  using reply_same_key [of sample_cilium_flow]
  by (simp add: sample_cilium_flow_def GetSource_def GetUid_def)

end
