(* ===== verification/Flow_Cache.thy ===== *)
theory Flow_Cache
  imports Flow_Keys Stats Deadlock Stream_Client "HOL-Library.Multiset"
begin

text \<open>
  \<open>internal/controller/stream/flows/cache/cache.go\<close> and \<open>internal/controller/stream/flows/client.go\<close>: the flow
  cache, a map and a queue ordered by time, its eviction by age and by capacity, and the client that
  sends evicted flows to CloudSecure. The clock is an argument. A send on \<open>OutFlows\<close> competes with
  \<open>ctx.Done()\<close> in a select; the branch taken is an argument, and a flow removed from the cache whose
  send lost the select is recorded as dropped.
\<close>

section \<open>State\<close>

text \<open>\<open>fc_timer\<close> is the time at which the eviction timer fires, \<open>None\<close> once it has fired and was not set again.\<close>

record flow_cache =
  fc_cache :: "(flow_key, flow) gomap"
  fc_queue :: "flow list"
  fc_activeTimeout :: int
  fc_maxFlows :: int
  fc_timer :: "int option"

definition NewFlowCache :: "int \<Rightarrow> int \<Rightarrow> flow_cache" where
  "NewFlowCache activeTimeout maxFlows =
     \<lparr>fc_cache = [], fc_queue = [], fc_activeTimeout = activeTimeout, fc_maxFlows = maxFlows, fc_timer = None\<rparr>"

text \<open>What a step lets out: flows sent to \<open>OutFlows\<close>, and flows lost to a cancelled context.\<close>

record flow_output =
  fo_sent :: "flow list"
  fo_dropped :: "flow list"

definition no_output :: flow_output where
  "no_output = \<lparr>fo_sent = [], fo_dropped = []\<rparr>"

definition one_output :: "bool \<Rightarrow> flow \<Rightarrow> flow_output" where
  "one_output sent f = (if sent then \<lparr>fo_sent = [f], fo_dropped = []\<rparr> else \<lparr>fo_sent = [], fo_dropped = [f]\<rparr>)"

definition join_output :: "flow_output \<Rightarrow> flow_output \<Rightarrow> flow_output" where
  "join_output a b = \<lparr>fo_sent = fo_sent a @ fo_sent b, fo_dropped = fo_dropped a @ fo_dropped b\<rparr>"

section \<open>The operations\<close>

definition resetTimer :: "int \<Rightarrow> flow_cache \<Rightarrow> flow_cache" where
  "resetTimer timestamp c = c\<lparr>fc_timer := Some (timestamp + fc_activeTimeout c)\<rparr>"

definition resetTimerForNextExpiration :: "flow_cache \<Rightarrow> flow_cache" where
  "resetTimerForNextExpiration c =
     (case fc_queue c of [] \<Rightarrow> c | f # _ \<Rightarrow> resetTimer (StartTimestamp f) c)"

definition shouldSkipFlow :: "flow \<Rightarrow> flow_cache \<Rightarrow> bool" where
  "shouldSkipFlow f c \<longleftrightarrow> gm_get (fc_cache c) (Key f) \<noteq> None"

definition shouldEvictOldest :: "flow_cache \<Rightarrow> bool" where
  "shouldEvictOldest c \<longleftrightarrow> int (length (fc_cache c)) \<ge> fc_maxFlows c"

text \<open>Take the front of the queue out of both structures.\<close>

definition remove_front :: "flow \<Rightarrow> flow_cache \<Rightarrow> flow_cache" where
  "remove_front f c = c\<lparr>fc_queue := tl (fc_queue c), fc_cache := gm_del (Key f) (fc_cache c)\<rparr>"

text \<open>The search from the back, on the reversed queue.\<close>

fun insert_back :: "flow \<Rightarrow> flow list \<Rightarrow> flow list" where
  "insert_back f [] = [f]"
| "insert_back f (e # es) =
     (if \<not> StartTimestamp e > StartTimestamp f then f # e # es else e # insert_back f es)"

definition addFlowToCache :: "flow \<Rightarrow> flow_cache \<Rightarrow> flow_cache" where
  "addFlowToCache f c =
     c\<lparr>fc_queue := rev (insert_back f (rev (fc_queue c))), fc_cache := gm_put (Key f) f (fc_cache c)\<rparr>"

text \<open>
  \<open>evictExpiredFlows\<close>: \<open>sends\<close> gives the branch each select takes, sent (\<open>True\<close>) or context cancelled (\<open>False\<close>); the
  list is as long as the loop may run.
\<close>

fun evict_loop :: "int \<Rightarrow> bool list \<Rightarrow> flow_cache \<Rightarrow> flow_output \<times> flow_cache" where
  "evict_loop cutoff [] c = (no_output, c)"
| "evict_loop cutoff (sent # sends) c =
     (case fc_queue c of
        [] \<Rightarrow> (no_output, c)
      | f # _ \<Rightarrow>
          if StartTimestamp f > cutoff then (no_output, c)
          else let c1 = remove_front f c in
               if \<not> sent then (one_output False f, c1)
               else case evict_loop cutoff sends c1 of (out, c2) \<Rightarrow> (join_output (one_output True f) out, c2))"

definition evictExpiredFlows :: "int \<Rightarrow> bool list \<Rightarrow> flow_cache \<Rightarrow> flow_output \<times> flow_cache" where
  "evictExpiredFlows now sends c = evict_loop (now - fc_activeTimeout c) sends c"

definition evictOldestFlow :: "bool \<Rightarrow> flow_cache \<Rightarrow> unit result \<times> flow_output \<times> flow_cache" where
  "evictOldestFlow sent c =
     (case fc_queue c of
        [] \<Rightarrow> (Inr (), no_output, c)
      | f # _ \<Rightarrow> (if sent then Inr () else Inl CtxErr, one_output sent f, remove_front f c))"

text \<open>
  The branches of the select in \<open>Run\<close>. A flow received when the eviction before it is cancelled is lost
  with the evicted one, since \<open>Run\<close> returns.
\<close>

datatype flow_event = FlowCtxDone | FlowTimer int "bool list" | FlowReceived flow bool

definition Run_timer :: "int \<Rightarrow> bool list \<Rightarrow> flow_cache \<Rightarrow> flow_output \<times> flow_cache" where
  "Run_timer now sends c =
     (case evictExpiredFlows now sends (c\<lparr>fc_timer := None\<rparr>) of (out, c1) \<Rightarrow>
        (out, case fc_queue c1 of [] \<Rightarrow> c1 | f # _ \<Rightarrow> resetTimer (StartTimestamp f) c1))"

definition Run_received :: "flow \<Rightarrow> bool \<Rightarrow> flow_cache \<Rightarrow> (unit result, flow_cache) loop \<times> flow_output \<times> flow_cache" where
  "Run_received f sent c =
     (if shouldSkipFlow f c then (Again c, no_output, c)
      else if shouldEvictOldest c then
        (case evictOldestFlow sent c of
           (Inl e, out, c1) \<Rightarrow> (Break (Inl e), join_output out (one_output False f), c1)
         | (Inr _, out, c1) \<Rightarrow>
             (let c2 = resetTimerForNextExpiration (addFlowToCache f c1) in (Again c2, out, c2)))
      else (let c2 = resetTimerForNextExpiration (addFlowToCache f c) in (Again c2, no_output, c2)))"

fun Run_select :: "flow_event \<Rightarrow> flow_cache \<Rightarrow> (unit result, flow_cache) loop \<times> flow_output \<times> flow_cache" where
  "Run_select FlowCtxDone c = (Break (Inl CtxErr), no_output, c)"
| "Run_select (FlowTimer now sends) c = (case Run_timer now sends c of (out, c1) \<Rightarrow> (Again c1, out, c1))"
| "Run_select (FlowReceived f sent) c = Run_received f sent c"

text \<open>
  \<open>Run\<close> sets its timer and goes round until a branch returns. The cache outlives it: the next stream runs
  it again.
\<close>

fun FlowCache_loop :: "flow_event list \<Rightarrow> flow_cache \<Rightarrow> flow_output \<times> flow_cache" where
  "FlowCache_loop [] c = (no_output, c)"
| "FlowCache_loop (e # es) c =
     (case Run_select e c of
        (Break _, out, c1) \<Rightarrow> (out, c1)
      | (Again _, out, c1) \<Rightarrow> (case FlowCache_loop es c1 of (out2, c2) \<Rightarrow> (join_output out out2, c2)))"

definition FlowCache_Run :: "int \<Rightarrow> flow_event list \<Rightarrow> flow_cache \<Rightarrow> flow_output \<times> flow_cache" where
  "FlowCache_Run now es c = FlowCache_loop es (c\<lparr>fc_timer := Some (now + fc_activeTimeout c)\<rparr>)"

text \<open>\<open>CacheFlow\<close> on the channel \<open>inFlows\<close> of capacity 1.\<close>

definition CacheFlow :: "bool \<Rightarrow> flow \<Rightarrow> flow chan \<Rightarrow> (unit result \<times> flow chan) outcome list" where
  "CacheFlow cancelled f ch =
     (if cancelled then [Returns (Inl CtxErr, ch)] else []) @
     (if chan_closed ch then [Panics ''send on closed channel'']
      else if chan_room ch then [Returns (Inr (), chan_push f ch)] else [])"

section \<open>The network flows client\<close>

datatype flow_request = ReqKeepalive | ReqFiveTuple five_tuple_flow | ReqCilium cilium_flow

record flows_client =
  fl_closed :: bool
  fl_stats :: stats
  fl_liveness :: deadlock_detector

fun flow_request_of :: "flow \<Rightarrow> flow_request" where
  "flow_request_of (FiveTupleFlow f) = ReqFiveTuple f"
| "flow_request_of (CiliumFlow f) = ReqCilium f"

definition Flows_send :: "flow_request \<Rightarrow> go_error option \<Rightarrow> flows_client \<Rightarrow> unit result \<times> flow_request list" where
  "Flows_send req r c = (if fl_closed c then (Inl stream_closed, []) else (send_result r, [req]))"

definition Flows_Close :: "flows_client \<Rightarrow> flows_client" where
  "Flows_Close c = c\<lparr>fl_closed := True\<rparr>"

interpretation flows_sender: closable_sender fl_closed Flows_Close Flows_send
  by unfold_locales (simp_all add: Flows_send_def Flows_Close_def)

text \<open>A flow that was sent is recorded for the health probe; \<open>now\<close> is the clock.\<close>

definition sendNetworkFlowRequest ::
  "int \<Rightarrow> flow \<Rightarrow> go_error option \<Rightarrow> flows_client \<Rightarrow> (unit result \<times> flow_request list) \<times> flows_client" where
  "sendNetworkFlowRequest now f r c =
     (case Flows_send (flow_request_of f) r c of
        (Inl e, reqs) \<Rightarrow> ((Inl e, reqs), c)
      | (Inr u, reqs) \<Rightarrow> ((Inr u, reqs), c\<lparr>fl_liveness := RecordFlowSent now (fl_liveness c)\<rparr>))"

definition Flows_SendKeepalive :: "go_error option \<Rightarrow> flows_client \<Rightarrow> unit result \<times> flow_request list" where
  "Flows_SendKeepalive r c = Flows_send ReqKeepalive r c"

text \<open>The loop of the client's \<open>Run\<close>: one element per round of the select.\<close>

datatype flows_event = FlCtxDone | FlFlow flow int "go_error option" | FlOutClosed

fun Flows_Run :: "flows_event list \<Rightarrow> flows_client \<Rightarrow> (unit result option \<times> flow_request list) \<times> flows_client" where
  "Flows_Run [] c = ((None, []), c)"
| "Flows_Run (FlCtxDone # es) c = ((Some (Inl CtxErr), []), c)"
| "Flows_Run (FlOutClosed # es) c = ((Some (Inr ()), []), c)"
| "Flows_Run (FlFlow f now r # es) c =
     (case sendNetworkFlowRequest now f r c of
        ((Inl e, reqs), c1) \<Rightarrow> ((Some (Inl e), reqs), c1)
      | ((Inr _, reqs), c1) \<Rightarrow>
          (case Flows_Run es (c1\<lparr>fl_stats := IncrementFlowsSentToClusterSync (fl_stats c1)\<rparr>) of
             ((res, reqs'), c2) \<Rightarrow> ((res, reqs @ reqs'), c2)))"

section \<open>The ordered queue\<close>

abbreviation ts :: "flow \<Rightarrow> int" where
  "ts \<equiv> StartTimestamp"

text \<open>The reference the search from the back is compared with: after every flow that is not newer.\<close>

definition insert_ref :: "flow \<Rightarrow> flow list \<Rightarrow> flow list" where
  "insert_ref f q = filter (\<lambda>e. ts e \<le> ts f) q @ f # filter (\<lambda>e. ts e > ts f) q"

lemma insert_back_mset [simp]: "mset (insert_back f es) = add_mset f (mset es)"
  by (induction es) auto

lemma insert_back_ref:
  assumes "sorted (map ts q)"
  shows "rev (insert_back f (rev q)) = insert_ref f q"
  using assms
proof (induction q rule: rev_induct)
  case (snoc e q)
  then have le: "\<forall>x \<in> set q. ts x \<le> ts e" and s: "sorted (map ts q)" by (auto simp: sorted_append)
  show ?case
  proof (cases "ts e > ts f")
    case True
    then show ?thesis using snoc.IH [OF s] by (simp add: insert_ref_def)
  next
    case False
    then have "filter (\<lambda>x. ts x \<le> ts f) q = q" "filter (\<lambda>x. ts x > ts f) q = []"
      using le by (auto simp: filter_id_conv filter_empty_conv)
    with False show ?thesis by (simp add: insert_ref_def)
  qed
qed (simp add: insert_ref_def)

lemma sorted_insert_ref:
  assumes "sorted (map ts q)"
  shows "sorted (map ts (insert_ref f q))"
proof -
  have "sorted (map ts (filter P q))" for P using assms by (rule sorted_filter)
  then show ?thesis by (auto simp: insert_ref_def sorted_append)
qed

section \<open>The invariant\<close>

text \<open>
  The map holds exactly the queue, under distinct keys; the queue is in time order; a full cache makes
  room before it takes a flow in, so it holds at most \<open>maxFlows\<close> flows (one when \<open>maxFlows\<close> is not positive).
\<close>

definition flow_inv :: "flow_cache \<Rightarrow> bool" where
  "flow_inv c \<longleftrightarrow> sorted (map ts (fc_queue c)) \<and> distinct (map Key (fc_queue c)) \<and> gm_ok (fc_cache c) \<and>
     gm_get (fc_cache c) = map_of (map (\<lambda>f. (Key f, f)) (fc_queue c)) \<and>
     int (length (fc_queue c)) \<le> max 1 (fc_maxFlows c)"

lemma map_of_keyed:
  "distinct (map Key q) \<Longrightarrow> map_of (map (\<lambda>f. (Key f, f)) q) k = Some f \<longleftrightarrow> f \<in> set q \<and> Key f = k"
  by (induction q) (auto simp: rev_image_eqI)

lemma map_of_keyed_None: "map_of (map (\<lambda>f. (Key f, f)) q) k = None \<longleftrightarrow> k \<notin> Key ` set q"
  by (induction q) auto

lemma map_of_keyed_mset:
  assumes "distinct (map Key q)" and "mset q = mset q'"
  shows "map_of (map (\<lambda>f. (Key f, f)) q) = map_of (map (\<lambda>f. (Key f, f)) q')"
proof
  fix k
  have d: "distinct (map Key q')" using assms by (metis mset_map mset_eq_imp_distinct_iff)
  have s: "set q = set q'" using assms(2) by (rule mset_eq_setD)
  show "map_of (map (\<lambda>f. (Key f, f)) q) k = map_of (map (\<lambda>f. (Key f, f)) q') k"
    using map_of_keyed [OF assms(1), of k] map_of_keyed [OF d, of k] s
    by (metis not_None_eq)
qed

lemma flow_inv_length:
  assumes "flow_inv c"
  shows "length (fc_cache c) = length (fc_queue c)"
proof -
  have "set (gm_keys (fc_cache c)) = dom (gm_get (fc_cache c))" by (simp add: dom_map_of_conv_image_fst)
  also have "\<dots> = set (map Key (fc_queue c))"
    using assms by (simp add: flow_inv_def dom_map_of_conv_image_fst image_image)
  finally have "card (set (gm_keys (fc_cache c))) = card (set (map Key (fc_queue c)))" by simp
  moreover have "distinct (gm_keys (fc_cache c))" "distinct (map Key (fc_queue c))"
    using assms by (simp_all add: flow_inv_def gm_ok_def)
  ultimately show ?thesis by (simp only: distinct_card length_map)
qed

lemma flow_inv_new: "flow_inv (NewFlowCache t m)"
  by (simp add: flow_inv_def NewFlowCache_def)

lemma flow_inv_timer [simp]: "flow_inv (c\<lparr>fc_timer := t\<rparr>) = flow_inv c"
  by (simp add: flow_inv_def)

lemma flow_inv_resetTimer [simp]: "flow_inv (resetTimer t c) = flow_inv c"
  by (simp add: resetTimer_def)

lemma flow_inv_resetNext [simp]: "flow_inv (resetTimerForNextExpiration c) = flow_inv c"
  by (simp add: resetTimerForNextExpiration_def split: list.split)

lemma flow_inv_remove_front:
  assumes "flow_inv c" and "fc_queue c = f # q"
  shows "flow_inv (remove_front f c)"
proof -
  have "map_of (map (\<lambda>f. (Key f, f)) q) (Key f) = None"
    using assms by (simp add: flow_inv_def map_of_keyed_None)
  then have "(map_of (map (\<lambda>f. (Key f, f)) (f # q)))(Key f := None) = map_of (map (\<lambda>f. (Key f, f)) q)"
    by (auto simp: fun_eq_iff)
  then show ?thesis using assms by (auto simp: flow_inv_def remove_front_def delete_conv')
qed

lemma flow_inv_add:
  assumes "flow_inv c" and "\<not> shouldSkipFlow f c" and "int (length (fc_queue c)) < max 1 (fc_maxFlows c)"
  shows "flow_inv (addFlowToCache f c)"
proof -
  let ?q = "rev (insert_back f (rev (fc_queue c)))"
  have fresh: "Key f \<notin> Key ` set (fc_queue c)"
    using assms(1,2) by (auto simp: shouldSkipFlow_def flow_inv_def map_of_keyed_None)
  have ms: "mset ?q = mset (f # fc_queue c)" by simp
  have d: "distinct (map Key (f # fc_queue c))" using fresh assms(1) by (auto simp: flow_inv_def)
  have "distinct (map Key ?q)" using d ms by (metis mset_map mset_eq_imp_distinct_iff)
  moreover have "sorted (map ts ?q)" using assms(1) by (simp add: flow_inv_def insert_back_ref sorted_insert_ref)
  moreover have "map_of (map (\<lambda>f. (Key f, f)) ?q) = (map_of (map (\<lambda>f. (Key f, f)) (fc_queue c)))(Key f \<mapsto> f)"
    using map_of_keyed_mset [OF d ms [symmetric]] by simp
  moreover have "length ?q = Suc (length (fc_queue c))" using ms by (metis length_Cons size_mset)
  ultimately show ?thesis using assms
    by (simp add: flow_inv_def addFlowToCache_def update_conv' del: rev_map)
qed

section \<open>Steps keep the invariant and lose no flow\<close>

lemma add_queue [simp]: "mset (fc_queue (addFlowToCache f c)) = add_mset f (mset (fc_queue c))"
  by (simp add: addFlowToCache_def)

lemma reset_queue [simp]: "fc_queue (resetTimerForNextExpiration c) = fc_queue c" "fc_queue (resetTimer t c) = fc_queue c"
  by (simp_all add: resetTimerForNextExpiration_def resetTimer_def split: list.split)

definition out_mset :: "flow_output \<Rightarrow> flow multiset" where
  "out_mset out = mset (fo_sent out) + mset (fo_dropped out)"

lemma out_mset_simps [simp]:
  "out_mset no_output = {#}" "out_mset (one_output b f) = {#f#}"
  "out_mset (join_output x y) = out_mset x + out_mset y"
  by (simp_all add: out_mset_def no_output_def one_output_def join_output_def)

lemma output_simps [simp]:
  "fo_sent no_output = []" "fo_dropped no_output = []"
  "fo_sent (one_output b f) = (if b then [f] else [])" "fo_dropped (one_output b f) = (if b then [] else [f])"
  "fo_sent (join_output x y) = fo_sent x @ fo_sent y" "fo_dropped (join_output x y) = fo_dropped x @ fo_dropped y"
  by (simp_all add: no_output_def one_output_def join_output_def)

lemma remove_front_queue: "fc_queue c = f # q \<Longrightarrow> fc_queue (remove_front f c) = q"
  by (simp add: remove_front_def)

lemma evict_loop_step:
  "flow_inv c \<Longrightarrow> evict_loop cutoff sends c = (out, c') \<Longrightarrow>
   flow_inv c' \<and> out_mset out + mset (fc_queue c') = mset (fc_queue c) \<and> fc_activeTimeout c' = fc_activeTimeout c \<and>
   fc_timer c' = fc_timer c"
proof (induction cutoff sends c arbitrary: out rule: evict_loop.induct)
  case (2 cutoff sent sends c)
  show ?case
  proof (cases "fc_queue c")
    case (Cons f q)
    note inv = flow_inv_remove_front [OF "2.prems"(1) Cons]
    have t: "fc_activeTimeout (remove_front f c) = fc_activeTimeout c" "fc_timer (remove_front f c) = fc_timer c"
      by (simp_all add: remove_front_def)
    obtain out2 c2 where rec: "evict_loop cutoff sends (remove_front f c) = (out2, c2)" by (metis surj_pair)
    show ?thesis using "2.prems" "2.IH" [OF Cons _ refl _ inv] Cons inv t rec
      by (auto simp: Let_def remove_front_queue split: if_splits)
  qed (use 2 in auto)
qed auto

lemma evictOldest_step:
  assumes "flow_inv c" and "evictOldestFlow sent c = (r, out, c')"
  shows "flow_inv c' \<and> out_mset out + mset (fc_queue c') = mset (fc_queue c) \<and>
    (fc_queue c \<noteq> [] \<longrightarrow> length (fc_queue c') < length (fc_queue c)) \<and> fc_maxFlows c' = fc_maxFlows c \<and>
    (\<forall>f. gm_get (fc_cache c) (Key f) = None \<longrightarrow> gm_get (fc_cache c') (Key f) = None) \<and>
    (r = Inr () \<longleftrightarrow> fo_dropped out = [])"
  using assms
  by (cases "fc_queue c")
     (auto simp: evictOldestFlow_def remove_front_queue intro: flow_inv_remove_front split: if_splits,
      auto simp: remove_front_def)

text \<open>What a step takes in: the flow it received, unless its key is cached already.\<close>

fun taken :: "flow_event \<Rightarrow> flow_cache \<Rightarrow> flow list" where
  "taken (FlowReceived f _) c = (if shouldSkipFlow f c then [] else [f])"
| "taken _ c = []"

lemma Run_received_step:
  assumes "flow_inv c" and "Run_received f sent c = (r, out, c')"
  shows "flow_inv c' \<and> out_mset out + mset (fc_queue c') = mset (fc_queue c) + mset (taken (FlowReceived f sent) c) \<and>
    (\<forall>x. r = Again x \<longrightarrow> fo_dropped out = [])"
proof (cases "shouldSkipFlow f c")
  case True
  then show ?thesis using assms by (auto simp: Run_received_def)
next
  case skip: False
  show ?thesis
  proof (cases "shouldEvictOldest c")
    case True
    obtain r1 out1 c1 where ev: "evictOldestFlow sent c = (r1, out1, c1)" by (metis surj_pair)
    note es = evictOldest_step [OF assms(1) ev]
    have skip1: "\<not> shouldSkipFlow f c1" using skip es by (simp add: shouldSkipFlow_def)
    have room: "int (length (fc_queue c1)) < max 1 (fc_maxFlows c1)"
      using es assms(1) by (cases "fc_queue c = []") (auto simp: flow_inv_def)
    note add = flow_inv_add [OF _ skip1 room]
    show ?thesis using assms(2) ev es add skip True
      by (cases r1) (auto simp: Run_received_def Let_def)
  next
    case False
    then have "int (length (fc_queue c)) < max 1 (fc_maxFlows c)"
      using flow_inv_length [OF assms(1)] by (simp add: shouldEvictOldest_def)
    note add = flow_inv_add [OF assms(1) skip this]
    show ?thesis using assms add skip False
      by (auto simp: Run_received_def Let_def)
  qed
qed

lemma Run_timer_step:
  assumes "flow_inv c" and "Run_timer now sends c = (out, c')"
  shows "flow_inv c' \<and> out_mset out + mset (fc_queue c') = mset (fc_queue c)"
proof -
  obtain out1 c1 where ev: "evict_loop (now - fc_activeTimeout c) sends (c\<lparr>fc_timer := None\<rparr>) = (out1, c1)"
    by (metis surj_pair)
  show ?thesis using evict_loop_step [OF _ ev] assms
    by (auto simp: Run_timer_def evictExpiredFlows_def ev resetTimer_def split: list.splits)
qed

lemma Run_select_step:
  assumes "flow_inv c" and "Run_select e c = (r, out, c')"
  shows "flow_inv c' \<and> out_mset out + mset (fc_queue c') = mset (fc_queue c) + mset (taken e c)"
proof (cases e)
  case (FlowTimer now sends)
  then obtain out1 c1 where "Run_timer now sends c = (out1, c1)" by (metis surj_pair)
  then show ?thesis using Run_timer_step [OF assms(1), of now sends out1 c1] assms(2) FlowTimer by simp
next
  case (FlowReceived f sent)
  then show ?thesis using Run_received_step [OF assms(1), of f sent r out c'] assms(2) by simp
qed (use assms in simp)

fun loop_taken :: "flow_event list \<Rightarrow> flow_cache \<Rightarrow> flow list" where
  "loop_taken [] c = []"
| "loop_taken (e # es) c =
     (case Run_select e c of
        (Break _, _, _) \<Rightarrow> taken e c
      | (Again _, _, c1) \<Rightarrow> taken e c @ loop_taken es c1)"

lemma FlowCache_loop_step:
  "flow_inv c \<Longrightarrow> FlowCache_loop es c = (out, c') \<Longrightarrow>
   flow_inv c' \<and> out_mset out + mset (fc_queue c') = mset (fc_queue c) + mset (loop_taken es c)"
proof (induction es arbitrary: c out)
  case (Cons e es)
  obtain r out1 c1 where st: "Run_select e c = (r, out1, c1)" by (metis surj_pair)
  note ss = Run_select_step [OF Cons.prems(1) st]
  show ?case
  proof (cases r)
    case (Break x)
    then show ?thesis using Cons.prems st ss by auto
  next
    case (Again x)
    obtain out2 c2 where rest: "FlowCache_loop es c1 = (out2, c2)" by (metis surj_pair)
    show ?thesis using Cons.IH [of c1 out2] Cons.prems st ss Again rest by (auto simp: ac_simps)
  qed
qed auto

section \<open>Eviction by age\<close>

lemma sorted_filter_split:
  assumes "sorted (map ts (f # q))" and "ts f > cutoff"
  shows "filter (\<lambda>x. ts x \<le> cutoff) (f # q) = []" and "filter (\<lambda>x. ts x > cutoff) (f # q) = f # q"
  using assms by (auto simp: filter_empty_conv filter_id_conv)

lemma evict_loop_all:
  assumes "sorted (map ts (fc_queue c))" and "length (fc_queue c) \<le> length sends" and "list_all (\<lambda>b. b) sends"
    and "evict_loop cutoff sends c = (out, c')"
  shows "fo_sent out = filter (\<lambda>f. ts f \<le> cutoff) (fc_queue c) \<and> fo_dropped out = [] \<and>
    fc_queue c' = filter (\<lambda>f. ts f > cutoff) (fc_queue c)"
  using assms
proof (induction cutoff sends c arbitrary: out c' rule: evict_loop.induct)
  case (2 cutoff sent sends c)
  show ?case
  proof (cases "fc_queue c")
    case (Cons f q)
    show ?thesis
    proof (cases "ts f > cutoff")
      case True
      then show ?thesis using "2.prems" Cons sorted_filter_split [of f q cutoff] by auto
    next
      case False
      obtain out2 c2 where rec: "evict_loop cutoff sends (remove_front f c) = (out2, c2)" by (metis surj_pair)
      have sent: "sent" and rest: "list_all (\<lambda>b. b) sends" using "2.prems"(3) by auto
      have "fo_sent out2 = filter (\<lambda>x. ts x \<le> cutoff) q \<and> fo_dropped out2 = [] \<and> fc_queue c2 = filter (\<lambda>x. ts x > cutoff) q"
        using "2.IH" [OF Cons False refl _ _ _ rest rec] "2.prems"(1,2) Cons sent by (simp add: remove_front_queue)
      then show ?thesis using "2.prems"(4) Cons False sent rec by (auto simp: Let_def)
    qed
  qed (use "2.prems" in auto)
qed auto

section \<open>The timer\<close>

text \<open>
  While a flow is cached the timer is set: for the expiry of the oldest flow, or, until the first
  event, for \<open>start\<close> plus the timeout.
\<close>

definition timer_ok :: "int \<Rightarrow> flow_cache \<Rightarrow> bool" where
  "timer_ok start c \<longleftrightarrow>
     (case fc_queue c of
        [] \<Rightarrow> True
      | f # _ \<Rightarrow> fc_timer c = Some (ts f + fc_activeTimeout c) \<or> fc_timer c = Some (start + fc_activeTimeout c))"

lemma timer_ok_reset: "timer_ok start (resetTimerForNextExpiration c)"
  by (auto simp: timer_ok_def resetTimerForNextExpiration_def resetTimer_def split: list.split)

lemma Run_select_timer:
  assumes "timer_ok start c" and "Run_select e c = (Again x, out, c')"
  shows "timer_ok start c'"
proof (cases e)
  case (FlowTimer now sends)
  then show ?thesis using assms(2)
    by (auto simp: Run_timer_def timer_ok_def resetTimer_def split: prod.splits list.splits)
next
  case (FlowReceived f sent)
  then show ?thesis using assms
    by (auto simp: Run_received_def Let_def timer_ok_reset split: if_splits prod.splits sum.splits)
qed (use assms in simp)

section \<open>Properties\<close>

definition sample_flow :: "string \<Rightarrow> int \<Rightarrow> flow" where
  "sample_flow src t = FiveTupleFlow \<lparr>ft_layer3 = Some \<lparr>ip_source = src, ip_destination = ''d'', ip_ip_version = IPV4\<rparr>,
     ft_layer4 = Some (L4Udp 53 53), ft_timestamp = Some t\<rparr>"

lemma sample_flow_simps [simp]:
  "ts (sample_flow src t) = t" "Key (sample_flow src t) = Key (sample_flow src' t') \<longleftrightarrow> src = src'"
  "sample_flow src t = sample_flow src' t' \<longleftrightarrow> src = src' \<and> t = t'"
  by (auto simp: sample_flow_def FiveTuple_Key_def GetSource_def)

text \<open>
  C8: over a whole run of the flow cache, whatever flows arrive and whenever the context is cancelled, the map
  and the queue stay in step, distinct and in time order, the cache holds no more than \<open>maxFlows\<close> flows,
  and every flow taken in is exactly one of sent, still cached, or lost to the cancelled context.
\<close>

theorem flow_cache_conserves_flows:
  assumes "flow_inv c" and "FlowCache_Run now es c = (out, c')"
  shows "flow_inv c' \<and>
    mset (fo_sent out) + mset (fo_dropped out) + mset (fc_queue c') =
      mset (fc_queue c) + mset (loop_taken es (c\<lparr>fc_timer := Some (now + fc_activeTimeout c)\<rparr>))"
  using FlowCache_loop_step [of "c\<lparr>fc_timer := Some (now + fc_activeTimeout c)\<rparr>" es out c'] assms
  by (simp add: FlowCache_Run_def out_mset_def)

definition sample_flow_run :: "flow_output \<times> flow_cache" where
  "sample_flow_run = FlowCache_Run 0
     [FlowReceived (sample_flow ''a'' 5) True, FlowReceived (sample_flow ''b'' 3) True, FlowReceived (sample_flow ''a'' 9) True,
      FlowReceived (sample_flow ''c'' 4) True, FlowTimer 14 [True, True]] (NewFlowCache 10 2)"

lemmas flow_eval = FlowCache_Run_def NewFlowCache_def Run_received_def shouldSkipFlow_def shouldEvictOldest_def
  addFlowToCache_def resetTimerForNextExpiration_def resetTimer_def evictOldestFlow_def remove_front_def
  Run_timer_def evictExpiredFlows_def join_output_def one_output_def no_output_def

theorem flow_cache_conserves_flows_witness:
  "flow_inv (NewFlowCache 10 2) \<and> flow_inv (snd sample_flow_run) \<and>
   fo_sent (fst sample_flow_run) = [sample_flow ''b'' 3, sample_flow ''c'' 4] \<and>
   mset (fo_sent (fst sample_flow_run)) + mset (fo_dropped (fst sample_flow_run)) + mset (fc_queue (snd sample_flow_run)) =
     {#sample_flow ''a'' 5, sample_flow ''b'' 3, sample_flow ''c'' 4#}"
proof -
  obtain out c' where run: "sample_flow_run = (out, c')" by (metis surj_pair)
  have "fo_sent (fst sample_flow_run) = [sample_flow ''b'' 3, sample_flow ''c'' 4]"
    by (simp add: sample_flow_run_def flow_eval Let_def)
  moreover have "mset (loop_taken [FlowReceived (sample_flow ''a'' 5) True, FlowReceived (sample_flow ''b'' 3) True,
      FlowReceived (sample_flow ''a'' 9) True, FlowReceived (sample_flow ''c'' 4) True, FlowTimer 14 [True, True]]
      ((NewFlowCache 10 2)\<lparr>fc_timer := Some (0 + fc_activeTimeout (NewFlowCache 10 2))\<rparr>)) =
     {#sample_flow ''a'' 5, sample_flow ''b'' 3, sample_flow ''c'' 4#}"
    by (simp add: flow_eval Let_def)
  ultimately show ?thesis
    using flow_cache_conserves_flows [OF flow_inv_new run [unfolded sample_flow_run_def]] flow_inv_new
    by (simp add: run) (simp add: NewFlowCache_def)
qed

text \<open>
  C28: the insertion that searches the queue from its back puts a flow after every cached flow that is not
  newer and before every newer one, so an ordered queue stays ordered and equal times keep arrival order.
\<close>

theorem insertion_matches_reference:
  assumes "sorted (map StartTimestamp (fc_queue c))"
  shows "fc_queue (addFlowToCache f c) =
      filter (\<lambda>e. StartTimestamp e \<le> StartTimestamp f) (fc_queue c) @ f # filter (\<lambda>e. StartTimestamp e > StartTimestamp f) (fc_queue c) \<and>
    sorted (map StartTimestamp (fc_queue (addFlowToCache f c)))"
  using insert_back_ref [OF assms] sorted_insert_ref [OF assms] by (simp add: addFlowToCache_def insert_ref_def)

theorem insertion_matches_reference_witness:
  "fc_queue (addFlowToCache (sample_flow ''c'' 3) ((NewFlowCache 10 5)\<lparr>fc_queue := [sample_flow ''b'' 3, sample_flow ''a'' 5]\<rparr>)) =
     [sample_flow ''b'' 3, sample_flow ''c'' 3, sample_flow ''a'' 5]"
  using insertion_matches_reference [of "(NewFlowCache 10 5)\<lparr>fc_queue := [sample_flow ''b'' 3, sample_flow ''a'' 5]\<rparr>" "sample_flow ''c'' 3"]
  by simp

text \<open>
  When the timer fires and every send goes through, exactly the flows cached for at least the active timeout
  are sent, oldest first; the rest stay, and if any stay the timer is set for the oldest of them.
\<close>

theorem timer_evicts_expired:
  assumes "flow_inv c" and "length (fc_queue c) \<le> length sends" and "list_all (\<lambda>b. b) sends"
  shows "fo_sent (fst (Run_timer now sends c)) = filter (\<lambda>f. StartTimestamp f + fc_activeTimeout c \<le> now) (fc_queue c) \<and>
    fo_dropped (fst (Run_timer now sends c)) = [] \<and>
    fc_queue (snd (Run_timer now sends c)) = filter (\<lambda>f. StartTimestamp f + fc_activeTimeout c > now) (fc_queue c) \<and>
    fc_timer (snd (Run_timer now sends c)) =
      (case fc_queue (snd (Run_timer now sends c)) of [] \<Rightarrow> None | f # _ \<Rightarrow> Some (StartTimestamp f + fc_activeTimeout c))"
proof -
  obtain out c1 where ev: "evict_loop (now - fc_activeTimeout c) sends (c\<lparr>fc_timer := None\<rparr>) = (out, c1)" by (metis surj_pair)
  have srt: "sorted (map ts (fc_queue (c\<lparr>fc_timer := None\<rparr>)))" using assms(1) by (simp add: flow_inv_def)
  have t: "fc_activeTimeout c1 = fc_activeTimeout c" and timer: "fc_timer c1 = None"
    using evict_loop_step [OF _ ev] assms(1) by simp_all
  have le: "(x \<le> now - fc_activeTimeout c) = (x + fc_activeTimeout c \<le> now)" for x by linarith
  show ?thesis using evict_loop_all [OF srt _ assms(3) ev] assms(2) t timer
    by (auto simp: Run_timer_def evictExpiredFlows_def ev resetTimer_def le not_le algebra_simps split: list.splits)
qed

theorem timer_evicts_expired_witness:
  "fo_sent (fst (Run_timer 14 [True] (snd (FlowCache_Run 0 [FlowReceived (sample_flow ''a'' 4) True] (NewFlowCache 10 2))))) =
     [sample_flow ''a'' 4]"
proof -
  let ?c = "snd (FlowCache_Run 0 [FlowReceived (sample_flow ''a'' 4) True] (NewFlowCache 10 2))"
  have inv: "flow_inv ?c"
    using FlowCache_loop_step [of "(NewFlowCache 10 2)\<lparr>fc_timer := Some (0 + 10)\<rparr>" "[FlowReceived (sample_flow ''a'' 4) True]"] flow_inv_new
    by (metis FlowCache_Run_def NewFlowCache_def flow_cache.select_convs(3) flow_inv_timer prod.collapse)
  have q: "fc_queue ?c = [sample_flow ''a'' 4]" "fc_activeTimeout ?c = 10"
    by (simp_all add: flow_eval Let_def)
  show ?thesis using timer_evicts_expired [OF inv, of "[True]" 14] q by simp
qed

text \<open>
  A new flow that reaches a full cache displaces the cached flow with the smallest start time, and is
  itself cached; a flow whose key is cached already changes nothing.
\<close>

theorem full_cache_evicts_oldest:
  assumes "flow_inv c" and "\<not> shouldSkipFlow f c" and "shouldEvictOldest c" and "fc_queue c = old # q"
    and "Run_received f True c = (r, out, c')"
  shows "fo_sent out = [old] \<and> fo_dropped out = [] \<and> (\<forall>g \<in> set (fc_queue c). StartTimestamp old \<le> StartTimestamp g) \<and>
    gm_get (fc_cache c') (Key f) = Some f \<and> gm_get (fc_cache c') (Key old) = (if Key old = Key f then Some f else None)"
proof -
  have "\<forall>g \<in> set (fc_queue c). ts old \<le> ts g" using assms(1,4) by (auto simp: flow_inv_def)
  then show ?thesis using assms
    by (auto simp: Run_received_def evictOldestFlow_def Let_def resetTimerForNextExpiration_def resetTimer_def addFlowToCache_def
        remove_front_def split: list.splits)
qed

theorem full_cache_evicts_oldest_witness:
  "fo_sent (fst (snd (Run_received (sample_flow ''b'' 7) True
     (snd (FlowCache_Run 0 [FlowReceived (sample_flow ''a'' 4) True] (NewFlowCache 10 1)))))) = [sample_flow ''a'' 4]"
proof -
  let ?c = "snd (FlowCache_Run 0 [FlowReceived (sample_flow ''a'' 4) True] (NewFlowCache 10 1))"
  have inv: "flow_inv ?c"
    using FlowCache_loop_step [of "(NewFlowCache 10 1)\<lparr>fc_timer := Some (0 + 10)\<rparr>" "[FlowReceived (sample_flow ''a'' 4) True]"] flow_inv_new
    by (metis FlowCache_Run_def NewFlowCache_def flow_cache.select_convs(3) flow_inv_timer prod.collapse)
  have h: "\<not> shouldSkipFlow (sample_flow ''b'' 7) ?c" "shouldEvictOldest ?c" "fc_queue ?c = [sample_flow ''a'' 4]"
    by (simp_all add: flow_eval Let_def)
  obtain r out c' where run: "Run_received (sample_flow ''b'' 7) True ?c = (r, out, c')" by (metis surj_pair)
  show ?thesis using full_cache_evicts_oldest [OF inv h run] run by simp
qed

text \<open>
  C30: while flows are cached the eviction timer is armed, never later than the active timeout after the oldest
  flow's start or after the start of the run, so a cached flow cannot be forgotten.
\<close>

theorem flow_timer_always_armed:
  assumes "FlowCache_loop es (c\<lparr>fc_timer := Some (start + fc_activeTimeout c)\<rparr>) = (out, c')"
    and "list_all (\<lambda>e. \<exists>now sends f. e = FlowTimer now sends \<or> e = FlowReceived f True) es"
  shows "timer_ok start c'"
proof -
  have "timer_ok start d" if "timer_ok start b" "FlowCache_loop es b = (o', d)"
    "list_all (\<lambda>e. \<exists>now sends f. e = FlowTimer now sends \<or> e = FlowReceived f True) es" for b d o'
    using that
  proof (induction es arbitrary: b d o')
    case (Cons e es)
    obtain r out1 c1 where st: "Run_select e b = (r, out1, c1)" by (metis surj_pair)
    obtain x where r: "r = Again x"
      using st Cons.prems(3)
      by (cases r) (auto simp: Run_received_def evictOldestFlow_def Let_def split: if_splits prod.splits list.splits)
    obtain out2 c2 where rest: "FlowCache_loop es c1 = (out2, c2)" by (metis surj_pair)
    show ?case using Cons.IH [OF Run_select_timer [OF Cons.prems(1) st [unfolded r]] rest] Cons.prems st r rest by auto
  qed simp
  moreover have "timer_ok start (c\<lparr>fc_timer := Some (start + fc_activeTimeout c)\<rparr>)"
    by (simp add: timer_ok_def split: list.split)
  ultimately show ?thesis using assms by blast
qed

theorem flow_timer_always_armed_witness:
  "timer_ok 0 (snd (FlowCache_loop [FlowReceived (sample_flow ''a'' 4) True, FlowTimer 9 [True]]
     ((NewFlowCache 10 2)\<lparr>fc_timer := Some (0 + fc_activeTimeout (NewFlowCache 10 2))\<rparr>)))"
  by (rule flow_timer_always_armed [OF prod.collapse [symmetric]]) auto

end
