(* ===== verification/Stream_Factories.thy ===== *)
theory Stream_Factories
  imports Config_Client Resources_Client Flow_Cache
begin

text \<open>
  The \<open>factory.go\<close> of the configuration, resource, log and network flow streams: what a reconnection gives the next client. A
  factory opens its stream and builds a client around the components all sessions share; opening the stream and the
  type of the connection are arguments. The lemmas say what survives a reconnection and what starts afresh.
\<close>

section \<open>What the sessions share\<close>

record operator_shared =
  os_verboseDebugging :: bool
  os_logs :: log_sys
  os_stats :: stats
  os_cache :: "configured_object object_cache"
  os_liveness :: deadlock_detector

section \<open>The factories\<close>

definition Config_NewStreamClient :: "unit result \<Rightarrow> operator_shared \<Rightarrow> config_client result" where
  "Config_NewStreamClient opened f =
     (case opened of
        Inl err \<Rightarrow> Inl err
      | Inr _ \<Rightarrow> Inr \<lparr>cc_verboseDebugging = os_verboseDebugging f, cc_logs = os_logs f, cc_stats = os_stats f,
                      cc_cache = os_cache f, cc_closed = False, cc_pendingSnapshot = [], cc_snapshotComplete = False\<rparr>)"

definition Resources_NewStreamClient :: "unit result \<Rightarrow> go_error option list \<Rightarrow> operator_shared \<Rightarrow> res_state result" where
  "Resources_NewStreamClient opened results f =
     (case opened of
        Inl err \<Rightarrow> Inl err
      | Inr _ \<Rightarrow> Inr \<lparr>rs_closed = False, rs_results = results, rs_sent = [], rs_pending = [], rs_cache = os_cache f,
                      rs_stats = os_stats f, rs_liveness = os_liveness f\<rparr>)"

definition Flows_NewStreamClient :: "unit result \<Rightarrow> operator_shared \<Rightarrow> flows_client result" where
  "Flows_NewStreamClient opened f =
     (case opened of
        Inl err \<Rightarrow> Inl err
      | Inr _ \<Rightarrow> Inr \<lparr>fl_closed = False, fl_stats = os_stats f, fl_liveness = os_liveness f\<rparr>)"

text \<open>The log factory also needs a connection whose state it can ask, and installs the session's done channel \<open>d\<close>.\<close>

definition Logs_open :: "unit result \<Rightarrow> bool \<Rightarrow> nat \<Rightarrow> operator_shared \<Rightarrow> unit result \<times> operator_shared" where
  "Logs_open opened has_state d f =
     (case opened of
        Inl err \<Rightarrow> (Inl err, f)
      | Inr _ \<Rightarrow>
          if \<not> has_state then (Inl (ErrMsg ''gRPC connection does not implement logging.ClientConnInterface''), f)
          else (Inr (), f\<lparr>os_logs := Logs_NewStreamClient d (os_logs f)\<rparr>))"

definition Config_Name :: string where "Config_Name = ''GetConfigurationUpdates''"
definition Resources_Name :: string where "Resources_Name = ''SendKubernetesResources''"
definition Logs_Name :: string where "Logs_Name = ''SendLogs''"
definition Flows_Name :: string where "Flows_Name = ''SendKubernetesNetworkFlows''"

section \<open>Reconnections\<close>

text \<open>What a configuration client leaves behind is what its successor starts from.\<close>

definition after_config :: "config_client \<Rightarrow> operator_shared \<Rightarrow> operator_shared" where
  "after_config c f = f\<lparr>os_logs := cc_logs c, os_stats := cc_stats c, os_cache := cc_cache c\<rparr>"

text \<open>
  A client that follows a closed one has its cache, statistics and log writer, is open, and begins a new snapshot: what the
  old one had received of an unfinished snapshot is gone.
\<close>

lemma config_reconnects:
  assumes "Config_NewStreamClient (Inr ()) (after_config (Config_Close c) f) = Inr c'"
  shows "cc_cache c' = cc_cache c" and "cc_stats c' = cc_stats c" and "cc_logs c' = cc_logs c"
    and "\<not> cc_closed c'" and "Run_init c' = c'"
  using assms by (auto simp: Config_NewStreamClient_def after_config_def Config_Close_def Run_init_def)

text \<open>A resource client starts by sending, whatever became of the one before it.\<close>

lemma resources_reconnects:
  assumes "Resources_NewStreamClient (Inr ()) results f = Inr s"
  shows "Res_send req r s = (send_result r, [req])" and "rs_pending s = []" and "rs_cache s = os_cache f"
  using assms by (auto simp: Resources_NewStreamClient_def Res_send_def)

lemma flows_reconnects:
  "Flows_NewStreamClient (Inr ()) f = Inr c \<Longrightarrow> Flows_send req r c = (send_result r, [req])"
  by (auto simp: Flows_NewStreamClient_def Flows_send_def)

text \<open>A factory that fails leaves everything as it was, so the attempt can be repeated.\<close>

lemma factory_failure:
  "Config_NewStreamClient (Inl e) f = Inl e" "Resources_NewStreamClient (Inl e) results f = Inl e"
  "Flows_NewStreamClient (Inl e) f = Inl e" "Logs_open (Inl e) b d f = (Inl e, f)" "snd (Logs_open (Inr ()) False d f) = f"
  by (simp_all add: Config_NewStreamClient_def Resources_NewStreamClient_def Flows_NewStreamClient_def Logs_open_def)

text \<open>The four streams can be told apart by name.\<close>

lemma stream_names_distinct: "distinct [Config_Name, Resources_Name, Logs_Name, Flows_Name]"
  by (simp add: Config_Name_def Resources_Name_def Logs_Name_def Flows_Name_def)

end
