(* ===== verification/Reconciler.thy ===== *)
theory Reconciler
  imports Discovery "HOL-Library.Multiset"
begin

text \<open>
  \<open>internal/controller/reconciler/reconciler.go\<close> and the two calls of \<open>internal/controller/k8sclient/client.go\<close>
  it makes: bringing the cluster in line with the configured objects. The dynamic client of the
  Kubernetes library is an argument acting on a state \<open>'w\<close> of the cluster; the order in which Go
  iterates over a map is an argument too.
\<close>

section \<open>The Kubernetes client\<close>

type_synonym gvr = "string \<times> string \<times> string"

text \<open>Server-side apply and delete; the namespace is \<open>None\<close> for a cluster-scoped call.\<close>

record 'w dynamic_client =
  dc_Apply :: "gvr \<Rightarrow> string option \<Rightarrow> string \<Rightarrow> json_obj \<Rightarrow> string \<Rightarrow> bool \<Rightarrow> 'w \<Rightarrow> json_obj result \<times> 'w"
  dc_Delete :: "gvr \<Rightarrow> string option \<Rightarrow> string \<Rightarrow> 'w \<Rightarrow> unit result \<times> 'w"

text \<open>\<open>GetName\<close> and \<open>GetNamespace\<close> of an unstructured object: empty when absent or not a string.\<close>

definition metadata_string :: "string \<Rightarrow> json_obj \<Rightarrow> string" where
  "metadata_string field obj =
     (case gm_get obj ''metadata'' of
        Some (JObj m) \<Rightarrow> (case gm_get m field of Some (JStr s) \<Rightarrow> s | _ \<Rightarrow> [])
      | _ \<Rightarrow> [])"

definition ApplyResource :: "'w dynamic_client \<Rightarrow> gvr \<Rightarrow> string \<Rightarrow> json_obj \<Rightarrow> string \<Rightarrow> 'w \<Rightarrow> json_obj result \<times> 'w" where
  "ApplyResource dc gvr namespace obj fieldManager w =
     (if namespace = [] then dc_Apply dc gvr None (metadata_string ''name'' obj) obj fieldManager True w
      else dc_Apply dc gvr (Some namespace) (metadata_string ''name'' obj) obj fieldManager True w)"

definition DeleteResource :: "'w dynamic_client \<Rightarrow> gvr \<Rightarrow> string \<Rightarrow> string \<Rightarrow> 'w \<Rightarrow> unit result \<times> 'w" where
  "DeleteResource dc gvr namespace name w =
     (if namespace = [] then dc_Delete dc gvr None name w else dc_Delete dc gvr (Some namespace) name w)"

section \<open>Applying and deleting one object\<close>

record reconciler =
  rc_configCache :: "configured_object object_cache"
  rc_runtimeCache :: "configured_object object_cache"
  rc_resourceInfo :: resource_map

definition group_resource_string :: "group_resource \<Rightarrow> string" where
  "group_resource_string gr = (if fst gr = [] then snd gr else snd gr @ ''.'' @ fst gr)"

definition not_discovered :: "group_resource \<Rightarrow> go_error" where
  "not_discovered gr = ErrMsg (''resource not discovered: '' @ group_resource_string gr)"

definition applyObject ::
  "json_lib \<Rightarrow> 'w dynamic_client \<Rightarrow> resource_map \<Rightarrow> configured_object \<Rightarrow> 'w \<Rightarrow> unit result \<times> 'w" where
  "applyObject lib dc infos configObj w =
     (case ExtractGroupResource configObj of
        Inl e \<Rightarrow> (Inl e, w)
      | Inr gr \<Rightarrow>
          (case gm_get infos gr of
             None \<Rightarrow> (Inl (not_discovered gr), w)
           | Some info \<Rightarrow>
               (case ConvertToApplyObject lib (Some configObj) (ri_Group info) (ri_Version info) of
                  Inl e \<Rightarrow> (Inl (WrapErr ''failed to create unstructured object'' e), w)
                | Inr (desired, _) \<Rightarrow>
                    (case ApplyResource dc (fst gr, ri_Version info, snd gr) (metadata_string ''namespace'' desired)
                            desired FieldManager w of
                       (Inl e, w1) \<Rightarrow> (Inl (WrapErr ''failed to apply'' e), w1)
                     | (Inr _, w1) \<Rightarrow> (Inr (), w1)))))"

definition deleteObject ::
  "'w dynamic_client \<Rightarrow> resource_map \<Rightarrow> configured_object \<Rightarrow> 'w \<Rightarrow> unit result \<times> 'w" where
  "deleteObject dc infos obj w =
     (case ExtractGroupResource obj of
        Inl e \<Rightarrow> (Inl e, w)
      | Inr gr \<Rightarrow>
          (case gm_get infos gr of
             None \<Rightarrow> (Inl (not_discovered gr), w)
           | Some info \<Rightarrow>
               (case DeleteResource dc (fst gr, ri_Version info, snd gr) (str_get (co_namespace obj)) (co_name obj) w of
                  (Inl e, w1) \<Rightarrow> (if IsNotFound e then Inr () else Inl (WrapErr ''failed to delete'' e), w1)
                | (Inr _, w1) \<Rightarrow> (Inr (), w1))))"

section \<open>Reconciling\<close>

text \<open>
  \<open>proto.Equal\<close> of a configured object and a possibly nil one: a nil message equals no object.
\<close>

definition equal_runtime :: "configured_object \<Rightarrow> configured_object option \<Rightarrow> bool" where
  "equal_runtime c r = (case r of None \<Rightarrow> False | Some x \<Rightarrow> proto_equal c x)"

definition reconcileObject ::
  "json_lib \<Rightarrow> 'w dynamic_client \<Rightarrow> reconciler \<Rightarrow> string \<Rightarrow> 'w \<Rightarrow> unit result \<times> 'w" where
  "reconcileObject lib dc rc key w =
     (let configObj = Get key (rc_configCache rc); runtimeObj = Get key (rc_runtimeCache rc) in
      case configObj of
        Some c \<Rightarrow>
          if \<not> equal_runtime c runtimeObj then
            (case applyObject lib dc (rc_resourceInfo rc) c w of
               (Inl e, w1) \<Rightarrow> (Inl (WrapErr (''apply '' @ key) e), w1)
             | (Inr _, w1) \<Rightarrow> (Inr (), w1))
          else (Inr (), w)
      | None \<Rightarrow>
          (case runtimeObj of
             Some r \<Rightarrow>
               (case deleteObject dc (rc_resourceInfo rc) r w of
                  (Inl e, w1) \<Rightarrow> (Inl (WrapErr (''delete '' @ key) e), w1)
                | (Inr _, w1) \<Rightarrow> (Inr (), w1))
           | None \<Rightarrow> (Inr (), w)))"

text \<open>The keys of both caches, each once.\<close>

definition all_keys :: "reconciler \<Rightarrow> string list" where
  "all_keys rc =
     gm_keys (fold (\<lambda>k m. gm_put k () m) (Keys (rc_runtimeCache rc)) (fold (\<lambda>k m. gm_put k () m) (Keys (rc_configCache rc)) []))"

fun reconcile_keys ::
  "json_lib \<Rightarrow> 'w dynamic_client \<Rightarrow> reconciler \<Rightarrow> string list \<Rightarrow> 'w \<Rightarrow> go_error list \<times> 'w" where
  "reconcile_keys lib dc rc [] w = ([], w)"
| "reconcile_keys lib dc rc (k # ks) w =
     (case reconcileObject lib dc rc k w of (r, w1) \<Rightarrow>
      case reconcile_keys lib dc rc ks w1 of (errs, w2) \<Rightarrow>
        ((case r of Inl e \<Rightarrow> [e] | Inr _ \<Rightarrow> []) @ errs, w2))"

definition reconcileAll ::
  "json_lib \<Rightarrow> 'w dynamic_client \<Rightarrow> (string list \<Rightarrow> string list) \<Rightarrow> reconciler \<Rightarrow> 'w \<Rightarrow> unit result \<times> 'w" where
  "reconcileAll lib dc order rc w =
     (case reconcile_keys lib dc rc (order (all_keys rc)) w of (errs, w1) \<Rightarrow> (errors_join errs, w1))"

text \<open>\<open>processResourceChange\<close>; the flag says that the periodic timer was reset.\<close>

definition processResourceChange ::
  "json_lib \<Rightarrow> 'w dynamic_client \<Rightarrow> (string list \<Rightarrow> string list) \<Rightarrow> reconciler \<Rightarrow> string \<Rightarrow> 'w \<Rightarrow> bool \<times> 'w" where
  "processResourceChange lib dc order rc key w =
     (if key = SnapshotReplaced then (True, snd (reconcileAll lib dc order rc w))
      else (False, snd (reconcileObject lib dc rc key w)))"

section \<open>Run\<close>

text \<open>
  The discovery loop: \<open>attempts\<close> gives, per attempt, the discovery client's answers and whether the
  context is cancelled during the pause that follows a failure. The outer \<open>None\<close> is the return on a
  cancelled context; the inner option is the (possibly nil) map left in \<open>resourceInfo\<close>.
\<close>

fun discover_loop :: "(discovery \<times> bool) list \<Rightarrow> resource_map option \<Rightarrow> resource_map option option" where
  "discover_loop [] info = Some info"
| "discover_loop ((disc, cancelled) # as) info =
     (case BuildResourceAPIGroupMap disc ManagedResources of
        (info', None) \<Rightarrow> Some info'
      | (info', Some _) \<Rightarrow> if cancelled then None else discover_loop as info')"

text \<open>\<open>waitForCaches\<close>: the branch taken in each round; a branch whose channel is nil is never enabled.\<close>

datatype wait_event = WaitCtxDone | WaitConfigReady | WaitRuntimeReady

fun waitForCaches :: "wait_event list \<Rightarrow> bool \<Rightarrow> bool \<Rightarrow> unit result option" where
  "waitForCaches [] config runtime = (if \<not> config \<and> \<not> runtime then Some (Inr ()) else None)"
| "waitForCaches (e # es) config runtime =
     (if \<not> config \<and> \<not> runtime then Some (Inr ())
      else case e of
             WaitCtxDone \<Rightarrow> Some (Inl CtxErr)
           | WaitConfigReady \<Rightarrow> if config then waitForCaches es False runtime else None
           | WaitRuntimeReady \<Rightarrow> if runtime then waitForCaches es config False else None)"

datatype reconcile_event = RcCtxDone | RcTimer | RcConfigChanged string | RcRuntimeChanged string

text \<open>The main loop, over the events with the caches as they are at that moment.\<close>

fun reconcile_loop ::
  "json_lib \<Rightarrow> 'w dynamic_client \<Rightarrow> (string list \<Rightarrow> string list) \<Rightarrow> (reconciler \<times> reconcile_event) list \<Rightarrow> 'w \<Rightarrow> 'w" where
  "reconcile_loop lib dc order [] w = w"
| "reconcile_loop lib dc order ((rc, RcCtxDone) # es) w = w"
| "reconcile_loop lib dc order ((rc, RcTimer) # es) w =
     reconcile_loop lib dc order es (snd (reconcileAll lib dc order rc w))"
| "reconcile_loop lib dc order ((rc, RcConfigChanged k) # es) w =
     reconcile_loop lib dc order es (snd (processResourceChange lib dc order rc k w))"
| "reconcile_loop lib dc order ((rc, RcRuntimeChanged k) # es) w =
     reconcile_loop lib dc order es (snd (processResourceChange lib dc order rc k w))"

definition Reconciler_Run ::
  "json_lib \<Rightarrow> 'w dynamic_client \<Rightarrow> (string list \<Rightarrow> string list) \<Rightarrow> (discovery \<times> bool) list \<Rightarrow> wait_event list \<Rightarrow>
   configured_object object_cache \<times> configured_object object_cache \<Rightarrow> (reconciler \<times> reconcile_event) list \<Rightarrow> 'w \<Rightarrow> 'w" where
  "Reconciler_Run lib dc order attempts waits caches events w =
     (case discover_loop (take 5 attempts) None of
        Some (Some infos) \<Rightarrow>
          (case waitForCaches waits True True of
             Some (Inr _) \<Rightarrow>
               reconcile_loop lib dc order (map (\<lambda>(rc, e). (rc\<lparr>rc_resourceInfo := infos\<rparr>, e)) events)
                 (snd (reconcileAll lib dc order
                    \<lparr>rc_configCache = fst caches, rc_runtimeCache = snd caches, rc_resourceInfo = infos\<rparr> w))
           | _ \<Rightarrow> w)
      | _ \<Rightarrow> w)"

section \<open>What the API server promises\<close>

type_synonym object_id = "group_resource \<times> string option \<times> string"

text \<open>
  The documented effect of the two calls on \<open>cl\<close>, the fields the operator has applied to each object:
  a successful apply sets them to the object sent and a successful delete removes the object; a
  failed call changes neither, and \<open>NotFound\<close> on delete means that there was no such object.
\<close>

definition gvr_id :: "gvr \<Rightarrow> string option \<Rightarrow> string \<Rightarrow> object_id" where
  "gvr_id gvr ns name = ((fst gvr, snd (snd gvr)), ns, name)"

definition k8s_contract :: "'w dynamic_client \<Rightarrow> ('w \<Rightarrow> object_id \<rightharpoonup> json_obj) \<Rightarrow> bool" where
  "k8s_contract dc cl \<longleftrightarrow>
     (\<forall>gvr ns name obj fm force w r w'. dc_Apply dc gvr ns name obj fm force w = (r, w') \<longrightarrow>
        cl w' = (case r of Inl _ \<Rightarrow> cl w | Inr _ \<Rightarrow> (cl w)(gvr_id gvr ns name \<mapsto> obj))) \<and>
     (\<forall>gvr ns name w r w'. dc_Delete dc gvr ns name w = (r, w') \<longrightarrow>
        (case r of Inl e \<Rightarrow> cl w' = cl w \<and> (IsNotFound e \<longrightarrow> cl w (gvr_id gvr ns name) = None)
                 | Inr _ \<Rightarrow> cl w' = (cl w)(gvr_id gvr ns name := None)))"

text \<open>What reconciling one key means for the cluster: which object, and the value it should have.\<close>

definition obj_id :: "configured_object \<Rightarrow> object_id" where
  "obj_id obj = ((case ExtractGroupResource obj of Inr gr \<Rightarrow> gr | Inl _ \<Rightarrow> ([], [])),
     str_opt (str_get (co_namespace obj)), co_name obj)"

definition desired_object :: "json_lib \<Rightarrow> resource_map \<Rightarrow> configured_object \<Rightarrow> json_obj option" where
  "desired_object lib infos obj =
     (case ExtractGroupResource obj of
        Inl _ \<Rightarrow> None
      | Inr gr \<Rightarrow> Option.bind (gm_get infos gr) (\<lambda>info.
          case ConvertToApplyObject lib (Some obj) (ri_Group info) (ri_Version info) of
            Inl _ \<Rightarrow> None | Inr (desired, _) \<Rightarrow> Some desired))"

definition key_effect :: "json_lib \<Rightarrow> reconciler \<Rightarrow> string \<Rightarrow> (object_id \<times> json_obj option) option" where
  "key_effect lib rc key =
     (case (gm_get (oc_objects (rc_configCache rc)) key, gm_get (oc_objects (rc_runtimeCache rc)) key) of
        (Some c, r) \<Rightarrow> if equal_runtime c r then None else Some (obj_id c, desired_object lib (rc_resourceInfo rc) c)
      | (None, Some r) \<Rightarrow> Some (obj_id r, None)
      | (None, None) \<Rightarrow> None)"

section \<open>One key\<close>

lemma metadata_string_desired:
  assumes "ConvertToApplyObject lib (Some d) grp ver = Inr (obj, rn)"
  shows "metadata_string ''name'' obj = co_name d" and "metadata_string ''namespace'' obj = str_get (co_namespace d)"
  using ConvertToApplyObject_get(3) [OF assms]
  by (auto simp: metadata_string_def apply_metadata_get str_opt_def split: option.splits)

lemma ApplyResource_contract:
  assumes "k8s_contract dc cl" and "ApplyResource dc gvr ns obj fm w = (r, w')"
  shows "cl w' = (case r of Inl _ \<Rightarrow> cl w | Inr _ \<Rightarrow> (cl w)(gvr_id gvr (str_opt ns) (metadata_string ''name'' obj) \<mapsto> obj))"
proof -
  have "dc_Apply dc gvr (str_opt ns) (metadata_string ''name'' obj) obj fm True w = (r, w')"
    using assms(2) by (auto simp: ApplyResource_def str_opt_def split: if_splits)
  then show ?thesis using assms(1) unfolding k8s_contract_def by blast
qed

lemma DeleteResource_contract:
  assumes "k8s_contract dc cl" and "DeleteResource dc gvr ns name w = (r, w')"
  shows "case r of Inl e \<Rightarrow> cl w' = cl w \<and> (IsNotFound e \<longrightarrow> cl w (gvr_id gvr (str_opt ns) name) = None)
                 | Inr _ \<Rightarrow> cl w' = (cl w)(gvr_id gvr (str_opt ns) name := None)"
proof -
  have "dc_Delete dc gvr (str_opt ns) name w = (r, w')"
    using assms(2) by (auto simp: DeleteResource_def str_opt_def split: if_splits)
  then show ?thesis using assms(1) unfolding k8s_contract_def by blast
qed

lemma applyObject_effect:
  assumes "k8s_contract dc cl" and "applyObject lib dc infos c w = (r, w')"
  shows "cl w' = (case r of Inl _ \<Rightarrow> cl w | Inr _ \<Rightarrow> (cl w)(obj_id c := desired_object lib infos c))"
proof (cases "ExtractGroupResource c")
  case (Inl e)
  then show ?thesis using assms by (auto simp: applyObject_def)
next
  case gr: (Inr gr)
  show ?thesis
  proof (cases "gm_get infos gr")
    case None
    then show ?thesis using assms gr by (auto simp: applyObject_def)
  next
    case info: (Some info)
    show ?thesis
    proof (cases "ConvertToApplyObject lib (Some c) (ri_Group info) (ri_Version info)")
      case (Inl e)
      then show ?thesis using assms gr info by (auto simp: applyObject_def)
    next
      case (Inr dr)
      obtain desired rn where dr: "dr = (desired, rn)" by (cases dr)
      note md = metadata_string_desired [OF Inr [unfolded dr]]
      obtain r1 w1 where call: "ApplyResource dc (fst gr, ri_Version info, snd gr) (str_get (co_namespace c)) desired FieldManager w = (r1, w1)"
        by (metis surj_pair)
      have id: "gvr_id (fst gr, ri_Version info, snd gr) (str_opt (str_get (co_namespace c))) (co_name c) = obj_id c"
        by (simp add: gvr_id_def obj_id_def gr)
      show ?thesis using assms(2) ApplyResource_contract [OF assms(1) call] gr info Inr md call
        by (cases r1) (auto simp: applyObject_def dr id desired_object_def)
    qed
  qed
qed

lemma deleteObject_effect:
  assumes "k8s_contract dc cl" and "deleteObject dc infos c w = (r, w')"
  shows "cl w' = (case r of Inl _ \<Rightarrow> cl w | Inr _ \<Rightarrow> (cl w)(obj_id c := None))"
proof (cases "ExtractGroupResource c")
  case (Inl e)
  then show ?thesis using assms by (auto simp: deleteObject_def)
next
  case gr: (Inr gr)
  show ?thesis
  proof (cases "gm_get infos gr")
    case None
    then show ?thesis using assms gr by (auto simp: deleteObject_def)
  next
    case info: (Some info)
    obtain r1 w1 where call: "DeleteResource dc (fst gr, ri_Version info, snd gr) (str_get (co_namespace c)) (co_name c) w = (r1, w1)"
      by (metis surj_pair)
    have id: "gvr_id (fst gr, ri_Version info, snd gr) (str_opt (str_get (co_namespace c))) (co_name c) = obj_id c"
      by (simp add: gvr_id_def obj_id_def gr)
    have same: "f x = None \<Longrightarrow> f(x := None) = f" for f :: "object_id \<rightharpoonup> json_obj" and x by auto
    show ?thesis using assms(2) DeleteResource_contract [OF assms(1) call] gr info call
      by (cases r1) (auto simp: deleteObject_def id same split: if_splits)
  qed
qed

definition apply_effect :: "(object_id \<times> json_obj option) option \<Rightarrow> (object_id \<rightharpoonup> json_obj) \<Rightarrow> (object_id \<rightharpoonup> json_obj)" where
  "apply_effect eff m = (case eff of None \<Rightarrow> m | Some (i, v) \<Rightarrow> m(i := v))"

lemma reconcileObject_effect:
  assumes "k8s_contract dc cl" and "reconcileObject lib dc rc key w = (r, w')"
  shows "cl w' = (case r of Inl _ \<Rightarrow> cl w | Inr _ \<Rightarrow> apply_effect (key_effect lib rc key) (cl w))"
proof -
  note defs = reconcileObject_def Get_def Let_def key_effect_def apply_effect_def
  show ?thesis
  proof (cases "gm_get (oc_objects (rc_configCache rc)) key")
    case (Some c)
    obtain r1 w1 where call: "applyObject lib dc (rc_resourceInfo rc) c w = (r1, w1)" by (metis surj_pair)
    show ?thesis using assms(2) applyObject_effect [OF assms(1) call] Some call
      by (cases r1) (auto simp: defs split: if_splits)
  next
    case None
    show ?thesis
    proof (cases "gm_get (oc_objects (rc_runtimeCache rc)) key")
      case (Some x)
      obtain r1 w1 where call: "deleteObject dc (rc_resourceInfo rc) x w = (r1, w1)" by (metis surj_pair)
      show ?thesis using assms(2) deleteObject_effect [OF assms(1) call] None Some call
        by (cases r1) (auto simp: defs)
    qed (use None assms(2) in \<open>auto simp: defs\<close>)
  qed
qed

section \<open>All keys\<close>

definition resource_mapping :: "string \<Rightarrow> kind_mapping" where
  "resource_mapping r =
     \<lparr>km_kind = (if r = ''ciliumnetworkpolicies'' then ''CiliumNetworkPolicy''
        else if r = ''ciliumclusterwidenetworkpolicies'' then ''CiliumClusterwideNetworkPolicy''
        else if r = ''ciliumcidrgroups'' then ''CiliumCIDRGroup'' else ''ClusterNetworkPolicy''),
      km_group = (if r = ''clusternetworkpolicies'' then awsVPCCNIAPIGroup else ciliumAPIGroup), km_resource_name = r\<rparr>"

lemma resource_mapping_simps:
  "resource_mapping ''ciliumnetworkpolicies'' =
     \<lparr>km_kind = ''CiliumNetworkPolicy'', km_group = ciliumAPIGroup, km_resource_name = ''ciliumnetworkpolicies''\<rparr>"
  "resource_mapping ''ciliumclusterwidenetworkpolicies'' =
     \<lparr>km_kind = ''CiliumClusterwideNetworkPolicy'', km_group = ciliumAPIGroup, km_resource_name = ''ciliumclusterwidenetworkpolicies''\<rparr>"
  "resource_mapping ''ciliumcidrgroups'' =
     \<lparr>km_kind = ''CiliumCIDRGroup'', km_group = ciliumAPIGroup, km_resource_name = ''ciliumcidrgroups''\<rparr>"
  "resource_mapping ''clusternetworkpolicies'' =
     \<lparr>km_kind = ''ClusterNetworkPolicy'', km_group = awsVPCCNIAPIGroup, km_resource_name = ''clusternetworkpolicies''\<rparr>"
  by (simp_all add: resource_mapping_def)

lemma kindMappingFor_resource:
  assumes "kindMappingFor a = Inr m"
  shows "resource_mapping (km_resource_name m) = m"
  using assms by (cases a rule: kindMappingFor.cases) (auto simp: resource_mapping_simps)

lemma obj_id_key:
  assumes "CacheKeyForObject a = Inr k" and "CacheKeyForObject b = Inr k'" and "obj_id a = obj_id b"
  shows "k = k'"
proof -
  obtain m where m: "kindMappingFor (co_kind_specific a) = Inr m"
    and k: "k = CacheKey (km_kind m) (str_get (co_namespace a)) (co_name a)"
    using assms(1) by (auto simp: CacheKeyForObject_def ExtractKind_def split: sum.splits)
  obtain m' where m': "kindMappingFor (co_kind_specific b) = Inr m'"
    and k': "k' = CacheKey (km_kind m') (str_get (co_namespace b)) (co_name b)"
    using assms(2) by (auto simp: CacheKeyForObject_def ExtractKind_def split: sum.splits)
  have "km_resource_name m = km_resource_name m'" and n: "co_name a = co_name b"
    and ns: "str_opt (str_get (co_namespace a)) = str_opt (str_get (co_namespace b))"
    using assms(3) by (auto simp: obj_id_def ExtractGroupResource_def m m')
  then have "m = m'" using kindMappingFor_resource [OF m] kindMappingFor_resource [OF m'] by metis
  moreover have "str_get (co_namespace a) = str_get (co_namespace b)"
    using ns by (metis str_get_str_opt)
  ultimately show ?thesis using n k k' by simp
qed

lemma key_effect_object:
  assumes "keyed (rc_configCache rc)" and "keyed (rc_runtimeCache rc)" and "key_effect lib rc k = Some (i, v)"
  obtains obj where "i = obj_id obj" and "CacheKeyForObject obj = Inr k"
  using assms
  by (auto simp: key_effect_def split: option.splits if_splits dest: keyedD)

lemma key_effect_inj:
  assumes "keyed (rc_configCache rc)" and "keyed (rc_runtimeCache rc)"
    and "key_effect lib rc k = Some (i, v)" and "key_effect lib rc k' = Some (i, v')"
  shows "k = k'"
  using key_effect_object [OF assms(1,2,3)] key_effect_object [OF assms(1,2,4)] obj_id_key by metis

definition failed_key :: "string \<Rightarrow> go_error list \<Rightarrow> bool" where
  "failed_key k errs \<longleftrightarrow> (\<exists>e. WrapErr (''apply '' @ k) e \<in> set errs \<or> WrapErr (''delete '' @ k) e \<in> set errs)"

lemma reconcileObject_error:
  "reconcileObject lib dc rc k w = (Inl e, w') \<Longrightarrow> failed_key k [e]"
  by (auto simp: reconcileObject_def failed_key_def Let_def split: option.splits if_splits prod.splits sum.splits)

lemma reconcile_keys_frame:
  assumes "k8s_contract dc cl" and "reconcile_keys lib dc rc ks w = (errs, w')"
    and "\<And>k v. k \<in> set ks \<Longrightarrow> key_effect lib rc k \<noteq> Some (i, v)"
  shows "cl w' i = cl w i"
  using assms(2,3)
proof (induction ks arbitrary: w errs w')
  case (Cons k ks)
  obtain r w1 where one: "reconcileObject lib dc rc k w = (r, w1)" by (metis surj_pair)
  obtain errs2 w2 where rest: "reconcile_keys lib dc rc ks w1 = (errs2, w2)" by (metis surj_pair)
  have "cl w1 i = cl w i"
    using reconcileObject_effect [OF assms(1) one] Cons.prems(2) [of k "snd (the (key_effect lib rc k))"]
    by (cases r; cases "key_effect lib rc k") (auto simp: apply_effect_def fun_upd_apply split: if_splits)
  then show ?case using Cons.IH [OF rest] Cons.prems one rest by auto
qed simp

lemma reconcile_keys_effect:
  assumes "k8s_contract dc cl" and "keyed (rc_configCache rc)" and "keyed (rc_runtimeCache rc)"
    and "reconcile_keys lib dc rc ks w = (errs, w')" and "distinct ks"
    and "k \<in> set ks" and "key_effect lib rc k = Some (i, v)"
  shows "cl w' i = v \<or> cl w' i = cl w i \<and> failed_key k errs"
  using assms(4-6)
proof (induction ks arbitrary: w errs)
  case (Cons x ks)
  obtain r w1 where one: "reconcileObject lib dc rc x w = (r, w1)" by (metis surj_pair)
  obtain errs2 w2 where rest: "reconcile_keys lib dc rc ks w1 = (errs2, w2)" by (metis surj_pair)
  have errs: "errs = (case r of Inl e \<Rightarrow> [e] | Inr _ \<Rightarrow> []) @ errs2" and w': "w' = w2"
    using Cons.prems(1) one rest by auto
  note eff = reconcileObject_effect [OF assms(1) one]
  show ?case
  proof (cases "k = x")
    case True
    have "cl w2 i = cl w1 i"
      using reconcile_keys_frame [OF assms(1) rest] key_effect_inj [OF assms(2,3,7)] True Cons.prems(2) by fastforce
    then show ?thesis using eff assms(7) True one
      by (cases r) (auto simp: apply_effect_def w' errs failed_key_def dest!: reconcileObject_error)
  next
    case False
    then have "cl w1 i = cl w i"
      using eff key_effect_inj [OF assms(2,3,7), of x]
      by (cases r; cases "key_effect lib rc x") (auto simp: apply_effect_def)
    moreover have "cl w' i = v \<or> cl w' i = cl w1 i \<and> failed_key k errs2"
      using Cons.IH [OF rest [folded w']] Cons.prems False by simp
    ultimately show ?thesis by (auto simp: errs failed_key_def)
  qed
qed simp

lemma all_keys_fold:
  "distinct (gm_keys m) \<Longrightarrow> distinct (gm_keys (fold (\<lambda>k m. gm_put k () m) ks m))"
  "set (gm_keys (fold (\<lambda>k m. gm_put k () m) ks m)) = set ks \<union> set (gm_keys m)"
  by (induction ks arbitrary: m) (auto simp: distinct_update dom_update)

lemma all_keys: "distinct (all_keys rc)" "set (all_keys rc) = set (Keys (rc_configCache rc)) \<union> set (Keys (rc_runtimeCache rc))"
  unfolding all_keys_def by (simp_all only: all_keys_fold distinct.simps list.map) auto

lemma key_effect_in_keys: "key_effect lib rc k = Some x \<Longrightarrow> k \<in> set (all_keys rc)"
  by (auto simp: all_keys Keys_def key_effect_def gm_keys_iff simp del: set_map split: option.splits)

lemma reconcile_keys_noop:
  assumes "\<And>k. k \<in> set ks \<Longrightarrow> key_effect lib rc k = None"
  shows "reconcile_keys lib dc rc ks w = ([], w)"
  using assms
proof (induction ks)
  case (Cons k ks)
  have "reconcileObject lib dc rc k w = (Inr (), w)"
    using Cons.prems [of k] by (auto simp: reconcileObject_def key_effect_def Get_def Let_def split: option.splits if_splits)
  then show ?case using Cons by simp
qed simp

lemma applyObject_desired: "applyObject lib dc infos c w = (Inr u, w') \<Longrightarrow> desired_object lib infos c \<noteq> None"
  by (auto simp: applyObject_def desired_object_def split: sum.splits option.splits prod.splits)

lemma reconcile_keys_desired:
  assumes "reconcile_keys lib dc rc ks w = ([], w')" and "k \<in> set ks"
    and "gm_get (oc_objects (rc_configCache rc)) k = Some c" and "\<not> equal_runtime c (gm_get (oc_objects (rc_runtimeCache rc)) k)"
  shows "desired_object lib (rc_resourceInfo rc) c \<noteq> None"
  using assms(1,2)
proof (induction ks arbitrary: w)
  case (Cons x ks)
  obtain r w1 where one: "reconcileObject lib dc rc x w = (r, w1)" by (metis surj_pair)
  obtain errs w2 where rest: "reconcile_keys lib dc rc ks w1 = (errs, w2)" by (metis surj_pair)
  have ok: "errs = []" "w2 = w'" "\<exists>u. r = Inr u" using Cons.prems(1) one rest by (auto split: sum.splits)
  show ?case
  proof (cases "k = x")
    case True
    obtain r1 w3 where call: "applyObject lib dc (rc_resourceInfo rc) c w = (r1, w3)" by (metis surj_pair)
    then have "\<exists>u. r1 = Inr u" using one ok(3) assms(3,4) True
      by (auto simp: reconcileObject_def Get_def split: sum.splits)
    then show ?thesis using call by (auto dest: applyObject_desired)
  next
    case False
    then show ?thesis using Cons.IH [of w1] Cons.prems rest ok by simp
  qed
qed simp

lemma permuted_keys:
  assumes "\<And>xs. mset (order xs) = mset xs"
  shows "distinct (order (all_keys rc))" and "set (order (all_keys rc)) = set (all_keys rc)"
  using assms [of "all_keys rc"] all_keys(1) [of rc] by (metis mset_eq_imp_distinct_iff, metis mset_eq_setD)

section \<open>Properties\<close>

definition mem_client :: "(object_id \<rightharpoonup> json_obj) dynamic_client" where
  "mem_client = \<lparr>dc_Apply = (\<lambda>gvr ns name obj fm force w. (Inr obj, w(gvr_id gvr ns name \<mapsto> obj))),
     dc_Delete = (\<lambda>gvr ns name w. if w (gvr_id gvr ns name) = None then (Inl NotFoundErr, w)
       else (Inr (), w(gvr_id gvr ns name := None)))\<rparr>"

lemma mem_client_contract: "k8s_contract mem_client (\<lambda>w. w)"
  by (auto simp: k8s_contract_def mem_client_def split: if_splits)

definition cidr_object :: "string \<Rightarrow> configured_object" where
  "cidr_object name = \<lparr>co_annotations = None, co_labels = None, co_name = name, co_namespace = None,
     co_kind_specific = Some (CksCiliumCidrGroup None)\<rparr>"

definition cache_of :: "(string, configured_object) gomap \<Rightarrow> configured_object object_cache" where
  "cache_of m = NewObjectCache\<lparr>oc_objects := m, oc_ready := True\<rparr>"

definition sample_reconciler :: reconciler where
  "sample_reconciler =
     \<lparr>rc_configCache = cache_of [(''CiliumCIDRGroup//a'', cidr_object ''a'')],
      rc_runtimeCache = cache_of [(''CiliumCIDRGroup//b'', cidr_object ''b'')],
      rc_resourceInfo = [((ciliumAPIGroup, ''ciliumcidrgroups''), \<lparr>ri_Group = ciliumAPIGroup, ri_Version = ''v2alpha1''\<rparr>)]\<rparr>"

definition empty_json_lib :: json_lib where
  "empty_json_lib = \<lparr>jl_marshal = (\<lambda>_. Inr []), jl_unmarshal = (\<lambda>_. Inr [])\<rparr>"

lemma cidr_key: "CacheKeyForObject (cidr_object n) = Inr (''CiliumCIDRGroup//'' @ n)"
  by (simp add: CacheKeyForObject_def ExtractKind_def cidr_object_def CacheKey_def)

lemma sample_keyed: "keyed (rc_configCache sample_reconciler)" "keyed (rc_runtimeCache sample_reconciler)"
  by (simp_all add: keyed_def keyed_map_def sample_reconciler_def cache_of_def cidr_key)

lemma cidr_resource: "ExtractGroupResource (cidr_object n) = Inr (ciliumAPIGroup, ''ciliumcidrgroups'')"
  by (simp add: ExtractGroupResource_def cidr_object_def)

lemma sample_simps:
  "oc_objects (rc_configCache sample_reconciler) = [(''CiliumCIDRGroup//a'', cidr_object ''a'')]"
  "oc_objects (rc_runtimeCache sample_reconciler) = [(''CiliumCIDRGroup//b'', cidr_object ''b'')]"
  "rc_resourceInfo sample_reconciler =
     [((ciliumAPIGroup, ''ciliumcidrgroups''), \<lparr>ri_Group = ciliumAPIGroup, ri_Version = ''v2alpha1''\<rparr>)]"
  by (simp_all add: sample_reconciler_def cache_of_def)

lemma sample_reconcile:
  "\<exists>w'. reconcileAll empty_json_lib mem_client rev sample_reconciler Map.empty = (Inr (), w')"
proof -
  have keys: "rev (all_keys sample_reconciler) = [''CiliumCIDRGroup//b'', ''CiliumCIDRGroup//a'']"
    by (simp add: all_keys_def sample_reconciler_def cache_of_def Keys_def)
  show ?thesis
    by (simp add: reconcileAll_def keys reconcileObject_def sample_simps Get_def
        deleteObject_def applyObject_def equal_runtime_def cidr_resource)
       (simp add: DeleteResource_def ApplyResource_def mem_client_def IsNotFound_def cidr_object_def
        ConvertToApplyObject_def marshalConfiguredObjectSpecs_def metadata_string_def apply_metadata_def errors_join_def)
qed

text \<open>
  C5: after a full reconciliation that reports no error, in whatever order Go visits the keys, every
  configured object that differed from the runtime cache is in the cluster exactly as configured, every
  object that was only in the runtime cache is gone, and every other object of the cluster is untouched.
\<close>

theorem reconcile_all_converges:
  assumes "k8s_contract dc cl" and "keyed (rc_configCache rc)" and "keyed (rc_runtimeCache rc)"
    and "\<And>xs. mset (order xs) = mset xs"
    and "reconcileAll lib dc order rc w = (Inr (), w')"
  shows "(\<forall>k c. gm_get (oc_objects (rc_configCache rc)) k = Some c \<and> \<not> equal_runtime c (gm_get (oc_objects (rc_runtimeCache rc)) k) \<longrightarrow>
        (\<exists>d. desired_object lib (rc_resourceInfo rc) c = Some d \<and> cl w' (obj_id c) = Some d)) \<and>
    (\<forall>k r. gm_get (oc_objects (rc_configCache rc)) k = None \<and> gm_get (oc_objects (rc_runtimeCache rc)) k = Some r \<longrightarrow>
        cl w' (obj_id r) = None) \<and>
    (\<forall>i. (\<forall>k v. key_effect lib rc k \<noteq> Some (i, v)) \<longrightarrow> cl w' i = cl w i)"
proof -
  note perm = permuted_keys [OF assms(4), of rc]
  have run: "reconcile_keys lib dc rc (order (all_keys rc)) w = ([], w')"
    using assms(5) by (auto simp: reconcileAll_def split: prod.splits)
  have eff: "cl w' i = v" if "key_effect lib rc k = Some (i, v)" for k i v
    using reconcile_keys_effect [OF assms(1-3) run perm(1) _ that] key_effect_in_keys [OF that] perm(2)
    by (auto simp: failed_key_def)
  have frame: "cl w' i = cl w i" if "\<forall>k v. key_effect lib rc k \<noteq> Some (i, v)" for i
    using reconcile_keys_frame [OF assms(1) run] that by blast
  show ?thesis
  proof (intro conjI allI impI)
    fix k c
    assume c: "gm_get (oc_objects (rc_configCache rc)) k = Some c \<and> \<not> equal_runtime c (gm_get (oc_objects (rc_runtimeCache rc)) k)"
    then have ke: "key_effect lib rc k = Some (obj_id c, desired_object lib (rc_resourceInfo rc) c)"
      by (simp add: key_effect_def)
    have "k \<in> set (order (all_keys rc))" using key_effect_in_keys [OF ke] perm(2) by simp
    with c reconcile_keys_desired [OF run] obtain d where "desired_object lib (rc_resourceInfo rc) c = Some d" by blast
    with eff [OF ke] show "\<exists>d. desired_object lib (rc_resourceInfo rc) c = Some d \<and> cl w' (obj_id c) = Some d" by auto
  next
    fix k r
    assume "gm_get (oc_objects (rc_configCache rc)) k = None \<and> gm_get (oc_objects (rc_runtimeCache rc)) k = Some r"
    then show "cl w' (obj_id r) = None" by (intro eff [of k]) (simp add: key_effect_def)
  qed (rule frame)
qed

theorem reconcile_all_converges_witness:
  "\<exists>w' d. reconcileAll empty_json_lib mem_client rev sample_reconciler Map.empty = (Inr (), w') \<and>
     desired_object empty_json_lib (rc_resourceInfo sample_reconciler) (cidr_object ''a'') = Some d \<and>
     w' (obj_id (cidr_object ''a'')) = Some d \<and> w' (obj_id (cidr_object ''b'')) = None"
proof -
  obtain w' where run: "reconcileAll empty_json_lib mem_client rev sample_reconciler Map.empty = (Inr (), w')"
    using sample_reconcile by blast
  have cfg: "gm_get (oc_objects (rc_configCache sample_reconciler)) ''CiliumCIDRGroup//a'' = Some (cidr_object ''a'')"
    "\<not> equal_runtime (cidr_object ''a'') (gm_get (oc_objects (rc_runtimeCache sample_reconciler)) ''CiliumCIDRGroup//a'')"
    and rt: "gm_get (oc_objects (rc_configCache sample_reconciler)) ''CiliumCIDRGroup//b'' = None"
    "gm_get (oc_objects (rc_runtimeCache sample_reconciler)) ''CiliumCIDRGroup//b'' = Some (cidr_object ''b'')"
    by (simp_all add: sample_reconciler_def cache_of_def equal_runtime_def)
  show ?thesis
    using reconcile_all_converges [OF mem_client_contract sample_keyed mset_rev run] cfg rt run by blast
qed

text \<open>
  C27: when some objects fail, the others are still reconciled: each key either has its effect on the
  cluster, or is left as it was and named in the joined error; nothing else changes.
\<close>

theorem reconcile_failures_isolated:
  assumes "k8s_contract dc cl" and "keyed (rc_configCache rc)" and "keyed (rc_runtimeCache rc)"
    and "\<And>xs. mset (order xs) = mset xs"
    and "reconcileAll lib dc order rc w = (Inl (JoinErr errs), w')"
  shows "(\<forall>k i v. key_effect lib rc k = Some (i, v) \<longrightarrow> cl w' i = v \<or> cl w' i = cl w i \<and> failed_key k errs) \<and>
    (\<forall>i. (\<forall>k v. key_effect lib rc k \<noteq> Some (i, v)) \<longrightarrow> cl w' i = cl w i)"
proof -
  note perm = permuted_keys [OF assms(4), of rc]
  have run: "reconcile_keys lib dc rc (order (all_keys rc)) w = (errs, w')"
    using assms(5) by (auto simp: reconcileAll_def errors_join_def split: prod.splits if_splits)
  have "cl w' i = v \<or> cl w' i = cl w i \<and> failed_key k errs" if "key_effect lib rc k = Some (i, v)" for k i v
    using reconcile_keys_effect [OF assms(1-3) run perm(1) _ that] key_effect_in_keys [OF that] perm(2) by blast
  moreover have "cl w' i = cl w i" if "\<forall>k v. key_effect lib rc k \<noteq> Some (i, v)" for i
    using reconcile_keys_frame [OF assms(1) run] that by blast
  ultimately show ?thesis by blast
qed

definition failing_reconciler :: reconciler where
  "failing_reconciler = sample_reconciler\<lparr>rc_resourceInfo := []\<rparr>"

lemma failing_simps:
  "oc_objects (rc_configCache failing_reconciler) = [(''CiliumCIDRGroup//a'', cidr_object ''a'')]"
  "oc_objects (rc_runtimeCache failing_reconciler) = [(''CiliumCIDRGroup//b'', cidr_object ''b'')]"
  "rc_resourceInfo failing_reconciler = []"
  by (simp_all add: failing_reconciler_def sample_simps)

theorem reconcile_failures_isolated_witness:
  "\<exists>errs. fst (reconcileAll empty_json_lib mem_client rev failing_reconciler Map.empty) = Inl (JoinErr errs) \<and>
     (\<forall>k i v. key_effect empty_json_lib failing_reconciler k = Some (i, v) \<longrightarrow>
        snd (reconcileAll empty_json_lib mem_client rev failing_reconciler Map.empty) i = v \<or>
        snd (reconcileAll empty_json_lib mem_client rev failing_reconciler Map.empty) i = None \<and> failed_key k errs)"
proof -
  have keys: "rev (all_keys failing_reconciler) = [''CiliumCIDRGroup//b'', ''CiliumCIDRGroup//a'']"
    by (simp add: all_keys_def failing_reconciler_def sample_reconciler_def cache_of_def Keys_def)
  have "\<exists>errs w'. reconcileAll empty_json_lib mem_client rev failing_reconciler Map.empty = (Inl (JoinErr errs), w')"
    by (simp add: reconcileAll_def keys reconcileObject_def failing_simps Get_def deleteObject_def applyObject_def equal_runtime_def cidr_resource errors_join_def)
  then obtain errs w' where run: "reconcileAll empty_json_lib mem_client rev failing_reconciler Map.empty = (Inl (JoinErr errs), w')"
    by blast
  have keyed: "keyed (rc_configCache failing_reconciler)" "keyed (rc_runtimeCache failing_reconciler)"
    using sample_keyed by (simp_all add: failing_reconciler_def)
  show ?thesis using reconcile_failures_isolated [OF mem_client_contract keyed mset_rev run] run by auto
qed

text \<open>
  When the runtime cache holds the configured objects and nothing else, a full reconciliation makes no
  call to the API server and reports no error.
\<close>

theorem reconcile_in_sync_noop:
  assumes "\<And>k. rel_option proto_equal (gm_get (oc_objects (rc_configCache rc)) k) (gm_get (oc_objects (rc_runtimeCache rc)) k)"
    and "\<And>xs. mset (order xs) = mset xs"
  shows "reconcileAll lib dc order rc w = (Inr (), w)"
proof -
  have "key_effect lib rc k = None" for k
    using assms(1) [of k] by (auto simp: key_effect_def equal_runtime_def elim: option.rel_cases)
  then have "reconcile_keys lib dc rc (order (all_keys rc)) w = ([], w)" by (intro reconcile_keys_noop)
  then show ?thesis by (simp add: reconcileAll_def errors_join_def)
qed

theorem reconcile_in_sync_noop_witness:
  "reconcileAll empty_json_lib mem_client rev
     (sample_reconciler\<lparr>rc_runtimeCache := cache_of [(''CiliumCIDRGroup//a'', (cidr_object ''a'')\<lparr>co_labels := Some fmempty\<rparr>)]\<rparr>)
     Map.empty = (Inr (), Map.empty)"
  by (rule reconcile_in_sync_noop)
     (simp_all add: sample_reconciler_def cache_of_def proto_equal_def cidr_object_def map_content_def)

lemma reconcileObject_undiscovered: "rc_resourceInfo rc = [] \<Longrightarrow> snd (reconcileObject lib dc rc k w) = w"
  by (auto simp: reconcileObject_def applyObject_def deleteObject_def Let_def split: option.splits sum.splits if_splits)

lemma reconcile_keys_undiscovered: "rc_resourceInfo rc = [] \<Longrightarrow> snd (reconcile_keys lib dc rc ks w) = w"
proof (induction ks arbitrary: w)
  case (Cons k ks)
  then show ?case using reconcileObject_undiscovered [OF Cons.prems, of lib dc k w]
    by (auto split: prod.splits) (metis snd_conv)
qed simp

lemma reconcileAll_undiscovered: "rc_resourceInfo rc = [] \<Longrightarrow> snd (reconcileAll lib dc order rc w) = w"
  using reconcile_keys_undiscovered [of rc lib dc "order (all_keys rc)" w] by (auto simp: reconcileAll_def split: prod.splits)

lemma reconcile_loop_undiscovered:
  "list_all (\<lambda>(rc, e). rc_resourceInfo rc = []) es \<Longrightarrow> reconcile_loop lib dc order es w = w"
  by (induction lib dc order es w rule: reconcile_loop.induct)
     (auto simp: reconcileAll_undiscovered reconcileObject_undiscovered processResourceChange_def)

lemma discover_loop_failing:
  "list_all (\<lambda>(disc, cancelled). \<not> cancelled \<and> (\<exists>e. di_ServerGroups disc = Inl e)) as \<Longrightarrow>
   discover_loop as info = Some (if as = [] then info else Some [])"
  by (induction as arbitrary: info) (auto simp: BuildResourceAPIGroupMap_def buildResourceAPIGroupMap_def)

text \<open>
  C40: when listing the API groups fails in all five attempts, the map left behind is empty but not nil, so
  the reconciler is not stopped by the test for nil; it then runs without ever calling the API server,
  since every apply and every delete fails as not discovered.
\<close>

theorem reconciler_starts_undiscovered:
  assumes "length attempts = 5" and "list_all (\<lambda>(disc, cancelled). \<not> cancelled \<and> (\<exists>e. di_ServerGroups disc = Inl e)) attempts"
  shows "discover_loop (take 5 attempts) None = Some (Some []) \<and>
    Reconciler_Run lib dc order attempts waits caches events w = w"
proof -
  have d: "discover_loop (take 5 attempts) None = Some (Some [])"
    using discover_loop_failing [OF assms(2), of None] assms(1) by auto
  have "reconcile_loop lib dc order (map (\<lambda>(rc, e). (rc\<lparr>rc_resourceInfo := []\<rparr>, e)) events) v = v" for v
    by (rule reconcile_loop_undiscovered) (auto simp: list_all_iff)
  with d show ?thesis
    by (auto simp: Reconciler_Run_def reconcileAll_undiscovered split: option.splits sum.splits)
qed

theorem reconciler_starts_undiscovered_witness:
  "discover_loop (take 5 (replicate 5 (\<lparr>di_ServerGroups = Inl (ErrMsg ''connection refused''), di_ServerResources = (\<lambda>_. Inr [])\<rparr>, False))) None
     = Some (Some []) \<and>
   Reconciler_Run empty_json_lib mem_client rev
     (replicate 5 (\<lparr>di_ServerGroups = Inl (ErrMsg ''connection refused''), di_ServerResources = (\<lambda>_. Inr [])\<rparr>, False))
     [WaitConfigReady, WaitRuntimeReady] (rc_configCache sample_reconciler, rc_runtimeCache sample_reconciler)
     [(sample_reconciler, RcTimer)] Map.empty = Map.empty"
  by (rule reconciler_starts_undiscovered) (simp_all add: list_all_iff)

end
