(* ===== verification/Config_Delivery.thy ===== *)
theory Config_Delivery
  imports Stream_Factories Reconciler
begin

text \<open>
  The way of the configuration from the service to the cluster, over reconnections: sessions of the configuration stream
  (\<open>stream/config/client.go\<close>, made by \<open>stream/config/factory.go\<close>) fill the cache, and a reconciliation
  (\<open>reconciler/reconciler.go\<close>) brings the cluster in line with it. The theorem states the cluster as a function of the messages
  the service sent.
\<close>

section \<open>Sessions\<close>

text \<open>
  A session: the messages that were handled, and maybe one more whose handling ended the session, because it broke
  the protocol or because the context was cancelled meanwhile.
\<close>

type_synonym config_session = "config_response list \<times> config_response option"

text \<open>How a session ends after the messages handled: a cancelled context, an error of the stream, or a failing message.\<close>

definition session_ends :: "log_encoder \<Rightarrow> config_response option \<Rightarrow> config_client \<Rightarrow> config_client \<Rightarrow> bool" where
  "session_ends enc lastm c c' \<longleftrightarrow>
     (\<exists>r cancelled recv cancelled'. Returns (Break (r, c')) \<in> set (Run_iteration enc (cancelled, recv, cancelled') c) \<and>
        lastm = (if cancelled then None else case recv of Inl _ \<Rightarrow> None | Inr m \<Rightarrow> Some m))"

inductive config_sessions :: "log_encoder \<Rightarrow> config_session list \<Rightarrow> config_client \<Rightarrow> config_client \<Rightarrow> bool" for enc where
  no_session: "config_sessions enc [] c c"
| session: "config_sessions enc ss c c1 \<Longrightarrow>
     Config_NewStreamClient (Inr ()) (after_config (Config_Close c1) f) = Inr c2 \<Longrightarrow>
     Run_loop enc ms (Run_init c2) c3 \<Longrightarrow> session_ends enc lastm c3 c4 \<Longrightarrow>
     config_sessions enc (ss @ [(ms, lastm)]) c c4"
| failed_open: "config_sessions enc ss c c1 \<Longrightarrow> config_sessions enc ss c (Config_Close c1)"

text \<open>What a session means for the configured objects: the protocol's result, the last message included when it is a legal one.\<close>

definition session_start :: "(string \<rightharpoonup> configured_object) \<Rightarrow> config_spec" where
  "session_start objs = \<lparr>sp_pending = Map.empty, sp_complete = False, sp_objects = objs\<rparr>"

definition spec_end :: "config_response option \<Rightarrow> config_spec \<Rightarrow> config_spec" where
  "spec_end lastm s = (case Option.bind lastm (\<lambda>m. spec_response m s) of None \<Rightarrow> s | Some s' \<Rightarrow> s')"

definition spec_session :: "config_session \<Rightarrow> (string \<rightharpoonup> configured_object) \<Rightarrow> (string \<rightharpoonup> configured_object)" where
  "spec_session = (\<lambda>(ms, lastm) objs.
     case spec_run ms (session_start objs) of None \<Rightarrow> objs | Some s \<Rightarrow> sp_objects (spec_end lastm s))"

section \<open>A message that ends the session\<close>

lemma handleMutation_objects:
  assumes "Returns (r, c') \<in> set (handleMutation cancelled key m c)" and "mutation_key m = Some key"
  shows "gm_get (oc_objects (cc_cache c')) =
    (case spec_mutation m (gm_get (oc_objects (cc_cache c))) of None \<Rightarrow> gm_get (oc_objects (cc_cache c)) | Some x \<Rightarrow> x)"
  using assms by (cases m) (auto simp: on_cache_Returns split: sum.splits dest!: cache_contents)

lemma handleConfigUpdate_objects:
  assumes "Returns (r, c') \<in> set (handleConfigUpdate enc cancelled m c)"
  shows "gm_get (oc_objects (cc_cache c')) = sp_objects (spec_end (Some m) (abs_client c))"
proof (cases m)
  case (ResourceMutation mu)
  show ?thesis
  proof (cases "mutation_key mu")
    case None
    then have "spec_mutation mu x = Some x" for x by (cases mu) (auto split: sum.splits)
    then show ?thesis using assms ResourceMutation None by (auto simp: abs_client_def spec_end_def split: if_splits)
  next
    case (Some key)
    show ?thesis
    proof (cases "cc_snapshotComplete c")
      case True
      then obtain c1 where "Returns (r, c1) \<in> set (handleMutation cancelled key mu c)"
        and "cc_cache c' = cc_cache c1"
        using assms ResourceMutation Some by (cases r) (auto simp: and_then_Returns count_mutation_def)
      with handleMutation_objects [OF this(1) Some] True ResourceMutation show ?thesis
        by (simp add: abs_client_def spec_end_def split: option.splits)
    qed (use assms ResourceMutation in \<open>auto simp: abs_client_def spec_end_def\<close>)
  qed
next
  case ResourceSnapshotComplete
  then show ?thesis using assms
    by (cases r) (auto simp: abs_client_def spec_end_def and_then_Returns on_cache_Returns split: if_splits dest!: cache_contents)
qed (use assms in \<open>auto simp: handleUpdateConfiguration_def abs_client_def spec_end_def split: if_splits sum.splits\<close>)

lemma session_ends_objects:
  assumes "session_ends enc lastm c c'"
  shows "gm_get (oc_objects (cc_cache c')) = sp_objects (spec_end lastm (abs_client c))"
proof -
  obtain r cancelled recv cancelled' where
    brk: "Returns (Break (r, c')) \<in> set (Run_iteration enc (cancelled, recv, cancelled') c)"
    and lastm: "lastm = (if cancelled then None else case recv of Inl _ \<Rightarrow> None | Inr m \<Rightarrow> Some m)"
    using assms by (auto simp: session_ends_def)
  show ?thesis
  proof (cases "cancelled \<or> (\<exists>e. recv = Inl e)")
    case True
    then show ?thesis using brk lastm by (auto simp: spec_end_def abs_client_def split: if_splits)
  next
    case False
    then obtain m where m: "recv = Inr m" "\<not> cancelled" by (cases recv) auto
    then obtain r' where "Returns (r', c') \<in> set (handleConfigUpdate enc cancelled' m c)"
      using brk by (auto simp: loop_break_iff)
    then show ?thesis using handleConfigUpdate_objects lastm m by simp
  qed
qed

section \<open>Objects stay under their keys\<close>

definition client_keyed :: "config_client \<Rightarrow> bool" where
  "client_keyed c \<longleftrightarrow> keyed (cc_cache c) \<and> keyed_map (cc_pendingSnapshot c)"

lemma handleMutation_keyed:
  assumes "Returns (r, c') \<in> set (handleMutation cancelled key m c)" and "mutation_key m = Some key" and "client_keyed c"
  shows "client_keyed c'"
  using assms
  by (cases m) (auto simp: client_keyed_def on_cache_Returns split: sum.splits dest: keyed_ops)

lemma handleConfigUpdate_keyed:
  assumes "Returns (r, c') \<in> set (handleConfigUpdate enc cancelled m c)" and "client_keyed c"
  shows "client_keyed c'"
proof (cases m)
  case (ResourceMutation mu)
  show ?thesis
  proof (cases "mutation_key mu")
    case (Some key)
    then show ?thesis using assms ResourceMutation
      by (cases r) (auto simp: and_then_Returns count_mutation_def split: if_splits dest: handleMutation_keyed
          simp: client_keyed_def)
  qed (use assms ResourceMutation in \<open>auto split: if_splits\<close>)
next
  case ResourceSnapshotComplete
  then show ?thesis using assms
    by (cases r) (auto simp: client_keyed_def and_then_Returns on_cache_Returns split: if_splits dest: keyed_ops)
qed (use assms in \<open>auto simp: client_keyed_def handleUpdateConfiguration_def split: if_splits sum.splits intro: keyed_map_put\<close>)

lemma Run_loop_keyed: "Run_loop enc ms c c' \<Longrightarrow> client_keyed c \<Longrightarrow> client_keyed c'"
proof (induction rule: Run_loop.induct)
  case (run_message ms c c1 c2 m cancelled)
  then have "Returns (Inr (), c2) \<in> set (handleConfigUpdate enc cancelled m c1)" by (auto simp: loop_again_iff)
  then show ?case using run_message handleConfigUpdate_keyed by blast
next
  case run_drain
  then show ?case by (simp add: client_keyed_def keyed_def)
qed

lemma session_ends_keyed: "session_ends enc lastm c c' \<Longrightarrow> client_keyed c \<Longrightarrow> client_keyed c'"
  by (auto simp: session_ends_def loop_break_iff split: if_splits sum.splits dest: handleConfigUpdate_keyed)

section \<open>The cache after any number of sessions\<close>

lemma sessions_cache:
  assumes "config_sessions enc ss c c'" and "keyed (cc_cache c)"
  shows "gm_get (oc_objects (cc_cache c')) = fold spec_session ss (gm_get (oc_objects (cc_cache c)))" and "keyed (cc_cache c')"
  using assms
proof (induction rule: config_sessions.induct)
  case (session ss c c1 f c2 ms c3 lastm c4)
  case 1
  note cache = config_reconnects(1,5) [OF session.hyps(2)]
  have "spec_run ms (session_start (gm_get (oc_objects (cc_cache c1)))) = Some (abs_client c3)"
    using Run_loop_abs [OF session.hyps(3)] cache by (simp add: abs_client_def Run_init_def session_start_def)
  then show ?case
    using session.IH(1) [OF 1] session_ends_objects [OF session.hyps(4)] by (simp add: spec_session_def)
next
  case (session ss c c1 f c2 ms c3 lastm c4)
  case 2
  have "client_keyed (Run_init c2)"
    using session.IH(2) [OF 2] config_reconnects(1) [OF session.hyps(2)] by (simp add: client_keyed_def Run_init_def)
  then show ?case
    using Run_loop_keyed [OF session.hyps(3)] session_ends_keyed [OF session.hyps(4)] by (simp add: client_keyed_def)
qed (simp_all add: Config_Close_def)

section \<open>From the service to the cluster\<close>

text \<open>
  A stored object represents a configured one when it is what the operator applies for it, or for one equal to it as a message
  (a missing and an empty map of labels are equal). The runtime cache reports the cluster when an object that it has and that
  equals the configured one is stored in that form: an object that somebody else changed differs from the configured one.
\<close>

definition represents :: "json_lib \<Rightarrow> resource_map \<Rightarrow> json_obj option \<Rightarrow> configured_object \<Rightarrow> bool" where
  "represents lib infos stored obj \<longleftrightarrow>
     stored \<noteq> None \<and> (\<exists>c. proto_equal c obj \<and> desired_object lib infos c = stored)"

definition runtime_reports ::
  "json_lib \<Rightarrow> resource_map \<Rightarrow> (object_id \<rightharpoonup> json_obj) \<Rightarrow> (string \<rightharpoonup> configured_object) \<Rightarrow> configured_object object_cache \<Rightarrow> bool" where
  "runtime_reports lib infos cluster objects rt \<longleftrightarrow>
     (\<forall>k r obj. gm_get (oc_objects rt) k = Some r \<and> objects k = Some obj \<and> proto_equal obj r \<longrightarrow>
        represents lib infos (cluster (obj_id r)) r)"

lemma represents_equal:
  assumes "represents lib infos stored a" and "proto_equal a b"
  shows "represents lib infos stored b"
  using assms configured_eq.eq_trans by (auto simp: represents_def)

lemma obj_id_equal: "proto_equal a b \<Longrightarrow> obj_id a = obj_id b"
  by (simp add: proto_equal_def obj_id_def ExtractGroupResource_def)

definition fresh_config :: "config_client \<Rightarrow> bool" where
  "fresh_config c \<longleftrightarrow> cc_cache c = NewObjectCache"

lemma reconciled_key:
  assumes "k8s_contract dc cl" and "keyed (rc_configCache rc)" and "keyed (rc_runtimeCache rc)"
    and "\<And>xs. mset (order xs) = mset xs" and "reconcileAll lib dc order rc w = (Inr (), w')"
    and "key_effect lib rc k = Some (i, v)"
  shows "cl w' i = v"
proof -
  note perm = permuted_keys [OF assms(4), of rc]
  have run: "reconcile_keys lib dc rc (order (all_keys rc)) w = ([], w')"
    using assms(5) by (auto simp: reconcileAll_def split: prod.splits)
  show ?thesis
    using reconcile_keys_effect [OF assms(1-3) run perm(1) _ assms(6)] key_effect_in_keys [OF assms(6)] perm(2)
    by (auto simp: failed_key_def)
qed

lemma reconciled_frame:
  assumes "k8s_contract dc cl" and "reconcileAll lib dc order rc w = (Inr (), w')"
    and "\<And>k v. key_effect lib rc k \<noteq> Some (i, v)"
  shows "cl w' i = cl w i"
  using reconcile_keys_frame [OF assms(1)] assms(2,3) by (fastforce simp: reconcileAll_def split: prod.splits)

lemma reconciled_configured:
  assumes "k8s_contract dc cl" and "keyed (rc_configCache rc)" and "keyed (rc_runtimeCache rc)"
    and "\<And>xs. mset (order xs) = mset xs" and "reconcileAll lib dc order rc w = (Inr (), w')"
    and "runtime_reports lib (rc_resourceInfo rc) (cl w) (gm_get (oc_objects (rc_configCache rc))) (rc_runtimeCache rc)"
    and "gm_get (oc_objects (rc_configCache rc)) k = Some c"
  shows "represents lib (rc_resourceInfo rc) (cl w' (obj_id c)) c"
proof (cases "equal_runtime c (gm_get (oc_objects (rc_runtimeCache rc)) k)")
  case True
  then obtain r where r: "gm_get (oc_objects (rc_runtimeCache rc)) k = Some r" "proto_equal c r"
    by (auto simp: equal_runtime_def split: option.splits)
  then have "proto_equal r c" by (simp add: configured_eq.eq_sym)
  then have here: "represents lib (rc_resourceInfo rc) (cl w (obj_id c)) c"
    using assms(6,7) r represents_equal obj_id_equal unfolding runtime_reports_def by metis
  have "key_effect lib rc k' \<noteq> Some (obj_id c, v)" for k' v
  proof
    assume eff: "key_effect lib rc k' = Some (obj_id c, v)"
    obtain obj where "obj_id c = obj_id obj" "CacheKeyForObject obj = Inr k'" by (rule key_effect_object [OF assms(2,3) eff])
    then have "k' = k" using obj_id_key keyedD [OF assms(2,7)] by metis
    then show False using eff True assms(7) by (simp add: key_effect_def)
  qed
  then show ?thesis using reconciled_frame [OF assms(1,5)] here by simp
next
  case False
  then have eff: "key_effect lib rc k = Some (obj_id c, desired_object lib (rc_resourceInfo rc) c)"
    using assms(7) by (simp add: key_effect_def)
  have run: "reconcile_keys lib dc rc (order (all_keys rc)) w = ([], w')"
    using assms(5) by (auto simp: reconcileAll_def split: prod.splits)
  have "k \<in> set (order (all_keys rc))" using key_effect_in_keys [OF eff] permuted_keys(2) [OF assms(4)] by simp
  then show ?thesis
    using reconcile_keys_desired [OF run _ assms(7) False] reconciled_key [OF assms(1-5) eff] configured_eq.eq_refl
    by (auto simp: represents_def)
qed

text \<open>
  What the service sends is what the cluster gets. After any number of sessions of the configuration stream,
  whichever broke off and wherever, with the reconciler taking announcements in between, a full reconciliation that reports no
  error leaves in the cluster every object that the messages describe, in the form the operator applies, and none that it owned
  and they do not name; objects that are in neither cache are untouched. Sessions whose snapshot did not complete
  count for nothing.
\<close>

theorem configuration_delivered:
  assumes "config_sessions enc ss c0 c" and "fresh_config c0" and "k8s_contract dc cl"
    and "keyed rt" and "runtime_reports lib infos (cl w) objects rt" and "\<And>xs. mset (order xs) = mset xs"
    and "reconcileAll lib dc order \<lparr>rc_configCache = cc_cache c, rc_runtimeCache = rt, rc_resourceInfo = infos\<rparr> w = (Inr (), w')"
    and "objects = fold spec_session ss Map.empty"
  shows "(\<forall>k obj. objects k = Some obj \<longrightarrow> represents lib infos (cl w' (obj_id obj)) obj) \<and>
    (\<forall>k r. gm_get (oc_objects rt) k = Some r \<and> objects k = None \<longrightarrow> cl w' (obj_id r) = None) \<and>
    (\<forall>i. (\<forall>k obj. objects k = Some obj \<or> gm_get (oc_objects rt) k = Some obj \<longrightarrow> obj_id obj \<noteq> i) \<longrightarrow> cl w' i = cl w i)"
proof -
  let ?rc = "\<lparr>rc_configCache = cc_cache c, rc_runtimeCache = rt, rc_resourceInfo = infos\<rparr>"
  have "keyed (cc_cache c0)" "gm_get (oc_objects (cc_cache c0)) = Map.empty"
    using assms(2) by (simp_all add: fresh_config_def keyed_def NewObjectCache_def)
  with sessions_cache [OF assms(1)] assms(8)
  have cache: "gm_get (oc_objects (rc_configCache ?rc)) = objects" and keyed: "keyed (rc_configCache ?rc)" "keyed (rc_runtimeCache ?rc)"
    using assms(4) by simp_all
  note step = reconciled_configured [OF assms(3) keyed assms(6,7)]
    and key = reconciled_key [OF assms(3) keyed assms(6,7)] and frame = reconciled_frame [OF assms(3,7)]
  have "cl w' (obj_id r) = None" if "gm_get (oc_objects rt) k = Some r" "objects k = None" for k r
    using that cache by (intro key [of k]) (simp add: key_effect_def)
  moreover have "cl w' i = cl w i"
    if "\<forall>k obj. objects k = Some obj \<or> gm_get (oc_objects rt) k = Some obj \<longrightarrow> obj_id obj \<noteq> i" for i
    using that cache by (intro frame) (auto simp: key_effect_def split: option.splits)
  moreover have "represents lib infos (cl w' (obj_id obj)) obj" if "objects k = Some obj" for k obj
    using step [of k obj] that assms(5) cache by simp
  ultimately show ?thesis by blast
qed

text \<open>
  An example: a session that the server closes at once, one that delivers a snapshot of one object, and a cluster that holds
  another one.
\<close>

definition sample_infos :: resource_map where
  "sample_infos = rc_resourceInfo sample_reconciler"

definition sample_runtime :: "configured_object object_cache" where
  "sample_runtime = rc_runtimeCache sample_reconciler"

definition sample_cluster :: "object_id \<rightharpoonup> json_obj" where
  "sample_cluster = [obj_id (cidr_object ''b'') \<mapsto> the (desired_object empty_json_lib sample_infos (cidr_object ''b''))]"

definition sample_sessions :: "config_session list" where
  "sample_sessions = [([], None), ([ResourceData (cidr_object ''g''), ResourceSnapshotComplete], None)]"

lemma sample_is_cidr: "sample_object = cidr_object ''g''"
  by (simp add: sample_object_def cidr_object_def)

lemma eof_ends_session: "session_ends enc None c c"
  unfolding session_ends_def by (rule exI [of _ "Inr ()"], rule exI [of _ False], rule exI [of _ "Inl IoEOF"]) simp

lemma sample_reopened:
  "Config_NewStreamClient (Inr ())
     (after_config (Config_Close sample_client)
       \<lparr>os_verboseDebugging = False, os_logs = cc_logs sample_client, os_stats = NewStats, os_cache = NewObjectCache, os_liveness = d\<rparr>)
   = Inr sample_client"
  by (simp add: Config_NewStreamClient_def after_config_def Config_Close_def sample_client_def)

lemma sample_sessions_run: "config_sessions plain_encoder sample_sessions sample_client sample_client'"
proof -
  have "Run_init sample_client = sample_client" by (simp add: Run_init_def sample_client_def)
  then have "config_sessions plain_encoder ([] @ [([], None)]) sample_client sample_client"
    using session [OF no_session sample_reopened _ eof_ends_session, of plain_encoder "[]"] run_nil by metis
  from session [OF this sample_reopened sample_run eof_ends_session]
  show ?thesis by (simp add: sample_sessions_def sample_is_cidr)
qed

lemma cidr_desired: "\<exists>d. desired_object empty_json_lib sample_infos (cidr_object n) = Some d"
  by (simp add: desired_object_def cidr_resource sample_infos_def sample_simps)
     (simp add: ConvertToApplyObject_def marshalConfiguredObjectSpecs_def cidr_object_def)

lemma sample_reports: "runtime_reports empty_json_lib sample_infos sample_cluster objects sample_runtime"
proof -
  obtain d where "desired_object empty_json_lib sample_infos (cidr_object ''b'') = Some d" using cidr_desired by blast
  then show ?thesis
    using configured_eq.eq_refl
    by (auto simp: runtime_reports_def represents_def sample_runtime_def sample_reconciler_def cache_of_def sample_cluster_def
        split: if_splits)
qed

definition delivered :: "object_id \<rightharpoonup> json_obj" where
  "delivered = snd (reconcileAll empty_json_lib mem_client rev
     \<lparr>rc_configCache = cc_cache sample_client', rc_runtimeCache = sample_runtime, rc_resourceInfo = sample_infos\<rparr> sample_cluster)"

lemma sample_delivery:
  "reconcileAll empty_json_lib mem_client rev
     \<lparr>rc_configCache = cc_cache sample_client', rc_runtimeCache = sample_runtime, rc_resourceInfo = sample_infos\<rparr> sample_cluster
   = (Inr (), delivered)"
proof -
  have "fst (reconcileAll empty_json_lib mem_client rev
      \<lparr>rc_configCache = cc_cache sample_client', rc_runtimeCache = sample_runtime, rc_resourceInfo = sample_infos\<rparr> sample_cluster) = Inr ()"
    by (simp add: reconcileAll_def all_keys_def Keys_def reconcileObject_def Get_def sample_client'_def sample_runtime_def
        sample_infos_def sample_simps sample_is_cidr deleteObject_def applyObject_def equal_runtime_def cidr_resource)
       (simp add: DeleteResource_def ApplyResource_def mem_client_def IsNotFound_def cidr_object_def
        ConvertToApplyObject_def marshalConfiguredObjectSpecs_def metadata_string_def apply_metadata_def errors_join_def)
  then show ?thesis by (simp add: delivered_def prod_eq_iff)
qed

lemma sample_objects: "fold spec_session sample_sessions Map.empty = [''CiliumCIDRGroup//g'' \<mapsto> cidr_object ''g'']"
  by (simp add: sample_sessions_def spec_session_def spec_run_def session_start_def spec_end_def cidr_key)

theorem configuration_delivered_witness:
  "represents empty_json_lib sample_infos (delivered (obj_id (cidr_object ''g''))) (cidr_object ''g'') \<and>
   delivered (obj_id (cidr_object ''b'')) = None"
proof -
  have "keyed sample_runtime" "fresh_config sample_client"
    using sample_keyed(2) by (simp_all add: sample_runtime_def fresh_config_def sample_client_def)
  from configuration_delivered [OF sample_sessions_run this(2) mem_client_contract this(1) sample_reports mset_rev sample_delivery
      sample_objects [symmetric]]
  have "[''CiliumCIDRGroup//g'' \<mapsto> cidr_object ''g''] ''CiliumCIDRGroup//g'' = Some (cidr_object ''g'') \<longrightarrow>
      represents empty_json_lib sample_infos (delivered (obj_id (cidr_object ''g''))) (cidr_object ''g'')"
    and "gm_get (oc_objects sample_runtime) ''CiliumCIDRGroup//b'' = Some (cidr_object ''b'') \<and>
      [''CiliumCIDRGroup//g'' \<mapsto> cidr_object ''g''] ''CiliumCIDRGroup//b'' = None \<longrightarrow> delivered (obj_id (cidr_object ''b'')) = None"
    by blast+
  then show ?thesis by (simp add: sample_runtime_def sample_simps)
qed

end
