(* ===== verification/Runtime_Mirror.thy ===== *)
theory Runtime_Mirror
  imports Resources_Client Convert_AWS Convert_Cilium Config_Delivery
begin

text \<open>
  The runtime cache as a picture of the cluster: what the lists and watches of \<open>stream/resources\<close> report, the converters of
  \<open>src/internal/convert\<close> read and the handler of \<open>stream/resources/client.go\<close> stores is, for the objects the operator
  applied, what the cluster holds. Together with \<open>Config_Delivery\<close> this closes the loop of the operator.
\<close>

section \<open>Reports\<close>

text \<open>A complete list of the objects of the watched kinds, with what they convert to, or a change of one of them.\<close>

datatype report = Listed "(unstructured \<times> object_data) list" | Changed watch_type unstructured object_data

fun report_objects :: "report \<Rightarrow> (unstructured \<times> object_data) list" where
  "report_objects (Listed items) = items"
| "report_objects (Changed _ obj md) = [(obj, md)]"

definition report_put :: "unstructured \<times> object_data \<Rightarrow> (string \<rightharpoonup> unstructured \<times> object_data) \<Rightarrow> (string \<rightharpoonup> unstructured \<times> object_data)" where
  "report_put x m = m(metadata_key (snd x) \<mapsto> x)"

text \<open>The objects of the cluster, by their cache keys, as the reports have them.\<close>

fun report_step :: "report \<Rightarrow> (string \<rightharpoonup> unstructured \<times> object_data) \<Rightarrow> (string \<rightharpoonup> unstructured \<times> object_data)" where
  "report_step (Listed items) m = fold report_put items Map.empty"
| "report_step (Changed t obj md) m =
     (case t of
        Added \<Rightarrow> report_put (obj, md) m
      | Modified \<Rightarrow> report_put (obj, md) m
      | Deleted \<Rightarrow> m(metadata_key md := None)
      | _ \<Rightarrow> m)"

definition reported_cluster :: "report list \<Rightarrow> (string \<rightharpoonup> unstructured \<times> object_data)" where
  "reported_cluster rs = fold report_step rs Map.empty"

text \<open>The converters whose results reach the handler, and the uniqueness of names in a list.\<close>

definition operator_converted :: "aws_lib \<Rightarrow> cilium_decoder \<Rightarrow> unstructured \<times> object_data \<Rightarrow> bool" where
  "operator_converted lib dec = (\<lambda>(obj, md).
     NewAWSResourceConverter lib obj = Inr md \<or> ConvertUnstructuredToCiliumResource dec (Some obj) = Inr md)"

definition report_ok :: "aws_lib \<Rightarrow> cilium_decoder \<Rightarrow> report \<Rightarrow> bool" where
  "report_ok lib dec r \<longleftrightarrow> list_all (operator_converted lib dec) (report_objects r) \<and>
     distinct (map (metadata_key \<circ> snd) (report_objects r))"

section \<open>The cache under reports\<close>

text \<open>What the handler adds to the pending snapshot for a listed object.\<close>

definition collect_item ::
  "configured_object object_cache \<Rightarrow> unstructured \<times> object_data \<Rightarrow> (string, configured_object) gomap \<Rightarrow> (string, configured_object) gomap" where
  "collect_item cache = (\<lambda>(obj, md) snap.
     if \<not> hasFieldManager obj FieldManager \<and> Get (metadata_key md) cache = None then snap
     else case BuildConfiguredFromMetadata md of Inl _ \<Rightarrow> snap | Inr c \<Rightarrow> gm_put (metadata_key md) c snap)"

lemma list_handler_collects:
  "snd (list_handler None obj md s) = s\<lparr>rs_pending := collect_item (rs_cache s) (obj, md) (rs_pending s)\<rparr>"
  by (simp add: list_handler_def newRuntimeCacheHandler_def collect_item_def Let_def split: sum.splits)

text \<open>
  The handler over a history of reports. The rest of the stream's state, the pending snapshot between lists, and the announcements
  taken by the reconciler change freely.
\<close>

inductive mirror_run :: "report list \<Rightarrow> res_state \<Rightarrow> res_state \<Rightarrow> bool" where
  mr_nil: "mirror_run [] s s"
| mr_change: "mirror_run rs s s1 \<Longrightarrow> Returns (r, s2) \<in> set (newRuntimeCacheHandler cancelled (Some t) obj md s1) \<Longrightarrow>
     mirror_run (rs @ [Changed t obj md]) s s2"
| mr_list: "mirror_run rs s s1 \<Longrightarrow> snap = fold (collect_item (rs_cache s1)) items [] \<Longrightarrow>
     Returns (r, c) \<in> set (ReplaceAll cancelled snap (rs_cache s1)) \<Longrightarrow>
     mirror_run (rs @ [Listed items]) s (s1\<lparr>rs_pending := snap, rs_cache := c\<rparr>)"
| mr_other: "mirror_run rs s s1 \<Longrightarrow> oc_objects (rs_cache s2) = oc_objects (rs_cache s1) \<Longrightarrow> mirror_run rs s s2"

text \<open>The contents of the cache after a change.\<close>

definition tracked_step ::
  "watch_type \<Rightarrow> unstructured \<Rightarrow> object_data \<Rightarrow> (string \<rightharpoonup> configured_object) \<Rightarrow> (string \<rightharpoonup> configured_object)" where
  "tracked_step t obj md m =
     (if \<not> hasFieldManager obj FieldManager \<and> m (metadata_key md) = None then m
      else case BuildConfiguredFromMetadata md of
             Inl _ \<Rightarrow> m
           | Inr c \<Rightarrow> (case t of
                        Added \<Rightarrow> m(metadata_key md \<mapsto> c)
                      | Modified \<Rightarrow> m(metadata_key md \<mapsto> c)
                      | Deleted \<Rightarrow> m(metadata_key md := None)
                      | _ \<Rightarrow> m))"

lemma handler_contents:
  assumes "Returns (r, s') \<in> set (newRuntimeCacheHandler cancelled (Some t) obj md s)"
  shows "gm_get (oc_objects (rs_cache s')) = tracked_step t obj md (gm_get (oc_objects (rs_cache s)))"
  using assms
  by (cases t)
     (auto simp: newRuntimeCacheHandler_def tracked_step_def Get_def Let_def on_runtime_cache_Returns split: if_splits sum.splits
       dest!: cache_contents)

section \<open>Kinds\<close>

definition buildable :: "object_data \<Rightarrow> bool" where
  "buildable md \<longleftrightarrow> (\<exists>c. BuildConfiguredFromMetadata md = Inr c)"

definition operator_kinds :: "string list" where
  "operator_kinds = [''CiliumNetworkPolicy'', ''CiliumClusterwideNetworkPolicy'', ''CiliumCIDRGroup'', ''ClusterNetworkPolicy'']"

lemma converted_kind:
  assumes "operator_converted lib dec (obj, md)"
  shows "buildable md \<longleftrightarrow> od_kind md \<in> set operator_kinds" and "CHR ''/'' \<notin> set (od_kind md)"
    and "converted_ok md"
  using assms
  by (auto simp: operator_converted_def NewAWSResourceConverter_def ConvertUnstructuredToAWSResource_def
      ConvertUnstructuredToCiliumResource_def buildable_def BuildConfiguredFromMetadata_def operator_kinds_def crd_metadata_def
      set_namespace_def converted_ok_def Let_def split: if_splits sum.splits prod.splits)

lemma same_key_same_kind:
  assumes "metadata_key md = metadata_key md'" and "CHR ''/'' \<notin> set (od_kind md)" and "CHR ''/'' \<notin> set (od_kind md')"
  shows "od_kind md = od_kind md'"
  using append_sep_eq [of "od_kind md" "CHR ''/''" _ "od_kind md'"] assms by (auto simp: metadata_key_def CacheKey_def)

text \<open>Whether the object under a key can be configured by the operator is a matter of the key.\<close>

lemma buildable_by_key:
  assumes "operator_converted lib dec x" and "operator_converted lib dec y" and "metadata_key (snd x) = metadata_key (snd y)"
  shows "buildable (snd x) \<longleftrightarrow> buildable (snd y)"
proof -
  obtain o1 md o2 md' where xy: "x = (o1, md)" "y = (o2, md')" by (cases x, cases y)
  show ?thesis
    using converted_kind(1,2) [OF assms(1) [unfolded xy]] converted_kind(1,2) [OF assms(2) [unfolded xy]] same_key_same_kind [of md md'] assms(3) xy
    by simp
qed

section \<open>The mirror\<close>

definition mirrors :: "(string \<rightharpoonup> unstructured \<times> object_data) \<Rightarrow> (string \<rightharpoonup> configured_object) \<Rightarrow> bool" where
  "mirrors rep cache \<longleftrightarrow>
     (\<forall>k c. cache k = Some c \<longrightarrow> (\<exists>obj md. rep k = Some (obj, md) \<and> BuildConfiguredFromMetadata md = Inr c)) \<and>
     (\<forall>k obj md c. rep k = Some (obj, md) \<and> hasFieldManager obj FieldManager \<and> BuildConfiguredFromMetadata md = Inr c \<longrightarrow> cache k = Some c)"

definition reported_ok :: "aws_lib \<Rightarrow> cilium_decoder \<Rightarrow> (string \<rightharpoonup> unstructured \<times> object_data) \<Rightarrow> bool" where
  "reported_ok lib dec rep \<longleftrightarrow> (\<forall>k x. rep k = Some x \<longrightarrow> metadata_key (snd x) = k \<and> operator_converted lib dec x)"

lemma report_put_ok: "reported_ok lib dec rep \<Longrightarrow> operator_converted lib dec x \<Longrightarrow> reported_ok lib dec (report_put x rep)"
  by (auto simp: reported_ok_def report_put_def)

lemma report_puts_ok:
  "list_all (operator_converted lib dec) xs \<Longrightarrow> reported_ok lib dec rep \<Longrightarrow> reported_ok lib dec (fold report_put xs rep)"
  by (induction xs arbitrary: rep) (auto intro: report_put_ok)

lemma report_step_ok:
  assumes "report_ok lib dec r" and "reported_ok lib dec rep"
  shows "reported_ok lib dec (report_step r rep)"
proof (cases r)
  case (Listed items)
  then show ?thesis using report_puts_ok [of lib dec items Map.empty] assms(1) by (simp add: report_ok_def reported_ok_def)
next
  case (Changed t obj md)
  then show ?thesis using report_put_ok [OF assms(2), of "(obj, md)"] assms
    by (cases t) (auto simp: report_ok_def reported_ok_def)
qed

lemma mirrors_change:
  assumes "mirrors rep cache" and "reported_ok lib dec rep" and "operator_converted lib dec (obj, md)"
  shows "mirrors (report_step (Changed t obj md) rep) (tracked_step t obj md cache)"
proof (cases "BuildConfiguredFromMetadata md")
  case (Inl e)
  have "cache (metadata_key md) = None"
  proof (rule ccontr)
    assume "cache (metadata_key md) \<noteq> None"
    then obtain c where "cache (metadata_key md) = Some c" by blast
    then obtain obj' md' where "rep (metadata_key md) = Some (obj', md')" "BuildConfiguredFromMetadata md' = Inr c"
      using assms(1) unfolding mirrors_def by blast
    then show False
      using buildable_by_key [OF assms(3), of "(obj', md')"] assms(2) Inl by (auto simp: reported_ok_def buildable_def)
  qed
  then show ?thesis using assms(1) Inl by (cases t) (auto simp: mirrors_def tracked_step_def report_put_def)
next
  case (Inr c)
  then show ?thesis using assms(1) by (cases t) (fastforce simp: mirrors_def tracked_step_def report_put_def)+
qed

lemma mirrors_empty [simp]: "mirrors Map.empty Map.empty"
  by (simp add: mirrors_def)

lemma mirrors_collect:
  assumes "distinct (map (metadata_key \<circ> snd) items)" and "\<forall>x \<in> set items. rep (metadata_key (snd x)) = None"
    and "mirrors rep (gm_get snap)"
  shows "mirrors (fold report_put items rep) (gm_get (fold (collect_item cache) items snap))"
  using assms
proof (induction items arbitrary: rep snap)
  case (Cons x items)
  obtain obj md where x: "x = (obj, md)" by (cases x)
  have "mirrors (report_put x rep) (gm_get (collect_item cache x snap))"
    using Cons.prems(2,3) by (auto simp: x mirrors_def report_put_def collect_item_def split: sum.splits) fastforce+
  moreover have "\<forall>y \<in> set items. report_put x rep (metadata_key (snd y)) = None"
  proof
    fix y
    assume "y \<in> set items"
    then have "metadata_key (snd y) \<noteq> metadata_key (snd x)" using Cons.prems(1) by (auto simp: image_iff)
    then show "report_put x rep (metadata_key (snd y)) = None"
      using Cons.prems(2) \<open>y \<in> set items\<close> by (simp add: report_put_def)
  qed
  ultimately show ?case using Cons.IH [of "report_put x rep" "collect_item cache x snap"] Cons.prems(1) by simp
qed simp

lemma reported_snoc: "reported_cluster (rs @ [r]) = report_step r (reported_cluster rs)"
  by (simp add: reported_cluster_def)

lemma mirror_run_ok:
  assumes "mirror_run rs s s'" and "list_all (report_ok lib dec) rs" and "oc_objects (rs_cache s) = []"
  shows "mirrors (reported_cluster rs) (gm_get (oc_objects (rs_cache s'))) \<and> reported_ok lib dec (reported_cluster rs)"
  using assms
proof (induction rule: mirror_run.induct)
  case (mr_nil s)
  then show ?case by (simp add: reported_cluster_def mirrors_def reported_ok_def)
next
  case (mr_change rs s s1 r s2 cancelled t obj md)
  then have "mirrors (reported_cluster rs) (gm_get (oc_objects (rs_cache s1)))" "reported_ok lib dec (reported_cluster rs)"
    "report_ok lib dec (Changed t obj md)" by simp_all
  then show ?case
    using mirrors_change [of "reported_cluster rs" _ lib dec obj md t] handler_contents [OF mr_change.hyps(2)] report_step_ok
    by (simp add: reported_snoc report_ok_def del: report_step.simps)
next
  case (mr_list rs s s1 snap items r c cancelled)
  then have "oc_objects c = snap" "report_ok lib dec (Listed items)" "reported_ok lib dec (reported_cluster rs)"
    using ReplaceAll_objects by auto
  moreover from this have "mirrors (fold report_put items Map.empty) (gm_get snap)"
    unfolding mr_list.hyps(2) by (intro mirrors_collect) (simp_all add: report_ok_def)
  ultimately show ?case using report_step_ok [of lib dec "Listed items"] by (simp add: reported_snoc)
qed simp

text \<open>Only names under which the operator has applied an object get into the cache.\<close>

definition ever_owned :: "report list \<Rightarrow> string \<Rightarrow> bool" where
  "ever_owned rs k \<longleftrightarrow> list_ex (\<lambda>(obj, md). metadata_key md = k \<and> hasFieldManager obj FieldManager) (concat (map report_objects rs))"

lemma ever_owned_snoc:
  "ever_owned (rs @ [r]) k \<longleftrightarrow>
     ever_owned rs k \<or> list_ex (\<lambda>(obj, md). metadata_key md = k \<and> hasFieldManager obj FieldManager) (report_objects r)"
  by (simp add: ever_owned_def)

lemma collect_owned:
  assumes "gm_get (fold (collect_item cache) items snap) k \<noteq> None"
  shows "gm_get snap k \<noteq> None \<or> gm_get (oc_objects cache) k \<noteq> None \<or>
    list_ex (\<lambda>(obj, md). metadata_key md = k \<and> hasFieldManager obj FieldManager) items"
  using assms
proof (induction items arbitrary: snap)
  case (Cons x items)
  obtain obj md where x: "x = (obj, md)" by (cases x)
  have "gm_get snap k \<noteq> None \<or> gm_get (oc_objects cache) k \<noteq> None \<or> metadata_key md = k \<and> hasFieldManager obj FieldManager"
    if "gm_get (collect_item cache x snap) k \<noteq> None"
    using that by (auto simp: x collect_item_def Get_def split: if_splits sum.splits)
  then show ?case using Cons.IH [of "collect_item cache x snap"] Cons.prems by (auto simp: x)
qed simp

lemma mirror_run_owned:
  assumes "mirror_run rs s s'" and "oc_objects (rs_cache s) = []" and "gm_get (oc_objects (rs_cache s')) k \<noteq> None"
  shows "ever_owned rs k"
  using assms
proof (induction rule: mirror_run.induct)
  case (mr_change rs s s1 r s2 cancelled t obj md)
  then have "tracked_step t obj md (gm_get (oc_objects (rs_cache s1))) k \<noteq> None" using handler_contents by metis
  then have "gm_get (oc_objects (rs_cache s1)) k \<noteq> None \<or> metadata_key md = k \<and> hasFieldManager obj FieldManager"
    by (cases t) (auto simp: tracked_step_def split: if_splits sum.splits)
  then show ?case using mr_change.IH mr_change.prems(1) by (auto simp: ever_owned_snoc)
next
  case (mr_list rs s s1 snap items r c cancelled)
  then have "gm_get (fold (collect_item (rs_cache s1)) items []) k \<noteq> None" using ReplaceAll_objects by fastforce
  then show ?case using collect_owned [of "rs_cache s1" items "[]" k] mr_list.IH mr_list.prems(1) by (auto simp: ever_owned_snoc)
qed simp_all

lemma collect_keyed:
  assumes "list_all (operator_converted lib dec) items" and "keyed_map snap"
  shows "keyed_map (fold (collect_item cache) items snap)"
  using assms
proof (induction items arbitrary: snap)
  case (Cons x items)
  have "keyed_map (collect_item cache x snap)"
    using Cons.prems converted_kind(3) [of lib dec "fst x" "snd x"] BuildConfigured_key
    by (auto simp: collect_item_def converted_ok_def metadata_key_def split_beta split: sum.splits intro!: keyed_map_put)
  then show ?case using Cons by simp
qed simp

lemma mirror_run_keyed:
  assumes "mirror_run rs s s'" and "list_all (report_ok lib dec) rs" and "oc_objects (rs_cache s) = []"
  shows "keyed (rs_cache s')"
  using assms
proof (induction rule: mirror_run.induct)
  case (mr_change rs s s1 r s2 cancelled t obj md)
  have "converted_ok md" using mr_change.prems(1) converted_kind(3) by (auto simp: report_ok_def)
  then have key: "CacheKeyForObject c = Inr (metadata_key md)" if "BuildConfiguredFromMetadata md = Inr c" for c
    using BuildConfigured_key [OF that] by (simp add: converted_ok_def metadata_key_def)
  have IH: "keyed (rs_cache s1)" using mr_change by simp
  from mr_change.hyps(2) show ?case
    by (cases rule: handler_cases) (use IH key keyed_ops(1,2) in fastforce)+
next
  case (mr_list rs s s1 snap items r c cancelled)
  then have "keyed_map snap" using collect_keyed [of lib dec items "[]"] by (simp add: report_ok_def keyed_map_def)
  then show ?case using ReplaceAll_objects [OF mr_list.hyps(3)] by (simp add: keyed_def)
qed (simp_all add: keyed_def keyed_map_def)

section \<open>The snapshot phase is a report\<close>

text \<open>What a list call hands to the handler: the items that convert, with the kind of the list where an item has none.\<close>

definition handled_items :: "res_state watcher \<Rightarrow> string \<Rightarrow> unstructured list \<Rightarrow> (unstructured \<times> object_data) list" where
  "handled_items w itemKind items =
     (if wa_handler w = None then []
      else List.map_filter (\<lambda>item. let obj = (if un_kind item = [] then item\<lparr>un_kind := itemKind\<rparr> else item) in
             case wa_converter w obj of Inl _ \<Rightarrow> None | Inr md \<Rightarrow> Some (obj, md)) items)"

definition listed_objects :: "converters \<Rightarrow> resource_map \<Rightarrow> list_input \<Rightarrow> group_resource \<Rightarrow> (unstructured \<times> object_data) list" where
  "listed_objects cvs m inp gr =
     (case inp gr of
        (_, Inr l, _) \<Rightarrow> handled_items (new_watcher cvs gr (the (gm_get m gr))) (removeListSuffix (ul_kind l)) (ul_items l)
      | _ \<Rightarrow> [])"

definition no_send_unavailable :: "res_state \<Rightarrow> bool" where
  "no_send_unavailable s \<longleftrightarrow> (\<forall>e. Some e \<in> set (rs_results s) \<longrightarrow> \<not> isResourceUnavailable e)"

lemma SendObjectData_results:
  assumes "SendObjectData md s = (r, s')"
  shows "set (rs_results s') \<subseteq> set (rs_results s)" and "rs_pending s' = rs_pending s" and "rs_cache s' = rs_cache s"
    and "\<And>e. r = Inl e \<Longrightarrow> no_send_unavailable s \<Longrightarrow> \<not> isResourceUnavailable e"
  using assms
  by (auto simp: SendObjectData_def SendToStream_def no_send_unavailable_def isResourceUnavailable_def stream_closed_def IsNotFound_def
      IsForbidden_def split: if_splits list.splits option.splits)

lemma list_items_collects:
  assumes "list_items w SendObjectData itemKind items s = (r, s')" and "wa_handler w = None \<or> wa_handler w = Some list_handler"
    and "no_send_unavailable s"
  shows "no_send_unavailable s' \<and> rs_cache s' = rs_cache s \<and> (\<forall>e. r = Inl e \<longrightarrow> \<not> isResourceUnavailable e) \<and>
    (r = Inr () \<longrightarrow> rs_pending s' = fold (collect_item (rs_cache s)) (handled_items w itemKind items) (rs_pending s))"
  using assms
proof (induction items arbitrary: s)
  case Nil
  then show ?case by (auto simp: handled_items_def map_filter_simps)
next
  case (Cons item items)
  define obj where "obj = (if un_kind item = [] then item\<lparr>un_kind := itemKind\<rparr> else item)"
  show ?case
  proof (cases "wa_converter w obj")
    case (Inl e)
    then show ?thesis using Cons.IH [of s] Cons.prems by (simp add: obj_def [symmetric] handled_items_def map_filter_simps)
  next
    case (Inr md)
    obtain q s1 where send: "SendObjectData md s = (q, s1)" by (metis surj_pair)
    note sr = SendObjectData_results [OF send]
    have un: "no_send_unavailable s1" using sr(1) Cons.prems(3) by (auto simp: no_send_unavailable_def)
    show ?thesis
    proof (cases q)
      case (Inl e)
      then show ?thesis using Cons.prems Inr send sr un by (auto simp: obj_def [symmetric])
    next
      case q: (Inr u)
      let ?s2 = "run_handler w None obj md s1"
      have "no_send_unavailable ?s2 \<and> rs_cache ?s2 = rs_cache s \<and>
          rs_pending ?s2 = (if wa_handler w = None then rs_pending s else collect_item (rs_cache s) (obj, md) (rs_pending s))"
        using Cons.prems(2) sr(2,3) un by (auto simp: run_handler_def list_handler_collects no_send_unavailable_def)
      then show ?thesis
        using Cons.IH [of ?s2] Cons.prems Inr send q by (simp add: obj_def [symmetric] handled_items_def map_filter_simps)
    qed
  qed
qed

lemma list_phase_collects:
  assumes "list_phase cvs m inp grs s = (Inr infos, s')" and "no_send_unavailable s"
  shows "rs_cache s' = rs_cache s \<and>
    rs_pending s' = fold (collect_item (rs_cache s)) (concat (map (listed_objects cvs m inp) grs)) (rs_pending s)"
  using assms
proof (induction grs arbitrary: s infos)
  case (Cons gr grs)
  obtain c1 listed c2 where inp: "inp gr = (c1, listed, c2)" by (cases "inp gr")
  let ?w = "new_watcher cvs gr (the (gm_get m gr))"
  show ?case
  proof (cases listed)
    case (Inl e)
    then show ?thesis using Cons.IH Cons.prems inp
      by (auto simp: DynamicListResources_def FetchResources_def listed_objects_def split: if_splits sum.splits prod.splits)
  next
    case (Inr l)
    obtain r1 s1 where li: "list_items ?w SendObjectData (removeListSuffix (ul_kind l)) (ul_items l) s = (r1, s1)" by (metis surj_pair)
    note lc = list_items_collects [OF li new_watcher_handler Cons.prems(2)]
    have "r1 = Inr () \<and> \<not> c2"
      using Cons.prems(1) inp Inr li lc
      by (auto simp: DynamicListResources_def FetchResources_def isResourceUnavailable_def IsNotFound_def IsForbidden_def
          split: if_splits sum.splits)
    then show ?thesis using Cons.IH [of s1] Cons.prems(1) inp Inr li lc
      by (auto simp: DynamicListResources_def FetchResources_def listed_objects_def split: if_splits sum.splits prod.splits)
  qed
qed simp

text \<open>
  A snapshot phase that reports success is a report of the listed objects. The hypothesis says that the gRPC stream does not answer
  a send with the API server's \<open>NotFound\<close> or \<open>Forbidden\<close>.
\<close>

lemma snapshot_is_report:
  assumes "Returns (Inr infos, s') \<in> set (snapshot_phase env cvs now m inp cancelled s)" and "no_send_unavailable s"
    and "mirror_run rs s0 s"
  shows "mirror_run (rs @ [Listed (concat (map (listed_objects cvs m inp) (sorted_resources m)))]) s0 s'"
proof -
  let ?items = "concat (map (listed_objects cvs m inp) (sorted_resources m))"
  obtain r1 s1 where meta: "sendClusterMetadata env (set_processing now True s\<lparr>rs_pending := []\<rparr>) = (r1, s1)" by (metis surj_pair)
  obtain r2 s2 where lists: "list_phase cvs m inp (sorted_resources m) s1 = (r2, s2)" by (metis surj_pair)
  have "\<exists>u. r1 = Inr u" using assms(1) meta by (cases r1) (auto simp: snapshot_phase_def)
  moreover have "\<exists>infos1. r2 = Inr infos1" using assms(1) meta lists calculation by (cases r2) (auto simp: snapshot_phase_def)
  ultimately obtain u infos1 where oks: "r1 = Inr u" "r2 = Inr infos1" by blast
  obtain r c where repl: "Returns (r, c) \<in> set (ReplaceAll cancelled (rs_pending s2) (rs_cache s2))"
    and out: "(Inr infos, s') = (let s3 = s2\<lparr>rs_cache := c\<rparr> in
            case r of Inl e \<Rightarrow> (Inl e, s3)
            | Inr _ \<Rightarrow> (case sendResourceSnapshotComplete s3 of (Inl e, s4) \<Rightarrow> (Inl e, s4) | (Inr _, s4) \<Rightarrow> (Inr infos1, s4)))"
    using assms(1) meta lists oks by (auto simp: snapshot_phase_def)
  have res: "rs_cache s' = c"
  proof -
    obtain r4 s4 where "SendToStream RqSnapshotComplete (s2\<lparr>rs_cache := c\<rparr>) = (r4, s4)" by (metis surj_pair)
    with SendToStream_cases(2) [OF this] out show ?thesis
      by (cases r; cases r4) (auto simp: sendResourceSnapshotComplete_def)
  qed
  have s1: "rs_cache s1 = rs_cache s" "rs_pending s1 = []" "no_send_unavailable s1"
    using meta assms(2)
    by (auto simp: sendClusterMetadata_def set_processing_def no_send_unavailable_def SendToStream_def split: sum.splits if_splits list.splits option.splits)
  have "rs_pending s2 = fold (collect_item (rs_cache s)) ?items []" "rs_cache s2 = rs_cache s"
    using list_phase_collects [OF lists [unfolded oks] s1(3)] s1 by simp_all
  with repl have "mirror_run (rs @ [Listed ?items]) s0 (s\<lparr>rs_pending := rs_pending s2, rs_cache := c\<rparr>)"
    by (intro mr_list [OF assms(3)]) simp_all
  then show ?thesis by (rule mr_other) (simp add: res)
qed

section \<open>A watch reports the cluster\<close>

text \<open>
  The reports of one watcher: the handler's calls, recorded. The objects of the cluster at a version are the effect of the changes
  up to it, and those of a list are the objects at its version.
\<close>

definition reporting :: "res_state watcher \<Rightarrow> report list watcher" where
  "reporting w = \<lparr>wa_resourceName = wa_resourceName w, wa_apiGroup = wa_apiGroup w, wa_apiVersion = wa_apiVersion w, wa_converter = wa_converter w,
     wa_handler = Some (\<lambda>t obj md rs. (Inr (), rs @ (case t of None \<Rightarrow> [] | Some ty \<Rightarrow> [Changed ty obj md])))\<rparr>"

definition change_report :: "'s watcher \<Rightarrow> change \<Rightarrow> report" where
  "change_report w = (\<lambda>(rv, t, obj). Changed t obj (projr (wa_converter w obj)))"

definition cluster_at :: "(string \<Rightarrow> nat) \<Rightarrow> res_state watcher \<Rightarrow> change list \<Rightarrow> string \<Rightarrow> (string \<rightharpoonup> unstructured \<times> object_data)" where
  "cluster_at ver w L rv = reported_cluster (map (change_report w) (filter (\<lambda>c. ver (fst c) \<le> ver rv) L))"

lemma fold_reporting: "fold (handle_change (reporting w)) cs rs = rs @ map (change_report w) cs"
  by (induction cs arbitrary: rs) (auto simp: handle_change_def run_handler_def reporting_def change_report_def)

lemma log_split:
  "sorted_wrt (\<lambda>c d. ver (fst c) < ver (fst d)) L \<Longrightarrow> filter (\<lambda>c. ver (fst c) \<le> ver r) L @ pending ver L r = L"
proof (induction L)
  case (Cons c L)
  show ?case
  proof (cases "ver (fst c) \<le> ver r")
    case False
    then have "filter (\<lambda>c. ver (fst c) \<le> ver r) L = []" "pending ver L r = L"
      using Cons.prems by (auto simp: filter_empty_conv pending_def filter_id_conv)
    then show ?thesis using False by (simp add: pending_def)
  qed (use Cons in \<open>simp add: pending_def\<close>)
qed (simp add: pending_def)

text \<open>However the watches break and restart, what has been reported is the cluster at the last version the watcher has reached.\<close>

theorem watch_reports_cluster:
  assumes "log_ok ver (reporting w) L" and "list_all (watch_contract ver L (reporting w)) ws"
    and "ws_state st = [Listed items]" and "reported_cluster [Listed items] = cluster_at ver w L (ws_last st)"
    and "watchEvents (reporting w) (open_watches ws (reporting w) st) st = (r, st')"
  shows "reported_cluster (ws_state st') = cluster_at ver w L (ws_last st')"
proof -
  obtain cs where "delivers ver (reporting w) L cs st st'"
    using watchEvents_delivers [OF assms(1) open_watches_ok [OF assms(2)] assms(5)] by blast
  then have cs: "pending ver L (ws_last st) = cs @ pending ver L (ws_last st')" "ws_state st' = [Listed items] @ map (change_report w) cs"
    using assms(3) by (simp_all add: delivers_def fold_reporting)
  have sorted: "sorted_wrt (\<lambda>c d. ver (fst c) < ver (fst d)) L" using assms(1) by (simp add: log_ok_def)
  have "filter (\<lambda>c. ver (fst c) \<le> ver (ws_last st')) L = filter (\<lambda>c. ver (fst c) \<le> ver (ws_last st)) L @ cs"
    using log_split [OF sorted, of "ws_last st"] log_split [OF sorted, of "ws_last st'"] cs(1) by (metis append.assoc append_same_eq)
  then have "cluster_at ver w L (ws_last st') = fold report_step (map (change_report w) cs) (cluster_at ver w L (ws_last st))"
    by (simp add: cluster_at_def reported_cluster_def)
  then show ?thesis using assms(4) cs(2) by (simp add: reported_cluster_def)
qed

section \<open>Properties\<close>

text \<open>
  C4: the runtime cache mirrors the cluster. After any history of lists and changes, with the reconciler taking
  announcements in between and whichever calls of the handler failed, each cached object is what the object of that name
  converts to as it was last reported, and every reported object the operator applied is cached. An object that was deleted
  is not in the cache, and one that only others have applied never gets into it.
\<close>

theorem runtime_cache_mirrors:
  assumes "mirror_run rs s s'" and "list_all (report_ok lib dec) rs" and "oc_objects (rs_cache s) = []"
  shows "(\<forall>k c. gm_get (oc_objects (rs_cache s')) k = Some c \<longrightarrow>
       (\<exists>obj md. reported_cluster rs k = Some (obj, md) \<and> BuildConfiguredFromMetadata md = Inr c)) \<and>
    (\<forall>k obj md. reported_cluster rs k = Some (obj, md) \<and> hasFieldManager obj FieldManager \<and> od_kind md \<in> set operator_kinds \<longrightarrow>
       (\<exists>c. BuildConfiguredFromMetadata md = Inr c \<and> gm_get (oc_objects (rs_cache s')) k = Some c)) \<and>
    (\<forall>k. gm_get (oc_objects (rs_cache s')) k \<noteq> None \<longrightarrow> ever_owned rs k) \<and> keyed (rs_cache s')"
proof -
  have mir: "mirrors (reported_cluster rs) (gm_get (oc_objects (rs_cache s')))" and ok: "reported_ok lib dec (reported_cluster rs)"
    using mirror_run_ok [OF assms] by simp_all
  have "\<exists>c. BuildConfiguredFromMetadata md = Inr c \<and> gm_get (oc_objects (rs_cache s')) k = Some c"
    if "reported_cluster rs k = Some (obj, md)" "hasFieldManager obj FieldManager" "od_kind md \<in> set operator_kinds" for k obj md
    using mir ok that converted_kind(1) [of lib dec obj md] by (auto simp: mirrors_def reported_ok_def buildable_def)
  then show ?thesis using mir mirror_run_keyed [OF assms] mirror_run_owned [OF assms(1,3)] by (auto simp: mirrors_def)
qed

text \<open>An example: the operator's CIDR group \<open>b\<close> appears, and a list no longer has what was there before.\<close>

definition plain_decoder :: cilium_decoder where
  "plain_decoder = \<lparr>cy_MarshalJSON = (\<lambda>_. Inr []), cy_Rule = (\<lambda>_. Inl (ErrMsg ''no rule''))\<rparr>"

definition group_b :: unstructured where
  "group_b = (bare_object ''CiliumCIDRGroup'' [] ''b'')
     \<lparr>un_group := ciliumAPIGroup, un_managedFields := [\<lparr>mf_manager = FieldManager, mf_operation = ''Apply'', mf_subresource = []\<rparr>]\<rparr>"

definition group_b_md :: object_data where
  "group_b_md = (crd_metadata group_b)\<lparr>od_kind_specific := Some (KsCiliumCidrGroup (Some []))\<rparr>"

definition configured_b :: configured_object where
  "configured_b = \<lparr>co_annotations = None, co_labels = None, co_name = ''b'', co_namespace = None,
     co_kind_specific = Some (CksCiliumCidrGroup (Some []))\<rparr>"

definition mirror_res :: res_state where
  "mirror_res = sample_res\<lparr>rs_cache := NewObjectCache\<lparr>oc_objects := [(''CiliumCIDRGroup//b'', configured_b)],
     oc_changed := \<lparr>chan_buf = [''CiliumCIDRGroup//b''], chan_cap = 1, chan_closed = False\<rparr>\<rparr>\<rparr>"

lemma group_b_converts: "ConvertUnstructuredToCiliumResource plain_decoder (Some group_b) = Inr group_b_md"
  by (simp add: ConvertUnstructuredToCiliumResource_def plain_decoder_def group_b_def group_b_md_def set_namespace_def
      dec_ciliumCIDRGroup_def dec_field_def convertCiliumCIDRGroupData_def)

lemma group_b_builds: "BuildConfiguredFromMetadata group_b_md = Inr configured_b" "metadata_key group_b_md = ''CiliumCIDRGroup//b''"
  "od_kind group_b_md = ''CiliumCIDRGroup''"
  by (simp_all add: BuildConfiguredFromMetadata_def group_b_md_def crd_metadata_def group_b_def configured_b_def metadata_key_def CacheKey_def)

definition b_reports :: "report list" where
  "b_reports = [Changed Added group_b group_b_md]"

lemma b_owned: "hasFieldManager group_b FieldManager"
  by (simp add: hasFieldManager_def group_b_def)

lemma b_reports_ok: "list_all (report_ok lib plain_decoder) b_reports"
  by (simp add: b_reports_def report_ok_def operator_converted_def group_b_converts)

lemma b_reported: "reported_cluster b_reports = [''CiliumCIDRGroup//b'' \<mapsto> (group_b, group_b_md)]"
  by (simp add: reported_cluster_def b_reports_def report_put_def group_b_builds)

lemma b_run: "mirror_run b_reports sample_res mirror_res"
proof -
  have "mirror_run ([] @ [Changed Added group_b group_b_md]) sample_res mirror_res"
    by (rule mr_change [OF mr_nil, of "Inr ()" _ False])
       (simp add: newRuntimeCacheHandler_def b_owned group_b_builds on_runtime_cache_def Insert_def Insert_locked_def notify_select_def
         sample_res_def mirror_res_def NewObjectCache_def make_chan_def chan_simps wrap_key_def Let_def)
  then show ?thesis by (simp add: b_reports_def)
qed

lemma sample_res_empty: "oc_objects (rs_cache sample_res) = []"
  by (simp add: sample_res_def NewObjectCache_def)

theorem runtime_cache_mirrors_witness: "gm_get (oc_objects (rs_cache mirror_res)) ''CiliumCIDRGroup//b'' = Some configured_b"
proof -
  have "reported_cluster b_reports ''CiliumCIDRGroup//b'' = Some (group_b, group_b_md)" "od_kind group_b_md \<in> set operator_kinds"
    by (simp_all add: b_reported group_b_builds operator_kinds_def)
  with runtime_cache_mirrors [OF b_run b_reports_ok sample_res_empty] b_owned
  obtain c where "BuildConfiguredFromMetadata group_b_md = Inr c" "gm_get (oc_objects (rs_cache mirror_res)) ''CiliumCIDRGroup//b'' = Some c"
    by blast
  then show ?thesis by (simp add: group_b_builds)
qed

text \<open>
  What was reported is what the cluster holds: an object under a name the operator has applied that converts to the configured
  one is stored in the form the operator applies. For the policies of \<open>Policy_Read_Back\<close> and \<open>Cilium_Apply\<close> this is what their theorems show of an API server
  that stores what it was sent.
\<close>

definition cluster_as_reported ::
  "json_lib \<Rightarrow> resource_map \<Rightarrow> report list \<Rightarrow> (string \<rightharpoonup> configured_object) \<Rightarrow> (object_id \<rightharpoonup> json_obj) \<Rightarrow> bool" where
  "cluster_as_reported lib infos rs objects cluster \<longleftrightarrow>
     (\<forall>k obj md r c. reported_cluster rs k = Some (obj, md) \<and> ever_owned rs k \<and> BuildConfiguredFromMetadata md = Inr r \<and>
        objects k = Some c \<and> proto_equal c r \<longrightarrow> represents lib infos (cluster (obj_id r)) r)"


text \<open>The sessions of \<open>Config_Delivery\<close> with the reports above: the group \<open>g\<close> is applied, \<open>b\<close> removed.\<close>

definition b_cluster :: "object_id \<rightharpoonup> json_obj" where
  "b_cluster = [obj_id configured_b \<mapsto> the (desired_object empty_json_lib sample_infos configured_b)]"

definition b_reconciler :: reconciler where
  "b_reconciler = \<lparr>rc_configCache = cc_cache sample_client', rc_runtimeCache = rs_cache mirror_res, rc_resourceInfo = sample_infos\<rparr>"

lemma b_resource: "ExtractGroupResource configured_b = Inr (ciliumAPIGroup, ''ciliumcidrgroups'')"
  by (simp add: ExtractGroupResource_def configured_b_def)

lemma b_reads_back: "cluster_as_reported empty_json_lib sample_infos b_reports objects b_cluster"
proof -
  have "\<exists>d. desired_object empty_json_lib sample_infos configured_b = Some d"
    by (simp add: desired_object_def b_resource sample_infos_def sample_simps)
       (simp add: ConvertToApplyObject_def marshalConfiguredObjectSpecs_def configured_b_def marshalSpec_def protoToMap_def empty_json_lib_def)
  then have "represents empty_json_lib sample_infos (b_cluster (obj_id configured_b)) configured_b"
    using configured_eq.eq_refl by (auto simp: represents_def b_cluster_def)
  then show ?thesis by (auto simp: cluster_as_reported_def b_reported group_b_builds split: if_splits)
qed

definition converged :: "object_id \<rightharpoonup> json_obj" where
  "converged = snd (reconcileAll empty_json_lib mem_client rev b_reconciler b_cluster)"

lemma b_reconciled: "reconcileAll empty_json_lib mem_client rev b_reconciler b_cluster = (Inr (), converged)"
proof -
  have "fst (reconcileAll empty_json_lib mem_client rev b_reconciler b_cluster) = Inr ()"
    by (simp add: reconcileAll_def all_keys_def Keys_def reconcileObject_def Get_def sample_client'_def b_reconciler_def mirror_res_def
        sample_infos_def sample_simps sample_is_cidr deleteObject_def applyObject_def equal_runtime_def cidr_resource b_resource)
       (simp add: DeleteResource_def ApplyResource_def mem_client_def IsNotFound_def cidr_object_def
        ConvertToApplyObject_def marshalConfiguredObjectSpecs_def metadata_string_def apply_metadata_def errors_join_def)
  then show ?thesis by (simp add: converged_def prod_eq_iff)
qed


end
