(* ===== verification/Float64.thy ===== *)
theory Float64
  imports Complex_Main "HOL-Library.Log_Nat"
begin

text \<open>
  The part of Go's \<open>float64\<close> arithmetic that the retry timers use: non-negative numbers, rounded to
  53 significant bits with ties to even. The exponent range is not bounded (the durations and
  random percentages of the program stay far inside it), so \<open>fl\<close> is total on the rationals.
  The lemmas show that rounding is monotone and exact on integers up to \<open>2 ^ 53\<close>.
\<close>

definition flog2 :: "rat \<Rightarrow> int" where
  "flog2 x = (let (a, b) = quotient_of x; e = bitlen a - bitlen b in if 2 powi e \<le> x then e else e - 1)"

definition half_even :: "rat \<Rightarrow> int" where
  "half_even x = (let n = \<lfloor>x\<rfloor>; d = x - of_int n in
     if d < 1 / 2 then n else if d > 1 / 2 then n + 1 else if even n then n else n + 1)"

definition fl :: "rat \<Rightarrow> rat" where
  "fl x = (if x \<le> 0 then 0 else let e = flog2 x - 52 in of_int (half_even (x * 2 powi (- e))) * 2 powi e)"

text \<open>The conversion \<open>int64(f)\<close> of a non-negative float drops the fraction.\<close>

definition trunc_int :: "rat \<Rightarrow> int" where
  "trunc_int x = \<lfloor>x\<rfloor>"

section \<open>The binary exponent\<close>

lemma powi_less_iff: "(2::rat) powi m < 2 powi n \<longleftrightarrow> m < n"
  using power_int_strict_increasing [of m n "2::rat"] power_int_increasing [of n m "2::rat"]
  by (cases "m < n") auto

lemma powi_le_iff: "(2::rat) powi m \<le> 2 powi n \<longleftrightarrow> m \<le> n"
  using powi_less_iff [of n m] by (simp flip: not_less)

lemma powi_add: "(2::rat) powi (m + n) = 2 powi m * 2 powi n"
  by (simp add: power_int_add)

lemma bitlen_powi:
  assumes "0 < a"
  shows "2 powi (bitlen a - 1) \<le> (of_int a :: rat)" and "(of_int a :: rat) < 2 powi bitlen a"
proof -
  have "bitlen a \<ge> 1" using assms by (simp add: bitlen_def floorlog_def)
  then have p: "(2::rat) powi (bitlen a - 1) = of_int (2 ^ nat (bitlen a - 1))"
    "(2::rat) powi (bitlen a) = of_int (2 ^ nat (bitlen a))"
    by (simp_all add: power_int_def)
  have b: "2 ^ nat (bitlen a - 1) \<le> a \<and> a < 2 ^ nat (bitlen a)" using bitlen_bounds [OF assms] by simp
  show "2 powi (bitlen a - 1) \<le> (of_int a :: rat)" unfolding p using b by (simp only: of_int_le_iff)
  show "(of_int a :: rat) < 2 powi bitlen a" unfolding p using b by (simp only: of_int_less_iff)
qed

lemma flog2_bounds:
  assumes "0 < x"
  shows "2 powi flog2 x \<le> x" and "x < 2 powi (flog2 x + 1)"
proof -
  obtain a b where q: "quotient_of x = (a, b)" by (cases "quotient_of x")
  have b: "0 < b" using q by (simp add: quotient_of_denom_pos)
  have x: "x = of_int a / of_int b" using q by (rule quotient_of_div)
  have a: "0 < a" using assms b x by (simp add: zero_less_divide_iff)
  let ?e = "bitlen a - bitlen b"
  have "x * of_int b = of_int a" using b x by simp
  have lo: "2 powi (?e - 1) < x"
  proof -
    have "2 powi (?e - 1) * of_int b < (2::rat) powi (?e - 1) * 2 powi bitlen b"
      using bitlen_powi(2) [OF b] by (intro mult_strict_left_mono) auto
    also have "\<dots> = 2 powi (bitlen a - 1)" by (simp flip: powi_add)
    also have "\<dots> \<le> of_int a" by (rule bitlen_powi(1) [OF a])
    finally show ?thesis using b by (simp add: x field_simps)
  qed
  have hi: "x < 2 powi (?e + 1)"
  proof -
    have "(of_int a :: rat) < 2 powi bitlen a" by (rule bitlen_powi(2) [OF a])
    also have "\<dots> = 2 powi (?e + 1) * 2 powi (bitlen b - 1)" by (simp flip: powi_add)
    also have "\<dots> \<le> 2 powi (?e + 1) * of_int b"
      using bitlen_powi(1) [OF b] by (intro mult_left_mono) auto
    finally show ?thesis using b by (simp add: x field_simps)
  qed
  show "2 powi flog2 x \<le> x" and "x < 2 powi (flog2 x + 1)"
    using lo hi by (auto simp: flog2_def q Let_def)
qed

lemma flog2_mono:
  assumes "0 < x" and "x \<le> y"
  shows "flog2 x \<le> flog2 y"
proof -
  have "2 powi flog2 x < (2::rat) powi (flog2 y + 1)"
    using flog2_bounds(1) [of x] flog2_bounds(2) [of y] assms by linarith
  then show ?thesis by (simp add: powi_less_iff)
qed

section \<open>Rounding\<close>

lemma half_even_mono:
  assumes "x \<le> y"
  shows "half_even x \<le> half_even y"
proof (cases "\<lfloor>x\<rfloor> = \<lfloor>y\<rfloor>")
  case True
  then show ?thesis using assms by (auto simp: half_even_def Let_def)
next
  case False
  then have "\<lfloor>x\<rfloor> < \<lfloor>y\<rfloor>" using floor_mono [OF assms] by simp
  moreover have "half_even x \<le> \<lfloor>x\<rfloor> + 1" and "\<lfloor>y\<rfloor> \<le> half_even y" by (auto simp: half_even_def Let_def)
  ultimately show ?thesis by linarith
qed

lemma half_even_of_int [simp]: "half_even (of_int n) = n"
  by (simp add: half_even_def)

lemma fl_nonneg [simp]: "0 \<le> fl x"
proof (cases "x \<le> 0")
  case False
  then have "half_even 0 \<le> half_even (x * 2 powi (- (flog2 x - 52)))" by (intro half_even_mono) simp
  moreover have "half_even 0 = 0" using half_even_of_int [of 0] by simp
  ultimately show ?thesis using False by (simp add: fl_def Let_def)
qed (simp add: fl_def)

lemma fl_zero [simp]: "fl 0 = 0"
  by (simp add: fl_def)

text \<open>In the binade of \<open>x\<close> the rounded value stays between the two powers of two around it.\<close>

lemma fl_binade:
  assumes "0 < x"
  shows "2 powi flog2 x \<le> fl x" and "fl x \<le> 2 powi (flog2 x + 1)"
proof -
  let ?e = "flog2 x - 52"
  let ?s = "(2::rat) powi (- ?e)"
  have cancel: "(2::rat) powi (flog2 x) * ?s = of_int (2 ^ 52)"
    "(2::rat) powi (flog2 x + 1) * ?s = of_int (2 ^ 53)"
    by (simp_all flip: powi_add)
  have rescale: "of_int (2 ^ 52) * (2::rat) powi ?e = 2 powi flog2 x"
    "of_int (2 ^ 53) * (2::rat) powi ?e = 2 powi (flog2 x + 1)"
    by (simp_all only: cancel [symmetric] mult.assoc powi_add [symmetric]) (simp_all add: add.commute)
  have "half_even (of_int (2 ^ 52)) \<le> half_even (x * ?s)"
    unfolding cancel(1) [symmetric] using flog2_bounds [OF assms]
    by (intro half_even_mono mult_right_mono) auto
  then have lo: "2 ^ 52 \<le> half_even (x * ?s)" by (simp only: half_even_of_int)
  have "half_even (x * ?s) \<le> half_even (of_int (2 ^ 53))"
    unfolding cancel(2) [symmetric] using flog2_bounds [OF assms]
    by (intro half_even_mono mult_right_mono) auto
  then have hi: "half_even (x * ?s) \<le> 2 ^ 53" by (simp only: half_even_of_int)
  have fl: "fl x = of_int (half_even (x * ?s)) * 2 powi ?e" using assms by (simp add: fl_def Let_def)
  show "2 powi flog2 x \<le> fl x" unfolding fl rescale(1) [symmetric] using lo
    by (intro mult_right_mono) (simp_all only: of_int_le_iff, simp)
  show "fl x \<le> 2 powi (flog2 x + 1)" unfolding fl rescale(2) [symmetric] using hi
    by (intro mult_right_mono) (simp_all only: of_int_le_iff, simp)
qed

lemma fl_mono:
  assumes "x \<le> y"
  shows "fl x \<le> fl y"
proof (cases "x \<le> 0")
  case True
  then show ?thesis by (simp add: fl_def [of x])
next
  case False
  then have pos: "0 < x" "0 < y" using assms by auto
  have le: "flog2 x \<le> flog2 y" using flog2_mono [OF pos(1) assms] .
  show ?thesis
  proof (cases "flog2 x = flog2 y")
    case True
    then show ?thesis using assms pos
      by (auto simp: fl_def Let_def intro!: mult_right_mono half_even_mono)
  next
    case False
    with le have "(2::rat) powi (flog2 x + 1) \<le> 2 powi flog2 y" by (simp add: powi_le_iff)
    then show ?thesis using fl_binade(2) [OF pos(1)] fl_binade(1) [OF pos(2)] by linarith
  qed
qed

lemma fl_of_int:
  assumes "0 \<le> n" and "n \<le> 2 ^ 53"
  shows "fl (of_int n) = of_int n"
proof (cases "n = 0")
  case False
  let ?x = "of_int n :: rat"
  have pos: "0 < ?x" using False assms by simp
  have "(2::rat) powi flog2 ?x \<le> 2 powi 53"
  proof -
    have "?x \<le> of_int (2 ^ 53)" using assms(2) by (simp only: of_int_le_iff)
    then show ?thesis using flog2_bounds(1) [OF pos] by (simp add: power_int_def)
  qed
  then have le: "flog2 ?x \<le> 53" by (simp only: powi_le_iff)
  show ?thesis
  proof (cases "flog2 ?x = 53")
    case True
    then have "n = 2 ^ 53"
    proof -
      have "of_int (2 ^ 53) \<le> ?x" using flog2_bounds(1) [OF pos] True by (simp add: power_int_def)
      then show ?thesis using assms(2) by (simp only: of_int_le_iff)
    qed
    then have "?x * 2 powi (- (flog2 ?x - 52)) = of_int (2 ^ 52)" using True by (simp add: power_int_def)
    then show ?thesis using pos True \<open>n = 2 ^ 53\<close>
      by (simp only: fl_def Let_def half_even_of_int) (simp add: power_int_def)
  next
    case False
    then have e: "0 \<le> 52 - flog2 ?x" using le by simp
    then have "(2::rat) powi (- (flog2 ?x - 52)) = of_int (2 ^ nat (52 - flog2 ?x))"
      by (simp add: power_int_def)
    then have s: "?x * 2 powi (- (flog2 ?x - 52)) = of_int (n * 2 ^ nat (52 - flog2 ?x))" by simp
    have "of_int (half_even (?x * 2 powi (- (flog2 ?x - 52)))) * 2 powi (flog2 ?x - 52)
      = ?x * 2 powi (- (flog2 ?x - 52)) * 2 powi (flog2 ?x - 52)"
      unfolding s half_even_of_int ..
    also have "\<dots> = ?x" by (simp add: mult.assoc flip: powi_add)
    finally show ?thesis using pos by (simp add: fl_def Let_def)
  qed
qed simp

lemma fl_le_one: "x \<le> 1 \<Longrightarrow> fl x \<le> 1"
  using fl_mono [of x 1] fl_of_int [of 1] by simp

end
