(* ===== verification/Retry.thy ===== *)
theory Retry
  imports Prelude Float64 Deadlock
begin

text \<open>
  \<open>internal/controller/stream/retry.go\<close>, \<open>internal/pkg/timeutil/jitter.go\<close> and the stream half of
  \<open>internal/controller/stream/manager.go\<close>: the exponential back-off loop, its jittered sleeps, and
  the two nested loops that keep one stream connected.
  Durations are nanoseconds in \<open>int\<close> (they stay below \<open>2 ^ 53\<close>, so neither \<open>int64\<close> nor \<open>float64\<close>
  overflows); the outside world is a state \<open>'w\<close> threaded through the action and the random source.
  A back-off loop need not end, so it is a \<open>partial_function\<close> and not returning is \<open>None\<close>.
\<close>

section \<open>Constants\<close>

definition ConnectionRetryInterval :: int where "ConnectionRetryInterval = 5 * second"
definition ConnectionRetryJitter :: rat where "ConnectionRetryJitter = fl (1 / 5)"
definition StreamInitialBackoff :: int where "StreamInitialBackoff = second"
definition StreamMaxBackoff :: int where "StreamMaxBackoff = minute"
definition StreamMaxJitterPct :: rat where "StreamMaxJitterPct = fl (1 / 5)"
definition StreamSevereErrorThreshold :: int where "StreamSevereErrorThreshold = 10"
definition StreamExponentialFactor :: rat where "StreamExponentialFactor = 2"
definition ResetInitialBackoff :: int where "ResetInitialBackoff = 10 * minute"
definition ResetMaxBackoff :: int where "ResetMaxBackoff = 10 * second"
definition ResetMaxJitterPct :: rat where "ResetMaxJitterPct = fl (1 / 10)"

section \<open>Jitter\<close>

text \<open>\<open>r\<close> is the number drawn by \<open>rand.Float64\<close>, in \<open>[0, 1)\<close>.\<close>

definition JitterTime :: "int \<Rightarrow> rat \<Rightarrow> rat \<Rightarrow> int" where
  "JitterTime base maxJitterPct r =
     (let jitterPct = fl (r * maxJitterPct) in trunc_int (fl (fl (of_int base) * fl (1 - jitterPct))))"

section \<open>The back-off state\<close>

record backoff_opts =
  InitialBackoff :: int
  MaxBackoff :: int
  MaxJitterPct :: rat
  SevereErrorThreshold :: int
  ExponentialFactor :: rat
  ActionTimeToConsiderSuccess :: int

definition clamp :: "'a::linorder \<Rightarrow> 'a \<Rightarrow> 'a \<Rightarrow> 'a" where
  "clamp minimum val maximum = (if val < minimum then minimum else if val > maximum then maximum else val)"

text \<open>\<open>bs_timer\<close> is the delay the timer was last armed with.\<close>

record backoff_state =
  bs_backoff :: int
  bs_timer :: int
  bs_consecutiveFailures :: int

definition backoff_start :: "backoff_opts \<Rightarrow> backoff_state" where
  "backoff_start opts = \<lparr>bs_backoff = InitialBackoff opts, bs_timer = 0, bs_consecutiveFailures = 0\<rparr>"

text \<open>One round per random number drawn; the code always asks for one round.\<close>

fun AddBackoff :: "backoff_opts \<Rightarrow> rat list \<Rightarrow> backoff_state \<Rightarrow> backoff_state" where
  "AddBackoff opts [] s = s"
| "AddBackoff opts (r # rs) s =
     AddBackoff opts rs
       (s\<lparr>bs_consecutiveFailures := bs_consecutiveFailures s + 1,
          bs_timer := clamp (InitialBackoff opts) (JitterTime (bs_backoff s) (MaxJitterPct opts) r) (MaxBackoff opts),
          bs_backoff := min (trunc_int (fl (fl (of_int (bs_backoff s)) * ExponentialFactor opts))) (MaxBackoff opts)\<rparr>)"

definition resetBackoff :: "backoff_opts \<Rightarrow> backoff_state \<Rightarrow> backoff_state" where
  "resetBackoff opts s =
     s\<lparr>bs_consecutiveFailures := 0, bs_backoff := InitialBackoff opts, bs_timer := InitialBackoff opts\<rparr>"

definition HappyPathResetBackoff :: "backoff_opts \<Rightarrow> backoff_state \<Rightarrow> backoff_state" where
  "HappyPathResetBackoff = resetBackoff"

definition LongSuccessResetBackoff :: "backoff_opts \<Rightarrow> backoff_state \<Rightarrow> backoff_state" where
  "LongSuccessResetBackoff = resetBackoff"

definition UnhappyPathResetBackoff :: "backoff_opts \<Rightarrow> backoff_state \<Rightarrow> backoff_state" where
  "UnhappyPathResetBackoff = resetBackoff"

section \<open>One round of the loop\<close>

text \<open>
  The body of the loop after the action returned \<open>err\<close> having run for \<open>elapsed\<close>: leave the loop with an
  error, or wait for the timer and go round again. \<open>r\<close> is the random number an \<open>AddBackoff\<close> would draw.
\<close>

definition backoff_round ::
  "backoff_opts \<Rightarrow> go_error option \<Rightarrow> int \<Rightarrow> rat \<Rightarrow> backoff_state \<Rightarrow> (go_error, backoff_state) loop" where
  "backoff_round opts err elapsed r s =
     (case err of
        None \<Rightarrow> Again (HappyPathResetBackoff opts s)
      | Some e \<Rightarrow>
          if errors_is e StopRetries then Break e
          else let s1 = (if ActionTimeToConsiderSuccess opts \<noteq> 0 \<and> elapsed > ActionTimeToConsiderSuccess opts
                         then LongSuccessResetBackoff opts s else s);
                   givingUp = (bs_consecutiveFailures s1 \<ge> SevereErrorThreshold opts)
               in if \<not> givingUp then Again (AddBackoff opts [r] s1)
                  else let s2 = UnhappyPathResetBackoff opts s1
                       in Break (ErrMsg (''failed '' @ string_of_int (bs_consecutiveFailures s2) @ '' times'')))"

text \<open>
  An action is run in a world; it returns its error and how long it took. The loop returns the error
  it ends with and how long it ran, waits included.
\<close>

type_synonym 'w action = "'w \<Rightarrow> ((go_error option \<times> int) \<times> 'w) option"

partial_function (option) backoff_loop ::
  "backoff_opts \<Rightarrow> ('w \<Rightarrow> rat \<times> 'w) \<Rightarrow> 'w action \<Rightarrow> backoff_state \<Rightarrow> int \<Rightarrow> 'w action" where
  "backoff_loop opts rand act s spent w =
     Option.bind (act w) (\<lambda>((err, elapsed), w1).
       case rand w1 of (r, w2) \<Rightarrow>
         (case backoff_round opts err elapsed r s of
            Break e \<Rightarrow> Some ((Some e, spent + bs_timer s + elapsed), w2)
          | Again s1 \<Rightarrow> backoff_loop opts rand act s1 (spent + bs_timer s + elapsed) w2))"

definition exponentialBackoff :: "backoff_opts \<Rightarrow> ('w \<Rightarrow> rat \<times> 'w) \<Rightarrow> 'w action \<Rightarrow> 'w action" where
  "exponentialBackoff opts rand act w = backoff_loop opts rand act (backoff_start opts) 0 w"

section \<open>Keeping one stream connected\<close>

text \<open>
  A factory and the clients it makes: \<open>sf_new\<close> is \<open>NewStreamClient\<close>, \<open>sf_run\<close> and \<open>sf_close\<close> are \<open>Run\<close> and
  \<open>Close\<close> of the client. The error of \<open>Close\<close> is discarded by the code.
\<close>

record ('c, 'w) stream_factory =
  sf_new :: "'w \<Rightarrow> ((go_error + 'c) \<times> int) \<times> 'w"
  sf_run :: "'c \<Rightarrow> 'w action"
  sf_close :: "'c \<Rightarrow> 'w \<Rightarrow> 'w"

text \<open>The keepalive goroutine: each tick sends, and a failed send cancels the stream's context.\<close>

datatype keepalive_event = StreamCtxDone | Tick "unit result"

fun keepalive_loop :: "keepalive_event list \<Rightarrow> nat \<times> bool" where
  "keepalive_loop [] = (0, False)"
| "keepalive_loop (StreamCtxDone # _) = (0, False)"
| "keepalive_loop (Tick (Inl _) # _) = (1, True)"
| "keepalive_loop (Tick (Inr _) # es) = (case keepalive_loop es of (n, c) \<Rightarrow> (Suc n, c))"

definition runStreamWithKeepalive :: "('c, 'w) stream_factory \<Rightarrow> 'w action" where
  "runStreamWithKeepalive factory w =
     (case sf_new factory w of
        ((Inl err, elapsed), w1) \<Rightarrow> Some ((Some err, elapsed), w1)
      | ((Inr client, elapsed), w1) \<Rightarrow>
          Option.bind (sf_run factory client w1) (\<lambda>((err, ran), w2).
            Some ((err, elapsed + ran), sf_close factory client w2)))"

definition connectAndStream :: "('w \<Rightarrow> bool) \<Rightarrow> ('c, 'w) stream_factory \<Rightarrow> 'w action" where
  "connectAndStream cancelled factory w =
     (if cancelled w then Some ((Some StopRetries, 0), w) else runStreamWithKeepalive factory w)"

definition stream_opts :: "int \<Rightarrow> backoff_opts" where
  "stream_opts connectPeriod =
     \<lparr>InitialBackoff = StreamInitialBackoff, MaxBackoff = StreamMaxBackoff, MaxJitterPct = StreamMaxJitterPct,
      SevereErrorThreshold = StreamSevereErrorThreshold, ExponentialFactor = StreamExponentialFactor,
      ActionTimeToConsiderSuccess = connectPeriod\<rparr>"

definition reset_opts :: "int \<Rightarrow> backoff_opts" where
  "reset_opts authPeriod =
     \<lparr>InitialBackoff = ResetInitialBackoff, MaxBackoff = ResetMaxBackoff, MaxJitterPct = ResetMaxJitterPct,
      SevereErrorThreshold = 2 ^ 63 - 1, ExponentialFactor = 1, ActionTimeToConsiderSuccess = authPeriod\<rparr>"

text \<open>ManageStream returns when the outer loop does; the caller then sees \<open>done\<close> closed.\<close>

definition ManageStream ::
  "('w \<Rightarrow> rat \<times> 'w) \<Rightarrow> ('w \<Rightarrow> bool) \<Rightarrow> ('c, 'w) stream_factory \<Rightarrow> int \<Rightarrow> int \<Rightarrow> 'w action" where
  "ManageStream rand cancelled factory authPeriod connectPeriod =
     exponentialBackoff (reset_opts authPeriod) rand
       (exponentialBackoff (stream_opts connectPeriod) rand (connectAndStream cancelled factory))"

section \<open>Jitter and sleeps stay within bounds\<close>

definition jitter_ok :: "rat \<Rightarrow> rat \<Rightarrow> bool" where
  "jitter_ok pct r \<longleftrightarrow> 0 \<le> pct \<and> pct \<le> 1 \<and> 0 \<le> r \<and> r \<le> 1"

lemma JitterTime_antimono:
  assumes "0 \<le> pct" and "r \<le> r'" and "0 \<le> base"
  shows "JitterTime base pct r' \<le> JitterTime base pct r"
  unfolding JitterTime_def Let_def trunc_int_def
  using assms by (intro floor_mono fl_mono mult_left_mono diff_mono mult_right_mono) auto

lemma JitterTime_zero: "0 \<le> base \<Longrightarrow> base \<le> 2 ^ 53 \<Longrightarrow> JitterTime base pct 0 = base"
  using fl_of_int [of 1] by (simp add: JitterTime_def fl_of_int trunc_int_def)

lemma JitterTime_bounds:
  assumes "0 \<le> base" and "base \<le> 2 ^ 53" and "jitter_ok pct r"
  shows "0 \<le> JitterTime base pct r" and "JitterTime base pct r \<le> base"
    and "JitterTime base pct 1 \<le> JitterTime base pct r"
proof -
  show "0 \<le> JitterTime base pct r" by (simp add: JitterTime_def Let_def trunc_int_def)
  show "JitterTime base pct r \<le> base"
    using JitterTime_antimono [of pct 0 r base] assms by (simp add: jitter_ok_def JitterTime_zero)
  show "JitterTime base pct 1 \<le> JitterTime base pct r"
    using JitterTime_antimono [of pct r 1 base] assms by (simp add: jitter_ok_def)
qed

text \<open>
  The back-off after \<open>n\<close> doublings, capped. Between resets the state is exactly this, and the timer was
  armed with a jittered value of the previous one.
\<close>

definition nth_backoff :: "backoff_opts \<Rightarrow> nat \<Rightarrow> int" where
  "nth_backoff opts n = min (InitialBackoff opts * 2 ^ n) (MaxBackoff opts)"

definition opts_ok :: "backoff_opts \<Rightarrow> bool" where
  "opts_ok opts \<longleftrightarrow> 0 < InitialBackoff opts \<and> InitialBackoff opts \<le> MaxBackoff opts \<and> MaxBackoff opts \<le> 2 ^ 52 \<and>
     0 \<le> MaxJitterPct opts \<and> MaxJitterPct opts \<le> 1 \<and> ExponentialFactor opts = 2 \<and> 0 \<le> SevereErrorThreshold opts"

lemma stream_opts_ok: "opts_ok (stream_opts p)"
  using fl_mono [of 0 "1 / 5"] fl_le_one [of "1 / 5"]
  by (simp add: opts_ok_def stream_opts_def StreamInitialBackoff_def StreamMaxBackoff_def StreamMaxJitterPct_def
      StreamExponentialFactor_def StreamSevereErrorThreshold_def minute_def second_def)

lemma clamp_bounds: "lo \<le> hi \<Longrightarrow> lo \<le> clamp lo v hi \<and> clamp lo v hi \<le> hi"
  by (auto simp: clamp_def)

lemma nth_backoff_0: "opts_ok opts \<Longrightarrow> nth_backoff opts 0 = InitialBackoff opts"
  by (simp add: nth_backoff_def opts_ok_def)

lemma nth_backoff_Suc:
  assumes "opts_ok opts"
  shows "min (2 * nth_backoff opts n) (MaxBackoff opts) = nth_backoff opts (Suc n)"
proof -
  have "0 < MaxBackoff opts" using assms by (simp add: opts_ok_def)
  then show ?thesis by (auto simp: nth_backoff_def min_def)
qed

lemma nth_backoff_bounds:
  assumes "opts_ok opts"
  shows "InitialBackoff opts \<le> nth_backoff opts n" and "nth_backoff opts n \<le> MaxBackoff opts"
proof -
  have "InitialBackoff opts * 1 \<le> InitialBackoff opts * 2 ^ n"
    using assms by (intro mult_left_mono) (auto simp: opts_ok_def)
  then show "InitialBackoff opts \<le> nth_backoff opts n" using assms by (simp add: nth_backoff_def opts_ok_def)
qed (simp add: nth_backoff_def)

lemma doubled_exact:
  assumes "0 \<le> b" and "b \<le> 2 ^ 52"
  shows "trunc_int (fl (fl (of_int b) * 2)) = 2 * b"
proof -
  have "fl (of_int b) * 2 = of_int (2 * b)" using assms by (simp add: fl_of_int)
  moreover have "fl (of_int (2 * b)) = of_int (2 * b)" using assms by (intro fl_of_int) auto
  ultimately have "fl (fl (of_int b) * 2) = of_int (2 * b)" by (simp only:)
  then show ?thesis by (simp only: trunc_int_def floor_of_int)
qed

lemma AddBackoff_one:
  assumes "opts_ok opts" and "bs_backoff s = nth_backoff opts n"
  shows "bs_backoff (AddBackoff opts [r] s) = nth_backoff opts (Suc n)"
    and "bs_consecutiveFailures (AddBackoff opts [r] s) = bs_consecutiveFailures s + 1"
    and "bs_timer (AddBackoff opts [r] s) =
      clamp (InitialBackoff opts) (JitterTime (nth_backoff opts n) (MaxJitterPct opts) r) (MaxBackoff opts)"
proof -
  have "0 \<le> bs_backoff s" "bs_backoff s \<le> 2 ^ 52"
    using nth_backoff_bounds [OF assms(1), of n] assms by (auto simp: opts_ok_def)
  then show "bs_backoff (AddBackoff opts [r] s) = nth_backoff opts (Suc n)"
    using assms nth_backoff_Suc [OF assms(1), of n] by (simp add: opts_ok_def doubled_exact)
qed (use assms in simp_all)

section \<open>The back-off invariant\<close>

text \<open>After \<open>f\<close> consecutive failures the next back-off is the \<open>f\<close>-th of the series.\<close>

definition bs_inv :: "backoff_opts \<Rightarrow> backoff_state \<Rightarrow> bool" where
  "bs_inv opts s \<longleftrightarrow> 0 \<le> bs_consecutiveFailures s \<and> bs_consecutiveFailures s \<le> SevereErrorThreshold opts \<and>
     bs_backoff s = nth_backoff opts (nat (bs_consecutiveFailures s))"

lemma bs_inv_start: "opts_ok opts \<Longrightarrow> bs_inv opts (backoff_start opts)"
  by (simp add: bs_inv_def backoff_start_def nth_backoff_0 opts_ok_def)

lemma bs_inv_reset: "opts_ok opts \<Longrightarrow> bs_inv opts (resetBackoff opts s)"
  by (simp add: bs_inv_def resetBackoff_def nth_backoff_0 opts_ok_def)

lemma bs_inv_AddBackoff:
  assumes "opts_ok opts" and "bs_inv opts s" and "bs_consecutiveFailures s < SevereErrorThreshold opts"
  shows "bs_inv opts (AddBackoff opts [r] s)"
proof -
  have "bs_backoff s = nth_backoff opts (nat (bs_consecutiveFailures s))" using assms by (simp add: bs_inv_def)
  note AddBackoff_one [OF assms(1) this, of r]
  then show ?thesis using assms by (simp add: bs_inv_def nat_add_distrib)
qed

lemmas reset_defs = HappyPathResetBackoff_def LongSuccessResetBackoff_def UnhappyPathResetBackoff_def

lemma backoff_round_inv:
  assumes "opts_ok opts" and "bs_inv opts s" and "backoff_round opts err elapsed r s = Again t"
  shows "bs_inv opts t"
  using assms
  by (auto simp: backoff_round_def reset_defs Let_def bs_inv_reset intro!: bs_inv_AddBackoff
           simp del: AddBackoff.simps split: option.splits if_splits)

lemma timer_bounds:
  assumes "opts_ok opts" and "backoff_round opts err elapsed r s = Again t"
  shows "InitialBackoff opts \<le> bs_timer t" and "bs_timer t \<le> MaxBackoff opts"
  using assms clamp_bounds [of "InitialBackoff opts" "MaxBackoff opts"]
  by (auto simp: backoff_round_def reset_defs Let_def resetBackoff_def opts_ok_def
           split: option.splits if_splits)

text \<open>How a run over a list of attempts ends: the state of the loop, or the error it returned.\<close>

type_synonym attempt = "go_error option \<times> int \<times> rat"

fun backoff_run :: "backoff_opts \<Rightarrow> attempt list \<Rightarrow> backoff_state \<Rightarrow> (go_error, backoff_state) loop" where
  "backoff_run opts [] s = Again s"
| "backoff_run opts ((err, elapsed, r) # as) s =
     (case backoff_round opts err elapsed r s of Break e \<Rightarrow> Break e | Again t \<Rightarrow> backoff_run opts as t)"

lemma backoff_run_inv:
  "opts_ok opts \<Longrightarrow> bs_inv opts s \<Longrightarrow> backoff_run opts as s = Again t \<Longrightarrow> bs_inv opts t"
proof (induction as arbitrary: s)
  case (Cons a as)
  obtain err elapsed r where a: "a = (err, elapsed, r)" by (cases a)
  show ?case
  proof (cases "backoff_round opts err elapsed r s")
    case (Again u)
    then show ?thesis using Cons a backoff_round_inv [OF Cons.prems(1,2) Again] by simp
  qed (use Cons.prems a in simp)
qed simp

text \<open>An attempt that counts as a failure: an error, not a request to stop, after too short a run.\<close>

fun counts_as_failure :: "backoff_opts \<Rightarrow> attempt \<Rightarrow> bool" where
  "counts_as_failure opts (err, elapsed, r) \<longleftrightarrow>
     (case err of None \<Rightarrow> False
      | Some e \<Rightarrow> \<not> errors_is e StopRetries \<and>
                  (ActionTimeToConsiderSuccess opts = 0 \<or> elapsed \<le> ActionTimeToConsiderSuccess opts))"

lemma string_of_int_zero: "string_of_int 0 = ''0''"
  by (simp add: string_of_int_def string_of_nat.simps digit_char_def char_of_eq_iff)

lemma failing_round:
  assumes "counts_as_failure opts (err, elapsed, r)"
  shows "backoff_round opts err elapsed r s =
    (if bs_consecutiveFailures s \<ge> SevereErrorThreshold opts
     then Break (ErrMsg ''failed 0 times'') else Again (AddBackoff opts [r] s))"
  using assms
  by (cases err) (auto simp: backoff_round_def Let_def reset_defs resetBackoff_def string_of_int_zero)

lemma AddBackoff_failures [simp]:
  "bs_consecutiveFailures (AddBackoff opts rs s) = bs_consecutiveFailures s + int (length rs)"
  by (induction rs arbitrary: s) auto

lemma failing_run:
  assumes "list_all (counts_as_failure opts) as"
  shows "backoff_run opts as s =
    (if int (length as) > max 0 (SevereErrorThreshold opts - bs_consecutiveFailures s)
     then Break (ErrMsg ''failed 0 times'') else Again (AddBackoff opts (map (\<lambda>a. snd (snd a)) as) s))"
  using assms
proof (induction as arbitrary: s)
  case (Cons a as)
  obtain err elapsed r where a: "a = (err, elapsed, r)" by (cases a)
  have round: "backoff_round opts err elapsed r s =
    (if bs_consecutiveFailures s \<ge> SevereErrorThreshold opts
     then Break (ErrMsg ''failed 0 times'') else Again (AddBackoff opts [r] s))"
    using Cons.prems a by (intro failing_round) simp
  have IH: "backoff_run opts as (AddBackoff opts [r] s) =
    (if int (length as) > max 0 (SevereErrorThreshold opts - bs_consecutiveFailures (AddBackoff opts [r] s))
     then Break (ErrMsg ''failed 0 times'')
     else Again (AddBackoff opts (map (\<lambda>a. snd (snd a)) as) (AddBackoff opts [r] s)))"
    using Cons by (intro Cons.IH) simp
  show ?case
  proof (cases "bs_consecutiveFailures s \<ge> SevereErrorThreshold opts")
    case True
    then show ?thesis by (simp add: a round)
  next
    case False
    have l: "bs_consecutiveFailures (AddBackoff opts [r] s) = bs_consecutiveFailures s + 1" by simp
    show ?thesis using False IH unfolding l by (auto simp: a round)
  qed
qed simp

section \<open>The loops end\<close>

text \<open>
  An action makes progress when every call returns and either asks to stop retrying or brings the
  world closer to doing so (\<open>m\<close> decreases). Then the loop around it returns, and it makes progress
  in the same sense: that is why the contract nests.
\<close>

locale progressing_action =
  fixes act :: "'w action" and rand :: "'w \<Rightarrow> rat \<times> 'w" and m :: "'w \<Rightarrow> nat"
  assumes act_progress: "\<exists>err elapsed w1. act w = Some ((err, elapsed), w1) \<and>
        (m w1 < m w \<or> (\<exists>e. err = Some e \<and> errors_is e StopRetries \<and> m w1 \<le> m w))"
    and rand_keeps: "m (snd (rand w)) \<le> m w"
begin

lemma loop_progress:
  "\<exists>e elapsed w1. backoff_loop opts rand act s spent w = Some ((Some e, elapsed), w1) \<and>
     (m w1 < m w \<or> errors_is e StopRetries \<and> m w1 \<le> m w)"
proof (induction "m w" arbitrary: s spent w rule: less_induct)
  case less
  obtain err elapsed w1 where call: "act w = Some ((err, elapsed), w1)"
    and prog: "m w1 < m w \<or> (\<exists>e. err = Some e \<and> errors_is e StopRetries \<and> m w1 \<le> m w)"
    using act_progress [of w] by blast
  obtain r w2 where rnd: "rand w1 = (r, w2)" by (cases "rand w1")
  have w2: "m w2 \<le> m w1" using rand_keeps [of w1] rnd by simp
  note step = backoff_loop.simps [of opts rand act s spent w]
  show ?case
  proof (cases "backoff_round opts err elapsed r s")
    case (Break e)
    have "m w2 < m w \<or> errors_is e StopRetries \<and> m w2 \<le> m w"
      using prog w2 Break by (auto simp: backoff_round_def)
    then show ?thesis using call rnd Break step by auto
  next
    case (Again t)
    then have "m w2 < m w" using prog w2 by (auto simp: backoff_round_def)
    from less [OF this, of t "spent + bs_timer s + elapsed"] show ?thesis
      using \<open>m w2 < m w\<close> call rnd Again step by fastforce
  qed
qed

lemma backoff_progress: "progressing_action (exponentialBackoff opts rand act) rand m"
proof
  fix w
  show "\<exists>err elapsed w1. exponentialBackoff opts rand act w = Some ((err, elapsed), w1) \<and>
        (m w1 < m w \<or> (\<exists>e. err = Some e \<and> errors_is e StopRetries \<and> m w1 \<le> m w))"
    using loop_progress [of opts "backoff_start opts" 0 w] unfolding exponentialBackoff_def by blast
qed (rule rand_keeps)

end

lemma backoff_break_stop:
  "backoff_round opts (Some e) elapsed r s = Break e' \<Longrightarrow> errors_is e StopRetries \<Longrightarrow> e' = e"
  by (simp add: backoff_round_def)

text \<open>A stop request leaves every loop it passes through unchanged.\<close>

lemma backoff_stop:
  assumes "act w = Some ((Some e, elapsed), w1)" and "errors_is e StopRetries"
  shows "exponentialBackoff opts rand act w = Some ((Some e, elapsed), snd (rand w1))"
  using assms
  by (simp add: exponentialBackoff_def backoff_loop.simps [of opts rand act] backoff_round_def
      backoff_start_def split: prod.split)

text \<open>The connection attempt makes progress when every client run that returns consumes the budget \<open>m\<close>.\<close>

lemma connect_progress:
  assumes "\<And>w. \<not> cancelled w \<Longrightarrow> \<exists>err elapsed w1. runStreamWithKeepalive factory w = Some ((err, elapsed), w1) \<and> m w1 < m w"
    and "\<And>w. m (snd (rand w)) \<le> m w"
  shows "progressing_action (connectAndStream cancelled factory) rand m"
proof
  fix w
  show "\<exists>err elapsed w1. connectAndStream cancelled factory w = Some ((err, elapsed), w1) \<and>
     (m w1 < m w \<or> (\<exists>e. err = Some e \<and> errors_is e StopRetries \<and> m w1 \<le> m w))"
    using assms(1) [of w] by (cases "cancelled w") (auto simp: connectAndStream_def)
qed (rule assms(2))

section \<open>What the retry loop promises\<close>

lemma run_timer_bounds:
  assumes "opts_ok opts"
  shows "as \<noteq> [] \<Longrightarrow> backoff_run opts as s = Again t \<Longrightarrow> InitialBackoff opts \<le> bs_timer t \<and> bs_timer t \<le> MaxBackoff opts"
proof (induction as arbitrary: s)
  case (Cons a as)
  obtain err elapsed r where a: "a = (err, elapsed, r)" by (cases a)
  with Cons.prems obtain u where u: "backoff_round opts err elapsed r s = Again u" "backoff_run opts as u = Again t"
    by (auto split: loop.splits)
  show ?case
    using Cons.IH [OF _ u(2)] timer_bounds [OF assms u(1)] u(2) by (cases "as = []") auto
qed simp

text \<open>
  C37: whatever a stream's attempts return and however long they take, the wait in front of
  the next attempt is between one second and one minute, and the back-off kept for the one after
  it is one second doubled once per consecutive failure, capped at one minute.
\<close>

theorem backoff_bounds:
  assumes "as \<noteq> []" and "backoff_run (stream_opts p) as (backoff_start (stream_opts p)) = Again t"
  shows "StreamInitialBackoff \<le> bs_timer t \<and> bs_timer t \<le> StreamMaxBackoff
         \<and> 0 \<le> bs_consecutiveFailures t \<and> bs_consecutiveFailures t \<le> StreamSevereErrorThreshold
         \<and> bs_backoff t = min (StreamInitialBackoff * 2 ^ nat (bs_consecutiveFailures t)) StreamMaxBackoff"
  using run_timer_bounds [OF stream_opts_ok assms]
    backoff_run_inv [OF stream_opts_ok bs_inv_start [OF stream_opts_ok] assms(2)]
  by (simp add: bs_inv_def nth_backoff_def stream_opts_def)

theorem backoff_bounds_witness:
  "StreamInitialBackoff \<le> bs_timer (AddBackoff (stream_opts 0) [1 / 2] (backoff_start (stream_opts 0)))"
proof -
  have "backoff_run (stream_opts 0) [(Some (ErrMsg ''refused''), 0, 1 / 2)] (backoff_start (stream_opts 0))
      = Again (AddBackoff (stream_opts 0) [1 / 2] (backoff_start (stream_opts 0)))"
    by (simp add: backoff_round_def Let_def stream_opts_def backoff_start_def StreamSevereErrorThreshold_def)
  from backoff_bounds [OF _ this] show ?thesis by simp
qed

text \<open>
  A stream whose attempts all fail without having run long enough to count as a
  success is retried exactly ten times; the eleventh failure ends the loop, with an error that says
  the action failed zero times, because the counter is reset before it is printed.
\<close>

theorem backoff_gives_up:
  assumes "list_all (counts_as_failure (stream_opts p)) as"
  shows "(case backoff_run (stream_opts p) as (backoff_start (stream_opts p)) of
            Break e \<Rightarrow> length as > 10 \<and> e = ErrMsg ''failed 0 times''
          | Again t \<Rightarrow> length as \<le> 10 \<and> bs_consecutiveFailures t = int (length as))"
  using failing_run [OF assms, of "backoff_start (stream_opts p)"]
  by (auto simp: backoff_start_def stream_opts_def StreamSevereErrorThreshold_def)

theorem backoff_gives_up_witness:
  "backoff_run (stream_opts 0) (replicate 11 (Some (ErrMsg ''refused''), 0, 0)) (backoff_start (stream_opts 0))
     = Break (ErrMsg ''failed 0 times'')"
proof -
  have "list_all (counts_as_failure (stream_opts 0)) (replicate 11 (Some (ErrMsg ''refused''), 0, 0))"
    by (simp add: list_all_iff stream_opts_def)
  from backoff_gives_up [OF this] show ?thesis by (simp split: loop.splits)
qed

text \<open>
  The wait between two rounds of the outer loop: its initial back-off is ten minutes and its maximum
  ten seconds, and the clamp tests the minimum first, so the wait is ten minutes unless the jitter is
  exactly zero.
\<close>

lemma reset_wait:
  "bs_timer (AddBackoff (reset_opts p) [r] s) =
     (if JitterTime (bs_backoff s) ResetMaxJitterPct r < ResetInitialBackoff then ResetInitialBackoff else ResetMaxBackoff)"
  by (simp add: reset_opts_def clamp_def ResetInitialBackoff_def ResetMaxBackoff_def minute_def second_def)

text \<open>
  C16: the two nested retry loops that keep a stream connected do return: when
  the context is cancelled after finitely many connection attempts, each of which returns, then so
  does \<open>ManageStream\<close>, with an error that asks to stop retrying or after attempts were made.
\<close>

theorem manage_stream_returns:
  assumes "\<And>w. \<not> cancelled w \<Longrightarrow> \<exists>err elapsed w1. runStreamWithKeepalive factory w = Some ((err, elapsed), w1) \<and> m w1 < m w"
    and "\<And>w. m (snd (rand w)) \<le> m w"
  shows "\<exists>e elapsed w1. ManageStream rand cancelled factory authPeriod connectPeriod w = Some ((Some e, elapsed), w1)
           \<and> (errors_is e StopRetries \<or> m w1 < (m w :: nat))"
proof -
  note inner = progressing_action.backoff_progress [OF connect_progress [OF assms], where opts = "stream_opts connectPeriod"]
  show ?thesis
    unfolding ManageStream_def exponentialBackoff_def [of "reset_opts authPeriod"]
    using progressing_action.loop_progress [OF inner, where opts = "reset_opts authPeriod" and
        s = "backoff_start (reset_opts authPeriod)" and spent = 0 and w = w]
    by blast
qed

text \<open>Three connections that end at once, then a cancelled context.\<close>

definition short_lived_factory :: "(unit, nat) stream_factory" where
  "short_lived_factory = \<lparr>sf_new = (\<lambda>w. ((Inr (), 0), w)), sf_run = (\<lambda>_ w. Some ((None, 1), w - 1)), sf_close = (\<lambda>_ w. w)\<rparr>"

theorem manage_stream_returns_witness:
  "\<exists>e elapsed w1. ManageStream (\<lambda>w. (0, w)) (\<lambda>w. w = 0) short_lived_factory 0 0 (3 :: nat) = Some ((Some e, elapsed), w1)"
proof -
  have "\<exists>err elapsed w1. runStreamWithKeepalive short_lived_factory w = Some ((err, elapsed), w1) \<and> w1 < w" if "w \<noteq> 0" for w
    using that by (simp add: runStreamWithKeepalive_def short_lived_factory_def)
  from manage_stream_returns [of "\<lambda>w. w = 0" short_lived_factory "\<lambda>w. w" "\<lambda>w. (0, w)" 0 0 3, OF this] show ?thesis by auto
qed

end
