(* ===== verification/Connection.thy ===== *)
theory Connection
  imports Retry Objects
begin

text \<open>
  \<open>auth/authenticator.go\<close>, \<open>auth/onboarding.go\<close> and the outer loop of \<open>stream/manager.go\<close>: obtaining the cluster's
  credentials, finding the service in the token, and running all streams over one connection until one
  of them ends. The secrets of the cluster are state; the errors of API calls and the answers of the
  onboarding and token endpoints are inputs.
\<close>

section \<open>Credentials\<close>

type_synonym secret_data = "(string, string) gomap"

record auth_config =
  ag_ClusterCreds :: string
  ag_PodNamespace :: string
  ag_OnboardingClientID :: string
  ag_OnboardingClientSecret :: string
  ag_OnboardingEndpoint :: string

text \<open>The secrets by namespace and name, and the requests made to the onboarding endpoint.\<close>

record auth_world =
  aw_secrets :: "(string \<times> string, secret_data) gomap"
  aw_posts :: "(string \<times> string \<times> string) list"

text \<open>What the calls of one attempt answer: API errors, the error of building the HTTP request, and the status and body of its response.\<close>

record auth_answers =
  aa_read :: "go_error option"
  aa_request :: "go_error option"
  aa_post :: "(nat \<times> string result) result"
  aa_reread :: "go_error option"
  aa_update :: "go_error option"

definition secret_field :: "secret_data \<Rightarrow> string \<Rightarrow> string" where
  "secret_field d k = (case gm_get d k of None \<Rightarrow> [] | Some v \<Rightarrow> v)"

definition get_secret :: "go_error option \<Rightarrow> string \<Rightarrow> string \<Rightarrow> auth_world \<Rightarrow> secret_data result" where
  "get_secret err namespace name w =
     (case err of
        Some e \<Rightarrow> Inl e
      | None \<Rightarrow> (case gm_get (aw_secrets w) (namespace, name) of None \<Rightarrow> Inl NotFoundErr | Some d \<Rightarrow> Inr d))"

definition readClusterCredentialsFromK8sSecret ::
  "go_error option \<Rightarrow> string \<Rightarrow> string \<Rightarrow> auth_world \<Rightarrow> (string \<times> string) result" where
  "readClusterCredentialsFromK8sSecret err secretName podNamespace w =
     (case get_secret err podNamespace secretName w of
        Inl e \<Rightarrow> Inl (WrapErr ''failed to read cluster credentials from k8s secret'' e)
      | Inr d \<Rightarrow> Inr (secret_field d ''client_id'', secret_field d ''client_secret''))"

definition writeClusterCredentialsIntoK8sSecret ::
  "auth_answers \<Rightarrow> string \<Rightarrow> string \<Rightarrow> string \<Rightarrow> string \<Rightarrow> auth_world \<Rightarrow> unit result \<times> auth_world" where
  "writeClusterCredentialsIntoK8sSecret an clusterClientID clusterClusterSecret clusterCreds podNamespace w =
     (case get_secret (aa_reread an) podNamespace clusterCreds w of
        Inl e \<Rightarrow> (Inl (WrapErr ''failed to read cluster credentials from k8s secret for update'' e), w)
      | Inr _ \<Rightarrow>
          (case aa_update an of
             Some e \<Rightarrow> (Inl (WrapErr ''failed to write cluster credentials into k8s secret'' e), w)
           | None \<Rightarrow>
               (Inr (), w\<lparr>aw_secrets := gm_put (podNamespace, clusterCreds)
                  [(''client_id'', clusterClientID), (''client_secret'', clusterClusterSecret)] (aw_secrets w)\<rparr>)))"

text \<open>\<open>decode\<close> is the decoding of the response into its two fields.\<close>

definition OnboardCluster ::
  "(string \<Rightarrow> (string \<times> string) result) \<Rightarrow> auth_answers \<Rightarrow> string \<Rightarrow> string \<Rightarrow> string \<Rightarrow> auth_world \<Rightarrow> (string \<times> string) result \<times> auth_world" where
  "OnboardCluster decode an onboardingEndpoint onboardingClientID onboardingClientSecret w =
     (case aa_request an of
        Some e \<Rightarrow> (Inl e, w)
      | None \<Rightarrow>
          (case aa_post an of
             Inl e \<Rightarrow> Inl e
           | Inr (status, body) \<Rightarrow>
               if status = 200 then (case body of Inl e \<Rightarrow> Inl e | Inr b \<Rightarrow> decode b)
               else if status = 401 then Inl (ErrMsg ''unauthorized: invalid credentials'')
               else if status = 500 then Inl (ErrMsg ''internal server error: something went wrong on the server'')
               else Inl (ErrMsg ''unexpected status code''),
           w\<lparr>aw_posts := aw_posts w @ [(onboardingEndpoint, onboardingClientID, onboardingClientSecret)]\<rparr>))"

definition GetClusterCredentials ::
  "(string \<Rightarrow> (string \<times> string) result) \<Rightarrow> auth_answers \<Rightarrow> auth_config \<Rightarrow> auth_world \<Rightarrow> (string \<times> string) result \<times> auth_world" where
  "GetClusterCredentials decode an config w =
     (case readClusterCredentialsFromK8sSecret (aa_read an) (ag_ClusterCreds config) (ag_PodNamespace config) w of
        Inl e \<Rightarrow> (Inl e, w)
      | Inr (clientID, clientSecret) \<Rightarrow>
          if clientID = [] \<or> clientSecret = [] then
            if ag_OnboardingClientID config = [] \<or> ag_OnboardingClientSecret config = []
            then (Inl (ErrMsg ''onboarding credentials are not configured''), w)
            else (case OnboardCluster decode an (ag_OnboardingEndpoint config) (ag_OnboardingClientID config)
                         (ag_OnboardingClientSecret config) w of
                    (Inl e, w1) \<Rightarrow> (Inl (WrapErr ''failed to onboard cluster'' e), w1)
                  | (Inr (newID, newSecret), w1) \<Rightarrow>
                      (case writeClusterCredentialsIntoK8sSecret an newID newSecret (ag_ClusterCreds config) (ag_PodNamespace config) w1 of
                         (Inl e, w2) \<Rightarrow> (Inl (WrapErr ''failed to write cluster credentials into k8s secret'' e), w2)
                       | (Inr _, w2) \<Rightarrow> (Inr (newID, newSecret), w2)))
          else (Inr (clientID, clientSecret), w))"

section \<open>The service's address\<close>

definition GetFirstAudience :: "json_obj \<Rightarrow> string result" where
  "GetFirstAudience claims =
     (case gm_get claims ''aud'' of
        None \<Rightarrow> Inl (ErrMsg ''audience claim not found'')
      | Some (JArr auds) \<Rightarrow>
          (case auds of
             [] \<Rightarrow> Inl (ErrMsg ''audience slice is empty'')
           | JStr firstAud # _ \<Rightarrow> Inr firstAud
           | _ \<Rightarrow> Inl (ErrMsg ''first audience claim is not a string''))
      | Some _ \<Rightarrow> Inl (ErrMsg ''audience claim is not a slice''))"

text \<open>The cluster's id is the uid of its system namespace.\<close>

definition GetClusterID :: "(string \<Rightarrow> string result) \<Rightarrow> string result" where
  "GetClusterID getNamespaceUID =
     (case getNamespaceUID ''kube-system'' of Inl e \<Rightarrow> Inl e | Inr uid \<Rightarrow> Inr uid)"

text \<open>The token endpoint, the parser of tokens and the dial are arguments; the result is the address connected to.\<close>

record oauth_lib =
  ol_Token :: "string \<Rightarrow> string \<Rightarrow> string result"
  ol_ParseToken :: "string \<Rightarrow> json_obj result"
  ol_NewClient :: "string \<Rightarrow> go_error option"

definition SetUpOAuthConnection :: "oauth_lib \<Rightarrow> string \<Rightarrow> string \<Rightarrow> string result" where
  "SetUpOAuthConnection lib clientID clientSecret =
     (case ol_Token lib clientID clientSecret of
        Inl e \<Rightarrow> Inl e
      | Inr token \<Rightarrow>
          (case ol_ParseToken lib token of
             Inl e \<Rightarrow> Inl e
           | Inr claims \<Rightarrow>
               (case GetFirstAudience claims of
                  Inl e \<Rightarrow> Inl e
                | Inr aud \<Rightarrow> (case ol_NewClient lib aud of Some e \<Rightarrow> Inl e | None \<Rightarrow> Inr aud))))"

text \<open>\<open>clientErr\<close> is the error of building the Kubernetes client.\<close>

definition NewAuthenticatedConnection ::
  "oauth_lib \<Rightarrow> (string \<Rightarrow> (string \<times> string) result) \<Rightarrow> go_error option \<Rightarrow> auth_answers \<Rightarrow> auth_config \<Rightarrow> auth_world
    \<Rightarrow> string result \<times> auth_world" where
  "NewAuthenticatedConnection lib decode clientErr an config w =
     (case clientErr of
        Some e \<Rightarrow> (Inl e, w)
      | None \<Rightarrow>
          (case GetClusterCredentials decode an config w of
             (Inl e, w1) \<Rightarrow> (Inl e, w1)
           | (Inr (clientID, clientSecret), w1) \<Rightarrow> (SetUpOAuthConnection lib clientID clientSecret, w1)))"

section \<open>Running the streams\<close>

text \<open>
  A factory is its name, or \<open>None\<close> for a nil one. What can wake the wait: a stream's manager returns, by the
  index of its factory, or the context of the connection is done. The channels are kept by name, so of
  several factories with one name only the last is waited for.
\<close>

datatype streams_event = ManagerReturned nat | AuthContextDone

definition watched :: "string option list \<Rightarrow> nat \<Rightarrow> bool" where
  "watched factories i \<longleftrightarrow> i < length factories \<and> factories ! i \<noteq> None \<and>
     list_all (\<lambda>f. f \<noteq> factories ! i) (drop (Suc i) factories)"

fun merged_message :: "string option list \<Rightarrow> streams_event \<Rightarrow> string option" where
  "merged_message factories (ManagerReturned i) =
     (if watched factories i then Some (the (factories ! i) @ '' stream closed'') else None)"
| "merged_message factories AuthContextDone = Some ''Auth context canceled''"

text \<open>The first message wins; \<open>None\<close> means that the call still waits.\<close>

fun merged_first :: "string option list \<Rightarrow> streams_event list \<Rightarrow> string option" where
  "merged_first factories [] = None"
| "merged_first factories (e # es) =
     (case merged_message factories e of Some m \<Rightarrow> Some m | None \<Rightarrow> merged_first factories es)"

definition runStreamsOnce :: "string result \<Rightarrow> string option list \<Rightarrow> streams_event list \<Rightarrow> string option" where
  "runStreamsOnce conn factories es =
     (case conn of
        Inl _ \<Rightarrow> Some ''Failed to establish initial connection''
      | Inr _ \<Rightarrow> merged_first factories es)"

text \<open>
  The outer loop: each turn ends with the context done, or runs the streams once. The result is
  whether the loop has returned, the number of attempts and the reasons for which streams were reopened.
\<close>

datatype connect_turn = CtxDoneTurn | AttemptTurn "string result" "streams_event list"

fun ConnectStreams :: "string option list \<Rightarrow> connect_turn list \<Rightarrow> nat \<Rightarrow> string list \<Rightarrow> bool \<times> nat \<times> string list" where
  "ConnectStreams factories [] attempt reasons = (False, attempt, reasons)"
| "ConnectStreams factories (CtxDoneTurn # ts) attempt reasons = (True, Suc attempt, reasons)"
| "ConnectStreams factories (AttemptTurn conn es # ts) attempt reasons =
     (case runStreamsOnce conn factories es of
        None \<Rightarrow> (False, Suc attempt, reasons)
      | Some r \<Rightarrow> ConnectStreams factories ts (Suc attempt) (reasons @ [r]))"

section \<open>Onboarding happens once\<close>

lemmas credential_defs = GetClusterCredentials_def readClusterCredentialsFromK8sSecret_def get_secret_def

text \<open>A call that succeeds leaves the credentials it returned in the cluster's secret.\<close>

lemma credentials_stored:
  assumes "GetClusterCredentials decode an config w = (Inr (i, s), w')"
  obtains d where "gm_get (aw_secrets w') (ag_PodNamespace config, ag_ClusterCreds config) = Some d"
    and "secret_field d ''client_id'' = i" and "secret_field d ''client_secret'' = s"
  using assms
  by (auto simp: credential_defs OnboardCluster_def writeClusterCredentialsIntoK8sSecret_def secret_field_def Let_def
      split: sum.splits option.splits if_splits prod.splits)

lemma credentials_kept:
  assumes "gm_get (aw_secrets w) (ag_PodNamespace config, ag_ClusterCreds config) = Some d"
    and "secret_field d ''client_id'' = i" and "i \<noteq> []" and "secret_field d ''client_secret'' = s" and "s \<noteq> []"
    and "aa_read an = None"
  shows "GetClusterCredentials decode an config w = (Inr (i, s), w)"
  using assms by (simp add: credential_defs)

text \<open>Any number of later calls, each with its own answers and its own onboarding configuration.\<close>

fun later_calls ::
  "(string \<Rightarrow> (string \<times> string) result) \<Rightarrow> auth_config \<Rightarrow> (auth_answers \<times> string \<times> string \<times> string) list \<Rightarrow> auth_world
    \<Rightarrow> (string \<times> string) result list \<times> auth_world" where
  "later_calls decode config [] w = ([], w)"
| "later_calls decode config ((an, oid, os, ep) # ls) w =
     (case GetClusterCredentials decode an
             (config\<lparr>ag_OnboardingClientID := oid, ag_OnboardingClientSecret := os, ag_OnboardingEndpoint := ep\<rparr>) w of
        (r, w1) \<Rightarrow> (case later_calls decode config ls w1 of (rs, w2) \<Rightarrow> (r # rs, w2)))"

lemma later_calls_kept:
  assumes "gm_get (aw_secrets w) (ag_PodNamespace config, ag_ClusterCreds config) = Some d"
    and "secret_field d ''client_id'' = i" and "i \<noteq> []" and "secret_field d ''client_secret'' = s" and "s \<noteq> []"
  shows "snd (later_calls decode config ls w) = w \<and>
    list_all2 (\<lambda>l r. case aa_read (fst l) of None \<Rightarrow> r = Inr (i, s) | Some e \<Rightarrow> \<exists>e'. r = Inl e' \<and> errors_is e' e)
      ls (fst (later_calls decode config ls w))"
proof (induction ls)
  case (Cons l ls)
  obtain an oid os ep where l: "l = (an, oid, os, ep)" by (cases l)
  let ?c = "config\<lparr>ag_OnboardingClientID := oid, ag_OnboardingClientSecret := os, ag_OnboardingEndpoint := ep\<rparr>"
  have "\<exists>r. GetClusterCredentials decode an ?c w = (r, w) \<and>
      (case aa_read an of None \<Rightarrow> r = Inr (i, s) | Some e \<Rightarrow> \<exists>e'. r = Inl e' \<and> errors_is e' e)"
    using assms by (cases "aa_read an") (auto simp: credential_defs errors_is_refl)
  with Cons.IH show ?case by (auto simp: l split: prod.splits)
qed simp

text \<open>
  C21: credentials that were obtained are kept: after a call that returned a client id and
  secret, both non-empty, every later call, whatever its answers and onboarding configuration, leaves the
  cluster's secret as it is and asks the onboarding endpoint nothing more; it returns the same credentials, or
  the error of reading the secret. So a cluster is onboarded once, and one whose secret is filled never is.
\<close>

theorem onboards_once:
  assumes "GetClusterCredentials decode an config w = (Inr (i, s), w')" and "i \<noteq> []" and "s \<noteq> []"
  shows "snd (later_calls decode' config ls w') = w' \<and>
    list_all2 (\<lambda>l r. case aa_read (fst l) of None \<Rightarrow> r = Inr (i, s) | Some e \<Rightarrow> \<exists>e'. r = Inl e' \<and> errors_is e' e)
      ls (fst (later_calls decode' config ls w'))"
proof -
  obtain d where "gm_get (aw_secrets w') (ag_PodNamespace config, ag_ClusterCreds config) = Some d"
    and "secret_field d ''client_id'' = i" and "secret_field d ''client_secret'' = s"
    using credentials_stored [OF assms(1)] .
  from later_calls_kept [OF this(1,2) assms(2) this(3) assms(3)] show ?thesis .
qed

definition fresh_cluster :: auth_world where
  "fresh_cluster = \<lparr>aw_secrets = [((''illumio'', ''creds''), [])], aw_posts = []\<rparr>"

definition fresh_config :: auth_config where
  "fresh_config = \<lparr>ag_ClusterCreds = ''creds'', ag_PodNamespace = ''illumio'', ag_OnboardingClientID = ''o'',
     ag_OnboardingClientSecret = ''p'', ag_OnboardingEndpoint = ''https://c/onboard''\<rparr>"

definition good_answers :: auth_answers where
  "good_answers = \<lparr>aa_read = None, aa_request = None, aa_post = Inr (200, Inr ''{}''), aa_reread = None, aa_update = None\<rparr>"

theorem onboards_once_witness:
  "snd (later_calls (\<lambda>_. Inl (ErrMsg ''down'')) fresh_config [(good_answers, [], [], []), (good_answers, ''x'', ''y'', ''z'')]
     (snd (GetClusterCredentials (\<lambda>_. Inr (''id'', ''secret'')) good_answers fresh_config fresh_cluster)))
   = snd (GetClusterCredentials (\<lambda>_. Inr (''id'', ''secret'')) good_answers fresh_config fresh_cluster)"
  by (rule onboards_once [where i = "''id''" and s = "''secret''" and an = good_answers and config = fresh_config
        and w = fresh_cluster and decode = "\<lambda>_. Inr (''id'', ''secret'')", THEN conjunct1])
    (simp_all add: credential_defs OnboardCluster_def writeClusterCredentialsIntoK8sSecret_def secret_field_def
      fresh_cluster_def fresh_config_def good_answers_def)

section \<open>One stream that ends reopens all\<close>

lemma merged_first_find:
  "merged_first factories es =
     Option.bind (find (\<lambda>e. merged_message factories e \<noteq> None) es) (merged_message factories)"
  by (induction es) (auto split: option.splits)

lemma merged_first_append:
  "merged_first factories (es @ es') =
     (case merged_first factories es of Some m \<Rightarrow> Some m | None \<Rightarrow> merged_first factories es')"
  by (induction es) (auto split: option.splits)

text \<open>With distinct names every stream is waited for; a nil factory never is.\<close>

lemma watched_distinct:
  assumes "distinct (filter (\<lambda>f. f \<noteq> None) factories)" and "i < length factories" and "factories ! i \<noteq> None"
  shows "watched factories i"
proof -
  have "factories = take i factories @ factories ! i # drop (Suc i) factories"
    using assms(2) by (rule id_take_nth_drop)
  then have "distinct (filter (\<lambda>f. f \<noteq> None) (take i factories @ factories ! i # drop (Suc i) factories))"
    using assms(1) by simp
  then have "factories ! i \<notin> set (drop (Suc i) factories)" using assms(3) by auto
  then show ?thesis using assms(2,3) by (auto simp: watched_def list_all_iff)
qed

text \<open>A client that asks for no further retries makes the manager of its stream return at once.\<close>

lemma stop_ends_manager:
  assumes "connectAndStream cancelled factory w = Some ((Some e, elapsed), w1)" and "errors_is e StopRetries"
  shows "ManageStream rand cancelled factory authPeriod connectPeriod w = Some ((Some e, elapsed), snd (rand (snd (rand w1))))"
  unfolding ManageStream_def
  using backoff_stop [of "exponentialBackoff (stream_opts connectPeriod) rand (connectAndStream cancelled factory)" w e elapsed
      "snd (rand w1)" "reset_opts authPeriod" rand]
    backoff_stop [of "connectAndStream cancelled factory" w e elapsed w1 "stream_opts connectPeriod" rand] assms
  by simp

text \<open>
  A stream whose client asks for no further retries does not end alone. Its manager
  returns at once with that error, without any backoff, and the first manager to return ends the wait for all
  streams: the loop records that stream as the reason, and its next turn opens a new connection with every
  factory, the one that asked to stop included, unless the context is done. Names are assumed distinct, as
  the channels are kept by name.
\<close>

theorem stopped_stream_restarts_all:
  assumes "connectAndStream cancelled factory w = Some ((Some e, elapsed), w1)" and "errors_is e StopRetries"
    and "distinct (filter (\<lambda>f. f \<noteq> None) factories)" and "i < length factories" and "factories ! i = Some name"
    and "merged_first factories earlier = None"
  shows "(\<exists>w2. ManageStream rand cancelled factory authPeriod connectPeriod w = Some ((Some e, elapsed), w2)) \<and>
    ConnectStreams factories (AttemptTurn (Inr conn) (earlier @ ManagerReturned i # later) # turns) attempt reasons =
      ConnectStreams factories turns (Suc attempt) (reasons @ [name @ '' stream closed''])"
  using stop_ends_manager [OF assms(1,2)] watched_distinct [OF assms(3,4)] assms(5,6)
  by (simp add: runStreamsOnce_def merged_first_append)

definition stopping_factory :: "(unit, nat) stream_factory" where
  "stopping_factory = \<lparr>sf_new = (\<lambda>w. ((Inl (WrapErr ''hubble disabled'' StopRetries), 0), w)), sf_run = (\<lambda>_ w. None), sf_close = (\<lambda>_ w. w)\<rparr>"

theorem stopped_stream_restarts_all_witness:
  "ConnectStreams [Some ''flows'', None, Some ''config'']
     [AttemptTurn (Inr ''conn'') [ManagerReturned 1, ManagerReturned 0, ManagerReturned 2], CtxDoneTurn] 0 [] =
   (True, 2, [''flows stream closed''])"
  using stopped_stream_restarts_all [of "\<lambda>_. False" stopping_factory 0 "WrapErr ''hubble disabled'' StopRetries" 0 0
      "[Some ''flows'', None, Some ''config'']" 0 "''flows''" "[ManagerReturned 1]" "\<lambda>w. (0, w)" 0 0 "''conn''"
      "[ManagerReturned 2]" "[CtxDoneTurn]" 0 "[]"]
  by (simp add: connectAndStream_def runStreamWithKeepalive_def stopping_factory_def watched_def)

text \<open>The loop returns only when its context is done; until then every attempt that ended is a recorded reason.\<close>

lemma ConnectStreams_returns:
  "fst (ConnectStreams factories turns attempt reasons) \<longleftrightarrow> CtxDoneTurn \<in> set turns \<and>
     list_all (\<lambda>t. case t of CtxDoneTurn \<Rightarrow> True | AttemptTurn c es \<Rightarrow> runStreamsOnce c factories es \<noteq> None)
       (takeWhile (\<lambda>t. t \<noteq> CtxDoneTurn) turns)"
  by (induction factories turns attempt reasons rule: ConnectStreams.induct) (simp_all split: option.split)

end
