(* ===== verification/IP_Text.thy ===== *)
theory IP_Text
  imports Go_Strings "HOL-Library.Word"
begin

text \<open>
  The text of an IP address as \<open>net.IP.String\<close> of Go's standard library prints it, and that it identifies
  the address: the flow cache aggregates flows by these texts.
\<close>

section \<open>The text\<close>

type_synonym byte = "8 word"

definition byte_text :: "byte \<Rightarrow> string" where
  "byte_text b = string_of_nat (unat b)"

fun ipv4_text :: "byte list \<Rightarrow> string" where
  "ipv4_text [a, b, c, d] = byte_text a @ ''.'' @ byte_text b @ ''.'' @ byte_text c @ ''.'' @ byte_text d"
| "ipv4_text _ = []"

definition hex_digit :: "nat \<Rightarrow> char" where
  "hex_digit n = ''0123456789abcdef'' ! n"

text \<open>A 16-bit group in hexadecimal without leading zeros.\<close>

definition group_text :: "16 word \<Rightarrow> string" where
  "group_text g =
     (let n = unat g in
      (if n \<ge> 4096 then [hex_digit (n div 4096)] else []) @ (if n \<ge> 256 then [hex_digit (n div 256 mod 16)] else []) @
      (if n \<ge> 16 then [hex_digit (n div 16 mod 16)] else []) @ [hex_digit (n mod 16)])"

definition group_of :: "byte \<Rightarrow> byte \<Rightarrow> 16 word" where
  "group_of a b = word_of_nat (256 * unat a + unat b)"

fun groups_of :: "byte list \<Rightarrow> 16 word list" where
  "groups_of (a # b # bs) = group_of a b # groups_of bs"
| "groups_of _ = []"

definition zero_run :: "16 word list \<Rightarrow> nat \<Rightarrow> nat" where
  "zero_run gs i = length (takeWhile (\<lambda>g. g = 0) (drop i gs))"

text \<open>The first longest run of at least two zero groups, as its start and end; \<open>(8, 8)\<close> when there is none.\<close>

definition zero_span :: "16 word list \<Rightarrow> nat \<times> nat" where
  "zero_span gs =
     fold (\<lambda>i (s, e). if zero_run gs i \<ge> 2 \<and> zero_run gs i > e - s then (i, i + zero_run gs i) else (s, e)) [0..<8] (8, 8)"

fun join_colon :: "string list \<Rightarrow> string" where
  "join_colon [] = []"
| "join_colon [x] = x"
| "join_colon (x # xs) = x @ '':'' @ join_colon xs"

definition ipv6_text :: "16 word list \<Rightarrow> string" where
  "ipv6_text gs =
     (case zero_span gs of (s, e) \<Rightarrow>
        if s = 8 then join_colon (map group_text gs)
        else join_colon (map group_text (take s gs)) @ ''::'' @ join_colon (map group_text (drop e gs)))"

text \<open>\<open>To4\<close>: an IPv6 address that maps an IPv4 address is printed as the latter.\<close>

definition mapped_ipv4 :: "byte list \<Rightarrow> bool" where
  "mapped_ipv4 b \<longleftrightarrow> length b = 16 \<and> take 12 b = replicate 10 0 @ [255, 255]"

definition IP_String :: "byte list \<Rightarrow> string" where
  "IP_String b = (if mapped_ipv4 b then ipv4_text (drop 12 b) else ipv6_text (groups_of b))"

section \<open>Splitting at a separator\<close>

fun split_at :: "char \<Rightarrow> string \<Rightarrow> string list" where
  "split_at c [] = [[]]"
| "split_at c (x # xs) = (if x = c then [] # split_at c xs else (x # hd (split_at c xs)) # tl (split_at c xs))"

lemma split_at_nonempty [simp]: "split_at c s \<noteq> []"
  by (cases s) simp_all

lemma split_at_append: "split_at c (x @ c # y) = split_at c x @ split_at c y"
  by (induction x) (simp_all add: hd_append)

lemma split_at_none: "c \<notin> set x \<Longrightarrow> split_at c x = [x]"
  by (induction x) auto

lemma split_join_colon:
  "list_all (\<lambda>x. CHR '':'' \<notin> set x) xs \<Longrightarrow> split_at (CHR '':'') (join_colon xs) = (if xs = [] then [[]] else xs)"
  by (induction xs rule: join_colon.induct) (simp_all add: split_at_none split_at_append)

section \<open>Decimal and hexadecimal numbers\<close>

lemma digit_not_separator: "is_digit c \<Longrightarrow> c \<noteq> CHR ''.'' \<and> c \<noteq> CHR '':''"
  by (auto simp: is_digit_def)

lemma byte_text_chars: "CHR ''.'' \<notin> set (byte_text b)" "CHR '':'' \<notin> set (byte_text b)"
  using string_of_nat_digits [of "unat b"] digit_not_separator by (auto simp: byte_text_def list_all_iff)

lemma byte_text_inject: "byte_text a = byte_text b \<longleftrightarrow> a = b"
  by (metis byte_text_def string_of_nat_digits word_unat_eq_iff)

definition hex_value :: "char \<Rightarrow> nat" where
  "hex_value c = length (takeWhile (\<lambda>d. d \<noteq> c) ''0123456789abcdef'')"

lemma hex_digits: "list_all (\<lambda>n. hex_value (hex_digit n) = n \<and> hex_digit n \<noteq> CHR '':'') [0..<16]"
  by (simp add: hex_value_def hex_digit_def upt_rec)

lemma hex_value_digit: "n < 16 \<Longrightarrow> hex_value (hex_digit n) = n"
  using hex_digits by (simp add: list_all_iff)

lemma hex_digit_not_colon: "n < 16 \<Longrightarrow> CHR '':'' \<noteq> hex_digit n"
  using hex_digits by (auto simp: list_all_iff)

definition hex_number :: "string \<Rightarrow> nat" where
  "hex_number s = fold (\<lambda>c n. n * 16 + hex_value c) s 0"

lemma group_bound: "unat (g :: 16 word) < 65536"
  using unsigned_less [of g] by simp

lemma hex_digits_sum:
  "(n :: nat) = (((n div 4096) * 16 + n div 256 mod 16) * 16 + n div 16 mod 16) * 16 + n mod 16"
proof -
  have "n div 256 = n div 16 div 16" "n div 4096 = n div 16 div 16 div 16"
    by (simp_all add: div_mult2_eq [symmetric])
  then show ?thesis
    using div_mult_mod_eq [of n 16] div_mult_mod_eq [of "n div 16" 16] div_mult_mod_eq [of "n div 16 div 16" 16] by simp
qed

lemma group_text_value: "hex_number (group_text g) = unat g"
proof -
  have top: "unat g div 4096 < 16" using group_bound [of g] by (simp add: less_mult_imp_div_less)
  show ?thesis
    using hex_digits_sum [of "unat g"] top
    by (cases "unat g < 16"; cases "unat g < 256"; cases "unat g < 4096")
       (simp_all add: hex_number_def group_text_def Let_def hex_value_digit)
qed

lemma group_text_chars: "group_text g \<noteq> []" "CHR '':'' \<notin> set (group_text g)"
proof -
  have "unat g div 4096 < 16" using group_bound [of g] by (simp add: less_mult_imp_div_less)
  then show "group_text g \<noteq> []" "CHR '':'' \<notin> set (group_text g)"
    by (simp_all add: group_text_def Let_def hex_digit_not_colon)
qed

section \<open>The elided run of zeros\<close>

definition span_ok :: "16 word list \<Rightarrow> nat \<times> nat \<Rightarrow> bool" where
  "span_ok gs se \<longleftrightarrow> fst se = 8 \<or> fst se < 8 \<and> gs = take (fst se) gs @ replicate (snd se - fst se) 0 @ drop (snd se) gs
     \<and> fst se < snd se \<and> snd se \<le> length gs"

lemma zero_run_span:
  assumes "i < length gs" and "zero_run gs i > 0"
  shows "gs = take i gs @ replicate (zero_run gs i) 0 @ drop (i + zero_run gs i) gs" and "i + zero_run gs i \<le> length gs"
proof -
  let ?d = "drop i gs"
  have "takeWhile (\<lambda>g. g = 0) ?d = replicate (zero_run gs i) 0"
    unfolding zero_run_def by (rule replicate_length_same [symmetric]) (auto dest: set_takeWhileD)
  moreover have "?d = takeWhile (\<lambda>g. g = 0) ?d @ drop (zero_run gs i) ?d"
    by (metis append_take_drop_id takeWhile_eq_take zero_run_def)
  ultimately have d: "?d = replicate (zero_run gs i) 0 @ drop (i + zero_run gs i) gs"
    by (simp add: add.commute)
  show "gs = take i gs @ replicate (zero_run gs i) 0 @ drop (i + zero_run gs i) gs"
    using d by (metis append_take_drop_id)
  have "zero_run gs i \<le> length ?d" unfolding zero_run_def by (rule length_takeWhile_le)
  then show "i + zero_run gs i \<le> length gs" using assms(1) by simp
qed

lemma zero_span_ok:
  assumes "length gs = 8"
  shows "span_ok gs (zero_span gs)"
proof -
  let ?f = "\<lambda>i (s, e). if zero_run gs i \<ge> 2 \<and> zero_run gs i > e - s then (i, i + zero_run gs i) else (s, e)"
  have "span_ok gs (fold ?f is (8, 8))" if "set is \<subseteq> {..<8}" for "is"
    using that
  proof (induction "is" rule: rev_induct)
    case (snoc i "is")
    moreover obtain s e where "fold ?f is (8, 8) = (s, e)" by fastforce
    ultimately show ?case
      using zero_run_span [of i gs] assms by (auto simp: span_ok_def)
  qed (simp add: span_ok_def)
  then show ?thesis by (simp add: zero_span_def atLeast0LessThan)
qed

section \<open>The text identifies the address\<close>

text \<open>Reading the groups back from the fields between colons: those before and those after an empty one.\<close>

definition groups_read :: "string list \<Rightarrow> nat list" where
  "groups_read fs =
     (let l = takeWhile (\<lambda>f. f \<noteq> []) fs; r = rev (takeWhile (\<lambda>f. f \<noteq> []) (rev fs))
      in if length l = 8 then map hex_number l
         else map hex_number l @ replicate (8 - length l - length r) 0 @ map hex_number r)"

lemma group_texts_colon_free: "list_all (\<lambda>x. CHR '':'' \<notin> set x) (map group_text gs)"
  by (simp add: list_all_iff group_text_chars)

lemma takeWhile_group_texts:
  "takeWhile (\<lambda>f. f \<noteq> []) (map group_text gs) = map group_text gs"
  "takeWhile (\<lambda>f. f \<noteq> []) (map group_text gs @ [] # fs) = map group_text gs"
  by (simp_all add: takeWhile_eq_all_conv group_text_chars takeWhile_append)

lemma ipv6_text_read:
  assumes "length gs = 8"
  shows "groups_read (split_at (CHR '':'') (ipv6_text gs)) = map unat gs"
proof -
  obtain s e where se: "zero_span gs = (s, e)" by fastforce
  note split = split_join_colon [OF group_texts_colon_free]
  show ?thesis
  proof (cases "s = 8")
    case True
    then show ?thesis
      using assms by (auto simp: ipv6_text_def se split groups_read_def Let_def group_text_value comp_def takeWhile_group_texts(1))
  next
    case False
    let ?L = "take s gs" and ?R = "drop e gs"
    have ok: "s < 8" "gs = ?L @ replicate (e - s) 0 @ ?R" "s < e" "e \<le> 8"
      using zero_span_ok [OF assms] se False assms by (simp_all add: span_ok_def)
    have fs: "split_at (CHR '':'') (ipv6_text gs) =
        (if ?L = [] then [[]] else map group_text ?L) @ [] # (if ?R = [] then [[]] else map group_text ?R)"
      using False by (simp add: ipv6_text_def se split_at_append split)
    have l: "takeWhile (\<lambda>f. f \<noteq> []) (split_at (CHR '':'') (ipv6_text gs)) = map group_text ?L"
      unfolding fs by (cases "?L = []") (simp_all add: takeWhile_group_texts)
    have r: "takeWhile (\<lambda>f. f \<noteq> []) (rev (split_at (CHR '':'') (ipv6_text gs))) = rev (map group_text ?R)"
      unfolding fs using takeWhile_group_texts(2) [of "rev ?R"] by (cases "?R = []") (simp_all add: rev_map)
    have "groups_read (split_at (CHR '':'') (ipv6_text gs)) = map unat ?L @ replicate (e - s) 0 @ map unat ?R"
      using ok assms by (simp add: groups_read_def Let_def l r comp_def group_text_value del: append_take_drop_id)
    also have "\<dots> = map unat gs" by (subst (3) ok(2)) simp
    finally show ?thesis .
  qed
qed

lemma ipv6_text_inject:
  assumes "length gs = 8" and "length hs = 8"
  shows "ipv6_text gs = ipv6_text hs \<longleftrightarrow> gs = hs"
proof
  assume "ipv6_text gs = ipv6_text hs"
  then have "map unat gs = map unat hs" by (metis assms ipv6_text_read)
  then show "gs = hs" by (rule map_injective) (rule injI, erule word_unat_eq_iff [THEN iffD2])
qed simp

lemma unat_group_of: "unat (group_of a b) = 256 * unat a + unat b"
proof -
  have "unat a < 256" "unat b < 256" using unsigned_less [of a] unsigned_less [of b] by simp_all
  then show ?thesis unfolding group_of_def unat_of_nat by simp
qed

lemma group_of_inject: "group_of a b = group_of c d \<longleftrightarrow> a = c \<and> b = d"
proof -
  have bytes: "unat b < 256" "unat d < 256" using unsigned_less [of b] unsigned_less [of d] by simp_all
  have "256 * p + q = 256 * r + s \<Longrightarrow> p = r \<and> q = s" if "q < 256" "s < 256" for p q r s :: nat
  proof -
    assume eq: "256 * p + q = 256 * r + s"
    have "q = (256 * p + q) mod 256" using that(1) by simp
    also have "\<dots> = s" using that(2) unfolding eq by simp
    finally show "p = r \<and> q = s" using eq by simp
  qed
  from this [OF bytes, of "unat a" "unat c"] show ?thesis
    by (metis unat_group_of word_unat_eq_iff)
qed

lemma groups_of_inject: "length x = length y \<Longrightarrow> even (length x) \<Longrightarrow> groups_of x = groups_of y \<longleftrightarrow> x = y"
proof (induction x arbitrary: y rule: groups_of.induct)
  case (1 a b bs)
  then obtain c d ds where "y = c # d # ds" by (metis length_Suc_conv)
  then show ?case using 1 by (simp add: group_of_inject)
qed (simp_all, metis One_nat_def odd_one)

lemma groups_of_length: "length (groups_of bs) = length bs div 2"
  by (induction bs rule: groups_of.induct) simp_all

lemma ipv4_text_inject:
  assumes "length x = 4" and "length y = 4"
  shows "ipv4_text x = ipv4_text y \<longleftrightarrow> x = y"
proof -
  obtain a b c d where x: "x = [a, b, c, d]" using assms(1) by (auto simp: numeral_eq_Suc length_Suc_conv)
  obtain e f g h where y: "y = [e, f, g, h]" using assms(2) by (auto simp: numeral_eq_Suc length_Suc_conv)
  have "split_at (CHR ''.'') (ipv4_text [a, b, c, d]) = [byte_text a, byte_text b, byte_text c, byte_text d]" for a b c d
    by (simp add: split_at_append split_at_none byte_text_chars)
  then have "ipv4_text x = ipv4_text y \<Longrightarrow> x = y"
    unfolding x y by (metis byte_text_inject list.inject)
  then show ?thesis by blast
qed

lemma ipv4_text_no_colon: "CHR '':'' \<notin> set (ipv4_text x)"
  by (induction x rule: ipv4_text.induct) (simp_all add: byte_text_chars)

lemma join_colon_has: "length xs \<ge> 2 \<Longrightarrow> CHR '':'' \<in> set (join_colon xs)"
  by (induction xs rule: join_colon.induct) simp_all

lemma ipv6_text_colon: "length gs = 8 \<Longrightarrow> CHR '':'' \<in> set (ipv6_text gs)"
  by (cases "zero_span gs") (simp add: ipv6_text_def join_colon_has)

lemma IP_String_inject:
  assumes "length x = 16" and "length y = 16"
  shows "IP_String x = IP_String y \<longleftrightarrow> x = y"
proof (cases "mapped_ipv4 x = mapped_ipv4 y")
  case True
  have g: "length (groups_of x) = 8" "length (groups_of y) = 8" using assms by (simp_all add: groups_of_length)
  have "x = y" if "take 12 x = take 12 y" "drop 12 x = drop 12 y" using that by (metis append_take_drop_id)
  with True show ?thesis
    using assms ipv6_text_inject [OF g] groups_of_inject [of x y] ipv4_text_inject [of "drop 12 x" "drop 12 y"]
    by (auto simp: IP_String_def mapped_ipv4_def)
next
  case False
  have "length (groups_of x) = 8" "length (groups_of y) = 8" using assms by (simp_all add: groups_of_length)
  then show ?thesis
    using False ipv4_text_no_colon ipv6_text_colon by (auto simp: IP_String_def) metis+
qed

end
