(* ===== verification/Fake_Server.thy ===== *)
theory Fake_Server
  imports Config_Client Resources_Client Flow_Cache Connection IP_Text
begin

text \<open>
  \<open>src/fakeserver\<close>: the stand-in for the service that the operator is tested against: its state (\<open>state.go\<close>), the
  handlers of the four streams and the delivery of configuration (\<open>server.go\<close>), and its onboarding and token
  endpoints (\<open>oauth2_token_endpoint.go\<close>), together with what the operator's clients do against it. Times
  are readings of the clock; requests of a stream are a list with the error that ends it.
\<close>

section \<open>State\<close>

record stream_state =
  sm_Opened :: bool
  sm_LastActivity :: "int option"
  sm_MessagesReceived :: int
  sm_KeepalivesRecv :: int

definition new_stream :: stream_state where
  "new_stream = \<lparr>sm_Opened = False, sm_LastActivity = None, sm_MessagesReceived = 0, sm_KeepalivesRecv = 0\<rparr>"

record server_state =
  sv_ConnectionSuccessful :: bool
  sv_IncorrectCredentials :: bool
  sv_BadIntialCommit :: bool
  sv_ConfigStream :: stream_state
  sv_LogsStream :: stream_state
  sv_ResourcesStream :: stream_state
  sv_FlowsStream :: stream_state
  sv_AuthRequests :: int
  sv_OnboardRequests :: int
  sv_LastAuthTime :: "int option"
  sv_LastOnboardTime :: "int option"
  sv_ResourceSnapshotComplete :: bool
  sv_ResourcesReceived :: int
  sv_MutationsReceived :: int
  sv_CiliumFlowsReceived :: int
  sv_FiveTupleFlowsReceived :: int

definition NewServerState :: server_state where
  "NewServerState =
     \<lparr>sv_ConnectionSuccessful = False, sv_IncorrectCredentials = False, sv_BadIntialCommit = False, sv_ConfigStream = new_stream, sv_LogsStream = new_stream,
      sv_ResourcesStream = new_stream, sv_FlowsStream = new_stream, sv_AuthRequests = 0, sv_OnboardRequests = 0,
      sv_LastAuthTime = None, sv_LastOnboardTime = None, sv_ResourceSnapshotComplete = False, sv_ResourcesReceived = 0,
      sv_MutationsReceived = 0, sv_CiliumFlowsReceived = 0, sv_FiveTupleFlowsReceived = 0\<rparr>"

definition mark_opened :: "int \<Rightarrow> stream_state \<Rightarrow> stream_state" where
  "mark_opened now t = t\<lparr>sm_Opened := True, sm_LastActivity := Some now\<rparr>"

definition MarkConfigStreamOpened :: "int \<Rightarrow> server_state \<Rightarrow> server_state" where
  "MarkConfigStreamOpened now s = s\<lparr>sv_ConfigStream := mark_opened now (sv_ConfigStream s)\<rparr>"

definition MarkLogsStreamOpened :: "int \<Rightarrow> server_state \<Rightarrow> server_state" where
  "MarkLogsStreamOpened now s = s\<lparr>sv_LogsStream := mark_opened now (sv_LogsStream s)\<rparr>"

definition MarkResourcesStreamOpened :: "int \<Rightarrow> server_state \<Rightarrow> server_state" where
  "MarkResourcesStreamOpened now s = s\<lparr>sv_ResourcesStream := mark_opened now (sv_ResourcesStream s)\<rparr>"

definition MarkFlowsStreamOpened :: "int \<Rightarrow> server_state \<Rightarrow> server_state" where
  "MarkFlowsStreamOpened now s = s\<lparr>sv_FlowsStream := mark_opened now (sv_FlowsStream s)\<rparr>"

definition count_keepalive :: "int \<Rightarrow> stream_state \<Rightarrow> stream_state" where
  "count_keepalive now t = t\<lparr>sm_KeepalivesRecv := sm_KeepalivesRecv t + 1, sm_LastActivity := Some now\<rparr>"

definition RecordKeepalive :: "int \<Rightarrow> string \<Rightarrow> server_state \<Rightarrow> server_state" where
  "RecordKeepalive now stream s =
     (if stream = ''config'' then s\<lparr>sv_ConfigStream := count_keepalive now (sv_ConfigStream s)\<rparr>
      else if stream = ''logs'' then s\<lparr>sv_LogsStream := count_keepalive now (sv_LogsStream s)\<rparr>
      else if stream = ''resources'' then s\<lparr>sv_ResourcesStream := count_keepalive now (sv_ResourcesStream s)\<rparr>
      else if stream = ''flows'' then s\<lparr>sv_FlowsStream := count_keepalive now (sv_FlowsStream s)\<rparr>
      else s)"

definition RecordResourceSnapshot :: "server_state \<Rightarrow> server_state" where
  "RecordResourceSnapshot s = s\<lparr>sv_ResourceSnapshotComplete := True, sv_ConnectionSuccessful := True\<rparr>"

definition IncrementResourcesReceived :: "server_state \<Rightarrow> server_state" where
  "IncrementResourcesReceived s = s\<lparr>sv_ResourcesReceived := sv_ResourcesReceived s + 1\<rparr>"

definition CheckAndClearBadInitialCommit :: "server_state \<Rightarrow> bool \<times> server_state" where
  "CheckAndClearBadInitialCommit s =
     (if sv_BadIntialCommit s then (True, s\<lparr>sv_BadIntialCommit := False\<rparr>) else (False, s))"

definition SetBadInitialCommit :: "bool \<Rightarrow> server_state \<Rightarrow> server_state" where
  "SetBadInitialCommit bad s = s\<lparr>sv_BadIntialCommit := bad\<rparr>"

definition Reset :: "server_state \<Rightarrow> server_state" where
  "Reset s = s\<lparr>sv_ConnectionSuccessful := False, sv_BadIntialCommit := False, sv_ResourcesReceived := 0,
               sv_ResourceSnapshotComplete := False\<rparr>"

definition RecordAuthRequest :: "int \<Rightarrow> server_state \<Rightarrow> server_state" where
  "RecordAuthRequest now s = s\<lparr>sv_AuthRequests := sv_AuthRequests s + 1, sv_LastAuthTime := Some now\<rparr>"

definition RecordOnboardRequest :: "int \<Rightarrow> server_state \<Rightarrow> server_state" where
  "RecordOnboardRequest now s = s\<lparr>sv_OnboardRequests := sv_OnboardRequests s + 1, sv_LastOnboardTime := Some now\<rparr>"

definition RecordCiliumFlow :: "server_state \<Rightarrow> server_state" where
  "RecordCiliumFlow s = s\<lparr>sv_CiliumFlowsReceived := sv_CiliumFlowsReceived s + 1\<rparr>"

definition RecordFiveTupleFlow :: "server_state \<Rightarrow> server_state" where
  "RecordFiveTupleFlow s = s\<lparr>sv_FiveTupleFlowsReceived := sv_FiveTupleFlowsReceived s + 1\<rparr>"

definition AllStreamsOpened :: "server_state \<Rightarrow> bool" where
  "AllStreamsOpened s \<longleftrightarrow> sm_Opened (sv_ConfigStream s) \<and> sm_Opened (sv_LogsStream s) \<and> sm_Opened (sv_ResourcesStream s)"

section \<open>Streams\<close>

text \<open>
  The resource stream: each request comes with the result of sending the response to it. The result is the
  handler's error, \<open>None\<close> within it meaning a regular end, or nothing while the stream is open.
\<close>

fun resources_handler ::
  "(res_request result \<times> go_error option) list \<Rightarrow> server_state \<Rightarrow> go_error option option \<times> server_state" where
  "resources_handler [] s = (None, s)"
| "resources_handler ((Inl err, _) # es) s = (Some (if errors_is err IoEOF then None else Some err), s)"
| "resources_handler ((Inr req, sent) # es) s =
     (let r = (case req of
                 RqKeepalive \<Rightarrow> Inr s
               | RqSnapshotComplete \<Rightarrow>
                   (case CheckAndClearBadInitialCommit s of
                      (True, s') \<Rightarrow> Inl s'
                    | (False, s') \<Rightarrow> Inr (RecordResourceSnapshot s'))
               | _ \<Rightarrow> Inr (IncrementResourcesReceived s))
      in case r of
           Inl s' \<Rightarrow> (Some (Some IoEOF), s')
         | Inr s' \<Rightarrow> (case sent of Some err \<Rightarrow> (Some (Some err), s') | None \<Rightarrow> resources_handler es s'))"

fun flows_handler :: "flow_request result list \<Rightarrow> server_state \<Rightarrow> go_error option option \<times> server_state" where
  "flows_handler [] s = (None, s)"
| "flows_handler (Inl err # es) s = (Some (if errors_is err IoEOF then None else Some err), s)"
| "flows_handler (Inr req # es) s =
     (case req of
        ReqKeepalive \<Rightarrow> flows_handler es s
      | ReqCilium _ \<Rightarrow> flows_handler es (RecordCiliumFlow s)
      | ReqFiveTuple _ \<Rightarrow> flows_handler es (RecordFiveTupleFlow s))"

text \<open>An entry of the operator's log; \<open>parse\<close> and \<open>level\<close> are the JSON and zap parsers. The result is the level it is logged at.\<close>

definition LogEntry_Level :: "(string \<Rightarrow> 'l result) \<Rightarrow> json_obj \<Rightarrow> 'l result" where
  "LogEntry_Level level entry =
     (case gm_get entry ''level'' of
        Some (JStr levelStr) \<Rightarrow>
          (case level levelStr of
             Inl e \<Rightarrow> Inl (WrapErr (''invalid level field '' @ levelStr @ '' found in log entry'') e)
           | Inr l \<Rightarrow> Inr l)
      | _ \<Rightarrow> Inl (ErrMsg ''no level field found in log entry''))"

definition logReceivedLogEntry :: "(string \<Rightarrow> json_obj result) \<Rightarrow> (string \<Rightarrow> 'l result) \<Rightarrow> string \<Rightarrow> 'l result" where
  "logReceivedLogEntry parse level jsonMessage =
     (case parse jsonMessage of
        Inl _ \<Rightarrow> Inl (ErrMsg ''Invalid JSON message'')
      | Inr logEntry \<Rightarrow>
          if logEntry = [] then Inl (ErrMsg ''Empty log entry'')
          else case LogEntry_Level level logEntry of
                 Inl _ \<Rightarrow> Inl (ErrMsg ''Invalid log level'')
               | Inr l \<Rightarrow> Inr l)"

section \<open>Delivery of configuration\<close>

text \<open>
  The data channel is never closed. Each stream stops on the done channel it saw when it began; \<open>cf_done\<close> is the
  current one and \<open>cf_closed\<close> those that were closed.
\<close>

record config_side =
  cf_chan :: "config_response chan"
  cf_done :: nat
  cf_closed :: "nat list"

definition snapshot_done :: "config_side \<Rightarrow> nat" where
  "snapshot_done c = cf_done c"

text \<open>Closing a closed channel panics.\<close>

definition DisconnectConfigStream :: "nat \<Rightarrow> config_side \<Rightarrow> config_side outcome" where
  "DisconnectConfigStream fresh c =
     (if cf_done c \<in> set (cf_closed c) then Panics ''close of closed channel''
      else Returns (c\<lparr>cf_closed := cf_done c # cf_closed c, cf_done := fresh\<rparr>))"

text \<open>\<open>SendConfig\<close> and the handler after their snapshot of the done channel \<open>d\<close>: the branches that are ready.\<close>

definition SendConfig :: "nat \<Rightarrow> config_response \<Rightarrow> config_side \<Rightarrow> (bool \<times> config_side) list" where
  "SendConfig d resp c =
     (if length (chan_buf (cf_chan c)) < chan_cap (cf_chan c)
      then [(True, c\<lparr>cf_chan := (cf_chan c)\<lparr>chan_buf := chan_buf (cf_chan c) @ [resp]\<rparr>\<rparr>)] else [])
     @ (if d \<in> set (cf_closed c) then [(False, c)] else [])"

datatype handler_step = HandlerReturns | HandlerSends config_response

definition GetConfigurationUpdates_select :: "nat \<Rightarrow> config_side \<Rightarrow> (handler_step \<times> config_side) list" where
  "GetConfigurationUpdates_select d c =
     (if d \<in> set (cf_closed c) then [(HandlerReturns, c)] else [])
     @ (case chan_buf (cf_chan c) of
          [] \<Rightarrow> []
        | resp # rest \<Rightarrow> [(HandlerSends resp, c\<lparr>cf_chan := (cf_chan c)\<lparr>chan_buf := rest\<rparr>\<rparr>)])"

section \<open>Access\<close>

definition AuthorizationHeader :: string where "AuthorizationHeader = ''authorization''"
definition DefaultClientID :: string where "DefaultClientID = ''client_id_1''"
definition DefaultClientSecret :: string where "DefaultClientSecret = ''client_secret_1''"

definition tokenAuthStreamInterceptor :: "string \<Rightarrow> (string, string list) gomap option \<Rightarrow> unit result" where
  "tokenAuthStreamInterceptor expectedToken metadata =
     (case metadata of
        None \<Rightarrow> Inl (ErrMsg ''Metadata not provided'')
      | Some md \<Rightarrow>
          (case gm_get md AuthorizationHeader of
             Some (token # _) \<Rightarrow>
               if token = ''Bearer '' @ expectedToken then Inr () else Inl (ErrMsg ''Invalid token in request'')
           | _ \<Rightarrow> Inl (ErrMsg ''Invalid token in request'')))"

record auth_service =
  as_clientID :: string
  as_clientSecret :: string
  as_token :: string

text \<open>The response: the status, and the token or the error text.\<close>

definition authenticateHandler ::
  "auth_service \<Rightarrow> string \<Rightarrow> (string, string) gomap result \<Rightarrow> nat \<times> (string + string)" where
  "authenticateHandler a method form =
     (if method \<noteq> ''POST'' then (405, Inl ''Invalid request method'')
      else case form of
             Inl _ \<Rightarrow> (400, Inl ''Invalid request'')
           | Inr values \<Rightarrow>
               if secret_field values ''grant_type'' \<noteq> ''client_credentials'' then (400, Inl ''invalid_grant'')
               else if secret_field values ''client_id'' = as_clientID a \<and> secret_field values ''client_secret'' = as_clientSecret a
               then (200, Inr (as_token a))
               else (401, Inl ''unauthorized_client''))"

definition onboardCluster ::
  "(string \<Rightarrow> (string \<times> string) result) \<Rightarrow> (string \<times> string \<Rightarrow> string) \<Rightarrow> string \<Rightarrow> string result \<Rightarrow> nat \<times> string" where
  "onboardCluster unmarshal encode method body =
     (if method \<noteq> ''POST'' then (405, ''Invalid request method'')
      else case body of
             Inl _ \<Rightarrow> (500, ''Error reading request body'')
           | Inr b \<Rightarrow>
               (case unmarshal b of
                  Inl _ \<Rightarrow> (400, ''Error unmarshalling JSON'')
                | Inr requestData \<Rightarrow> (200, encode requestData)))"

section \<open>The proxy\<close>

text \<open>The address dialled for a CONNECT request: addresses of the host are those of the local machine.\<close>

definition proxy_target :: "string \<Rightarrow> string option" where
  "proxy_target host =
     (case split_at (CHR '':'') host of
        [_, targetPort] \<Rightarrow>
          Some (if prefix ''host.docker.internal:'' host \<or>
                   prefix ''192.168.65.'' host \<and> (suffix '':50051'' host \<or> suffix '':50053'' host)
                then ''127.0.0.1:'' @ targetPort else host)
      | _ \<Rightarrow> None)"

text \<open>The status the proxy answers with before it tunnels, given the result of the dial; \<open>None\<close> when it tunnels.\<close>

definition ServeHTTP :: "(string \<Rightarrow> go_error option) \<Rightarrow> string \<Rightarrow> string \<Rightarrow> nat option" where
  "ServeHTTP dial method host =
     (if method \<noteq> ''CONNECT'' then Some 405
      else case proxy_target host of
             None \<Rightarrow> Some 400
           | Some target \<Rightarrow> (case dial target of Some _ \<Rightarrow> Some 503 | None \<Rightarrow> None))"

section \<open>What the server counts\<close>

fun counted :: "res_request \<Rightarrow> bool" where
  "counted (RqClusterMetadata _) = True"
| "counted (RqResourceData _) = True"
| "counted (RqMutation _) = True"
| "counted _ = False"

text \<open>The requests of one stream, all answered, and its regular end.\<close>

definition answered :: "'r list \<Rightarrow> ('r result \<times> go_error option) list" where
  "answered reqs = map (\<lambda>r. (Inr r, None)) reqs @ [(Inl IoEOF, None)]"

lemma resources_handler_counts:
  "\<not> sv_BadIntialCommit s \<Longrightarrow>
   resources_handler (answered reqs) s =
     (Some None, s\<lparr>sv_ResourcesReceived := sv_ResourcesReceived s + int (length (filter counted reqs)),
                   sv_ResourceSnapshotComplete := sv_ResourceSnapshotComplete s \<or> RqSnapshotComplete \<in> set reqs,
                   sv_ConnectionSuccessful := sv_ConnectionSuccessful s \<or> RqSnapshotComplete \<in> set reqs\<rparr>)"
proof (induction reqs arbitrary: s)
  case (Cons r reqs)
  then show ?case
    by (cases r) (simp_all add: answered_def CheckAndClearBadInitialCommit_def IncrementResourcesReceived_def RecordResourceSnapshot_def)
qed (simp add: answered_def)

text \<open>
  The server's verdict on a resource stream is right. A stream whose requests were all answered
  leaves the count raised by its metadata, data and mutations, and is a success exactly when the end of
  the snapshot was among them; keepalives count for nothing. When a bad commit was asked for, the stream ends at the
  end of the snapshot, which is not recorded, and the request for a bad commit is used up.
\<close>

theorem server_snapshot_check:
  assumes "sv_BadIntialCommit s \<longrightarrow> RqSnapshotComplete \<notin> set reqs"
  shows "(\<not> sv_BadIntialCommit s \<longrightarrow>
      (case resources_handler (answered reqs) s of (r, s') \<Rightarrow> r = Some None
         \<and> sv_ResourcesReceived s' = sv_ResourcesReceived s + int (length (filter counted reqs))
         \<and> (sv_ConnectionSuccessful s' \<longleftrightarrow> sv_ConnectionSuccessful s \<or> RqSnapshotComplete \<in> set reqs)))
    \<and> (sv_BadIntialCommit s \<longrightarrow>
      (case resources_handler (map (\<lambda>r. (Inr r, None)) reqs @ (Inr RqSnapshotComplete, sent) # later) s of (r, s') \<Rightarrow>
         r = Some (Some IoEOF) \<and> \<not> sv_BadIntialCommit s' \<and> sv_ConnectionSuccessful s' = sv_ConnectionSuccessful s))"
proof -
  have "case resources_handler (map (\<lambda>r. (Inr r, None)) reqs @ (Inr RqSnapshotComplete, sent) # later) s of (r, s') \<Rightarrow>
         r = Some (Some IoEOF) \<and> \<not> sv_BadIntialCommit s' \<and> sv_ConnectionSuccessful s' = sv_ConnectionSuccessful s"
    if "sv_BadIntialCommit s" "RqSnapshotComplete \<notin> set reqs" for s
    using that
  proof (induction reqs arbitrary: s)
    case (Cons r reqs)
    from Cons.IH [of "IncrementResourcesReceived s"] Cons.IH [of s] Cons.prems show ?case
      by (cases r) (simp_all add: IncrementResourcesReceived_def)
  qed (simp add: CheckAndClearBadInitialCommit_def)
  with assms show ?thesis by (simp add: resources_handler_counts)
qed

theorem server_snapshot_check_witness:
  "case resources_handler (answered [RqKeepalive, RqMutation None, RqSnapshotComplete]) NewServerState of (r, s') \<Rightarrow>
     r = Some None \<and> sv_ResourcesReceived s' = 1 \<and> sv_ConnectionSuccessful s'"
  using server_snapshot_check [of NewServerState "[RqKeepalive, RqMutation None, RqSnapshotComplete]"] by (simp add: NewServerState_def)

lemma flows_handler_counts:
  "flows_handler (map (Inr \<circ> flow_request_of) fs) s =
     (None, s\<lparr>sv_CiliumFlowsReceived := sv_CiliumFlowsReceived s + int (length (filter (\<lambda>f. case f of CiliumFlow _ \<Rightarrow> True | _ \<Rightarrow> False) fs)),
              sv_FiveTupleFlowsReceived := sv_FiveTupleFlowsReceived s + int (length (filter (\<lambda>f. case f of FiveTupleFlow _ \<Rightarrow> True | _ \<Rightarrow> False) fs))\<rparr>)"
proof (induction fs arbitrary: s)
  case (Cons f fs)
  then show ?case by (cases f) (simp_all add: RecordCiliumFlow_def RecordFiveTupleFlow_def)
qed simp

text \<open>No handler marks its stream as opened, so the server never reports all streams as opened.\<close>

lemma handlers_open_nothing:
  "AllStreamsOpened (snd (resources_handler es s)) = AllStreamsOpened s"
  "AllStreamsOpened (snd (flows_handler fs s)) = AllStreamsOpened s"
proof -
  show "AllStreamsOpened (snd (resources_handler es s)) = AllStreamsOpened s"
    by (induction es s rule: resources_handler.induct)
      (auto simp: AllStreamsOpened_def CheckAndClearBadInitialCommit_def IncrementResourcesReceived_def RecordResourceSnapshot_def
        split: res_request.splits option.splits)
  show "AllStreamsOpened (snd (flows_handler fs s)) = AllStreamsOpened s"
    by (induction fs s rule: flows_handler.induct)
      (auto simp: AllStreamsOpened_def RecordCiliumFlow_def RecordFiveTupleFlow_def split: flow_request.splits)
qed

text \<open>A target with a port is dialled on that port.\<close>

lemma proxy_keeps_port:
  assumes "CHR '':'' \<notin> set host" and "CHR '':'' \<notin> set port"
  shows "\<exists>h. proxy_target (host @ '':'' @ port) = Some (h @ '':'' @ port)"
  using assms split_at_append [of "CHR '':''" host port] split_at_none [of "CHR '':''"]
  by (auto simp: proxy_target_def intro: exI [of _ host] exI [of _ "''127.0.0.1''"])

section \<open>Configuration reaches the stream it was sent on\<close>

text \<open>Everything that can happen to the configuration side: a disconnect, a send, a step of a handler.\<close>

inductive config_step :: "config_side \<Rightarrow> config_side \<Rightarrow> bool" where
  disconnect: "DisconnectConfigStream fresh c = Returns c' \<Longrightarrow> fresh \<noteq> cf_done c \<Longrightarrow> fresh \<notin> set (cf_closed c) \<Longrightarrow> config_step c c'"
| send: "(b, c') \<in> set (SendConfig d resp c) \<Longrightarrow> config_step c c'"
| handle: "(h, c') \<in> set (GetConfigurationUpdates_select d c) \<Longrightarrow> config_step c c'"

definition config_inv :: "config_side \<Rightarrow> bool" where
  "config_inv c \<longleftrightarrow> cf_done c \<notin> set (cf_closed c)"

lemma config_step_inv: "config_step c c' \<Longrightarrow> config_inv c \<Longrightarrow> config_inv c' \<and> set (cf_closed c) \<subseteq> set (cf_closed c')"
  by (induction rule: config_step.induct)
    (auto simp: config_inv_def DisconnectConfigStream_def SendConfig_def GetConfigurationUpdates_select_def split: if_splits list.splits)

lemma config_steps_inv: "config_step\<^sup>*\<^sup>* c c' \<Longrightarrow> config_inv c \<Longrightarrow> config_inv c' \<and> set (cf_closed c) \<subseteq> set (cf_closed c')"
  by (induction rule: rtranclp_induct) (auto dest: config_step_inv)

text \<open>
  In every interleaving of disconnects, sends and handlers on the fake server, a disconnect never panics;
  it makes every stream and every send that began before it able to stop, for good, and leaves one that begins
  after it running.
\<close>

theorem config_disconnect_safe:
  assumes "config_inv c" and "config_step\<^sup>*\<^sup>* c c1" and "fresh \<noteq> cf_done c1" and "fresh \<notin> set (cf_closed c1)"
  shows "\<exists>c2. DisconnectConfigStream fresh c1 = Returns c2 \<and> config_inv c2
    \<and> (\<forall>c3. config_step\<^sup>*\<^sup>* c2 c3 \<longrightarrow> (HandlerReturns, c3) \<in> set (GetConfigurationUpdates_select (snapshot_done c1) c3)
          \<and> (False, c3) \<in> set (SendConfig (snapshot_done c1) resp c3))
    \<and> (HandlerReturns, c2) \<notin> set (GetConfigurationUpdates_select (snapshot_done c2) c2)"
proof -
  have "config_inv c1" using config_steps_inv [OF assms(2,1)] by simp
  then obtain c2 where c2: "DisconnectConfigStream fresh c1 = Returns c2"
    by (simp add: DisconnectConfigStream_def config_inv_def)
  then have "config_inv c2" "cf_done c1 \<in> set (cf_closed c2)"
    using assms(3,4) by (auto simp: DisconnectConfigStream_def config_inv_def split: if_splits)
  with c2 show ?thesis
    using config_steps_inv [of c2]
    by (auto simp: GetConfigurationUpdates_select_def SendConfig_def snapshot_done_def config_inv_def split: list.splits)
qed

definition new_config :: config_side where
  "new_config = \<lparr>cf_chan = \<lparr>chan_buf = [], chan_cap = 0, chan_closed = False\<rparr>, cf_done = 0, cf_closed = []\<rparr>"

theorem config_disconnect_safe_witness:
  "\<exists>c2. DisconnectConfigStream 1 new_config = Returns c2 \<and> (False, c2) \<in> set (SendConfig 0 UnknownResponse c2)"
  using config_disconnect_safe [of new_config new_config 1 UnknownResponse]
  by (auto simp: config_inv_def new_config_def snapshot_done_def)

section \<open>The operator against the server\<close>

text \<open>
  The operator's libraries when it talks to the server: the onboarding endpoint answers its request, and the token
  endpoint its client credentials. \<open>claims\<close> is the parser of tokens.
\<close>

definition server_oauth :: "auth_service \<Rightarrow> (string \<Rightarrow> json_obj result) \<Rightarrow> oauth_lib" where
  "server_oauth a claims =
     \<lparr>ol_Token = (\<lambda>i s. case authenticateHandler a ''POST''
          (Inr [(''grant_type'', ''client_credentials''), (''client_id'', i), (''client_secret'', s)]) of
          (_, Inr token) \<Rightarrow> Inr token
        | (_, Inl e) \<Rightarrow> Inl (ErrMsg e)),
      ol_ParseToken = claims, ol_NewClient = (\<lambda>_. None)\<rparr>"

definition server_answers ::
  "(string \<Rightarrow> (string \<times> string) result) \<Rightarrow> (string \<times> string \<Rightarrow> string) \<Rightarrow> (string \<times> string \<Rightarrow> string) \<Rightarrow> auth_config \<Rightarrow> auth_answers" where
  "server_answers unmarshal encode request config =
     \<lparr>aa_read = None, aa_request = None,
      aa_post = (case onboardCluster unmarshal encode ''POST''
          (Inr (request (ag_OnboardingClientID config, ag_OnboardingClientSecret config))) of (status, body) \<Rightarrow> Inr (status, Inr body)),
      aa_reread = None, aa_update = None\<rparr>"

text \<open>
  C24: an operator in a fresh cluster joins the server with its default credentials: it is onboarded,
  stores what it was given, gets the server's token for it, connects to the audience the token
  names, and its streams pass the server's interceptor with that token. With any other onboarding credentials it
  is refused a token. The JSON encoders are assumed to be read back by their decoders.
\<close>

theorem operator_joins_server:
  assumes "\<And>x. unmarshal (request x) = Inr x" and "\<And>x. decode (encode x) = Inr x"
    and "gm_get (aw_secrets w) (ag_PodNamespace config, ag_ClusterCreds config) = Some []"
    and "ag_OnboardingClientID config \<noteq> []" and "ag_OnboardingClientSecret config \<noteq> []"
    and "as_clientID a = DefaultClientID" and "as_clientSecret a = DefaultClientSecret"
    and "claims (as_token a) = Inr cl" and "GetFirstAudience cl = Inr aud"
  shows "(\<exists>w'. NewAuthenticatedConnection (server_oauth a claims) decode None (server_answers unmarshal encode request config) config w =
      (if (ag_OnboardingClientID config, ag_OnboardingClientSecret config) = (DefaultClientID, DefaultClientSecret)
       then Inr aud else Inl (ErrMsg ''unauthorized_client''), w')
      \<and> gm_get (aw_secrets w') (ag_PodNamespace config, ag_ClusterCreds config) =
          Some [(''client_id'', ag_OnboardingClientID config), (''client_secret'', ag_OnboardingClientSecret config)])
    \<and> tokenAuthStreamInterceptor (as_token a) (Some [(AuthorizationHeader, [''Bearer '' @ as_token a])]) = Inr ()"
proof -
  let ?i = "ag_OnboardingClientID config" and ?s = "ag_OnboardingClientSecret config"
  have creds: "GetClusterCredentials decode (server_answers unmarshal encode request config) config w =
      (Inr (?i, ?s), w\<lparr>aw_posts := aw_posts w @ [(ag_OnboardingEndpoint config, ?i, ?s)],
         aw_secrets := gm_put (ag_PodNamespace config, ag_ClusterCreds config) [(''client_id'', ?i), (''client_secret'', ?s)] (aw_secrets w)\<rparr>)"
    using assms(1-5)
    by (simp add: credential_defs server_answers_def onboardCluster_def OnboardCluster_def writeClusterCredentialsIntoK8sSecret_def secret_field_def)
  show ?thesis
    using assms(6-9)
    by (auto simp: NewAuthenticatedConnection_def creds SetUpOAuthConnection_def server_oauth_def authenticateHandler_def secret_field_def
        tokenAuthStreamInterceptor_def)
qed

definition test_config :: auth_config where
  "test_config = fresh_config\<lparr>ag_OnboardingClientID := DefaultClientID, ag_OnboardingClientSecret := DefaultClientSecret\<rparr>"

definition test_service :: auth_service where
  "test_service = \<lparr>as_clientID = DefaultClientID, as_clientSecret = DefaultClientSecret, as_token = ''token''\<rparr>"

text \<open>A pair of strings in one: each character of the first string is preceded by one that is not the separator's.\<close>

definition pair_text :: "string \<times> string \<Rightarrow> string" where
  "pair_text x = concat (map (\<lambda>c. [CHR ''c'', c]) (fst x)) @ CHR '','' # snd x"

fun read_pair :: "string \<Rightarrow> (string \<times> string) result" where
  "read_pair (d # c # s) =
     (if d = CHR ''c'' then (case read_pair s of Inl e \<Rightarrow> Inl e | Inr (x, y) \<Rightarrow> Inr (c # x, y)) else Inr ([], c # s))"
| "read_pair [d] = Inr ([], [])"
| "read_pair [] = Inl (ErrMsg ''unexpected end'')"

lemma read_pair_text: "read_pair (pair_text x) = Inr x"
proof -
  have tail: "read_pair (CHR '','' # y) = Inr ([], y)" for y by (cases y) simp_all
  have "read_pair (pair_text (a, b)) = Inr (a, b)" for a b
    by (induction a) (simp_all add: pair_text_def tail)
  then show ?thesis by (cases x) simp
qed

theorem operator_joins_server_witness:
  "\<exists>w'. NewAuthenticatedConnection (server_oauth test_service (\<lambda>_. Inr [(''aud'', JArr [JStr ''host:50051''])])) read_pair None
     (server_answers read_pair pair_text pair_text test_config) test_config fresh_cluster = (Inr ''host:50051'', w')"
  using operator_joins_server [of read_pair pair_text read_pair pair_text fresh_cluster test_config test_service
      "\<lambda>_. Inr [(''aud'', JArr [JStr ''host:50051''])]" "[(''aud'', JArr [JStr ''host:50051''])]" "''host:50051''"]
  by (auto simp: read_pair_text fresh_cluster_def test_config_def fresh_config_def test_service_def DefaultClientID_def
      DefaultClientSecret_def GetFirstAudience_def)

end
