(* ===== verification/Fake_Lifecycle.thy ===== *)
theory Fake_Lifecycle
  imports Fake_Server
begin

text \<open>
  The rest of \<open>src/fakeserver\<close>: starting and stopping the server (\<open>FakeServer.Start\<close>, \<open>Stop\<close>), its logs stream, the byte copy of
  the CONNECT proxy, and the harness of \<open>test_helpers.go\<close>. The results of library calls (listening, generating a
  certificate, reading and writing a connection) are arguments.
\<close>

section \<open>Start and stop\<close>

text \<open>
  \<open>fk_server\<close>, \<open>fk_listener\<close> and \<open>fk_http\<close> say whether the field is set; the \<open>up\<close> fields whether the thing behind it runs.
  The stop channel is closed under a \<open>sync.Once\<close>. \<open>fk_config\<close> is the delivery of configuration, whose done channel
  every start replaces; the HTTP listener field is never assigned.
\<close>

record fake_server =
  fk_server :: bool
  fk_listener :: bool
  fk_http :: bool
  fk_grpc_up :: bool
  fk_listening :: bool
  fk_http_up :: bool
  fk_once :: bool
  fk_stop_closed :: bool
  fk_config :: config_side

definition new_server :: "nat \<Rightarrow> fake_server" where
  "new_server cap =
     \<lparr>fk_server = False, fk_listener = False, fk_http = False, fk_grpc_up = False, fk_listening = False, fk_http_up = False,
      fk_once = False, fk_stop_closed = False,
      fk_config = \<lparr>cf_chan = \<lparr>chan_buf = [], chan_cap = cap, chan_closed = False\<rparr>, cf_done = 0, cf_closed = []\<rparr>\<rparr>"

definition Fake_Start :: "nat \<Rightarrow> unit result \<Rightarrow> unit result \<Rightarrow> fake_server \<Rightarrow> unit result \<times> fake_server" where
  "Fake_Start fresh listen cert fs =
     (let fs1 = fs\<lparr>fk_config := (fk_config fs)\<lparr>cf_done := fresh\<rparr>\<rparr>
      in case listen of
           Inl err \<Rightarrow> (Inl err, fs1\<lparr>fk_listener := False\<rparr>)
         | Inr _ \<Rightarrow>
             (let fs2 = fs1\<lparr>fk_listener := True, fk_listening := True\<rparr>
              in case cert of
                   Inl err \<Rightarrow> (Inl err, fs2)
                 | Inr _ \<Rightarrow> (Inr (), fs2\<lparr>fk_server := True, fk_grpc_up := True, fk_http := True, fk_http_up := True\<rparr>)))"

text \<open>\<open>Stop\<close>: closing the stop channel a second time would panic.\<close>

definition close_stop :: "fake_server \<Rightarrow> fake_server outcome" where
  "close_stop fs =
     (if fk_once fs then Returns fs
      else if fk_stop_closed fs then Panics ''close of closed channel''
      else Returns (fs\<lparr>fk_once := True, fk_stop_closed := True\<rparr>))"

definition Fake_Stop :: "fake_server \<Rightarrow> fake_server outcome" where
  "Fake_Stop fs =
     (let fs1 = (if fk_server fs then fs\<lparr>fk_grpc_up := False, fk_listening := False\<rparr> else fs);
          fs2 = (if fk_listener fs1 then fs1\<lparr>fk_listening := False\<rparr> else fs1);
          fs3 = (if fk_http fs2 then fs2\<lparr>fk_http_up := False\<rparr> else fs2)
      in close_stop fs3)"

datatype fake_event = FakeStart nat "unit result" "unit result" | FakeStop

fun fake_apply :: "fake_event \<Rightarrow> fake_server outcome \<Rightarrow> fake_server outcome" where
  "fake_apply _ (Panics m) = Panics m"
| "fake_apply (FakeStart fresh listen cert) (Returns fs) = Returns (snd (Fake_Start fresh listen cert fs))"
| "fake_apply FakeStop (Returns fs) = Fake_Stop fs"

text \<open>No order of calls closes the stop channel twice: the once guards it.\<close>

definition once_ok :: "fake_server outcome \<Rightarrow> bool" where
  "once_ok r \<longleftrightarrow> (\<exists>fs. r = Returns fs \<and> (fk_once fs \<longleftrightarrow> fk_stop_closed fs))"

lemma Fake_Start_once [simp]:
  "fk_once (snd (Fake_Start fresh listen cert fs)) = fk_once fs"
  "fk_stop_closed (snd (Fake_Start fresh listen cert fs)) = fk_stop_closed fs"
  by (simp_all add: Fake_Start_def Let_def split: sum.splits)

interpretation fake_runs: invariant_fold fake_apply once_ok
proof
  show "once_ok (fake_apply e s)" if "once_ok s" for e s
    using that by (cases "(e, s)" rule: fake_apply.cases) (auto simp: once_ok_def Fake_Stop_def close_stop_def Let_def)
qed

lemma fake_never_panics: "\<exists>fs. fold fake_apply es (Returns (new_server cap)) = Returns fs"
proof -
  have "once_ok (Returns (new_server cap))" by (simp add: once_ok_def new_server_def)
  from fake_runs.inv_fold [OF this] show ?thesis by (auto simp: once_ok_def)
qed

text \<open>
  Sessions as the tests run them: a start, whatever becomes of it, and then a stop. After each nothing that was started is
  still running, also when the certificate failed after the listener had been opened.
\<close>

definition session :: "nat \<times> unit result \<times> unit result \<Rightarrow> fake_event list" where
  "session = (\<lambda>(fresh, listen, cert). [FakeStart fresh listen cert, FakeStop])"

definition idle :: "fake_server outcome \<Rightarrow> bool" where
  "idle r \<longleftrightarrow> (\<exists>fs. r = Returns fs \<and> (fk_once fs \<longleftrightarrow> fk_stop_closed fs) \<and>
     \<not> fk_grpc_up fs \<and> \<not> fk_listening fs \<and> \<not> fk_http_up fs)"

lemma session_idle: "idle r \<Longrightarrow> idle (fold fake_apply (session x) r)"
  by (cases x)
     (auto simp: idle_def session_def Fake_Start_def Fake_Stop_def close_stop_def Let_def split: sum.splits)

theorem fake_server_restarts: "idle (fold fake_apply (concat (map session xs)) (Returns (new_server cap)))"
proof -
  have "idle r \<Longrightarrow> idle (fold fake_apply (concat (map session xs)) r)" for r
    by (induction xs arbitrary: r) (simp_all add: session_idle)
  then show ?thesis by (simp add: idle_def new_server_def)
qed

text \<open>
  A second start without a stop between them can lose a listener: after a failed certificate the port is still bound, the
  next start fails to bind it and drops the reference, and a stop no longer closes it.
\<close>

lemma listener_leak:
  "\<exists>fs. fold fake_apply [FakeStart 1 (Inr ()) (Inl e), FakeStart 2 (Inl e') cert, FakeStop] (Returns (new_server cap)) = Returns fs
     \<and> fk_listening fs"
  by (simp add: Fake_Start_def Fake_Stop_def close_stop_def new_server_def Let_def)

text \<open>The stop channel is not made again: a server restarted after a stop is already stopped for whoever waits on it.\<close>

lemma stop_channel_stays_closed: "fk_stop_closed fs \<Longrightarrow> fk_stop_closed (snd (Fake_Start fresh listen cert fs))"
  by simp

section \<open>The logs stream\<close>

text \<open>The levels of the entries it logs; an entry it cannot read is reported and the stream goes on.\<close>

definition entry_text :: "log_request \<Rightarrow> string option" where
  "entry_text r = (case r of LogEntry m \<Rightarrow> Some m | LostNotice _ m \<Rightarrow> Some m | LogKeepalive \<Rightarrow> None)"

fun SendLogs_handler ::
  "(string \<Rightarrow> json_obj result) \<Rightarrow> (string \<Rightarrow> 'l result) \<Rightarrow> log_request result list \<Rightarrow> go_error option option \<times> 'l list" where
  "SendLogs_handler parse level [] = (None, [])"
| "SendLogs_handler parse level (Inl err # rs) = (Some (if errors_is err IoEOF then None else Some err), [])"
| "SendLogs_handler parse level (Inr req # rs) =
     (case SendLogs_handler parse level rs of
        (r, ls) \<Rightarrow>
          (r, case entry_text req of
                None \<Rightarrow> ls
              | Some m \<Rightarrow> (case logReceivedLogEntry parse level m of Inl _ \<Rightarrow> ls | Inr l \<Rightarrow> l # ls)))"

lemma SendLogs_handler_requests:
  "SendLogs_handler parse level (map Inr reqs) =
     (None, List.map_filter (\<lambda>r. Option.bind (entry_text r) (\<lambda>m. case logReceivedLogEntry parse level m of Inl _ \<Rightarrow> None | Inr l \<Rightarrow> Some l))
        reqs)"
  by (induction reqs) (auto simp: map_filter_simps split: option.splits sum.splits)

text \<open>What the operator's log writer has sent and the server can read is logged there, entry by entry, notices of loss included.\<close>

lemma operator_entries_logged:
  assumes "\<forall>m \<in> set (List.map_filter entry_text reqs). logReceivedLogEntry parse level m = Inr (lv m)"
  shows "SendLogs_handler parse level (map Inr reqs) = (None, map lv (List.map_filter entry_text reqs))"
  unfolding SendLogs_handler_requests using assms
  by (induction reqs) (auto simp: map_filter_simps split: option.splits)

section \<open>The proxy's tunnel\<close>

text \<open>
  From the client to the target: each read gives bytes and maybe an error; bytes are written on, and the loop ends at a
  write error, a short write or a read error. A turn is the read and the answer of the write.
\<close>

record tunnel_turn =
  tt_read :: string
  tt_err :: "go_error option"
  tt_written :: nat
  tt_werr :: "go_error option"

fun tunnel_loop :: "tunnel_turn list \<Rightarrow> string" where
  "tunnel_loop [] = []"
| "tunnel_loop (t # us) =
     (if tt_read t \<noteq> [] \<and> (tt_werr t \<noteq> None \<or> tt_written t \<noteq> length (tt_read t)) then take (tt_written t) (tt_read t)
      else tt_read t @ (if tt_err t \<noteq> None then [] else tunnel_loop us))"

text \<open>The target sees a prefix of what the client sent, and all of it when every write takes what it was given.\<close>

lemma tunnel_prefix: "prefix (tunnel_loop us) (concat (map tt_read us))"
  by (induction us) (auto simp: take_is_prefix prefix_prefix)

lemma tunnel_complete:
  assumes "\<forall>t \<in> set us. tt_written t = length (tt_read t) \<and> tt_werr t = None" and "\<forall>t \<in> set (butlast us). tt_err t = None"
  shows "tunnel_loop us = concat (map tt_read us)"
  using assms by (induction us) (auto split: if_splits)

section \<open>The test harness\<close>

definition harness_config :: "config_response list" where
  "harness_config = [UpdateConfiguration LOG_LEVEL_INFO, ResourceSnapshotComplete]"

text \<open>\<open>Start\<close> of the harness sends the two messages; each send takes the first branch that is ready.\<close>

definition send_now :: "config_response \<Rightarrow> config_side \<Rightarrow> config_side option" where
  "send_now resp c = (case SendConfig (snapshot_done c) resp c of [] \<Rightarrow> None | (_, c') # _ \<Rightarrow> Some c')"

definition Harness_Start :: "bool \<Rightarrow> nat \<Rightarrow> unit result \<Rightarrow> unit result \<Rightarrow> fake_server \<Rightarrow> (unit result \<times> fake_server) option" where
  "Harness_Start autoSnapshot fresh listen cert fs =
     (case Fake_Start fresh listen cert fs of
        (Inl err, fs1) \<Rightarrow> Some (Inl (WrapErr ''failed to start FakeServer'' err), fs1)
      | (Inr _, fs1) \<Rightarrow>
          if \<not> autoSnapshot then Some (Inr (), fs1)
          else map_option (\<lambda>c. (Inr (), fs1\<lparr>fk_config := c\<rparr>))
                 (Option.bind (send_now (UpdateConfiguration LOG_LEVEL_INFO) (fk_config fs1)) (send_now ResourceSnapshotComplete)))"

definition NewTestHarness :: fake_server where
  "NewTestHarness = new_server 10"

text \<open>The harness does not block, and the configuration stream finds a complete snapshot waiting.\<close>

lemma harness_ready:
  "Harness_Start True d (Inr ()) (Inr ()) NewTestHarness \<noteq> None"
  "map_option (chan_buf \<circ> cf_chan \<circ> fk_config \<circ> snd) (Harness_Start True d (Inr ()) (Inr ()) NewTestHarness) = Some harness_config"
  by (simp_all add: Harness_Start_def Fake_Start_def Let_def send_now_def SendConfig_def NewTestHarness_def new_server_def
      snapshot_done_def harness_config_def)

text \<open>\<open>tokenAuth\<close>, the credentials the harness dials with, pass the server's interceptor exactly when the tokens agree.\<close>

definition GetRequestMetadata :: "string \<Rightarrow> (string, string) gomap" where
  "GetRequestMetadata token = [(''authorization'', ''Bearer '' @ token)]"

lemma harness_token_accepted:
  "tokenAuthStreamInterceptor token (Some (map (\<lambda>(k, v). (k, [v])) (GetRequestMetadata t))) = Inr () \<longleftrightarrow> t = token"
  by (auto simp: tokenAuthStreamInterceptor_def GetRequestMetadata_def AuthorizationHeader_def)

text \<open>\<open>WaitForCondition\<close>: the state at each tick, and the timeout.\<close>

datatype wait_event = WaitTick server_state | WaitTimeout

fun WaitForCondition :: "(server_state \<Rightarrow> bool) \<Rightarrow> string \<Rightarrow> wait_event list \<Rightarrow> unit result option" where
  "WaitForCondition condition description [] = None"
| "WaitForCondition condition description (WaitTimeout # es) = Some (Inl (ErrMsg (''timeout waiting for: '' @ description)))"
| "WaitForCondition condition description (WaitTick s # es) =
     (if condition s then Some (Inr ()) else WaitForCondition condition description es)"

definition WaitForConnection :: "wait_event list \<Rightarrow> unit result option" where
  "WaitForConnection = WaitForCondition sv_ConnectionSuccessful ''operator connection successful (resource snapshot complete)''"

lemma WaitForCondition_met:
  "WaitForCondition P d (map WaitTick ss @ WaitTimeout # es) = Some (Inr ()) \<longleftrightarrow> (\<exists>s \<in> set ss. P s)"
  by (induction ss) auto

end
