(* ===== verification/Proxy_Tunnel.thy ===== *)
theory Proxy_Tunnel
  imports Fake_Lifecycle
begin

text \<open>
  \<open>handleConnect\<close> of \<open>src/fakeserver/proxy_server.go\<close> as a whole: the answer to a CONNECT request, the two goroutines that copy
  bytes between the client and the target, and the connections that are closed when it returns. The client and the target
  are peers that send and stop at any time.
\<close>

section \<open>The request\<close>

text \<open>
  What the handler did: the status it wrote, whether it tunnels, the connections its deferred calls close, in their order, and
  the messages these calls log as errors.
\<close>

datatype proxy_conn = DestConn | ClientConn

record connect_outcome =
  co_status :: nat
  co_tunnels :: bool
  co_closed :: "proxy_conn list"
  co_errors :: "(string \<times> go_error option) list"

definition refused :: "nat \<Rightarrow> connect_outcome" where
  "refused st = \<lparr>co_status = st, co_tunnels = False, co_closed = [], co_errors = []\<rparr>"

fun close_message :: "proxy_conn \<Rightarrow> string" where
  "close_message DestConn = ''Proxy handleConnect: Failed to close connection to destination''"
| "close_message ClientConn = ''Proxy handleConnect: Failed to close underlying connection to destination''"

text \<open>The deferred calls log the result of the close whatever it is.\<close>

definition deferred_close :: "(proxy_conn \<Rightarrow> go_error option) \<Rightarrow> proxy_conn \<Rightarrow> connect_outcome \<Rightarrow> connect_outcome" where
  "deferred_close close c r =
     r\<lparr>co_closed := co_closed r @ [c], co_errors := co_errors r @ [(close_message c, close c)]\<rparr>"

definition handleConnect ::
  "(string \<Rightarrow> go_error option) \<Rightarrow> bool \<Rightarrow> go_error option \<Rightarrow> (proxy_conn \<Rightarrow> go_error option) \<Rightarrow> string \<Rightarrow> connect_outcome" where
  "handleConnect dial hijacker hijack close host =
     (case proxy_target host of
        None \<Rightarrow> refused 400
      | Some effectiveTargetHost \<Rightarrow>
          (case dial effectiveTargetHost of
             Some _ \<Rightarrow> refused 503
           | None \<Rightarrow>
               (let r = (refused 200)\<lparr>co_tunnels := hijacker \<and> hijack = None\<rparr>
                in deferred_close close DestConn
                     (if co_tunnels r then deferred_close close ClientConn r else r))))"

section \<open>The tunnel\<close>

text \<open>
  One direction of the tunnel: what the peer has sent and the proxy has not read, how the peer ended, and how the goroutine
  that copies ended, \<open>None\<close> when it read to the end of the stream. \<open>tn_buffer\<close> is in the writer of the hijacked connection;
  \<open>tn_sent\<close> and \<open>tn_replied\<close> are all that the peers have sent.
\<close>

datatype copy_phase = Copying | CopyDone "go_error option"

record tunnel =
  tn_sent :: string
  tn_unread :: string
  tn_client_end :: "go_error option"
  tn_to_target :: string
  tn_up :: copy_phase
  tn_replied :: string
  tn_reply :: string
  tn_target_end :: "go_error option"
  tn_buffer :: string
  tn_to_client :: string
  tn_down :: copy_phase
  tn_half_closed :: bool

definition open_tunnel :: "string \<Rightarrow> tunnel" where
  "open_tunnel buffered =
     \<lparr>tn_sent = buffered, tn_unread = buffered, tn_client_end = None, tn_to_target = [], tn_up = Copying, tn_replied = [],
      tn_reply = [], tn_target_end = None, tn_buffer = [], tn_to_client = [], tn_down = Copying, tn_half_closed = False\<rparr>"

text \<open>One turn of the loop from the client to the target, with the results of the read and the write.\<close>

definition ErrShortWrite :: go_error where
  "ErrShortWrite = ErrMsg ''short write''"

definition up_phase :: "tunnel_turn \<Rightarrow> copy_phase" where
  "up_phase t =
     (case if tt_read t \<noteq> [] then tt_werr t else None of
        Some ew \<Rightarrow> CopyDone (Some ew)
      | None \<Rightarrow>
          if tt_read t \<noteq> [] \<and> tt_written t \<noteq> length (tt_read t) then CopyDone (Some ErrShortWrite)
          else case tt_err t of
                 None \<Rightarrow> Copying
               | Some e \<Rightarrow> CopyDone (if errors_is e IoEOF then None else Some e))"

definition up_turn :: "tunnel_turn \<Rightarrow> tunnel \<Rightarrow> tunnel" where
  "up_turn t s =
     s\<lparr>tn_unread := drop (length (tt_read t)) (tn_unread s), tn_to_target := tn_to_target s @ take (tt_written t) (tt_read t),
       tn_up := up_phase t\<rparr>"

text \<open>
  What a read and a write may answer: at most a buffer of what is there, an end of the stream only once all is read, another error as
  the connection has it; at most what was given is written, and nothing when there is nothing.
\<close>

definition turn_possible :: "tunnel_turn \<Rightarrow> tunnel \<Rightarrow> bool" where
  "turn_possible t s \<longleftrightarrow>
     prefix (tt_read t) (tn_unread s) \<and> length (tt_read t) \<le> 4096 \<and> tt_written t \<le> length (tt_read t) \<and>
     (tt_read t \<noteq> [] \<or> tt_err t \<noteq> None) \<and>
     (\<forall>e. tt_err t = Some e \<longrightarrow> tn_client_end s = Some e \<and> (errors_is e IoEOF \<longrightarrow> tt_read t = tn_unread s))"

text \<open>The end of \<open>io.Copy\<close> from the target: the rest of the buffer is flushed when the copy had no error, and the client is half closed.\<close>

definition down_end :: "go_error option \<Rightarrow> go_error option \<Rightarrow> tunnel \<Rightarrow> tunnel" where
  "down_end copyErr flushed s =
     (let s1 = (if copyErr = None \<and> flushed = None then s\<lparr>tn_to_client := tn_to_client s @ tn_buffer s, tn_buffer := []\<rparr> else s)
      in s1\<lparr>tn_half_closed := True, tn_down := CopyDone (if copyErr = None then flushed else copyErr)\<rparr>)"

text \<open>\<open>io.Copy\<close> moves bytes into the writer, which passes them on whenever it is full or written through.\<close>

inductive proxy_step :: "tunnel \<Rightarrow> tunnel \<Rightarrow> bool" where
  up: "tn_up s = Copying \<Longrightarrow> turn_possible t s \<Longrightarrow> proxy_step s (up_turn t s)"
| down_copy: "tn_down s = Copying \<Longrightarrow> tn_reply s = bs @ rest \<Longrightarrow> bs \<noteq> [] \<Longrightarrow>
     proxy_step s (s\<lparr>tn_reply := rest, tn_buffer := tn_buffer s @ bs\<rparr>)"
| down_spill: "tn_down s = Copying \<Longrightarrow> tn_buffer s = bs @ rest \<Longrightarrow> bs \<noteq> [] \<Longrightarrow>
     proxy_step s (s\<lparr>tn_buffer := rest, tn_to_client := tn_to_client s @ bs\<rparr>)"
| down_eof: "tn_down s = Copying \<Longrightarrow> tn_reply s = [] \<Longrightarrow> tn_target_end s = Some IoEOF \<Longrightarrow> proxy_step s (down_end None flushed s)"
| down_read_error: "tn_down s = Copying \<Longrightarrow> tn_target_end s = Some e \<Longrightarrow> e \<noteq> IoEOF \<Longrightarrow> proxy_step s (down_end (Some e) flushed s)"
| down_write_error: "tn_down s = Copying \<Longrightarrow> tn_buffer s \<noteq> [] \<Longrightarrow> proxy_step s (down_end (Some e) flushed s)"

inductive peer_step :: "tunnel \<Rightarrow> tunnel \<Rightarrow> bool" where
  client_sends: "tn_client_end s = None \<Longrightarrow> peer_step s (s\<lparr>tn_sent := tn_sent s @ bs, tn_unread := tn_unread s @ bs\<rparr>)"
| client_ends: "tn_client_end s = None \<Longrightarrow> peer_step s (s\<lparr>tn_client_end := Some e\<rparr>)"
| target_sends: "tn_target_end s = None \<Longrightarrow> peer_step s (s\<lparr>tn_replied := tn_replied s @ bs, tn_reply := tn_reply s @ bs\<rparr>)"
| target_ends: "tn_target_end s = None \<Longrightarrow> peer_step s (s\<lparr>tn_target_end := Some e\<rparr>)"

definition tunnel_step :: "tunnel \<Rightarrow> tunnel \<Rightarrow> bool" where
  "tunnel_step s s' \<longleftrightarrow> proxy_step s s' \<or> peer_step s s'"

text \<open>The wait group is at zero, so the handler returns.\<close>

definition tunnel_finished :: "tunnel \<Rightarrow> bool" where
  "tunnel_finished s \<longleftrightarrow> tn_up s \<noteq> Copying \<and> tn_down s \<noteq> Copying"

section \<open>Bytes arrive in order\<close>

definition up_ok :: "tunnel \<Rightarrow> bool" where
  "up_ok s \<longleftrightarrow> prefix (tn_to_target s) (tn_sent s) \<and> (tn_up s = Copying \<longrightarrow> tn_sent s = tn_to_target s @ tn_unread s) \<and>
     (tn_up s = CopyDone None \<longrightarrow> tn_to_target s = tn_sent s \<and> tn_client_end s \<noteq> None)"

definition down_ok :: "tunnel \<Rightarrow> bool" where
  "down_ok s \<longleftrightarrow> prefix (tn_to_client s) (tn_replied s) \<and>
     (tn_down s = Copying \<longrightarrow> tn_replied s = tn_to_client s @ tn_buffer s @ tn_reply s) \<and>
     (tn_down s = CopyDone None \<longrightarrow> tn_to_client s = tn_replied s \<and> tn_target_end s \<noteq> None) \<and>
     (tn_half_closed s \<longleftrightarrow> tn_down s \<noteq> Copying)"

text \<open>A turn writes all it has read unless it ends the loop with an error.\<close>

lemma up_phase_written: "up_phase t = Copying \<or> up_phase t = CopyDone None \<Longrightarrow> tt_written t \<le> length (tt_read t) \<Longrightarrow> tt_written t = length (tt_read t)"
  by (auto simp: up_phase_def split: if_splits option.splits)

lemma up_phase_clean: "up_phase t = CopyDone None \<Longrightarrow> \<exists>e. tt_err t = Some e \<and> errors_is e IoEOF"
  by (auto simp: up_phase_def split: if_splits option.splits)

lemma up_turn_ok:
  assumes "up_ok s" and "tn_up s = Copying" and "turn_possible t s"
  shows "up_ok (up_turn t s)"
proof -
  obtain rest where rest: "tn_unread s = tt_read t @ rest" using assms(3) by (auto simp: turn_possible_def prefix_def)
  have "prefix (take (tt_written t) (tt_read t)) (tn_unread s)" using rest take_is_prefix prefix_prefix by metis
  moreover have "tt_written t = length (tt_read t) \<and> (up_phase t = CopyDone None \<longrightarrow> rest = [] \<and> tn_client_end s \<noteq> None)"
    if "up_phase t = Copying \<or> up_phase t = CopyDone None"
    using up_phase_written [OF that] up_phase_clean [of t] assms(3) rest by (auto simp: turn_possible_def)
  ultimately show ?thesis using assms(1,2) rest by (auto simp: up_ok_def up_turn_def)
qed

lemma proxy_step_ok: "proxy_step s s' \<Longrightarrow> up_ok s \<and> down_ok s \<Longrightarrow> up_ok s' \<and> down_ok s'"
proof (induction rule: proxy_step.induct)
  case (up s t)
  then show ?case using up_turn_ok by (simp add: down_ok_def up_turn_def)
qed (auto simp: up_ok_def down_ok_def down_end_def Let_def)

lemma peer_step_ok: "peer_step s s' \<Longrightarrow> up_ok s \<and> down_ok s \<Longrightarrow> up_ok s' \<and> down_ok s'"
  by (induction rule: peer_step.induct) (auto simp: up_ok_def down_ok_def prefix_prefix)

interpretation tunnels: invariant_system "\<lambda>s. \<exists>b. s = open_tunnel b" tunnel_step "\<lambda>s. up_ok s \<and> down_ok s"
proof
  show "up_ok s \<and> down_ok s" if "\<exists>b. s = open_tunnel b" for s
    using that by (auto simp: open_tunnel_def up_ok_def down_ok_def)
  show "up_ok t \<and> down_ok t" if "up_ok s \<and> down_ok s" "tunnel_step s t" for s t
    using that proxy_step_ok peer_step_ok by (auto simp: tunnel_step_def)
qed

section \<open>When the handler returns\<close>

definition work_left :: "tunnel \<Rightarrow> nat" where
  "work_left s = length (tn_unread s) + 2 * length (tn_reply s) + length (tn_buffer s) +
     (if tn_up s = Copying then 1 else 0) + (if tn_down s = Copying then 1 else 0)"

lemma proxy_step_work: "proxy_step s s' \<Longrightarrow> work_left s' < work_left s"
proof (induction rule: proxy_step.induct)
  case (up s t)
  then obtain rest where "tn_unread s = tt_read t @ rest" by (auto simp: turn_possible_def prefix_def)
  moreover have "tt_read t = [] \<Longrightarrow> up_phase t \<noteq> Copying"
    using up(2) by (auto simp: turn_possible_def up_phase_def)
  ultimately show ?case using up(1) by (cases "tt_read t") (auto simp: work_left_def up_turn_def)
next
  case (down_copy s bs rest)
  then show ?case by (cases bs) (auto simp: work_left_def)
next
  case (down_spill s bs rest)
  then show ?case by (cases bs) (auto simp: work_left_def)
qed (auto simp: work_left_def down_end_def Let_def)

lemma up_can_move:
  assumes "tn_up s = Copying" and "tn_unread s \<noteq> [] \<or> tn_client_end s \<noteq> None"
  shows "\<exists>s'. proxy_step s s'"
proof -
  let ?bs = "take 4096 (tn_unread s)"
  let ?t = "\<lparr>tt_read = ?bs, tt_err = (if tn_unread s = [] then tn_client_end s else None), tt_written = length ?bs, tt_werr = None\<rparr>"
  have "turn_possible ?t s" using assms(2) by (auto simp: turn_possible_def take_is_prefix)
  then show ?thesis using proxy_step.up assms(1) by blast
qed

lemma down_can_move:
  assumes "tn_down s = Copying" and "tn_reply s \<noteq> [] \<or> tn_buffer s \<noteq> [] \<or> tn_target_end s \<noteq> None"
  shows "\<exists>s'. proxy_step s s'"
proof -
  consider "tn_reply s \<noteq> []" | "tn_buffer s \<noteq> []" | e where "tn_reply s = []" "tn_target_end s = Some e"
    using assms(2) by auto
  then show ?thesis
  proof cases
    case 1
    then show ?thesis using proxy_step.down_copy [OF assms(1), of "tn_reply s" "[]"] by auto
  next
    case 2
    then show ?thesis using proxy_step.down_spill [OF assms(1), of "tn_buffer s" "[]"] by auto
  next
    case 3
    then show ?thesis using proxy_step.down_eof [OF assms(1)] proxy_step.down_read_error [OF assms(1)] by (cases "e = IoEOF") blast+
  qed
qed

inductive_cases proxy_stepE: "proxy_step s s'"

lemma idle_direction:
  assumes "tn_up s \<noteq> Copying \<or> tn_unread s = [] \<and> tn_client_end s = None"
    and "tn_down s \<noteq> Copying \<or> tn_reply s = [] \<and> tn_buffer s = [] \<and> tn_target_end s = None"
  shows "\<not> proxy_step s s'"
  using assms by (auto simp: turn_possible_def elim!: proxy_stepE)

text \<open>The proxy can move exactly when a goroutine is running that has bytes to move or whose peer has ended.\<close>

lemma proxy_moves_iff:
  "(\<exists>s'. proxy_step s s') \<longleftrightarrow>
     tn_up s = Copying \<and> (tn_unread s \<noteq> [] \<or> tn_client_end s \<noteq> None) \<or>
     tn_down s = Copying \<and> (tn_reply s \<noteq> [] \<or> tn_buffer s \<noteq> [] \<or> tn_target_end s \<noteq> None)"
  using up_can_move down_can_move idle_direction by metis

section \<open>Properties\<close>

text \<open>
  At any moment of a tunnel, whatever the client and the target send and however they stop, the target has been
  given a prefix of what the client sent, bytes read along with the request included, and the client a prefix of what the target
  sent; each has all of it when the goroutine that copies ended without an error. Every step of the proxy leaves less
  to do, and when both peers have ended there is a step until the handler returns.
\<close>

theorem tunnel_delivers:
  assumes "tunnel_step\<^sup>*\<^sup>* (open_tunnel buffered) s"
  shows "prefix (tn_to_target s) (tn_sent s) \<and> prefix (tn_to_client s) (tn_replied s) \<and>
    (tn_up s = CopyDone None \<longrightarrow> tn_to_target s = tn_sent s) \<and> (tn_down s = CopyDone None \<longrightarrow> tn_to_client s = tn_replied s) \<and>
    (\<forall>s'. proxy_step s s' \<longrightarrow> work_left s' < work_left s) \<and>
    (tn_client_end s \<noteq> None \<and> tn_target_end s \<noteq> None \<and> \<not> tunnel_finished s \<longrightarrow> (\<exists>s'. proxy_step s s'))"
  using tunnels.inv_reachable [OF _ assms] proxy_step_work proxy_moves_iff [of s]
  by (auto simp: up_ok_def down_ok_def tunnel_finished_def)

text \<open>
  The end of the client is not passed on: when the client has stopped and everything has been copied, the proxy waits for
  the target to stop by itself, with both connections open.
\<close>

theorem client_end_not_passed_on:
  assumes "tn_up s \<noteq> Copying" and "tn_down s = Copying" and "tn_reply s = []" and "tn_buffer s = []" and "tn_target_end s = None"
  shows "\<not> tunnel_finished s \<and> \<not> proxy_step s s'"
  using assms idle_direction by (simp add: tunnel_finished_def)

text \<open>Every connection the handler opened or took over is closed once, the client's first; each close is logged as a failure.\<close>

theorem connections_closed:
  "co_closed (handleConnect dial hijacker hijack close host) =
     (if co_status (handleConnect dial hijacker hijack close host) \<noteq> 200 then []
      else if hijacker \<and> hijack = None then [ClientConn, DestConn] else [DestConn]) \<and>
   co_errors (handleConnect dial hijacker hijack close host) =
     map (\<lambda>c. (close_message c, close c)) (co_closed (handleConnect dial hijacker hijack close host))"
  by (auto simp: handleConnect_def refused_def deferred_close_def Let_def split: option.splits)

text \<open>The handler answers what \<open>ServeHTTP\<close> of \<open>Fake_Server\<close> says for a CONNECT request.\<close>

lemma handleConnect_status:
  "co_status (handleConnect dial hijacker hijack close host) =
     (case ServeHTTP dial ''CONNECT'' host of None \<Rightarrow> 200 | Some st \<Rightarrow> st)"
  by (simp add: handleConnect_def ServeHTTP_def refused_def deferred_close_def Let_def split: option.splits)

text \<open>The turns of a loop that has not ended give the target what \<open>tunnel_loop\<close> says.\<close>

lemma up_turns:
  "\<forall>t \<in> set us. up_phase t = Copying \<and> tt_written t \<le> length (tt_read t) \<Longrightarrow>
   tn_to_target (fold up_turn us s) = tn_to_target s @ tunnel_loop us"
proof (induction us arbitrary: s)
  case (Cons t us)
  then have "up_phase t = Copying" "tt_written t = length (tt_read t)" using up_phase_written by auto
  then show ?case using Cons by (auto simp: up_turn_def up_phase_def split: if_splits option.splits)
qed simp

end
