(* ===== verification/Log_Reader.thy ===== *)
theory Log_Reader
  imports Go_Strings
begin

text \<open>
  \<open>internal/controller/stream/flows/awsautomode/logreader.go\<close>: reading a node's active log record by
  record, from a checkpoint. The body of a response is the bytes it yields and the error that ends
  it (\<open>IoEOF\<close> at its end). The MD5 of a record is the argument \<open>hash\<close>; handing a record downstream is
  the argument \<open>emit\<close>, an operation on the caller's state that may fail. Offsets are natural numbers.
\<close>

section \<open>Checkpoints\<close>

record nodeLogCheckpoint =
  cp_NodeName :: string
  cp_NodeUID :: string
  cp_ByteOffset :: nat
  cp_LastObservedSize :: nat
  cp_LastRecordHash :: string
  cp_LastRotationID :: string

definition fresh_checkpoint :: "string \<Rightarrow> string \<Rightarrow> string \<Rightarrow> nodeLogCheckpoint" where
  "fresh_checkpoint name uid rotation =
     \<lparr>cp_NodeName = name, cp_NodeUID = uid, cp_ByteOffset = 0, cp_LastObservedSize = 0,
      cp_LastRecordHash = replicate 16 (CHR 0x00), cp_LastRotationID = rotation\<rparr>"

section \<open>Records\<close>

definition maxRecoveryScanLine :: nat where
  "maxRecoveryScanLine = 2 ^ 20"

definition readerSize :: nat where
  "readerSize = 64 * 1024"

abbreviation NL :: char where
  "NL \<equiv> CHR 10"

abbreviation line_of :: "string \<Rightarrow> string" where
  "line_of s \<equiv> takeWhile (\<lambda>c. c \<noteq> NL) s"

text \<open>
  \<open>bufio.Reader.ReadSlice\<close> of a newline: the bytes up to it when it lies within the buffer, a full
  buffer without one (\<open>ErrBufferFull\<close>), or what is left of the stream.
\<close>

datatype slice_end = SliceNewline | SliceFull | SliceEnd

definition ReadSlice :: "string \<Rightarrow> string \<times> slice_end \<times> string" where
  "ReadSlice s =
     (if NL \<in> set (take readerSize s)
      then let k = Suc (length (line_of (take readerSize s))) in (take k s, SliceNewline, drop k s)
      else if readerSize \<le> length s then (take readerSize s, SliceFull, drop readerSize s)
      else (s, SliceEnd, []))"

lemma readerSize_pos [simp]: "0 < readerSize"
  by (simp add: readerSize_def)

lemma ReadSlice_full: "ReadSlice s = (chunk, SliceFull, rest) \<Longrightarrow>
    s = chunk @ rest \<and> length rest < length s \<and> NL \<notin> set chunk"
  by (auto simp: ReadSlice_def Let_def readerSize_def split: if_splits)

function scan_loop :: "string \<Rightarrow> bool \<Rightarrow> nat \<Rightarrow> string \<Rightarrow> string \<times> nat \<times> bool \<times> string" where
  "scan_loop buf oversize consumed s =
     (case ReadSlice s of
        (chunk, SliceFull, rest) \<Rightarrow>
          if \<not> oversize \<and> length buf + length chunk \<le> maxRecoveryScanLine
          then scan_loop (buf @ chunk) oversize (consumed + length chunk) rest
          else scan_loop buf True (consumed + length chunk) rest
      | (chunk, SliceEnd, rest) \<Rightarrow>
          (if oversize \<or> length buf + length chunk > maxRecoveryScanLine then [] else buf @ chunk,
           consumed + length chunk, False, rest)
      | (chunk, SliceNewline, rest) \<Rightarrow>
          let body = butlast chunk
          in (if oversize \<or> length buf + length body > maxRecoveryScanLine then [] else buf @ body,
              consumed + length chunk, True, rest))"
  by pat_completeness auto
termination
  by (relation "measure (\<lambda>(_, _, _, s). length s)") (auto dest!: ReadSlice_full [OF sym])

declare scan_loop.simps [simp del]

definition scanRecord :: "string \<Rightarrow> string \<times> nat \<times> bool \<times> string" where
  "scanRecord s = scan_loop [] False 0 s"

text \<open>The same record read in one go: a record longer than the limit comes back empty.\<close>

definition capped :: "string \<Rightarrow> string" where
  "capped l = (if length l > maxRecoveryScanLine then [] else l)"

lemma line_take: "NL \<in> set (take n s) \<Longrightarrow> line_of (take n s) = line_of s"
  by (induction s arbitrary: n) (auto simp: take_Cons')

lemma drop_line: "NL \<in> set s \<Longrightarrow> s = line_of s @ NL # drop (Suc (length (line_of s))) s"
  by (induction s) auto

lemma ReadSlice_newline: "ReadSlice s = (chunk, SliceNewline, rest) \<Longrightarrow>
    chunk = line_of s @ [NL] \<and> s = line_of s @ NL # rest"
proof -
  assume r: "ReadSlice s = (chunk, SliceNewline, rest)"
  then have "NL \<in> set (take readerSize s)"
    by (auto simp: ReadSlice_def split: if_splits)
  then have mem: "NL \<in> set s" and line: "line_of (take readerSize s) = line_of s"
    by (auto dest: in_set_takeD simp: line_take)
  define l where "l = line_of s"
  have "chunk = take (Suc (length l)) s" and rest: "rest = drop (Suc (length l)) s"
    using r line by (auto simp: ReadSlice_def Let_def l_def split: if_splits)
  moreover have s: "s = l @ NL # rest"
    using drop_line [OF mem] by (simp add: l_def rest)
  ultimately have "chunk = l @ [NL]" by (metis append_Cons append_Nil append_assoc append_eq_conv_conj length_append_singleton)
  with s show ?thesis by (simp add: l_def)
qed

lemma ReadSlice_end: "ReadSlice s = (chunk, SliceEnd, rest) \<Longrightarrow> chunk = s \<and> rest = [] \<and> NL \<notin> set s"
  by (auto simp: ReadSlice_def Let_def split: if_splits)

lemma scan_loop_eq:
  "scan_loop buf oversize consumed s =
     (if NL \<in> set s
      then (if oversize \<or> length buf + length (line_of s) > maxRecoveryScanLine then [] else buf @ line_of s,
            consumed + Suc (length (line_of s)), True, drop (Suc (length (line_of s))) s)
      else (if oversize \<or> length buf + length s > maxRecoveryScanLine then [] else buf @ s,
            consumed + length s, False, []))"
proof (induction buf oversize consumed s rule: scan_loop.induct)
  case (1 buf oversize consumed s)
  obtain chunk e rest where r: "ReadSlice s = (chunk, e, rest)" by (cases "ReadSlice s") auto
  show ?case
  proof (cases e)
    case SliceNewline
    then have "chunk = line_of s @ [NL]" and s: "s = line_of s @ NL # rest"
      using ReadSlice_newline r by auto
    moreover have "NL \<in> set s" and "drop (Suc (length (line_of s))) s = rest"
      using s by (metis in_set_conv_decomp, metis append_eq_conv_conj drop_Suc list.sel(3) tl_drop)
    ultimately show ?thesis
      using r SliceNewline by (subst scan_loop.simps) (simp add: Let_def)
  next
    case SliceFull
    with r have s: "s = chunk @ rest" and no: "NL \<notin> set chunk"
      using ReadSlice_full by auto
    then have line: "line_of (chunk @ rest) = chunk @ line_of rest"
      by (auto simp: takeWhile_append)
    show ?thesis
      using 1 r SliceFull no by (subst scan_loop.simps) (auto simp: line s)
  next
    case SliceEnd
    with r show ?thesis
      by (subst scan_loop.simps) (auto dest!: ReadSlice_end)
  qed
qed


text \<open>
  C29: reading a record through the 64 KiB buffer, however many times the buffer
  fills up, gives the line up to the next newline, the number of bytes it takes up with its newline,
  and the rest of the stream; a line longer than the limit comes back empty but is still consumed
  whole, so offsets stay right.
\<close>

theorem scan_record_reference:
  "scanRecord s = (if NL \<in> set s then (capped (line_of s), Suc (length (line_of s)), True, drop (Suc (length (line_of s))) s)
                   else (capped s, length s, False, []))"
  by (simp add: scanRecord_def scan_loop_eq capped_def)

lemma scanRecord_newline: "scanRecord (l @ NL # rest) = (capped l, Suc (length l), True, rest)" if "NL \<notin> set l"
proof -
  have "line_of (l @ NL # rest) = l" using that by (auto simp: takeWhile_append)
  then show ?thesis by (simp add: scanRecord_def scan_loop_eq capped_def)
qed

lemma scanRecord_end: "NL \<notin> set s \<Longrightarrow> scanRecord s = (capped s, length s, False, [])"
  by (simp add: scanRecord_def scan_loop_eq capped_def)

lemma scanRecord_rest: "scanRecord s = (rec, n, True, rest) \<Longrightarrow> length rest < length s"
  by (auto simp: scanRecord_def scan_loop_eq split: if_splits dest: split_list)

section \<open>Streaming the active log\<close>

record streamActiveResult =
  sr_validated :: bool
  sr_needReset :: bool
  sr_newOffset :: nat
  sr_lastHash :: string
  sr_observedSize :: nat
  sr_emitted :: nat

type_synonym 'w emitter = "string \<Rightarrow> 'w \<Rightarrow> unit result \<times> 'w"

text \<open>The first component is \<open>done\<close>, or the error of \<open>emit\<close>.\<close>

definition applyRecord :: "(string \<Rightarrow> string) \<Rightarrow> 'w emitter \<Rightarrow> string \<Rightarrow> nat \<Rightarrow> nat \<Rightarrow> bool \<Rightarrow> nodeLogCheckpoint
    \<Rightarrow> streamActiveResult \<Rightarrow> 'w \<Rightarrow> bool result \<times> streamActiveResult \<times> 'w" where
  "applyRecord hash emit rec fin bodyStart first cp res w =
     (if first \<and> 0 < bodyStart
      then if fin > cp_ByteOffset cp then (Inr True, res\<lparr>sr_needReset := True\<rparr>, w) else (Inr False, res, w)
      else if fin < cp_ByteOffset cp then (Inr False, res, w)
      else if fin = cp_ByteOffset cp
      then if hash rec \<noteq> cp_LastRecordHash cp then (Inr True, res\<lparr>sr_needReset := True\<rparr>, w)
           else (Inr False, res\<lparr>sr_validated := True\<rparr>, w)
      else if \<not> sr_validated res then (Inr True, res\<lparr>sr_needReset := True\<rparr>, w)
      else case emit rec w of
             (Inl e, w') \<Rightarrow> (Inl e, res, w')
           | (Inr _, w') \<Rightarrow>
               (Inr False, res\<lparr>sr_emitted := Suc (sr_emitted res), sr_newOffset := fin, sr_lastHash := hash rec\<rparr>, w'))"

definition stream_start :: "nat \<Rightarrow> nodeLogCheckpoint \<Rightarrow> streamActiveResult" where
  "stream_start bodyStart cp =
     \<lparr>sr_validated = (cp_ByteOffset cp = 0), sr_needReset = False, sr_newOffset = cp_ByteOffset cp,
      sr_lastHash = cp_LastRecordHash cp, sr_observedSize = bodyStart, sr_emitted = 0\<rparr>"

definition stream_end :: "nodeLogCheckpoint \<Rightarrow> streamActiveResult \<Rightarrow> streamActiveResult" where
  "stream_end cp res =
     (if 0 < cp_ByteOffset cp \<and> \<not> sr_validated res then res\<lparr>sr_needReset := True\<rparr> else res)"

definition observe :: "nat \<Rightarrow> nat \<Rightarrow> streamActiveResult \<Rightarrow> streamActiveResult" where
  "observe consumed pos res = (if 0 < consumed then res\<lparr>sr_observedSize := pos\<rparr> else res)"

function stream_loop :: "(string \<Rightarrow> string) \<Rightarrow> 'w emitter \<Rightarrow> nat \<Rightarrow> nodeLogCheckpoint \<Rightarrow> go_error \<Rightarrow> string \<Rightarrow> nat
    \<Rightarrow> bool \<Rightarrow> streamActiveResult \<Rightarrow> 'w \<Rightarrow> streamActiveResult result \<times> 'w" where
  "stream_loop hash emit bodyStart cp rerr s pos first res w =
     (case scanRecord s of
        (rec, consumed, True, rest) \<Rightarrow>
          (case applyRecord hash emit rec (pos + consumed) bodyStart first cp (observe consumed (pos + consumed) res) w of
             (Inl e, _, w') \<Rightarrow> (Inl e, w')
           | (Inr True, res', w') \<Rightarrow> (Inr res', w')
           | (Inr False, res', w') \<Rightarrow> stream_loop hash emit bodyStart cp rerr rest (pos + consumed) False res' w')
      | (_, consumed, False, _) \<Rightarrow>
          (if errors_is rerr IoEOF then Inr (stream_end cp (observe consumed (pos + consumed) res)) else Inl rerr, w))"
  by pat_completeness auto
termination
  by (relation "measure (\<lambda>(_, _, _, _, _, s, _, _, _, _). length s)") (auto dest!: scanRecord_rest [OF sym])

declare stream_loop.simps [simp del]

definition streamActive :: "(string \<Rightarrow> string) \<Rightarrow> 'w emitter \<Rightarrow> nat \<Rightarrow> string \<Rightarrow> go_error \<Rightarrow> nodeLogCheckpoint \<Rightarrow> 'w
    \<Rightarrow> streamActiveResult result \<times> 'w" where
  "streamActive hash emit bodyStart body rerr cp w =
     stream_loop hash emit bodyStart cp rerr body bodyStart True (stream_start bodyStart cp) w"

section \<open>The records of a file\<close>

text \<open>The complete records of a byte string, without their newlines, and the bytes they take up.\<close>

function records :: "string \<Rightarrow> string list" where
  "records s = (if NL \<in> set s then line_of s # records (drop (Suc (length (line_of s))) s) else [])"
  by auto
termination
  by (relation "measure length") (auto dest: split_list)

declare records.simps [simp del]

definition records_size :: "string \<Rightarrow> nat" where
  "records_size s = (\<Sum>l\<leftarrow>records s. Suc (length l))"

lemma records_none [simp]: "NL \<notin> set s \<Longrightarrow> records s = []"
  by (subst records.simps) simp

lemma records_line [simp]: "NL \<notin> set l \<Longrightarrow> records (l @ NL # s) = l # records s"
proof -
  assume "NL \<notin> set l"
  then have "line_of (l @ NL # s) = l" by (auto simp: takeWhile_append)
  then show ?thesis by (subst records.simps) simp
qed

text \<open>Every byte string is its complete records followed by an unfinished one.\<close>

lemma lines_induct [case_names unfinished line]:
  assumes "\<And>s. NL \<notin> set s \<Longrightarrow> P s" and "\<And>l s. NL \<notin> set l \<Longrightarrow> P s \<Longrightarrow> P (l @ NL # s)"
  shows "P s"
proof (induction s rule: length_induct)
  case (1 s)
  show ?case
  proof (cases "NL \<in> set s")
    case True
    then obtain l r where "s = l @ NL # r" "NL \<notin> set l" by (meson split_list_first)
    with 1 assms(2) show ?thesis by simp
  qed (rule assms(1))
qed

lemma records_append: "P = [] \<or> last P = NL \<Longrightarrow> records (P @ Q) = records P @ records Q"
proof (induction P rule: lines_induct)
  case (unfinished s)
  then show ?case by (metis append_Nil last_in_set records_none self_append_conv2)
next
  case (line l s)
  then show ?case by (cases "s = []") auto
qed

lemma records_size_line [simp]: "NL \<notin> set l \<Longrightarrow> records_size (l @ NL # s) = Suc (length l) + records_size s"
  by (simp add: records_size_def)

lemma records_size_none [simp]: "NL \<notin> set s \<Longrightarrow> records_size s = 0"
  by (simp add: records_size_def)

lemma records_size_le: "records_size s \<le> length s"
  by (induction s rule: lines_induct) (simp_all add: records_size_def)

lemma records_rest: "NL \<notin> set (drop (records_size s) s)"
  by (induction s rule: lines_induct) (auto simp: records_size_def)

lemma records_size_end: "0 < records_size s \<Longrightarrow> s ! (records_size s - 1) = NL"
proof (induction s rule: lines_induct)
  case (line l s)
  show ?case
  proof (cases "records_size s = 0")
    case True
    then have "records s = []" by (cases "records s") (auto simp: records_size_def)
    then show ?thesis using line by (simp add: records_size_def nth_append)
  next
    case False
    then have "records_size (l @ NL # s) - 1 = Suc (length l) + (records_size s - 1)"
      using False line by simp
    then show ?thesis using False line.IH by (simp add: nth_append)
  qed
qed (simp add: records_size_def)

lemma records_take: "records (take (records_size s) s) = records s"
  by (induction s rule: lines_induct) (simp_all add: records_size_def)


section \<open>What a stream emits\<close>

fun emit_all :: "'w emitter \<Rightarrow> string list \<Rightarrow> 'w \<Rightarrow> unit result \<times> 'w" where
  "emit_all emit [] w = (Inr (), w)"
| "emit_all emit (r # rs) w = (case emit r w of (Inl e, w') \<Rightarrow> (Inl e, w') | (Inr _, w') \<Rightarrow> emit_all emit rs w')"

definition tail_result :: "(string \<Rightarrow> string) \<Rightarrow> string \<Rightarrow> nat \<Rightarrow> streamActiveResult \<Rightarrow> streamActiveResult" where
  "tail_result hash s pos res =
     res\<lparr>sr_newOffset := (if records s = [] then sr_newOffset res else pos + records_size s),
         sr_lastHash := (if records s = [] then sr_lastHash res else hash (capped (last (records s)))),
         sr_observedSize := (if s = [] then sr_observedSize res else pos + length s),
         sr_emitted := sr_emitted res + length (records s)\<rparr>"

definition stream_outcome :: "go_error \<Rightarrow> streamActiveResult \<Rightarrow> unit result \<times> 'w \<Rightarrow> streamActiveResult result \<times> 'w" where
  "stream_outcome rerr res r =
     (case r of (Inl e, w) \<Rightarrow> (Inl e, w)
              | (Inr _, w) \<Rightarrow> (if errors_is rerr IoEOF then Inr res else Inl rerr, w))"

lemma stream_loop_line:
  "NL \<notin> set l \<Longrightarrow> stream_loop hash emit b cp rerr (l @ NL # s) pos first res w =
     (case applyRecord hash emit (capped l) (pos + Suc (length l)) b first cp
             (res\<lparr>sr_observedSize := pos + Suc (length l)\<rparr>) w of
        (Inl e, _, w') \<Rightarrow> (Inl e, w')
      | (Inr True, res', w') \<Rightarrow> (Inr res', w')
      | (Inr False, res', w') \<Rightarrow> stream_loop hash emit b cp rerr s (pos + Suc (length l)) False res' w')"
  by (subst stream_loop.simps) (simp add: scanRecord_newline observe_def)

lemma stream_loop_end:
  "NL \<notin> set s \<Longrightarrow> stream_loop hash emit b cp rerr s pos first res w =
     (if errors_is rerr IoEOF then Inr (stream_end cp (observe (length s) (pos + length s) res)) else Inl rerr, w)"
  by (subst stream_loop.simps) (simp add: scanRecord_end)

text \<open>Once the continuation is validated, every complete record is handed on, in order.\<close>

lemma stream_tail:
  assumes "sr_validated res" and "cp_ByteOffset cp \<le> pos" and "\<not> (first \<and> 0 < b)"
  shows "stream_loop hash emit b cp rerr s pos first res w =
           stream_outcome rerr (tail_result hash s pos res) (emit_all emit (map capped (records s)) w)"
  using assms
proof (induction s arbitrary: pos first res w rule: lines_induct)
  case (unfinished s)
  then show ?case
    by (simp add: stream_loop_end stream_outcome_def stream_end_def observe_def tail_result_def)
next
  case (line l s)
  let ?res = "res\<lparr>sr_observedSize := pos + Suc (length l), sr_emitted := Suc (sr_emitted res),
                  sr_newOffset := pos + Suc (length l), sr_lastHash := hash (capped l)\<rparr>"
  have tail: "tail_result hash s (pos + Suc (length l)) ?res = tail_result hash (l @ NL # s) pos res"
    using line.hyps by (cases res) (auto simp: tail_result_def records_size_def)
  show ?case
  proof (cases "emit (capped l) w")
    case (Pair r w')
    show ?thesis
    proof (cases r)
      case (Inr u)
      have "stream_loop hash emit b cp rerr (l @ NL # s) pos first res w =
              stream_loop hash emit b cp rerr s (pos + Suc (length l)) False ?res w'"
        using line.prems line.hyps Pair Inr by (auto simp: stream_loop_line applyRecord_def)
      also have "\<dots> = stream_outcome rerr (tail_result hash s (pos + Suc (length l)) ?res) (emit_all emit (map capped (records s)) w')"
        using line.prems by (intro line.IH) auto
      finally show ?thesis using Pair Inr line.hyps tail by simp
    qed (use line.prems line.hyps Pair in \<open>auto simp: stream_loop_line applyRecord_def stream_outcome_def\<close>)
  qed
qed

text \<open>The records up to the checkpoint are skipped, the one that ends there validates the rest.\<close>

lemma stream_skip:
  assumes "P \<noteq> []" and "last P = NL" and "pos + length P = cp_ByteOffset cp" and "\<not> (first \<and> 0 < b)"
    and "hash (capped (last (records P))) = cp_LastRecordHash cp"
  shows "stream_loop hash emit b cp rerr (P @ Q) pos first res w =
           stream_loop hash emit b cp rerr Q (cp_ByteOffset cp) False
             (res\<lparr>sr_validated := True, sr_observedSize := cp_ByteOffset cp\<rparr>) w"
  using assms
proof (induction P arbitrary: pos first res w rule: lines_induct)
  case (unfinished P)
  then show ?case by (metis last_in_set)
next
  case (line l P)
  show ?case
  proof (cases "P = []")
    case True
    with line show ?thesis by (cases res) (auto simp: stream_loop_line applyRecord_def)
  next
    case False
    then have "records P \<noteq> []"
      using line.prems by (metis append_Cons last.simps last_append last_in_set list.distinct(1) records.simps)
    moreover have "pos + Suc (length l) < cp_ByteOffset cp"
      using False line.prems by (cases P) auto
    ultimately show ?thesis
      using False line by (cases res) (auto simp: stream_loop_line applyRecord_def)
  qed
qed

text \<open>A body that starts inside a record: its leading fragment is dropped.\<close>

lemma stream_fragment:
  "NL \<notin> set l \<Longrightarrow> 0 < b \<Longrightarrow> pos + Suc (length l) \<le> cp_ByteOffset cp \<Longrightarrow>
   stream_loop hash emit b cp rerr (l @ NL # s) pos True res w =
     stream_loop hash emit b cp rerr s (pos + Suc (length l)) False (res\<lparr>sr_observedSize := pos + Suc (length l)\<rparr>) w"
  by (simp add: stream_loop_line applyRecord_def)


section \<open>Continuing an append-only file\<close>

text \<open>
  A checkpoint matches a file when it stands at the start, or behind a complete record of the file
  whose hash it holds.
\<close>

definition cp_matches :: "(string \<Rightarrow> string) \<Rightarrow> string \<Rightarrow> nodeLogCheckpoint \<Rightarrow> bool" where
  "cp_matches hash F cp \<longleftrightarrow> cp_ByteOffset cp = 0 \<or>
     (cp_ByteOffset cp \<le> length F \<and> F ! (cp_ByteOffset cp - 1) = NL
      \<and> cp_LastRecordHash cp = hash (capped (last (records (take (cp_ByteOffset cp) F)))))"

lemma cp_matches_last:
  assumes "cp_matches hash F cp"
  shows "take (cp_ByteOffset cp) F = [] \<or> last (take (cp_ByteOffset cp) F) = NL"
proof (cases "take (cp_ByteOffset cp) F = []")
  case False
  with assms show ?thesis
    using last_conv_nth [OF False] by (auto simp: cp_matches_def)
qed simp

lemma last_record:
  assumes "P \<noteq> []" and "last P = NL"
  obtains P' L where "P = P' @ L @ [NL]" and "NL \<notin> set L" and "P' = [] \<or> last P' = NL" and "last (records P) = L"
proof (cases "NL \<in> set (butlast P)")
  case True
  then obtain us vs where "butlast P = us @ NL # vs" "NL \<notin> set vs" by (meson split_list_last)
  moreover have "P = butlast P @ [NL]" using assms by (metis append_butlast_last_id)
  ultimately have P: "P = (us @ [NL]) @ vs @ [NL]" by simp
  have "records P = records (us @ [NL]) @ records (vs @ [NL])"
    unfolding P by (rule records_append) simp
  with \<open>NL \<notin> set vs\<close> show ?thesis by (intro that [OF P]) auto
next
  case False
  have P: "P = [] @ butlast P @ [NL]" using assms by (metis append_Nil append_butlast_last_id)
  have "records P = [butlast P]"
    using False by (subst P) simp
  with False show ?thesis by (intro that [OF P]) auto
qed

definition validated_start :: "nodeLogCheckpoint \<Rightarrow> streamActiveResult" where
  "validated_start cp = (stream_start (cp_ByteOffset cp) cp)\<lparr>sr_validated := True\<rparr>"

definition overlap_ok :: "string \<Rightarrow> nat \<Rightarrow> nodeLogCheckpoint \<Rightarrow> bool" where
  "overlap_ok F b cp \<longleftrightarrow> b = 0 \<or> b + length (last (records (take (cp_ByteOffset cp) F))) + 2 \<le> cp_ByteOffset cp"

lemma stream_continue:
  assumes m: "cp_matches hash F cp" and b: "overlap_ok F b cp"
  shows "streamActive hash emit b (drop b F) rerr cp w =
           stream_outcome rerr (tail_result hash (drop (cp_ByteOffset cp) F) (cp_ByteOffset cp) (validated_start cp))
             (emit_all emit (map capped (records (drop (cp_ByteOffset cp) F))) w)"
proof (cases "cp_ByteOffset cp = 0")
  case True
  then show ?thesis
    using b by (auto simp: streamActive_def validated_start_def stream_start_def overlap_ok_def
        intro!: stream_tail [of _ cp 0 True 0 hash emit rerr F w, simplified])
next
  case False
  let ?off = "cp_ByteOffset cp" and ?P = "take (cp_ByteOffset cp) F" and ?Q = "drop (cp_ByteOffset cp) F"
  have len: "length ?P = ?off" "?P \<noteq> []" and hash: "hash (capped (last (records ?P))) = cp_LastRecordHash cp"
    using m False by (auto simp: cp_matches_def)
  have lastP: "last ?P = NL" using cp_matches_last [OF m] len(2) by blast
  have F: "F = ?P @ ?Q" by simp
  have tail: "stream_loop hash emit b cp rerr ?Q ?off False (validated_start cp) w =
      stream_outcome rerr (tail_result hash ?Q ?off (validated_start cp)) (emit_all emit (map capped (records ?Q)) w)"
    by (rule stream_tail) (simp_all add: validated_start_def)
  show ?thesis
  proof (cases "b = 0")
    case True
    have "streamActive hash emit b (drop b F) rerr cp w = stream_loop hash emit 0 cp rerr (?P @ ?Q) 0 True (stream_start 0 cp) w"
      using True by (simp add: streamActive_def)
    also have "\<dots> = stream_loop hash emit 0 cp rerr ?Q ?off False (validated_start cp) w"
      using stream_skip [of ?P 0 cp True 0 hash emit rerr ?Q "stream_start 0 cp" w] len lastP hash
      by (simp add: validated_start_def stream_start_def)
    finally show ?thesis using tail True by simp
  next
    case pos: False
    obtain P' L where P: "?P = P' @ L @ [NL]" and L: "NL \<notin> set L" "last (records ?P) = L" and P': "P' = [] \<or> last P' = NL"
      using last_record [OF len(2) lastP] by metis
    have "?off = length P' + length L + 1" using len(1) P by simp
    then have bP': "b < length P'" using b pos L(2) by (simp add: overlap_ok_def)
    then have "drop b P' \<noteq> []" "last (drop b P') = NL" using P' by auto
    then obtain l s where fr: "drop b P' = l @ NL # s" "NL \<notin> set l"
      by (metis last_in_set split_list_first)
    have s_end: "s = [] \<or> last s = NL" using \<open>last (drop b P') = NL\<close> fr by (auto split: if_splits)
    have body: "drop b F = l @ NL # (s @ L @ [NL]) @ ?Q"
      using bP' fr P F by (metis (no_types, lifting) append_Cons append_assoc drop_append diff_is_0_eq drop_0 less_imp_le)
    have lens: "b + Suc (length l) + length (s @ L @ [NL]) = ?off"
      using arg_cong [OF fr(1), of length] bP' \<open>?off = length P' + length L + 1\<close> by simp
    have recs: "last (records (s @ L @ [NL])) = L"
      using records_append [OF s_end, of "L @ [NL]"] L by simp
    have "streamActive hash emit b (drop b F) rerr cp w =
        stream_loop hash emit b cp rerr ((s @ L @ [NL]) @ ?Q) (b + Suc (length l)) False
          ((stream_start b cp)\<lparr>sr_observedSize := b + Suc (length l)\<rparr>) w"
      unfolding streamActive_def body using fr(2) pos lens by (intro stream_fragment) auto
    also have "\<dots> = stream_loop hash emit b cp rerr ?Q ?off False (validated_start cp) w"
      using stream_skip [of "s @ L @ [NL]" "b + Suc (length l)" cp False b hash emit rerr ?Q] lens recs hash L(2)
      by (simp add: validated_start_def stream_start_def)
    finally show ?thesis using tail by simp
  qed
qed


text \<open>The checkpoint a validated stream leaves matches the file, and every extension of it.\<close>

lemma cp_matches_append: "cp_matches hash F cp \<Longrightarrow> cp_matches hash (F @ G) cp"
  by (auto simp: cp_matches_def nth_append)

lemma cp_matches_next:
  assumes m: "cp_matches hash F cp"
    and r: "r = tail_result hash (drop (cp_ByteOffset cp) F) (cp_ByteOffset cp) (validated_start cp)"
    and cp': "cp_ByteOffset cp' = sr_newOffset r" "cp_LastRecordHash cp' = sr_lastHash r"
  shows "cp_matches hash F cp'"
proof (cases "records (drop (cp_ByteOffset cp) F) = []")
  case True
  then have "cp_ByteOffset cp' = cp_ByteOffset cp" "cp_LastRecordHash cp' = cp_LastRecordHash cp"
    using r cp' by (simp_all add: tail_result_def validated_start_def stream_start_def)
  with m show ?thesis by (simp add: cp_matches_def)
next
  case False
  let ?off = "cp_ByteOffset cp"
  let ?P = "take ?off F" and ?Q = "drop ?off F"
  have off': "cp_ByteOffset cp' = ?off + records_size ?Q" and h: "cp_LastRecordHash cp' = hash (capped (last (records ?Q)))"
    using r cp' False by (simp_all add: tail_result_def)
  have pos: "0 < records_size ?Q" using False by (cases "records ?Q") (auto simp: records_size_def)
  have le: "?off \<le> length F" using m by (auto simp: cp_matches_def)
  have "F ! (?off + (records_size ?Q - 1)) = NL"
    using records_size_end [OF pos] records_size_le [of ?Q] pos le by (simp add: nth_drop)
  moreover have "?off + records_size ?Q \<le> length F"
    using records_size_le [of ?Q] le by simp
  moreover have "records (take (?off + records_size ?Q) F) = records ?P @ records ?Q"
  proof -
    show ?thesis using cp_matches_last [OF m] by (simp add: take_add records_append records_take)
  qed
  ultimately show ?thesis
    using pos h False by (simp add: cp_matches_def off')
qed

section \<open>A reset emits nothing\<close>

lemma stream_loop_reset:
  assumes "stream_loop hash emit b cp rerr s pos first res w = (Inr res', w')" and "sr_needReset res'"
    and "\<not> sr_needReset res" and "sr_validated res \<Longrightarrow> cp_ByteOffset cp \<le> pos"
    and "w = w0 \<or> (sr_validated res \<and> \<not> first)"
  shows "w' = w0"
  using assms
proof (induction s arbitrary: pos first res w rule: lines_induct)
  case (unfinished s)
  then show ?case
    by (auto simp: stream_loop_end stream_end_def observe_def split: if_splits)
next
  case (line l s)
  show ?case
  proof (cases "applyRecord hash emit (capped l) (pos + Suc (length l)) b first cp (res\<lparr>sr_observedSize := pos + Suc (length l)\<rparr>) w")
    case (fields r res1 w1)
    show ?thesis
    proof (cases "r = Inr False")
      case True
      then have "stream_loop hash emit b cp rerr s (pos + Suc (length l)) False res1 w1 = (Inr res', w')"
        using line.prems(1) line.hyps fields by (simp add: stream_loop_line)
      moreover have "\<not> sr_needReset res1" "sr_validated res1 \<Longrightarrow> cp_ByteOffset cp \<le> pos + Suc (length l)"
        "w1 = w0 \<or> (sr_validated res1 \<and> \<not> False)"
        using fields True line.prems by (auto simp: applyRecord_def split: if_splits prod.splits sum.splits)
      ultimately show ?thesis by (intro line.IH [OF _ line.prems(2)]) auto
    next
      case False
      then show ?thesis
        using fields line.prems line.hyps
        by (auto simp: stream_loop_line applyRecord_def split: if_splits prod.splits sum.splits bool.splits)
    qed
  qed
qed

text \<open>
  When streaming the active log finds that the file is not the one behind
  the checkpoint, and so asks for it to be read again from the start, it has handed on no record of
  it, whatever the body holds and however often the hash collides.
\<close>

theorem reset_emits_nothing:
  assumes "streamActive hash emit b body rerr cp w = (Inr res, w')" and "sr_needReset res"
  shows "w' = w"
  using stream_loop_reset [OF assms(1) [unfolded streamActive_def] assms(2), of w] by (simp add: stream_start_def)

definition collect :: "string list emitter" where
  "collect rec w = (Inr (), w @ [rec])"

definition replaced_checkpoint :: nodeLogCheckpoint where
  "replaced_checkpoint = (fresh_checkpoint ''n'' ''u'' [])\<lparr>cp_ByteOffset := 3, cp_LastRecordHash := ''ab''\<rparr>"

theorem reset_emits_nothing_witness:
  "\<exists>res w'. streamActive (\<lambda>l. l) collect 0 (''xy'' @ [NL] @ ''z'' @ [NL]) IoEOF replaced_checkpoint [] = (Inr res, w')
     \<and> sr_needReset res \<and> w' = []"
proof -
  let ?r = "streamActive (\<lambda>l. l) collect 0 (''xy'' @ [NL] @ ''z'' @ [NL]) IoEOF replaced_checkpoint []"
  have "stream_loop (\<lambda>l. l) collect 0 replaced_checkpoint IoEOF (''xy'' @ NL # (''z'' @ [NL])) 0 True (stream_start 0 replaced_checkpoint) []
      = (Inr ((stream_start 0 replaced_checkpoint)\<lparr>sr_observedSize := 3, sr_needReset := True\<rparr>), [])"
    by (subst stream_loop_line)
       (simp_all add: applyRecord_def capped_def replaced_checkpoint_def fresh_checkpoint_def maxRecoveryScanLine_def)
  then have r: "?r = (Inr ((stream_start 0 replaced_checkpoint)\<lparr>sr_observedSize := 3, sr_needReset := True\<rparr>), [])"
    by (simp add: streamActive_def)
  from reset_emits_nothing [OF r] r show ?thesis by simp
qed

end
