(* ===== verification/Log_Rotation.thy ===== *)
theory Log_Rotation
  imports Go_Strings "HOL-Library.Multiset"
begin

text \<open>
  \<open>internal/controller/stream/flows/awsautomode/rotation.go\<close> and the name handling of \<open>fetcher.go\<close>:
  recognising the rotated generations of a node's log in the kubelet's directory page, one entry
  per generation, oldest first, and the generations a poll has not seen yet.
\<close>

section \<open>Rotated files\<close>

record RotatedFile =
  rf_ID :: string
  rf_Filename :: string
  rf_Compressed :: bool

text \<open>\<open>strings.LastIndex\<close> of a period splits the name in front of its last extension.\<close>

definition splitActiveBase :: "string \<Rightarrow> string \<times> string" where
  "splitActiveBase activeBase =
     (if CHR ''.'' \<in> set activeBase
      then let ext = rev (takeWhile (\<lambda>c. c \<noteq> CHR ''.'') (rev activeBase))
           in (take (length activeBase - Suc (length ext)) activeBase, CHR ''.'' # ext)
      else (activeBase, []))"

definition parseRotationFilename :: "string \<Rightarrow> string \<Rightarrow> RotatedFile option" where
  "parseRotationFilename name activeBase =
     (let (pre, ext) = splitActiveBase activeBase;
          head = pre @ ''-''
      in if \<not> prefix head name then None
         else let rest = drop (length head) name;
                  compressed = suffix ''.gz'' rest;
                  rest' = (if compressed then TrimSuffix rest ''.gz'' else rest)
              in if \<not> suffix ext rest' then None
                 else let id = TrimSuffix rest' ext
                      in if \<not> parse_backup_time id then None
                         else Some \<lparr>rf_ID = id, rf_Filename = name, rf_Compressed = compressed\<rparr>)"

section \<open>Generations\<close>

text \<open>\<open>sort.Slice\<close> with \<open>files[i].ID < files[j].ID\<close>; the callers sort entries of distinct IDs.\<close>

definition sortRotations :: "RotatedFile list \<Rightarrow> RotatedFile list" where
  "sortRotations files = sort_key rf_ID files"

definition dedup_insert :: "RotatedFile \<Rightarrow> (string, RotatedFile) gomap \<Rightarrow> (string, RotatedFile) gomap" where
  "dedup_insert f byID =
     (case gm_get byID (rf_ID f) of
        None \<Rightarrow> gm_put (rf_ID f) f byID
      | Some existing \<Rightarrow>
          if \<not> rf_Compressed f \<and> rf_Compressed existing then gm_put (rf_ID f) f byID else byID)"

definition dedupRotations :: "RotatedFile list \<Rightarrow> RotatedFile list" where
  "dedupRotations files = sortRotations (map snd (fold dedup_insert files []))"

definition unseenRotations :: "RotatedFile list \<Rightarrow> string \<Rightarrow> RotatedFile list" where
  "unseenRotations files lastRotationID = filter (\<lambda>f. lastRotationID < rf_ID f) (dedupRotations files)"

definition newestRotationID :: "RotatedFile list \<Rightarrow> string" where
  "newestRotationID files = (let deduped = dedupRotations files in if deduped = [] then [] else rf_ID (last deduped))"

definition findRotationByID :: "RotatedFile list \<Rightarrow> string \<Rightarrow> RotatedFile option" where
  "findRotationByID files rid = List.find (\<lambda>f. rf_ID f = rid) (dedupRotations files)"

section \<open>The directory page\<close>

text \<open>The leftmost, non-overlapping matches of \<open>href="([^"?]+)"\<close>.\<close>

definition href_name :: "string \<Rightarrow> string" where
  "href_name s = takeWhile (\<lambda>c. c \<noteq> CHR 34 \<and> c \<noteq> CHR ''?'') (drop 6 s)"

definition href_at :: "string \<Rightarrow> bool" where
  "href_at s \<longleftrightarrow> prefix (''href='' @ [CHR 34]) s \<and> href_name s \<noteq> []
     \<and> prefix [CHR 34] (drop (6 + length (href_name s)) s)"

function hrefs :: "string \<Rightarrow> string list" where
  "hrefs s = (if s = [] then []
              else if href_at s then href_name s # hrefs (drop (7 + length (href_name s)) s)
              else hrefs (tl s))"
  by auto
termination
  by (relation "measure length") (auto simp: href_at_def)

declare hrefs.simps [simp del]

definition list_rotations :: "string \<Rightarrow> string \<Rightarrow> RotatedFile list" where
  "list_rotations raw base = List.map_filter (\<lambda>name. parseRotationFilename name base) (hrefs raw)"

section \<open>The Content-Range header\<close>

definition parseContentRangeStart :: "string \<Rightarrow> int \<Rightarrow> int" where
  "parseContentRangeStart header fallback =
     (let h = TrimSpace header
      in if \<not> prefix ''bytes '' h then fallback
         else let spec = TrimPrefix h ''bytes '';
                  dash = length (takeWhile (\<lambda>c. c \<noteq> CHR ''-'') spec)
              in if dash = 0 \<or> dash = length spec then fallback
                 else case ParseInt64 (take dash spec) of
                        None \<Rightarrow> fallback
                      | Some start \<Rightarrow> if start < 0 then fallback else start)"

section \<open>Names\<close>

lemma splitActiveBase_append: "fst (splitActiveBase b) @ snd (splitActiveBase b) = b"
proof (cases "CHR ''.'' \<in> set b")
  case True
  define ext where "ext = rev (takeWhile (\<lambda>c. c \<noteq> CHR ''.'') (rev b))"
  obtain us vs where rv: "rev b = us @ CHR ''.'' # vs" and us: "CHR ''.'' \<notin> set us"
    using True split_list_first [of "CHR ''.''" "rev b"] by auto
  have tw: "takeWhile (\<lambda>c. c \<noteq> CHR ''.'') (rev b) = us"
    unfolding rv using us by (auto simp: takeWhile_append)
  have b: "b = rev vs @ CHR ''.'' # rev us"
    using arg_cong [OF rv, of rev] by simp
  show ?thesis
    using True by (simp add: splitActiveBase_def Let_def tw) (simp add: b)
qed (simp add: splitActiveBase_def)


lemma gz_not_log: "\<not> suffix ''.gz'' (x @ ''.log'')"
  by (auto simp: suffix_def append_eq_append_conv2 Cons_eq_append_conv append_eq_Cons_conv)

lemma parse_sound:
  assumes "parseRotationFilename name base = Some f"
  shows "parse_backup_time (rf_ID f) \<and> rf_Filename f = name
         \<and> name = fst (splitActiveBase base) @ ''-'' @ rf_ID f @ snd (splitActiveBase base)
                  @ (if rf_Compressed f then ''.gz'' else [])"
proof -
  obtain pre ext where sp: "splitActiveBase base = (pre, ext)" by fastforce
  define rest where "rest = drop (length (pre @ ''-'')) name"
  define rest' where "rest' = (if suffix ''.gz'' rest then TrimSuffix rest ''.gz'' else rest)"
  have facts: "prefix (pre @ ''-'') name" "suffix ext rest'" "parse_backup_time (TrimSuffix rest' ext)"
    and f: "f = \<lparr>rf_ID = TrimSuffix rest' ext, rf_Filename = name, rf_Compressed = suffix ''.gz'' rest\<rparr>"
    using assms by (auto simp: parseRotationFilename_def Let_def sp rest_def rest'_def split: if_splits)
  define tid where "tid = TrimSuffix rest' ext"
  define z where "z = (if suffix ''.gz'' rest then ''.gz'' else [])"
  have "name = pre @ ''-'' @ rest" "rest = rest' @ z" "rest' = tid @ ext"
    using facts prefix_drop [of "pre @ ''-''" name] suffix_TrimSuffix [of "''.gz''" rest] suffix_TrimSuffix [of ext rest']
    by (auto simp: rest_def rest'_def tid_def z_def)
  then have "name = pre @ ''-'' @ tid @ ext @ z" by simp
  then show ?thesis
    using facts f by (simp add: sp tid_def z_def)
qed

lemma parse_complete:
  assumes "splitActiveBase base = (pre, ''.log'')" and "parse_backup_time tid"
  shows "parseRotationFilename (pre @ ''-'' @ tid @ ''.log'') base
           = Some \<lparr>rf_ID = tid, rf_Filename = pre @ ''-'' @ tid @ ''.log'', rf_Compressed = False\<rparr>"
    and "parseRotationFilename (pre @ ''-'' @ tid @ ''.log.gz'') base
           = Some \<lparr>rf_ID = tid, rf_Filename = pre @ ''-'' @ tid @ ''.log.gz'', rf_Compressed = True\<rparr>"
proof -
  have "suffix ''.gz'' (tid @ ''.log.gz'')" "TrimSuffix (tid @ ''.log.gz'') ''.gz'' = tid @ ''.log''"
    using TrimSuffix_append [of "tid @ ''.log''" "''.gz''"] by (auto simp: suffix_def intro: exI [of _ "tid @ ''.log''"])
  moreover have "suffix ''.log'' (tid @ ''.log'')" "TrimSuffix (tid @ ''.log'') ''.log'' = tid"
    by (auto simp: suffix_def)
  ultimately show "parseRotationFilename (pre @ ''-'' @ tid @ ''.log'') base
           = Some \<lparr>rf_ID = tid, rf_Filename = pre @ ''-'' @ tid @ ''.log'', rf_Compressed = False\<rparr>"
    "parseRotationFilename (pre @ ''-'' @ tid @ ''.log.gz'') base
           = Some \<lparr>rf_ID = tid, rf_Filename = pre @ ''-'' @ tid @ ''.log.gz'', rf_Compressed = True\<rparr>"
    using assms gz_not_log [of tid] by (simp_all add: parseRotationFilename_def)
qed

text \<open>
  With an active log named with the extension \<open>.log\<close>, a directory entry is taken for a
  rotated generation exactly when it is the name lumberjack gives one, the active name's stem, a
  dash, a timestamp in the backup layout and the extension, with \<open>.gz\<close> appended when it is
  compressed; the entry then carries that timestamp and whether it is compressed.
\<close>

theorem rotation_names:
  assumes "splitActiveBase base = (pre, ''.log'')"
  shows "parseRotationFilename name base = Some f \<longleftrightarrow>
           parse_backup_time (rf_ID f) \<and> rf_Filename f = name
           \<and> name = pre @ ''-'' @ rf_ID f @ (if rf_Compressed f then ''.log.gz'' else ''.log'')"
proof
  assume "parseRotationFilename name base = Some f"
  from parse_sound [OF this] show "parse_backup_time (rf_ID f) \<and> rf_Filename f = name
           \<and> name = pre @ ''-'' @ rf_ID f @ (if rf_Compressed f then ''.log.gz'' else ''.log'')"
    by (simp add: assms split: if_splits)
next
  assume "parse_backup_time (rf_ID f) \<and> rf_Filename f = name
           \<and> name = pre @ ''-'' @ rf_ID f @ (if rf_Compressed f then ''.log.gz'' else ''.log'')"
  then show "parseRotationFilename name base = Some f"
    using parse_complete [OF assms, of "rf_ID f"] by (cases f) (auto split: if_splits)
qed

theorem rotation_names_witness:
  "splitActiveBase ''network-policy-agent.log'' = (''network-policy-agent'', ''.log'')
   \<and> parseRotationFilename ''network-policy-agent-2026-08-07T15-04-05.000.log.gz'' ''network-policy-agent.log''
       = Some \<lparr>rf_ID = ''2026-08-07T15-04-05.000'', rf_Filename = ''network-policy-agent-2026-08-07T15-04-05.000.log.gz'',
               rf_Compressed = True\<rparr>"
proof (rule conjI)
  show sp: "splitActiveBase ''network-policy-agent.log'' = (''network-policy-agent'', ''.log'')"
    by (simp add: splitActiveBase_def Let_def)
  show "parseRotationFilename ''network-policy-agent-2026-08-07T15-04-05.000.log.gz'' ''network-policy-agent.log''
       = Some \<lparr>rf_ID = ''2026-08-07T15-04-05.000'', rf_Filename = ''network-policy-agent-2026-08-07T15-04-05.000.log.gz'',
               rf_Compressed = True\<rparr>"
    unfolding rotation_names [OF sp] by (simp add: parse_backup_time_defs)
qed

section \<open>One entry per generation\<close>

definition best_of :: "RotatedFile set \<Rightarrow> RotatedFile \<Rightarrow> bool" where
  "best_of fs f \<longleftrightarrow> f \<in> fs \<and> (rf_Compressed f \<longrightarrow> (\<forall>g \<in> fs. rf_ID g = rf_ID f \<longrightarrow> rf_Compressed g))"

definition dedup_ok :: "RotatedFile set \<Rightarrow> (string, RotatedFile) gomap \<Rightarrow> bool" where
  "dedup_ok fs m \<longleftrightarrow> gm_ok m \<and>
     (\<forall>k. case gm_get m k of None \<Rightarrow> \<forall>f \<in> fs. rf_ID f \<noteq> k | Some f \<Rightarrow> rf_ID f = k \<and> best_of fs f)"

lemma best_of_insert_other: "best_of fs g \<Longrightarrow> rf_ID f \<noteq> rf_ID g \<or> \<not> rf_Compressed g \<or> rf_Compressed f
    \<Longrightarrow> best_of (insert f fs) g"
  by (auto simp: best_of_def)

lemma best_of_insert_self: "\<not> rf_Compressed f \<or> (\<forall>g \<in> fs. rf_ID g \<noteq> rf_ID f) \<Longrightarrow> best_of (insert f fs) f"
  by (auto simp: best_of_def)

lemma dedup_ok_insert:
  assumes ok: "dedup_ok fs m"
  shows "dedup_ok (insert f fs) (dedup_insert f m)"
  unfolding dedup_ok_def
proof (intro conjI allI)
  show "gm_ok (dedup_insert f m)"
    using ok by (auto simp: dedup_ok_def dedup_insert_def split: option.splits)
next
  fix k
  have k: "case gm_get m k of None \<Rightarrow> \<forall>f \<in> fs. rf_ID f \<noteq> k | Some f \<Rightarrow> rf_ID f = k \<and> best_of fs f"
    using ok unfolding dedup_ok_def by blast
  show "case gm_get (dedup_insert f m) k of None \<Rightarrow> \<forall>f \<in> insert f fs. rf_ID f \<noteq> k
        | Some g \<Rightarrow> rf_ID g = k \<and> best_of (insert f fs) g"
  proof (cases "k = rf_ID f")
    case True
    then show ?thesis
      using k by (cases "gm_get m k") (auto simp: dedup_insert_def intro: best_of_insert_self best_of_insert_other)
  next
    case False
    then have "gm_get (dedup_insert f m) k = gm_get m k"
      by (auto simp: dedup_insert_def split: option.splits)
    with False k show ?thesis
      by (cases "gm_get m k") (auto intro: best_of_insert_other)
  qed
qed

lemma dedup_fold: "dedup_ok fs m \<Longrightarrow> dedup_ok (fs \<union> set files) (fold dedup_insert files m)"
proof (induction files arbitrary: fs m)
  case (Cons f files)
  from Cons.IH [OF dedup_ok_insert [OF Cons.prems, of f]] show ?case by simp
qed simp

lemma dedup_ok_start: "dedup_ok {} []"
  by (simp add: dedup_ok_def)

lemma dedup_map: "dedup_ok (set files) (fold dedup_insert files [])"
  using dedup_fold [OF dedup_ok_start, of files] by simp

lemma dedup_ok_snd: "dedup_ok fs m \<Longrightarrow> (k, f) \<in> set m \<Longrightarrow> rf_ID f = k \<and> best_of fs f"
  by (auto simp: dedup_ok_def dest!: gm_get_in split: option.splits)

lemma map_ID_snd: "dedup_ok fs m \<Longrightarrow> map rf_ID (map snd m) = gm_keys m"
  by (auto dest!: dedup_ok_snd)

lemma dedupRotations_spec:
  shows "sorted (map rf_ID (dedupRotations files))" and "distinct (map rf_ID (dedupRotations files))"
    and "f \<in> set (dedupRotations files) \<Longrightarrow> best_of (set files) f"
    and "rf_ID ` set (dedupRotations files) = rf_ID ` set files"
proof -
  let ?m = "fold dedup_insert files []"
  have ok: "dedup_ok (set files) ?m" by (rule dedup_map)
  have perm: "mset (dedupRotations files) = mset (map snd ?m)"
    by (simp add: dedupRotations_def sortRotations_def)
  show "sorted (map rf_ID (dedupRotations files))"
    by (simp add: dedupRotations_def sortRotations_def)
  have "mset (map rf_ID (dedupRotations files)) = mset (map rf_ID (map snd ?m))"
    using perm by (metis mset_map)
  then show "distinct (map rf_ID (dedupRotations files))"
    using ok map_ID_snd [OF ok] by (metis dedup_ok_def gm_ok_def mset_eq_imp_distinct_iff)
  have set_eq: "set (dedupRotations files) = snd ` set ?m"
    using perm by (metis list.set_map set_mset_mset)
  show "f \<in> set (dedupRotations files) \<Longrightarrow> best_of (set files) f"
    using set_eq dedup_ok_snd [OF ok] by auto
  have "k \<in> rf_ID ` set files \<longleftrightarrow> k \<in> set (gm_keys ?m)" for k
    using ok unfolding gm_keys_iff dedup_ok_def best_of_def by (auto split: option.splits)
  then show "rf_ID ` set (dedupRotations files) = rf_ID ` set files"
    using map_ID_snd [OF ok] set_eq by (metis list.set_map subsetI subset_antisym)
qed


lemma unseen_unfold:
  "sorted (map rf_ID (unseenRotations files lastID)) \<and> distinct (map rf_ID (unseenRotations files lastID))"
  using dedupRotations_spec(1,2) [of files] by (simp add: unseenRotations_def sorted_filter distinct_map_filter)

text \<open>
  The generations a poll recovers are the listed ones whose timestamp is later
  than the last one processed, each generation once and oldest first; every entry is one the listing
  had, and it is the uncompressed file whenever the listing showed that generation uncompressed.
\<close>

theorem unseen_rotations:
  "sorted (map rf_ID (unseenRotations files lastID)) \<and> distinct (map rf_ID (unseenRotations files lastID))
   \<and> rf_ID ` set (unseenRotations files lastID) = {i \<in> rf_ID ` set files. lastID < i}
   \<and> set (unseenRotations files lastID) \<subseteq> {f. best_of (set files) f}"
proof -
  have "rf_ID ` set (unseenRotations files lastID) = {i \<in> rf_ID ` set (dedupRotations files). lastID < i}"
    by (auto simp: unseenRotations_def)
  moreover have "set (unseenRotations files lastID) \<subseteq> {f. best_of (set files) f}"
    using dedupRotations_spec(3) by (auto simp: unseenRotations_def)
  ultimately show ?thesis
    using unseen_unfold by (simp add: dedupRotations_spec(4))
qed

text \<open>After the newest generation has been processed nothing is unseen.\<close>

lemma sorted_le_last: "x \<in> set xs \<Longrightarrow> sorted xs \<Longrightarrow> x \<le> last xs"
  by (induction xs) (auto intro: order_trans)

lemma newest_is_max:
  assumes "f \<in> set files"
  shows "rf_ID f \<le> newestRotationID files"
proof -
  have mem: "rf_ID f \<in> set (map rf_ID (dedupRotations files))"
    using assms dedupRotations_spec(4) [of files] by auto
  then have "dedupRotations files \<noteq> []" by auto
  then show ?thesis
    using sorted_le_last [OF mem dedupRotations_spec(1)] by (simp add: newestRotationID_def Let_def last_map)
qed

lemma unseen_after_newest: "unseenRotations files (newestRotationID files) = []"
  using newest_is_max dedupRotations_spec(3) [of _ files]
  by (force simp: unseenRotations_def filter_empty_conv best_of_def)

lemma findRotationByID_Some: "findRotationByID files rid = Some f \<Longrightarrow> rf_ID f = rid \<and> best_of (set files) f"
  using dedupRotations_spec(3) [of f files] by (auto simp: findRotationByID_def find_Some_iff)

lemma findRotationByID_None: "findRotationByID files rid = None \<longleftrightarrow> rid \<notin> rf_ID ` set files"
  by (auto simp: findRotationByID_def find_None_iff simp flip: dedupRotations_spec(4) [of files])

end
