(* ===== verification/AWS_Flow_Log.thy ===== *)
theory AWS_Flow_Log
  imports Flow_Keys Go_Strings
begin

text \<open>
  \<open>internal/controller/collector/awsvpccni.go\<close> and the layer messages of \<open>types.go\<close>: turning one line of
  the Network Policy Agent's log into a five-tuple flow, and handing it to the flow sink unless it
  is too old. Decoding the line's JSON into the struct and the two \<open>time.Parse\<close> layouts are the fields
  of an argument; the context, the clock and the sink's answer are inputs of each call.
\<close>

section \<open>Layer messages\<close>

definition ErrFalcoIncompleteL3Flow :: go_error where
  "ErrFalcoIncompleteL3Flow = ErrMsg ''ignoring incomplete falco l3 network flow''"

definition ErrFalcoIncompleteL4Flow :: go_error where
  "ErrFalcoIncompleteL4Flow = ErrMsg ''ignoring incomplete falco l4 network flow''"

definition CreateLayer3Message :: "string \<Rightarrow> string \<Rightarrow> string \<Rightarrow> ip_header result" where
  "CreateLayer3Message source destination ipVersion =
     (if ipVersion = ''ipv4'' then Inr \<lparr>ip_source = source, ip_destination = destination, ip_ip_version = IPV4\<rparr>
      else if ipVersion = ''ipv6'' then Inr \<lparr>ip_source = source, ip_destination = destination, ip_ip_version = IPV6\<rparr>
      else Inl ErrFalcoIncompleteL3Flow)"

definition no_tcp_flags :: tcp_flags where
  "no_tcp_flags = \<lparr>tf_fin = False, tf_syn = False, tf_rst = False, tf_psh = False, tf_ack = False, tf_urg = False,
                   tf_ece = False, tf_cwr = False, tf_ns = False\<rparr>"

definition CreateLayer4Message :: "string \<Rightarrow> u32 \<Rightarrow> u32 \<Rightarrow> string \<Rightarrow> layer4 result" where
  "CreateLayer4Message proto srcPort dstPort ipVersion =
     (if proto = ''tcp'' then Inr (L4Tcp srcPort dstPort (Some no_tcp_flags))
      else if proto = ''udp'' then Inr (L4Udp srcPort dstPort)
      else if proto = ''icmp'' \<and> ipVersion = ''ipv4'' then Inr (L4Icmpv4 0 0)
      else if proto = ''icmp'' \<and> ipVersion = ''ipv6'' then Inr (L4Icmpv6 0 0)
      else Inl ErrFalcoIncompleteL4Flow)"

section \<open>The log line\<close>

record AWSVPCCNIFlowLog =
  al_Level :: string
  al_Timestamp :: string
  al_Logger :: string
  al_Caller :: string
  al_Message :: string
  al_SrcIP :: string
  al_SrcPort :: u32
  al_DestIP :: string
  al_DestPort :: u32
  al_Proto :: string
  al_Verdict :: string

text \<open>\<open>json.Unmarshal\<close> into the struct, and \<open>time.Parse\<close> with \<open>RFC3339Nano\<close> and with the second layout.\<close>

record line_lib =
  lib_unmarshal :: "string \<Rightarrow> AWSVPCCNIFlowLog option"
  lib_rfc3339nano :: "string \<Rightarrow> int option"
  lib_iso_millis :: "string \<Rightarrow> int option"

definition ErrAWSVPCCNIInvalidLog :: go_error where
  "ErrAWSVPCCNIInvalidLog = ErrMsg ''invalid AWS VPC CNI flow log format''"
definition ErrAWSVPCCNIInvalidIP :: go_error where
  "ErrAWSVPCCNIInvalidIP = ErrMsg ''invalid IP address in AWS VPC CNI flow log''"
definition ErrAWSVPCCNINotFlowLog :: go_error where
  "ErrAWSVPCCNINotFlowLog = ErrMsg ''log line is not a flow log''"
definition ErrAWSVPCCNIInvalidProtocol :: go_error where
  "ErrAWSVPCCNIInvalidProtocol = ErrMsg ''unsupported protocol in AWS VPC CNI flow log''"
definition ErrAWSVPCCNIInvalidTimestamp :: go_error where
  "ErrAWSVPCCNIInvalidTimestamp = ErrMsg ''invalid or missing timestamp in AWS VPC CNI flow log''"

text \<open>
  The regular expression \<open>flowMsgPattern\<close>. Its pieces alternate between white space and the
  complement of white space, so each repetition can only match the longest run.
\<close>

definition re_space :: "char \<Rightarrow> bool" where
  "re_space c \<longleftrightarrow> of_char c \<in> {9, 10, 12, 13, 32 :: nat}"

definition re_lit :: "string \<Rightarrow> string \<Rightarrow> string option" where
  "re_lit p s = (if prefix p s then Some (drop (length p) s) else None)"

definition re_spaces :: "string \<Rightarrow> string" where
  "re_spaces s = dropWhile re_space s"

definition re_spaces1 :: "string \<Rightarrow> string option" where
  "re_spaces1 s = (case s of c # _ \<Rightarrow> if re_space c then Some (re_spaces s) else None | [] \<Rightarrow> None)"

definition re_run :: "(char \<Rightarrow> bool) \<Rightarrow> string \<Rightarrow> (string \<times> string) option" where
  "re_run p s = (if takeWhile p s = [] then None else Some (takeWhile p s, dropWhile p s))"

definition flow_msg_at :: "string \<Rightarrow> (string \<times> string \<times> string \<times> string \<times> string \<times> string) option" where
  "flow_msg_at s = do {
     s \<leftarrow> re_lit ''Flow Info:'' s;
     s \<leftarrow> re_lit ''Src IP:'' (re_spaces s);
     (srcIP, s) \<leftarrow> re_run (\<lambda>c. \<not> re_space c) (re_spaces s);
     s \<leftarrow> re_spaces1 s;
     s \<leftarrow> re_lit ''Src Port:'' s;
     (srcPort, s) \<leftarrow> re_run is_digit (re_spaces s);
     s \<leftarrow> re_spaces1 s;
     s \<leftarrow> re_lit ''Dest IP:'' s;
     (destIP, s) \<leftarrow> re_run (\<lambda>c. \<not> re_space c) (re_spaces s);
     s \<leftarrow> re_spaces1 s;
     s \<leftarrow> re_lit ''Dest Port:'' s;
     (destPort, s) \<leftarrow> re_run is_digit (re_spaces s);
     s \<leftarrow> re_spaces1 s;
     s \<leftarrow> re_lit ''Proto'' s;
     s \<leftarrow> re_spaces1 s;
     (proto, s) \<leftarrow> re_run (\<lambda>c. \<not> re_space c) s;
     s \<leftarrow> re_spaces1 s;
     s \<leftarrow> re_lit ''Verdict'' s;
     s \<leftarrow> re_spaces1 s;
     (verdict, s) \<leftarrow> re_run (\<lambda>c. \<not> re_space c) s;
     Some (srcIP, srcPort, destIP, destPort, proto, verdict)
   }"

text \<open>\<open>FindStringSubmatch\<close>: the leftmost match.\<close>

fun find_flow_msg :: "string \<Rightarrow> (string \<times> string \<times> string \<times> string \<times> string \<times> string) option" where
  "find_flow_msg [] = None"
| "find_flow_msg (c # s) = (case flow_msg_at (c # s) of Some m \<Rightarrow> Some m | None \<Rightarrow> find_flow_msg s)"

definition parseFlowFromMsg :: "string \<Rightarrow> (string \<times> u32 \<times> string \<times> u32 \<times> string \<times> string) option" where
  "parseFlowFromMsg msg =
     (case find_flow_msg msg of
        None \<Rightarrow> None
      | Some (srcIP, srcPort, destIP, destPort, proto, verdict) \<Rightarrow>
          (case ParseUint 32 srcPort of
             None \<Rightarrow> None
           | Some sp \<Rightarrow>
               (case ParseUint 32 destPort of
                  None \<Rightarrow> None
                | Some dp \<Rightarrow> Some (srcIP, of_nat sp, destIP, of_nat dp, proto, verdict))))"

definition parseOldFormat :: "AWSVPCCNIFlowLog \<Rightarrow> (string \<times> u32 \<times> string \<times> u32 \<times> string) option" where
  "parseOldFormat log =
     (if al_SrcIP log = [] \<or> al_DestIP log = [] then None
      else Some (al_SrcIP log, al_SrcPort log, al_DestIP log, al_DestPort log, al_Proto log))"

definition isIPv6 :: "string \<Rightarrow> bool" where
  "isIPv6 addr \<longleftrightarrow> CHR '':'' \<in> set addr"

definition flow_of_fields :: "line_lib \<Rightarrow> AWSVPCCNIFlowLog \<Rightarrow> string \<times> u32 \<times> string \<times> u32 \<times> string
    \<Rightarrow> five_tuple_flow result" where
  "flow_of_fields lib log = (\<lambda>(srcIP, srcPort, destIP, destPort, proto).
     let ipVersion = (if isIPv6 srcIP \<or> isIPv6 destIP then ''ipv6'' else ''ipv4'')
     in case CreateLayer3Message srcIP destIP ipVersion of
          Inl _ \<Rightarrow> Inl ErrAWSVPCCNIInvalidIP
        | Inr layer3 \<Rightarrow>
            let protoStr = (if ToLower proto = ''unknown'' then ''tcp'' else ToLower proto)
            in case CreateLayer4Message protoStr srcPort destPort ipVersion of
                 Inl _ \<Rightarrow> Inl ErrAWSVPCCNIInvalidProtocol
               | Inr layer4 \<Rightarrow>
                   if al_Timestamp log = [] then Inl ErrAWSVPCCNIInvalidTimestamp
                   else case lib_rfc3339nano lib (al_Timestamp log) of
                          Some t \<Rightarrow> Inr \<lparr>ft_layer3 = Some layer3, ft_layer4 = Some layer4, ft_timestamp = Some t\<rparr>
                        | None \<Rightarrow>
                            (case lib_iso_millis lib (al_Timestamp log) of
                               Some t \<Rightarrow> Inr \<lparr>ft_layer3 = Some layer3, ft_layer4 = Some layer4, ft_timestamp = Some t\<rparr>
                             | None \<Rightarrow> Inl ErrAWSVPCCNIInvalidTimestamp))"

definition ParseAWSVPCCNIFlowLog :: "line_lib \<Rightarrow> string \<Rightarrow> five_tuple_flow result" where
  "ParseAWSVPCCNIFlowLog lib line =
     (case lib_unmarshal lib line of
        None \<Rightarrow> Inl ErrAWSVPCCNINotFlowLog
      | Some log \<Rightarrow>
          if \<not> str_contains ''Flow Info'' (al_Message log) then Inl ErrAWSVPCCNINotFlowLog
          else let isOldFormat = (al_Logger log = ''ebpf-client'');
                   isNewFormat = (al_Caller log \<noteq> [] \<and> al_Logger log = [])
               in if \<not> isOldFormat \<and> \<not> isNewFormat then Inl ErrAWSVPCCNINotFlowLog
                  else case (if isOldFormat then parseOldFormat log
                             else map_option (\<lambda>(si, sp, di, dp, p, _). (si, sp, di, dp, p))
                                    (parseFlowFromMsg (al_Message log))) of
                         None \<Rightarrow> Inl ErrAWSVPCCNIInvalidLog
                       | Some fs \<Rightarrow> flow_of_fields lib log fs)"

section \<open>The sink\<close>

record line_env =
  le_ctx_done :: bool
  le_now :: int
  le_cache_err :: "go_error option"

text \<open>The sink's flows and its counter; \<open>sk_lines\<close> is the trace of the lines handed to the parser.\<close>

record flow_sink =
  sk_flows :: "five_tuple_flow list"
  sk_received :: nat
  sk_lines :: "string list"

definition MaxFlowAge :: int where
  "MaxFlowAge = 2 * 60 * 1000000000"

definition CacheFlowLine :: "line_lib \<Rightarrow> line_env \<Rightarrow> string \<Rightarrow> int option \<Rightarrow> flow_sink \<Rightarrow> bool result \<times> flow_sink" where
  "CacheFlowLine lib env line notBefore sink =
     (if le_ctx_done env then (Inl CtxErr, sink)
      else case ParseAWSVPCCNIFlowLog lib line of
             Inl _ \<Rightarrow> (Inr False, sink)
           | Inr flow \<Rightarrow>
               if (case notBefore of Some t \<Rightarrow> StartTimestamp (FiveTupleFlow flow) < t | None \<Rightarrow> False)
               then (Inr False, sink)
               else case le_cache_err env of
                      Some _ \<Rightarrow> (Inr False, sink)
                    | None \<Rightarrow> (Inr True, sink\<lparr>sk_flows := sk_flows sink @ [flow], sk_received := Suc (sk_received sink)\<rparr>))"


section \<open>The agent's message parses back\<close>

lemma re_lit_append [simp]: "re_lit p (p @ s) = Some s"
  by (simp add: re_lit_def)

lemma re_spaces_one [simp]: "s \<noteq> [] \<Longrightarrow> \<not> re_space (hd s) \<Longrightarrow> re_spaces (CHR '' '' # s) = s"
  by (cases s) (simp_all add: re_spaces_def re_space_def)

lemma re_spaces1_one [simp]: "s \<noteq> [] \<Longrightarrow> \<not> re_space (hd s) \<Longrightarrow> re_spaces1 (CHR '' '' # s) = Some s"
  by (simp add: re_spaces1_def) (simp add: re_space_def)

definition word :: "string \<Rightarrow> bool" where
  "word w \<longleftrightarrow> w \<noteq> [] \<and> list_all (\<lambda>c. \<not> re_space c) w"

definition ends_word :: "string \<Rightarrow> bool" where
  "ends_word s \<longleftrightarrow> s = [] \<or> re_space (hd s)"

lemma re_run_append:
  assumes "w \<noteq> []" and "list_all p w" and "s = [] \<or> \<not> p (hd s)"
  shows "re_run p (w @ s) = Some (w, s)"
proof -
  have "takeWhile p (w @ s) = w" "dropWhile p (w @ s) = s"
    using assms by (cases s; auto simp: list_all_iff takeWhile_append dropWhile_append)+
  then show ?thesis using assms(1) by (simp add: re_run_def)
qed

lemma re_run_word: "word w \<Longrightarrow> ends_word s \<Longrightarrow> re_run (\<lambda>c. \<not> re_space c) (w @ s) = Some (w, s)"
  by (rule re_run_append) (auto simp: word_def ends_word_def)

lemma word_hd: "word w \<Longrightarrow> \<not> re_space (hd (w @ s))"
  by (cases w) (auto simp: word_def)

lemma digit_not_space: "is_digit c \<Longrightarrow> \<not> re_space c"
  by (auto simp: is_digit_def re_space_def)

lemma string_of_nat_word: "word (string_of_nat n)"
  using string_of_nat_digits [of n] by (auto simp: word_def list_all_iff digit_not_space)

lemma re_run_number: "re_run is_digit (string_of_nat n @ CHR '' '' # s) = Some (string_of_nat n, CHR '' '' # s)"
  using string_of_nat_digits [of n] by (intro re_run_append) (auto simp: is_digit_def)

definition agent_msg :: "string \<Rightarrow> nat \<Rightarrow> string \<Rightarrow> nat \<Rightarrow> string \<Rightarrow> string \<Rightarrow> string \<Rightarrow> string" where
  "agent_msg srcIP srcPort destIP destPort proto verdict rest =
     ''Flow Info: Src IP: '' @ srcIP @ '' Src Port: '' @ string_of_nat srcPort @ '' Dest IP: '' @ destIP
     @ '' Dest Port: '' @ string_of_nat destPort @ '' Proto '' @ proto @ '' Verdict '' @ verdict @ rest"

lemma re_lit_literals [simp]:
  "re_lit ''Flow Info:'' (''Flow Info:'' @ s) = Some s" "re_lit ''Src IP:'' (''Src IP:'' @ s) = Some s"
  "re_lit ''Src Port:'' (''Src Port:'' @ s) = Some s" "re_lit ''Dest IP:'' (''Dest IP:'' @ s) = Some s"
  "re_lit ''Dest Port:'' (''Dest Port:'' @ s) = Some s" "re_lit ''Proto'' (''Proto'' @ s) = Some s"
  "re_lit ''Verdict'' (''Verdict'' @ s) = Some s"
  by (simp_all only: re_lit_append)

lemma flow_msg_agent:
  assumes "word srcIP" "word destIP" "word proto" "word verdict" "ends_word rest"
  shows "flow_msg_at (agent_msg srcIP srcPort destIP destPort proto verdict rest)
           = Some (srcIP, string_of_nat srcPort, destIP, string_of_nat destPort, proto, verdict)"
proof -
  note ne = assms(1-4) [unfolded word_def, THEN conjunct1] string_of_nat_word [of srcPort] string_of_nat_word [of destPort]
  have e: "ends_word (CHR '' '' # s)" for s by (simp add: ends_word_def re_space_def)
  show ?thesis
    using assms word_hd [of srcIP] word_hd [of destIP] word_hd [of proto] word_hd [of verdict] ne
      word_hd [OF string_of_nat_word]
    by (simp add: flow_msg_at_def agent_msg_def re_lit_def re_run_word [OF _ e] re_run_number re_run_word
        re_space_def [of "CHR ''S''"] re_space_def [of "CHR ''D''"] re_space_def [of "CHR ''P''"] re_space_def [of "CHR ''V''"]
        string_of_nat_digits)
qed


lemma parse_agent_msg:
  assumes "word srcIP" "word destIP" "word proto" "word verdict" "ends_word rest" "srcPort < 2 ^ 32" "destPort < 2 ^ 32"
  shows "parseFlowFromMsg (agent_msg srcIP srcPort destIP destPort proto verdict rest)
           = Some (srcIP, of_nat srcPort, destIP, of_nat destPort, proto, verdict)"
proof -
  obtain c s where cs: "agent_msg srcIP srcPort destIP destPort proto verdict rest = c # s"
    by (simp add: agent_msg_def)
  then have "find_flow_msg (agent_msg srcIP srcPort destIP destPort proto verdict rest)
      = Some (srcIP, string_of_nat srcPort, destIP, string_of_nat destPort, proto, verdict)"
    using flow_msg_agent [OF assms(1-5), of srcPort destPort] by simp
  then show ?thesis
    using assms(6,7) by (simp add: parseFlowFromMsg_def ParseUint_string_of_nat)
qed

lemma prefix_str_contains: "prefix p s \<Longrightarrow> str_contains p s"
  by (cases s) auto

lemma str_contains_append: "str_contains p (p @ s)"
  by (simp add: prefix_str_contains)

lemma agent_msg_flow_info: "str_contains ''Flow Info'' (agent_msg si sp di dp p v r)"
  using str_contains_append [of "''Flow Info''" "'': Src IP: '' @ si @ '' Src Port: '' @ string_of_nat sp @ '' Dest IP: '' @ di
     @ '' Dest Port: '' @ string_of_nat dp @ '' Proto '' @ p @ '' Verdict '' @ v @ r"]
  by (simp add: agent_msg_def)

text \<open>The layer 4 header a protocol name and the address family stand for.\<close>

fun l4_of_proto :: "string \<Rightarrow> bool \<Rightarrow> u32 \<Rightarrow> u32 \<Rightarrow> layer4 option" where
  "l4_of_proto p v6 sp dp =
     (if p = ''tcp'' \<or> p = ''unknown'' then Some (L4Tcp sp dp (Some no_tcp_flags))
      else if p = ''udp'' then Some (L4Udp sp dp)
      else if p = ''icmp'' then Some (if v6 then L4Icmpv6 0 0 else L4Icmpv4 0 0)
      else None)"

lemma flow_of_fields_eq:
  assumes "al_Timestamp log \<noteq> []"
    and "lib_rfc3339nano lib (al_Timestamp log) = Some t \<or>
         (lib_rfc3339nano lib (al_Timestamp log) = None \<and> lib_iso_millis lib (al_Timestamp log) = Some t)"
  shows "flow_of_fields lib log (si, sp, di, dp, p) =
           (case l4_of_proto (ToLower p) (isIPv6 si \<or> isIPv6 di) sp dp of
              None \<Rightarrow> Inl ErrAWSVPCCNIInvalidProtocol
            | Some l4 \<Rightarrow> Inr \<lparr>ft_layer3 = Some \<lparr>ip_source = si, ip_destination = di,
                                ip_ip_version = (if isIPv6 si \<or> isIPv6 di then IPV6 else IPV4)\<rparr>,
                              ft_layer4 = Some l4, ft_timestamp = Some t\<rparr>)"
  using assms by (auto simp: flow_of_fields_def CreateLayer3Message_def CreateLayer4Message_def Let_def)

text \<open>
  C36: a line in which the current agent reports a flow is parsed back into that
  flow: whatever its addresses, ports below \<open>2^32\<close>, protocol and verdict, and whatever the message says
  after them, the result carries those addresses and ports, the line's timestamp, IPv6 exactly when
  an address has a colon, and the layer 4 header of the protocol, TCP when the agent reports the
  protocol as unknown; a protocol other than TCP, UDP and ICMP, SCTP included, is an error.
\<close>

theorem agent_line_parses:
  assumes line: "lib_unmarshal lib line = Some log" "al_Logger log = []" "al_Caller log \<noteq> []"
    and msg: "al_Message log = agent_msg srcIP srcPort destIP destPort proto verdict rest"
    and words: "word srcIP" "word destIP" "word proto" "word verdict" "ends_word rest"
    and ports: "srcPort < 2 ^ 32" "destPort < 2 ^ 32"
    and stamp: "al_Timestamp log \<noteq> []" "lib_rfc3339nano lib (al_Timestamp log) = Some t"
  shows "ParseAWSVPCCNIFlowLog lib line =
           (case l4_of_proto (ToLower proto) (isIPv6 srcIP \<or> isIPv6 destIP) (of_nat srcPort) (of_nat destPort) of
              None \<Rightarrow> Inl ErrAWSVPCCNIInvalidProtocol
            | Some l4 \<Rightarrow> Inr \<lparr>ft_layer3 = Some \<lparr>ip_source = srcIP, ip_destination = destIP,
                                ip_ip_version = (if isIPv6 srcIP \<or> isIPv6 destIP then IPV6 else IPV4)\<rparr>,
                              ft_layer4 = Some l4, ft_timestamp = Some t\<rparr>)"
  using line msg parse_agent_msg [OF words ports] flow_of_fields_eq [OF stamp(1) disjI1 [OF stamp(2)]] agent_msg_flow_info
  by (simp add: ParseAWSVPCCNIFlowLog_def del: l4_of_proto.simps)

definition sample_line_log :: AWSVPCCNIFlowLog where
  "sample_line_log =
     \<lparr>al_Level = ''debug'', al_Timestamp = ''T'', al_Logger = [], al_Caller = ''c'',
      al_Message = agent_msg ''10.0.1.28'' 55484 ''10.0.1.132'' 80 ''TCP'' ''ACCEPT'' '' Direction egress'',
      al_SrcIP = [], al_SrcPort = 0, al_DestIP = [], al_DestPort = 0, al_Proto = [], al_Verdict = []\<rparr>"

definition sample_lib :: line_lib where
  "sample_lib = \<lparr>lib_unmarshal = (\<lambda>l. if l = ''f'' then Some sample_line_log else None),
                 lib_rfc3339nano = (\<lambda>t. if t = ''T'' then Some 1000000000 else None), lib_iso_millis = (\<lambda>_. None)\<rparr>"

lemma ToLower_TCP: "ToLower ''TCP'' = ''tcp''"
  by code_simp

theorem agent_line_parses_witness:
  "ParseAWSVPCCNIFlowLog sample_lib ''f'' =
     Inr \<lparr>ft_layer3 = Some \<lparr>ip_source = ''10.0.1.28'', ip_destination = ''10.0.1.132'', ip_ip_version = IPV4\<rparr>,
          ft_layer4 = Some (L4Tcp 55484 80 (Some no_tcp_flags)), ft_timestamp = Some 1000000000\<rparr>"
  using agent_line_parses [of sample_lib "''f''" sample_line_log "''10.0.1.28''" 55484 "''10.0.1.132''" 80 "''TCP''" "''ACCEPT''"
      "'' Direction egress''" 1000000000]
  by (simp add: sample_lib_def sample_line_log_def word_def ends_word_def re_space_def isIPv6_def ToLower_TCP)

section \<open>Handing a line to the sink\<close>

text \<open>Only a cancelled context is an error; nothing else that can go wrong with a line is.\<close>

lemma CacheFlowLine_error: "fst (CacheFlowLine lib env line nb sink) = Inl e \<longleftrightarrow> le_ctx_done env \<and> e = CtxErr"
  by (auto simp: CacheFlowLine_def split: sum.splits option.splits)

definition fresh_flow :: "line_lib \<Rightarrow> int \<Rightarrow> string \<Rightarrow> five_tuple_flow option" where
  "fresh_flow lib notBefore line =
     (case ParseAWSVPCCNIFlowLog lib line of
        Inl _ \<Rightarrow> None
      | Inr f \<Rightarrow> if StartTimestamp (FiveTupleFlow f) < notBefore then None else Some f)"

lemma CacheFlowLine_flows:
  "\<not> le_ctx_done env \<Longrightarrow> le_cache_err env = None \<Longrightarrow>
   sk_flows (snd (CacheFlowLine lib env line (Some nb) sink)) = sk_flows sink @ (case fresh_flow lib nb line of None \<Rightarrow> [] | Some f \<Rightarrow> [f])"
  by (auto simp: CacheFlowLine_def fresh_flow_def split: sum.splits)

end
