(* ===== verification/Log_Fetcher.thy ===== *)
theory Log_Fetcher
  imports Log_Rotation AWS_Flow_Log
begin

text \<open>
  \<open>internal/controller/stream/flows/awsautomode/fetcher.go\<close> and the log path of
  \<open>internal/controller/collector/eksautomode.go\<close>: the three requests the collector makes to a node's
  kubelet through the API server. The HTTP client is an argument, an operation on the state of the
  cluster that answers each request; \<open>gzip\<close> decompression of a body is an argument too.
\<close>

section \<open>Requests\<close>

text \<open>A body is the bytes it yields and the error that ends it.\<close>

type_synonym body = "string \<times> go_error"

record http_response =
  hr_status :: int
  hr_content_range :: string
  hr_body :: body

record 'w kubelet =
  kl_get :: "string \<Rightarrow> string list \<Rightarrow> nat \<Rightarrow> 'w \<Rightarrow> http_response result \<times> 'w"
  kl_raw :: "string \<Rightarrow> string list \<Rightarrow> 'w \<Rightarrow> string result \<times> 'w"
  kl_gunzip :: "body \<Rightarrow> body result"

definition DefaultNetworkPolicyAgentLogPath :: string where
  "DefaultNetworkPolicyAgentLogPath = ''aws-routed-eni/network-policy-agent.log''"

fun split_slash :: "string \<Rightarrow> string \<Rightarrow> string list" where
  "split_slash part [] = [part]"
| "split_slash part (c # s) = (if c = CHR ''/'' then part # split_slash [] s else split_slash (part @ [c]) s)"

definition NetworkPolicyAgentLogPathSegments :: "string \<Rightarrow> string list" where
  "NetworkPolicyAgentLogPathSegments logPath =
     ''logs'' # filter (\<lambda>part. part \<noteq> []) (split_slash [] (if logPath = [] then DefaultNetworkPolicyAgentLogPath else logPath))"

definition activeSegments :: "string \<Rightarrow> string list" where
  "activeSegments logPath = NetworkPolicyAgentLogPathSegments logPath"

definition dirSegments :: "string \<Rightarrow> string list" where
  "dirSegments logPath = (let segs = activeSegments logPath in if length segs \<le> 1 then segs else butlast segs)"

definition activeBaseName :: "string \<Rightarrow> string" where
  "activeBaseName logPath = last (activeSegments logPath)"

section \<open>Responses\<close>

record activeStream =
  as_statusCode :: int
  as_bodyStart :: int
  as_Body :: body

definition maxErrorBodyLog :: nat where
  "maxErrorBodyLog = 512"

definition quoted :: "string \<Rightarrow> string" where
  "quoted s = [CHR 34] @ s @ [CHR 34]"

definition statusError :: "http_response \<Rightarrow> string \<Rightarrow> go_error" where
  "statusError resp nodeName =
     ErrMsg (''node-proxy GET for '' @ quoted nodeName @ '' returned HTTP '' @ string_of_int (hr_status resp) @ '': ''
             @ TrimSpace (take maxErrorBodyLog (fst (hr_body resp))))"

definition errRotatedFileNotFound :: go_error where
  "errRotatedFileNotFound = ErrMsg ''rotated log file not found''"

definition fetchActive :: "'w kubelet \<Rightarrow> string \<Rightarrow> string \<Rightarrow> nat \<Rightarrow> 'w \<Rightarrow> activeStream result \<times> 'w" where
  "fetchActive kl logPath nodeName rangeStart w =
     (case kl_get kl nodeName (activeSegments logPath) rangeStart w of
        (Inl e, w') \<Rightarrow> (Inl e, w')
      | (Inr resp, w') \<Rightarrow>
          (if hr_status resp = 206
           then Inr \<lparr>as_statusCode = 206, as_bodyStart = parseContentRangeStart (hr_content_range resp) (int rangeStart),
                     as_Body = hr_body resp\<rparr>
           else if hr_status resp = 200 then Inr \<lparr>as_statusCode = 200, as_bodyStart = 0, as_Body = hr_body resp\<rparr>
           else if hr_status resp = 416 then Inr \<lparr>as_statusCode = 416, as_bodyStart = 0, as_Body = ([], IoEOF)\<rparr>
           else Inl (statusError resp nodeName), w'))"

definition open_rotated :: "'w kubelet \<Rightarrow> string \<Rightarrow> string \<Rightarrow> string \<Rightarrow> 'w \<Rightarrow> body result \<times> 'w" where
  "open_rotated kl logPath nodeName filename w =
     (case kl_get kl nodeName (dirSegments logPath @ [filename]) 0 w of
        (Inl e, w') \<Rightarrow> (Inl e, w')
      | (Inr resp, w') \<Rightarrow>
          (if hr_status resp = 200 then Inr (hr_body resp)
           else if hr_status resp = 404 then Inl errRotatedFileNotFound
           else Inl (WrapErr (''opening rotated log '' @ quoted filename @ '' failed'') (statusError resp nodeName)), w'))"

definition fetcher_list :: "'w kubelet \<Rightarrow> string \<Rightarrow> string \<Rightarrow> 'w \<Rightarrow> RotatedFile list result \<times> 'w" where
  "fetcher_list kl logPath nodeName w =
     (case kl_raw kl nodeName (dirSegments logPath) w of
        (Inl e, w') \<Rightarrow> (Inl (WrapErr ''listing log directory'' e), w')
      | (Inr raw, w') \<Rightarrow> (Inr (list_rotations raw (activeBaseName logPath)), w'))"

section \<open>The Content-Range header names the start\<close>

lemma digit_no_dash: "list_all is_digit ds \<Longrightarrow> CHR ''-'' \<notin> set ds"
  by (auto simp: list_all_iff is_digit_def)

lemma digit_no_sign: "is_digit c \<Longrightarrow> c \<noteq> CHR ''-'' \<and> c \<noteq> CHR ''+''"
  by (auto simp: is_digit_def)

lemma ParseInt64_string_of_nat: "n < 2 ^ 63 \<Longrightarrow> ParseInt64 (string_of_nat n) = Some (int n)"
proof -
  assume n: "n < 2 ^ 63"
  obtain c r where cr: "string_of_nat n = c # r" using string_of_nat_digits [of n] by (cases "string_of_nat n") auto
  have "is_digit c" "list_all is_digit (c # r)" "digits_val (c # r) = n"
    using string_of_nat_digits [of n] cr by auto
  moreover have "int n < 2 ^ 63" using n by (metis of_nat_less_iff of_nat_numeral of_nat_power)
  ultimately show ?thesis
    using cr digit_no_sign [of c] by (simp add: ParseInt64_def Let_def)
qed

definition content_range :: "nat \<Rightarrow> nat \<Rightarrow> string" where
  "content_range start len =
     ''bytes '' @ string_of_nat start @ ''-'' @ string_of_nat (len - 1) @ ''/'' @ string_of_nat len"

lemma TrimSpace_id: "s \<noteq> [] \<Longrightarrow> \<not> is_space (hd s) \<Longrightarrow> \<not> is_space (last s) \<Longrightarrow> TrimSpace s = s"
proof -
  assume s: "s \<noteq> []" "\<not> is_space (hd s)" "\<not> is_space (last s)"
  have "dropWhile is_space s = s" using s by (cases s) auto
  moreover have "dropWhile is_space (rev s) = rev s" using s by (cases s rule: rev_cases) auto
  ultimately show ?thesis by (simp add: TrimSpace_def)
qed

lemma digit_no_space: "is_digit c \<Longrightarrow> \<not> is_space c"
  by (auto simp: is_digit_def is_space_def)

lemma parseContentRangeStart_content_range:
  assumes "start < 2 ^ 63"
  shows "parseContentRangeStart (content_range start len) fallback = int start"
proof -
  let ?tl = "string_of_nat (len - 1) @ ''/'' @ string_of_nat len"
  have last: "\<not> is_space (last (string_of_nat len))"
    using string_of_nat_digits [of len] by (metis digit_no_space last_in_set list_all_iff)
  have "TrimSpace (content_range start len) = content_range start len"
    using last string_of_nat_digits [of len] by (intro TrimSpace_id) (auto simp: content_range_def is_space_def)
  moreover have "TrimPrefix (content_range start len) ''bytes '' = string_of_nat start @ CHR ''-'' # ?tl"
    by (simp add: content_range_def TrimPrefix_def)
  moreover have "prefix ''bytes '' (content_range start len)"
    by (simp add: content_range_def)
  moreover have "takeWhile (\<lambda>c. c \<noteq> CHR ''-'') (string_of_nat start @ CHR ''-'' # ?tl) = string_of_nat start"
    using string_of_nat_digits [of start] digit_no_dash [of "string_of_nat start"] by (auto simp: takeWhile_append)
  ultimately show ?thesis
    using string_of_nat_digits [of start] ParseInt64_string_of_nat [OF assms]
    by (simp add: parseContentRangeStart_def Let_def)
qed

end
