(* ===== verification/Auto_Mode.thy ===== *)
theory Auto_Mode
  imports Log_Reader Log_Fetcher Stats
begin

text \<open>
  \<open>internal/controller/stream/flows/awsautomode/client.go\<close> and \<open>checkpoint.go\<close>: the collector that polls
  each node's Network Policy Agent log. A poll of a node starts afresh, recovers the generations
  that have rotated away since the last poll, or continues the active file behind the checkpoint.
  The configuration holds the arguments of the model: the kubelet's answers, the line decoder, the
  hash and, for the n-th line handed on, the context, the clock and the sink's answer.
\<close>

section \<open>State\<close>

definition validationOverlap :: nat where
  "validationOverlap = 2 ^ 20"

record 'w auto_config =
  ac_kubelet :: "'w kubelet"
  ac_logPath :: string
  ac_lib :: line_lib
  ac_env :: "nat \<Rightarrow> line_env"
  ac_hash :: "string \<Rightarrow> string"

type_synonym checkpoint_store = "(string, nodeLogCheckpoint) gomap"

record 'w auto_state =
  au_checkpoints :: checkpoint_store
  au_sink :: flow_sink
  au_stats :: stats
  au_world :: 'w

definition newCheckpointStore :: checkpoint_store where
  "newCheckpointStore = []"

definition store_get :: "string \<Rightarrow> checkpoint_store \<Rightarrow> nodeLogCheckpoint \<times> checkpoint_store" where
  "store_get nodeName cps =
     (case gm_get cps nodeName of
        Some cp \<Rightarrow> (cp, cps)
      | None \<Rightarrow> let cp = fresh_checkpoint nodeName [] [] in (cp, gm_put nodeName cp cps))"

definition store_set :: "string \<Rightarrow> nodeLogCheckpoint \<Rightarrow> checkpoint_store \<Rightarrow> checkpoint_store" where
  "store_set nodeName cp cps = gm_put nodeName cp cps"

definition store_retain :: "string list \<Rightarrow> checkpoint_store \<Rightarrow> string list \<times> checkpoint_store" where
  "store_retain activeNodes cps =
     (filter (\<lambda>name. name \<notin> set activeNodes) (gm_keys cps), filter (\<lambda>(name, _). name \<in> set activeNodes) cps)"

definition get_checkpoint :: "string \<Rightarrow> 'w auto_state \<Rightarrow> nodeLogCheckpoint \<times> 'w auto_state" where
  "get_checkpoint node st = (case store_get node (au_checkpoints st) of (cp, cps) \<Rightarrow> (cp, st\<lparr>au_checkpoints := cps\<rparr>))"

definition set_checkpoint :: "string \<Rightarrow> nodeLogCheckpoint \<Rightarrow> 'w auto_state \<Rightarrow> 'w auto_state" where
  "set_checkpoint node cp st = st\<lparr>au_checkpoints := store_set node cp (au_checkpoints st)\<rparr>"

definition bump :: "(stats \<Rightarrow> stats) \<Rightarrow> 'w auto_state \<Rightarrow> 'w auto_state" where
  "bump f st = st\<lparr>au_stats := f (au_stats st)\<rparr>"

section \<open>One line\<close>

definition processLine :: "'w auto_config \<Rightarrow> string \<Rightarrow> flow_sink \<Rightarrow> bool result \<times> flow_sink" where
  "processLine ac line sink =
     (let env = ac_env ac (length (sk_lines sink))
      in CacheFlowLine (ac_lib ac) env line (Some (le_now env - MaxFlowAge))
           (if le_ctx_done env then sink else sink\<lparr>sk_lines := sk_lines sink @ [line]\<rparr>))"

definition line_emit :: "'w auto_config \<Rightarrow> flow_sink emitter" where
  "line_emit ac rec sink =
     (case processLine ac rec sink of (Inl e, s) \<Rightarrow> (Inl e, s) | (Inr _, s) \<Rightarrow> (Inr (), s))"

section \<open>The active log\<close>

definition reset_result :: streamActiveResult where
  "reset_result = \<lparr>sr_validated = False, sr_needReset = True, sr_newOffset = 0, sr_lastHash = replicate 16 (CHR 0x00),
                   sr_observedSize = 0, sr_emitted = 0\<rparr>"

definition readActiveOnce :: "'w auto_config \<Rightarrow> string \<Rightarrow> nodeLogCheckpoint \<Rightarrow> nat \<Rightarrow> 'w auto_state
    \<Rightarrow> streamActiveResult result \<times> 'w auto_state" where
  "readActiveOnce ac node cp rangeStart st =
     (case fetchActive (ac_kubelet ac) (ac_logPath ac) node rangeStart (au_world st) of
        (Inl e, w) \<Rightarrow> (Inl e, st\<lparr>au_world := w\<rparr>)
      | (Inr stream, w) \<Rightarrow>
          let st1 = st\<lparr>au_world := w\<rparr>
          in if as_statusCode stream = 416 then (Inr reset_result, st1)
             else if as_bodyStart stream < 0 \<or> as_bodyStart stream > 2 ^ 63 - 1 then (Inr reset_result, st1)
             else case streamActive (ac_hash ac) (line_emit ac) (nat (as_bodyStart stream)) (fst (as_Body stream))
                         (snd (as_Body stream)) cp (au_sink st1) of
                    (r, sink) \<Rightarrow> (r, st1\<lparr>au_sink := sink\<rparr>))"

definition advance :: "string \<Rightarrow> streamActiveResult \<Rightarrow> nodeLogCheckpoint \<Rightarrow> nodeLogCheckpoint" where
  "advance uid res cp = cp\<lparr>cp_NodeUID := uid, cp_ByteOffset := sr_newOffset res, cp_LastObservedSize := sr_observedSize res,
                           cp_LastRecordHash := sr_lastHash res\<rparr>"

definition processActive :: "'w auto_config \<Rightarrow> string \<Rightarrow> string \<Rightarrow> nodeLogCheckpoint \<Rightarrow> 'w auto_state
    \<Rightarrow> nodeLogCheckpoint result \<times> 'w auto_state" where
  "processActive ac node uid cp st =
     (let rangeStart = (if cp_ByteOffset cp > validationOverlap then cp_ByteOffset cp - validationOverlap else 0)
      in case readActiveOnce ac node cp rangeStart st of
           (Inl e, st1) \<Rightarrow> (Inl e, st1)
         | (Inr res, st1) \<Rightarrow>
             if sr_needReset res
             then let fresh = fresh_checkpoint node uid (cp_LastRotationID cp)
                  in case readActiveOnce ac node fresh 0 st1 of
                       (Inl e, st2) \<Rightarrow> (Inl e, st2)
                     | (Inr res', st2) \<Rightarrow> (Inr (advance uid res' fresh), st2)
             else (Inr (advance uid res cp), st1))"

section \<open>Rotated files\<close>

text \<open>
  \<open>bufio.Scanner\<close> over lines, with the limit as its buffer: each line without its newline and one
  trailing carriage return, the unfinished last line included; a line that does not fit ends the
  scan with an error, and so does a read error.
\<close>

definition dropCR :: "string \<Rightarrow> string" where
  "dropCR l = (if l \<noteq> [] \<and> last l = CHR 13 then butlast l else l)"

definition ErrTooLong :: go_error where
  "ErrTooLong = ErrMsg ''bufio.Scanner: token too long''"

definition read_err :: "go_error \<Rightarrow> go_error option" where
  "read_err e = (if errors_is e IoEOF then None else Some e)"

function scan_tokens :: "string \<Rightarrow> go_error \<Rightarrow> string list \<times> go_error option" where
  "scan_tokens s rerr =
     (if NL \<in> set s
      then if length (line_of s) \<ge> maxRecoveryScanLine then ([], Some ErrTooLong)
           else case scan_tokens (drop (Suc (length (line_of s))) s) rerr of (ts, e) \<Rightarrow> (dropCR (line_of s) # ts, e)
      else if s = [] then ([], read_err rerr)
      else if length s \<ge> maxRecoveryScanLine then ([], Some ErrTooLong)
      else ([dropCR s], read_err rerr))"
  by auto
termination
  by (relation "measure (\<lambda>(s, _). length s)") (auto dest: split_list)

declare scan_tokens.simps [simp del]

fun process_tokens :: "'w auto_config \<Rightarrow> string list \<Rightarrow> flow_sink \<Rightarrow> unit result \<times> flow_sink" where
  "process_tokens ac [] sink = (Inr (), sink)"
| "process_tokens ac (t # ts) sink =
     (if le_ctx_done (ac_env ac (length (sk_lines sink))) then (Inl CtxErr, sink)
      else if t = [] then process_tokens ac ts sink
      else case line_emit ac t sink of (Inl e, s) \<Rightarrow> (Inl e, s) | (Inr _, s) \<Rightarrow> process_tokens ac ts s)"

definition processReader :: "'w auto_config \<Rightarrow> body \<Rightarrow> flow_sink \<Rightarrow> unit result \<times> flow_sink" where
  "processReader ac r sink =
     (case scan_tokens (fst r) (snd r) of
        (ts, e) \<Rightarrow>
          (case process_tokens ac ts sink of
             (Inl err, s) \<Rightarrow> (Inl err, s)
           | (Inr _, s) \<Rightarrow> (case e of Some err \<Rightarrow> Inl err | None \<Rightarrow> Inr (), s)))"

text \<open>\<open>io.CopyN\<close> to \<open>io.Discard\<close>, whose end of file is not an error.\<close>

definition discard :: "nat \<Rightarrow> body \<Rightarrow> body result" where
  "discard n r = (if n \<le> length (fst r) then Inr (drop n (fst r), snd r)
                  else if errors_is (snd r) IoEOF then Inr ([], snd r) else Inl (snd r))"

definition read_rotated :: "'w auto_config \<Rightarrow> RotatedFile \<Rightarrow> body \<Rightarrow> nat \<Rightarrow> 'w auto_state \<Rightarrow> bool result \<times> 'w auto_state" where
  "read_rotated ac rot rc skip st =
     (case (if rf_Compressed rot then kl_gunzip (ac_kubelet ac) rc else Inr rc) of
        Inl e \<Rightarrow> (Inl e, st)
      | Inr reader \<Rightarrow>
          (case (if 0 < skip then discard skip reader else Inr reader) of
             Inl e \<Rightarrow> (Inl e, st)
           | Inr reader' \<Rightarrow>
               (case processReader ac reader' (au_sink st) of
                  (Inl e, sink) \<Rightarrow> (Inl e, st\<lparr>au_sink := sink\<rparr>)
                | (Inr _, sink) \<Rightarrow> (Inr True, st\<lparr>au_sink := sink\<rparr>))))"

definition recoverRotatedFile :: "'w auto_config \<Rightarrow> string \<Rightarrow> RotatedFile \<Rightarrow> nat \<Rightarrow> 'w auto_state \<Rightarrow> bool result \<times> 'w auto_state" where
  "recoverRotatedFile ac node rot skip st =
     (case open_rotated (ac_kubelet ac) (ac_logPath ac) node (rf_Filename rot) (au_world st) of
        (Inr rc, w) \<Rightarrow> read_rotated ac rot rc skip (st\<lparr>au_world := w\<rparr>)
      | (Inl err, w) \<Rightarrow>
          if errors_is err errRotatedFileNotFound
          then case fetcher_list (ac_kubelet ac) (ac_logPath ac) node w of
                 (Inl listErr, w') \<Rightarrow> (Inl listErr, st\<lparr>au_world := w'\<rparr>)
               | (Inr files, w') \<Rightarrow>
                   (case findRotationByID files (rf_ID rot) of
                      None \<Rightarrow> (Inr False, bump IncrementAutoModeRotationGaps (st\<lparr>au_world := w'\<rparr>))
                    | Some resolved \<Rightarrow>
                        (case open_rotated (ac_kubelet ac) (ac_logPath ac) node (rf_Filename resolved) w' of
                           (Inl e, w'') \<Rightarrow> (Inl e, st\<lparr>au_world := w''\<rparr>)
                         | (Inr rc, w'') \<Rightarrow> read_rotated ac resolved rc skip (st\<lparr>au_world := w''\<rparr>)))
          else (Inl err, st\<lparr>au_world := w\<rparr>))"

fun recover_loop :: "'w auto_config \<Rightarrow> string \<Rightarrow> string \<Rightarrow> nat \<Rightarrow> RotatedFile list \<Rightarrow> 'w auto_state \<Rightarrow> unit result \<times> 'w auto_state" where
  "recover_loop ac node uid skip [] st = (Inr (), st)"
| "recover_loop ac node uid skip (rot # rots) st =
     (case recoverRotatedFile ac node rot skip st of
        (Inl e, st1) \<Rightarrow> (Inl e, bump IncrementAutoModeRotationRecoveryErrors st1)
      | (Inr recovered, st1) \<Rightarrow>
          recover_loop ac node uid 0 rots
            (set_checkpoint node (fresh_checkpoint node uid (rf_ID rot))
               (if recovered then bump IncrementAutoModeRotationRecoveries st1 else st1)))"

definition recoverRotations :: "'w auto_config \<Rightarrow> string \<Rightarrow> string \<Rightarrow> RotatedFile list \<Rightarrow> 'w auto_state \<Rightarrow> unit result \<times> 'w auto_state" where
  "recoverRotations ac node uid unseen st =
     (case get_checkpoint node st of
        (cp, st0) \<Rightarrow>
          (case recover_loop ac node uid (cp_ByteOffset cp) unseen st0 of
             (Inl e, st1) \<Rightarrow> (Inl e, st1)
           | (Inr _, st1) \<Rightarrow>
               (case get_checkpoint node st1 of
                  (activeCP, st2) \<Rightarrow>
                    (case processActive ac node uid activeCP st2 of
                       (Inl e, st3) \<Rightarrow> (Inl e, st3)
                     | (Inr next, st3) \<Rightarrow> (Inr (), set_checkpoint node next st3)))))"

section \<open>Polling\<close>

definition bootstrapNode :: "'w auto_config \<Rightarrow> string \<Rightarrow> string \<Rightarrow> 'w auto_state \<Rightarrow> unit result \<times> 'w auto_state" where
  "bootstrapNode ac node uid st =
     (case fetcher_list (ac_kubelet ac) (ac_logPath ac) node (au_world st) of
        (Inl e, w) \<Rightarrow> (Inl e, st\<lparr>au_world := w\<rparr>)
      | (Inr rotations, w) \<Rightarrow>
          let startRotationID = newestRotationID rotations
          in case processActive ac node uid (fresh_checkpoint node uid startRotationID) (st\<lparr>au_world := w\<rparr>) of
               (Inl e, st1) \<Rightarrow> (Inl e, st1)
             | (Inr next, st1) \<Rightarrow> (Inr (), set_checkpoint node (next\<lparr>cp_LastRotationID := startRotationID\<rparr>) st1))"

definition pollNode :: "'w auto_config \<Rightarrow> string \<Rightarrow> string \<Rightarrow> 'w auto_state \<Rightarrow> unit result \<times> 'w auto_state" where
  "pollNode ac node uid st =
     (case get_checkpoint node st of
        (cp, st0) \<Rightarrow>
          if cp_NodeUID cp = [] \<or> cp_NodeUID cp \<noteq> uid then bootstrapNode ac node uid st0
          else case fetcher_list (ac_kubelet ac) (ac_logPath ac) node (au_world st0) of
                 (Inl e, w) \<Rightarrow> (Inl e, st0\<lparr>au_world := w\<rparr>)
               | (Inr rotations, w) \<Rightarrow>
                   let st1 = st0\<lparr>au_world := w\<rparr>; unseen = unseenRotations rotations (cp_LastRotationID cp)
                   in if unseen \<noteq> []
                      then recoverRotations ac node uid unseen
                             (bump (AddAutoModeRotationsDetected (int (length unseen))) st1)
                      else case processActive ac node uid cp st1 of
                             (Inl e, st2) \<Rightarrow> (Inl e, st2)
                           | (Inr next, st2) \<Rightarrow> (Inr (), set_checkpoint node next st2))"

text \<open>
  The nodes are polled by goroutines behind a semaphore; each touches only its own checkpoint, so
  the model runs them one after the other in any order. A node whose goroutine sees the cancelled
  context before it gets a slot is not polled (\<open>False\<close>).
\<close>

definition poll_one :: "'w auto_config \<Rightarrow> string \<times> string \<times> bool \<Rightarrow> 'w auto_state \<Rightarrow> 'w auto_state" where
  "poll_one ac = (\<lambda>(node, uid, slot) st.
     if \<not> slot then st
     else case pollNode ac node uid st of
            (Inl _, st1) \<Rightarrow> bump IncrementAutoModePollErrors st1
          | (Inr _, st1) \<Rightarrow> st1)"

definition pollAllNodes :: "'w auto_config \<Rightarrow> (string \<times> string \<times> bool) list result \<Rightarrow> 'w auto_state \<Rightarrow> 'w auto_state" where
  "pollAllNodes ac nodes st =
     (case nodes of
        Inl _ \<Rightarrow> bump IncrementAutoModePollErrors st
      | Inr ns \<Rightarrow>
          let st1 = fold (poll_one ac) ns (bump (SetAutoModeNodesObserved (int (length ns))) st)
          in st1\<lparr>au_checkpoints := snd (store_retain (map fst ns) (au_checkpoints st1))\<rparr>)"

text \<open>\<open>Run\<close>: one poll at once and one per tick, until the context is cancelled.\<close>

datatype auto_event = AutoCtxDone | AutoTick "(string \<times> string \<times> bool) list result"

fun auto_loop :: "'w auto_config \<Rightarrow> auto_event list \<Rightarrow> 'w auto_state \<Rightarrow> go_error option \<times> 'w auto_state" where
  "auto_loop ac [] st = (None, st)"
| "auto_loop ac (AutoCtxDone # _) st = (Some CtxErr, st)"
| "auto_loop ac (AutoTick ns # es) st = auto_loop ac es (pollAllNodes ac ns st)"

definition AutoMode_Run :: "'w auto_config \<Rightarrow> (string \<times> string \<times> bool) list result \<Rightarrow> auto_event list \<Rightarrow> 'w auto_state
    \<Rightarrow> go_error option \<times> 'w auto_state" where
  "AutoMode_Run ac ns es st = auto_loop ac es (pollAllNodes ac ns st)"


section \<open>Lines handed on\<close>

definition live_env :: "'w auto_config \<Rightarrow> bool" where
  "live_env ac \<longleftrightarrow> (\<forall>n. \<not> le_ctx_done (ac_env ac n))"

lemma CacheFlowLine_lines: "sk_lines (snd (CacheFlowLine lib env line nb sink)) = sk_lines sink"
  by (auto simp: CacheFlowLine_def split: sum.splits option.splits)

lemma line_emit_live:
  assumes "live_env ac"
  obtains s where "line_emit ac l sink = (Inr (), s)" and "sk_lines s = sk_lines sink @ [l]"
proof -
  let ?env = "ac_env ac (length (sk_lines sink))"
  let ?r = "CacheFlowLine (ac_lib ac) ?env l (Some (le_now ?env - MaxFlowAge)) (sink\<lparr>sk_lines := sk_lines sink @ [l]\<rparr>)"
  have ctx: "\<not> le_ctx_done ?env" using assms by (simp add: live_env_def)
  then have "fst ?r \<noteq> Inl e" for e using CacheFlowLine_error by blast
  then obtain b s where r: "?r = (Inr b, s)" by (metis sum.exhaust prod.collapse)
  moreover have "sk_lines s = sk_lines sink @ [l]"
    using CacheFlowLine_lines [of "ac_lib ac" ?env l "Some (le_now ?env - MaxFlowAge)" "sink\<lparr>sk_lines := sk_lines sink @ [l]\<rparr>"] r
    by simp
  ultimately show ?thesis using that ctx by (simp add: line_emit_def processLine_def Let_def)
qed

lemma emit_all_live:
  assumes "live_env ac"
  obtains s where "emit_all (line_emit ac) ls sink = (Inr (), s)" and "sk_lines s = sk_lines sink @ ls"
  using assms
proof (induction ls arbitrary: sink thesis)
  case (Cons l ls)
  obtain s1 where s1: "line_emit ac l sink = (Inr (), s1)" "sk_lines s1 = sk_lines sink @ [l]"
    by (rule line_emit_live [OF Cons.prems(2)])
  obtain s2 where "emit_all (line_emit ac) ls s1 = (Inr (), s2)" "sk_lines s2 = sk_lines s1 @ ls"
    by (rule Cons.IH [OF _ Cons.prems(2)])
  with s1 show ?case by (intro Cons.prems(1)) auto
qed simp

lemma process_tokens_live:
  assumes "live_env ac"
  obtains s where "process_tokens ac ts sink = (Inr (), s)" and "sk_lines s = sk_lines sink @ filter (\<lambda>t. t \<noteq> []) ts"
  using assms
proof (induction ts arbitrary: sink thesis)
  case (Cons t ts)
  have ctx: "\<not> le_ctx_done (ac_env ac (length (sk_lines sink)))" using Cons.prems(2) by (simp add: live_env_def)
  show ?case
  proof (cases "t = []")
    case True
    obtain s where "process_tokens ac ts sink = (Inr (), s)" "sk_lines s = sk_lines sink @ filter (\<lambda>t. t \<noteq> []) ts"
      by (rule Cons.IH [OF _ Cons.prems(2)])
    with True ctx show ?thesis by (intro Cons.prems(1)) auto
  next
    case False
    obtain s1 where s1: "line_emit ac t sink = (Inr (), s1)" "sk_lines s1 = sk_lines sink @ [t]"
      by (rule line_emit_live [OF Cons.prems(2)])
    obtain s2 where "process_tokens ac ts s1 = (Inr (), s2)" "sk_lines s2 = sk_lines s1 @ filter (\<lambda>t. t \<noteq> []) ts"
      by (rule Cons.IH [OF _ Cons.prems(2)])
    with s1 ctx False show ?thesis by (intro Cons.prems(1)) auto
  qed
qed simp

section \<open>Logs whose records fit\<close>

definition ends_record :: "string \<Rightarrow> bool" where
  "ends_record s \<longleftrightarrow> s = [] \<or> last s = NL"

definition short :: "string \<Rightarrow> bool" where
  "short s \<longleftrightarrow> list_all (\<lambda>l. length l + 2 \<le> validationOverlap) (records s)"

lemma short_capped: "short s \<Longrightarrow> map capped (records s) = records s"
  by (auto simp: short_def list_all_iff capped_def validationOverlap_def maxRecoveryScanLine_def intro!: map_idI)

lemma records_take_drop: "cp_matches hash F cp \<Longrightarrow> records F = records (take (cp_ByteOffset cp) F) @ records (drop (cp_ByteOffset cp) F)"
  using records_append [OF cp_matches_last, of hash F cp "drop (cp_ByteOffset cp) F"] by simp

lemma short_parts:
  assumes "cp_matches hash F cp" and "short F"
  shows "short (take (cp_ByteOffset cp) F)" and "short (drop (cp_ByteOffset cp) F)"
  using assms records_take_drop [OF assms(1)] by (simp_all add: short_def)

lemma scan_tokens_short:
  assumes "ends_record s" and "short s"
  shows "scan_tokens s IoEOF = (map dropCR (records s), None)"
  using assms
proof (induction s rule: lines_induct)
  case (unfinished s)
  then have "s = []" by (metis ends_record_def last_in_set)
  then show ?case by (simp add: scan_tokens.simps read_err_def)
next
  case (line l s)
  have "line_of (l @ NL # s) = l" using line.hyps by (auto simp: takeWhile_append)
  moreover have "ends_record s" "short s" "length l < maxRecoveryScanLine"
    using line.prems line.hyps
    by (auto simp: ends_record_def short_def validationOverlap_def maxRecoveryScanLine_def split: if_splits)
  ultimately show ?case
    using line.IH line.hyps by (subst scan_tokens.simps) simp
qed


section \<open>A node's log\<close>

text \<open>
  What a node keeps: its rotated generations, oldest first, each with the timestamp it was renamed
  with, and the active file. The kubelet answers from it: the directory page lists exactly the
  generations, a listed file yields that generation's bytes (compressed when the name says so) and
  the active file is served whole or from the requested start.
\<close>

record node_log =
  nl_rotated :: "(string \<times> string) list"
  nl_active :: string

definition active_answer :: "string \<Rightarrow> nat \<Rightarrow> http_response \<Rightarrow> bool" where
  "active_answer F start r \<longleftrightarrow>
     (hr_status r = 200 \<and> hr_body r = (F, IoEOF)) \<or>
     (start < length F \<and> hr_status r = 206 \<and> hr_content_range r = content_range start (length F)
      \<and> hr_body r = (drop start F, IoEOF))"

definition rotated_answer :: "'w kubelet \<Rightarrow> node_log \<Rightarrow> RotatedFile \<Rightarrow> http_response \<Rightarrow> bool" where
  "rotated_answer kl N f r \<longleftrightarrow> hr_status r = 200 \<and>
     (\<exists>c. gm_get (nl_rotated N) (rf_ID f) = Some c \<and>
       (if rf_Compressed f then kl_gunzip kl (hr_body r) = Inr (c, IoEOF) else hr_body r = (c, IoEOF)))"

definition kubelet_contract :: "'w kubelet \<Rightarrow> string \<Rightarrow> string \<Rightarrow> ('w \<Rightarrow> node_log) \<Rightarrow> bool" where
  "kubelet_contract kl logPath node log_of \<longleftrightarrow>
     (\<forall>w. \<exists>raw w'. kl_raw kl node (dirSegments logPath) w = (Inr raw, w') \<and> log_of w' = log_of w
        \<and> rf_ID ` set (list_rotations raw (activeBaseName logPath)) = fst ` set (nl_rotated (log_of w))
        \<and> (\<forall>f \<in> set (list_rotations raw (activeBaseName logPath)). \<forall>v. log_of v = log_of w \<longrightarrow>
             (\<exists>r v'. kl_get kl node (dirSegments logPath @ [rf_Filename f]) 0 v = (Inr r, v') \<and> log_of v' = log_of w
                \<and> rotated_answer kl (log_of w) f r)))
     \<and> (\<forall>w start. \<exists>r w'. kl_get kl node (activeSegments logPath) start w = (Inr r, w') \<and> log_of w' = log_of w
          \<and> active_answer (nl_active (log_of w)) start r)"

definition log_ok :: "node_log \<Rightarrow> bool" where
  "log_ok N \<longleftrightarrow> sorted (map fst (nl_rotated N)) \<and> distinct (map fst (nl_rotated N))
     \<and> (\<forall>(i, c) \<in> set (nl_rotated N). ends_record c \<and> short c) \<and> short (nl_active N) \<and> length (nl_active N) < 2 ^ 63"

section \<open>Continuing the active file\<close>

lemma overlap_ok_range:
  assumes m: "cp_matches hash F cp" and "short F" and big: "validationOverlap < cp_ByteOffset cp"
  shows "overlap_ok F (cp_ByteOffset cp - validationOverlap) cp"
proof -
  have "take (cp_ByteOffset cp) F \<noteq> []" using m big by (auto simp: cp_matches_def)
  then have "records (take (cp_ByteOffset cp) F) \<noteq> []"
    using cp_matches_last [OF m] by (metis last_in_set list.distinct(1) records.simps)
  then have "length (last (records (take (cp_ByteOffset cp) F))) + 2 \<le> validationOverlap"
    using short_parts(1) [OF m \<open>short F\<close>] by (auto simp: short_def list_all_iff)
  then show ?thesis using big by (simp add: overlap_ok_def)
qed

lemma processActive_continue:
  assumes kc: "kubelet_contract (ac_kubelet ac) (ac_logPath ac) node log_of" and live: "live_env ac"
    and F: "F = nl_active (log_of (au_world st))" "short F" "length F < 2 ^ 63"
    and m: "cp_matches (ac_hash ac) F cp"
  obtains cp' st' where "processActive ac node uid cp st = (Inr cp', st')"
    and "log_of (au_world st') = log_of (au_world st)" and "au_checkpoints st' = au_checkpoints st"
    and "sk_lines (au_sink st') = sk_lines (au_sink st) @ records (drop (cp_ByteOffset cp) F)"
    and "cp_matches (ac_hash ac) F cp'" and "records (drop (cp_ByteOffset cp') F) = []"
    and "records (take (cp_ByteOffset cp') F) = records F"
    and "cp_NodeUID cp' = uid" and "cp_LastRotationID cp' = cp_LastRotationID cp"
proof -
  define start where "start = (if cp_ByteOffset cp > validationOverlap then cp_ByteOffset cp - validationOverlap else 0)"
  obtain r w' where r: "kl_get (ac_kubelet ac) node (activeSegments (ac_logPath ac)) start (au_world st) = (Inr r, w')"
    and w': "log_of w' = log_of (au_world st)" and ans: "active_answer F start r"
    using kc unfolding kubelet_contract_def F(1) by meson
  obtain b str where f: "fetchActive (ac_kubelet ac) (ac_logPath ac) node start (au_world st) = (Inr str, w')"
    and str: "as_statusCode str \<noteq> 416" "as_bodyStart str = int b" "as_Body str = (drop b F, IoEOF)" and b: "b = 0 \<or> b = start"
    "b < 2 ^ 63"
  proof (cases "hr_status r = 200 \<and> hr_body r = (F, IoEOF)")
    case True
    with r show ?thesis by (intro that [of _ 0]) (auto simp: fetchActive_def)
  next
    case False
    with ans have "start < 2 ^ 63" "hr_status r = 206" "hr_content_range r = content_range start (length F)"
      "hr_body r = (drop start F, IoEOF)"
      using F(3) by (auto simp: active_answer_def)
    with r show ?thesis
      by (intro that [of _ start]) (auto simp: fetchActive_def parseContentRangeStart_content_range)
  qed
  have ov: "overlap_ok F b cp"
    using b overlap_ok_range [OF m F(2)] by (auto simp: start_def overlap_ok_def split: if_splits)
  obtain s where s: "emit_all (line_emit ac) (records (drop (cp_ByteOffset cp) F)) (au_sink st) = (Inr (), s)"
    "sk_lines s = sk_lines (au_sink st) @ records (drop (cp_ByteOffset cp) F)"
    by (rule emit_all_live [OF live])
  define res where "res = tail_result (ac_hash ac) (drop (cp_ByteOffset cp) F) (cp_ByteOffset cp) (validated_start cp)"
  have stream: "streamActive (ac_hash ac) (line_emit ac) b (drop b F) IoEOF cp (au_sink st) = (Inr res, s)"
    using stream_continue [OF m ov, of "line_emit ac" IoEOF "au_sink st"] s(1) short_capped [OF short_parts(2) [OF m F(2)]]
    by (simp add: stream_outcome_def res_def)
  have nr: "\<not> sr_needReset res" by (simp add: res_def tail_result_def validated_start_def stream_start_def)
  have "\<not> (int b > 2 ^ 63 - 1)"
    using b(2) by (metis int_ops(3) linorder_not_le not_less of_nat_less_iff of_nat_numeral of_nat_power zle_diff1_eq)
  then have "processActive ac node uid cp st = (Inr (advance uid res cp), st\<lparr>au_world := w', au_sink := s\<rparr>)"
    using f str stream nr by (simp add: processActive_def readActiveOnce_def Let_def start_def [symmetric])
  moreover have m': "cp_matches (ac_hash ac) F (advance uid res cp)"
    by (rule cp_matches_next [OF m res_def]) (simp_all add: advance_def)
  moreover have "records (drop (cp_ByteOffset (advance uid res cp)) F) = []"
  proof (cases "records (drop (cp_ByteOffset cp) F) = []")
    case False
    then have "cp_ByteOffset (advance uid res cp) = cp_ByteOffset cp + records_size (drop (cp_ByteOffset cp) F)"
      by (simp add: advance_def res_def tail_result_def)
    then show ?thesis using records_rest [of "drop (cp_ByteOffset cp) F"] by (simp add: add.commute)
  qed (simp add: advance_def res_def tail_result_def validated_start_def stream_start_def)
  moreover from this have "records (take (cp_ByteOffset (advance uid res cp)) F) = records F"
    using records_take_drop [OF m'] by simp
  ultimately show ?thesis
    using w' s(2) by (intro that [of "advance uid res cp" "st\<lparr>au_world := w', au_sink := s\<rparr>"]) (simp_all add: advance_def)
qed


section \<open>Recovering rotated generations\<close>

definition gen_lines :: "string \<Rightarrow> string list" where
  "gen_lines c = filter (\<lambda>l. l \<noteq> []) (map dropCR (records c))"

lemma processReader_gen:
  assumes "live_env ac" and "ends_record c" and "short c"
  obtains s where "processReader ac (c, IoEOF) sink = (Inr (), s)" and "sk_lines s = sk_lines sink @ gen_lines c"
proof -
  obtain s where "process_tokens ac (map dropCR (records c)) sink = (Inr (), s)"
    "sk_lines s = sk_lines sink @ filter (\<lambda>t. t \<noteq> []) (map dropCR (records c))"
    by (rule process_tokens_live [OF assms(1)])
  then show ?thesis
    by (intro that) (simp_all add: processReader_def scan_tokens_short [OF assms(2,3)] gen_lines_def)
qed

lemma ends_record_drop: "ends_record c \<Longrightarrow> ends_record (drop n c)"
  by (cases "n < length c") (auto simp: ends_record_def)

lemma recover_generation:
  assumes live: "live_env ac"
    and get: "kl_get (ac_kubelet ac) node (dirSegments (ac_logPath ac) @ [rf_Filename f]) 0 (au_world st) = (Inr r, w')"
    and ans: "rotated_answer (ac_kubelet ac) N f r" "gm_get (nl_rotated N) (rf_ID f) = Some c"
    and c: "ends_record c" "short (drop skip c)" "skip \<le> length c"
  obtains s where "recoverRotatedFile ac node f skip st = (Inr True, st\<lparr>au_world := w', au_sink := s\<rparr>)"
    and "sk_lines s = sk_lines (au_sink st) @ gen_lines (drop skip c)"
proof -
  obtain s where s: "processReader ac (drop skip c, IoEOF) (au_sink st) = (Inr (), s)"
    "sk_lines s = sk_lines (au_sink st) @ gen_lines (drop skip c)"
    by (rule processReader_gen [OF live ends_record_drop [OF c(1)] c(2)])
  have "open_rotated (ac_kubelet ac) (ac_logPath ac) node (rf_Filename f) (au_world st) = (Inr (hr_body r), w')"
    using get ans(1) by (simp add: open_rotated_def rotated_answer_def)
  moreover have "(if rf_Compressed f then kl_gunzip (ac_kubelet ac) (hr_body r) else Inr (hr_body r)) = Inr (c, IoEOF)"
    using ans by (auto simp: rotated_answer_def split: if_splits)
  ultimately have "recoverRotatedFile ac node f skip st = (Inr True, st\<lparr>au_world := w', au_sink := s\<rparr>)"
    using s(1) c(3) by (cases "skip = 0") (simp_all add: recoverRotatedFile_def read_rotated_def discard_def)
  from this s(2) show ?thesis by (rule that)
qed

text \<open>The generations a listing calls unseen are those of the log after the last one processed.\<close>

definition unseen_gens :: "node_log \<Rightarrow> string \<Rightarrow> (string \<times> string) list" where
  "unseen_gens N lastID = filter (\<lambda>(i, _). lastID < i) (nl_rotated N)"

lemma unseen_ids:
  assumes ok: "log_ok N" and files: "rf_ID ` set files = fst ` set (nl_rotated N)"
  shows "map rf_ID (unseenRotations files lastID) = map fst (unseen_gens N lastID)"
proof (rule sorted_distinct_set_unique)
  have "map fst (unseen_gens N lastID) = filter (\<lambda>i. lastID < i) (map fst (nl_rotated N))"
    unfolding unseen_gens_def filter_map comp_def case_prod_beta ..
  then show "sorted (map fst (unseen_gens N lastID))" "distinct (map fst (unseen_gens N lastID))"
    using ok by (simp_all add: log_ok_def sorted_wrt_filter)
  show "sorted (map rf_ID (unseenRotations files lastID))" "distinct (map rf_ID (unseenRotations files lastID))"
    using unseen_unfold by auto
  have "rf_ID ` set (unseenRotations files lastID) = {i \<in> rf_ID ` set (dedupRotations files). lastID < i}"
    by (auto simp: unseenRotations_def)
  then show "set (map rf_ID (unseenRotations files lastID)) = set (map fst (unseen_gens N lastID))"
    using files dedupRotations_spec(4) [of files] by (auto simp: unseen_gens_def image_iff)
qed

definition opens :: "'w auto_config \<Rightarrow> string \<Rightarrow> ('w \<Rightarrow> node_log) \<Rightarrow> node_log \<Rightarrow> RotatedFile \<Rightarrow> bool" where
  "opens ac node log_of N f \<longleftrightarrow> (\<forall>v. log_of v = N \<longrightarrow>
     (\<exists>r v'. kl_get (ac_kubelet ac) node (dirSegments (ac_logPath ac) @ [rf_Filename f]) 0 v = (Inr r, v') \<and> log_of v' = N
        \<and> rotated_answer (ac_kubelet ac) N f r))"

lemma recover_loop_all:
  assumes live: "live_env ac" and ok: "log_ok N" and log: "log_of (au_world st) = N"
    and opens: "\<forall>f \<in> set rots. opens ac node log_of N f"
    and gens: "map rf_ID rots = map fst gens" "set gens \<subseteq> set (nl_rotated N)"
    and first: "rots \<noteq> [] \<Longrightarrow> skip \<le> length (snd (hd gens)) \<and> short (drop skip (snd (hd gens)))"
  obtains st' where "recover_loop ac node uid skip rots st = (Inr (), st')"
    and "log_of (au_world st') = N"
    and "sk_lines (au_sink st') = sk_lines (au_sink st) @
           (if rots = [] then [] else gen_lines (drop skip (snd (hd gens))) @ concat (map (gen_lines \<circ> snd) (tl gens)))"
    and "gm_get (au_checkpoints st') node =
           (if rots = [] then gm_get (au_checkpoints st) node else Some (fresh_checkpoint node uid (rf_ID (last rots))))"
  using assms
proof (induction rots arbitrary: st gens skip thesis)
  case (Cons f rots)
  obtain i c gens' where g: "gens = (i, c) # gens'" and i: "rf_ID f = i" and ids: "map rf_ID rots = map fst gens'"
    using Cons.prems(6) by (cases gens) auto
  have mem: "(i, c) \<in> set (nl_rotated N)" using Cons.prems(7) g by auto
  then have lookup: "gm_get (nl_rotated N) (rf_ID f) = Some c" and c: "ends_record c"
    using Cons.prems(3) i by (auto simp: log_ok_def)
  have op: "opens ac node log_of N f" using Cons.prems(5) by simp
  obtain r w' where r: "kl_get (ac_kubelet ac) node (dirSegments (ac_logPath ac) @ [rf_Filename f]) 0 (au_world st) = (Inr r, w')"
    "log_of w' = N" "rotated_answer (ac_kubelet ac) N f r"
    using op [unfolded opens_def, rule_format, OF Cons.prems(4)] by blast
  have skip: "skip \<le> length c" "short (drop skip c)" using Cons.prems(8) g by auto
  obtain s where s: "recoverRotatedFile ac node f skip st = (Inr True, st\<lparr>au_world := w', au_sink := s\<rparr>)"
    "sk_lines s = sk_lines (au_sink st) @ gen_lines (drop skip c)"
    by (rule recover_generation [OF Cons.prems(2) r(1,3) lookup c skip(2,1)])
  define st1 where "st1 = set_checkpoint node (fresh_checkpoint node uid (rf_ID f))
      (bump IncrementAutoModeRotationRecoveries (st\<lparr>au_world := w', au_sink := s\<rparr>))"
  have st1: "log_of (au_world st1) = N" "sk_lines (au_sink st1) = sk_lines (au_sink st) @ gen_lines (drop skip c)"
    "gm_get (au_checkpoints st1) node = Some (fresh_checkpoint node uid (rf_ID f))"
    using r(2) s(2) by (simp_all add: st1_def set_checkpoint_def bump_def store_set_def)
  have sub: "set gens' \<subseteq> set (nl_rotated N)" using Cons.prems(7) g by auto
  have first': "rots \<noteq> [] \<Longrightarrow> 0 \<le> length (snd (hd gens')) \<and> short (drop 0 (snd (hd gens')))"
    using ids sub Cons.prems(3) by (cases gens') (auto simp: log_ok_def)
  obtain st' where st': "recover_loop ac node uid 0 rots st1 = (Inr (), st')" "log_of (au_world st') = N"
    "sk_lines (au_sink st') = sk_lines (au_sink st1) @
       (if rots = [] then [] else gen_lines (drop 0 (snd (hd gens'))) @ concat (map (gen_lines \<circ> snd) (tl gens')))"
    "gm_get (au_checkpoints st') node =
       (if rots = [] then gm_get (au_checkpoints st1) node else Some (fresh_checkpoint node uid (rf_ID (last rots))))"
    by (rule Cons.IH [OF _ Cons.prems(2,3) st1(1) _ ids sub first']) (use Cons.prems(5) in auto)
  have "rots \<noteq> [] \<Longrightarrow> gens' = hd gens' # tl gens'" "rots = [] \<Longrightarrow> gens' = []" using ids by (cases gens'; auto)+
  then have "sk_lines (au_sink st') = sk_lines (au_sink st) @ gen_lines (drop skip c) @ concat (map (gen_lines \<circ> snd) gens')"
    using st'(3) st1(2) by (cases "rots = []") (simp_all, metis concat.simps(2) list.simps(9) comp_apply)
  then show ?case
    using s(1) st' st1(3) g by (intro Cons.prems(1) [of st']) (auto simp: st1_def)
qed simp


section \<open>Exactly once\<close>

text \<open>
  Lines are compared without blank lines and without carriage returns at their end: the scanner of
  the rotated files drops both, the reader of the active file keeps them.
\<close>

definition strip_cr :: "string \<Rightarrow> string" where
  "strip_cr l = rev (dropWhile (\<lambda>c. c = CHR 13) (rev l))"

definition norm_lines :: "string list \<Rightarrow> string list" where
  "norm_lines ls = filter (\<lambda>l. l \<noteq> []) (map strip_cr ls)"

lemma norm_append [simp]: "norm_lines (xs @ ys) = norm_lines xs @ norm_lines ys"
  by (simp add: norm_lines_def)

lemma strip_dropCR: "strip_cr (dropCR l) = strip_cr l"
  by (cases l rule: rev_cases) (auto simp: strip_cr_def dropCR_def)

lemma norm_gen_lines: "norm_lines (gen_lines c) = norm_lines (records c)"
proof -
  have "norm_lines (filter (\<lambda>l. l \<noteq> []) (map dropCR ls)) = norm_lines ls" for ls
    by (induction ls) (auto simp: norm_lines_def strip_dropCR, metis strip_cr_def strip_dropCR rev.simps(1) dropWhile.simps(1))
  then show ?thesis by (simp add: gen_lines_def)
qed

lemma records_concat: "\<forall>c \<in> set cs. ends_record c \<Longrightarrow> records (concat cs @ s) = concat (map records cs) @ records s"
  by (induction cs) (auto simp: records_append ends_record_def)

lemma ends_record_append: "ends_record a \<Longrightarrow> ends_record b \<Longrightarrow> ends_record (a @ b)"
  by (cases "b = []") (auto simp: ends_record_def last_append)

lemma ends_record_concat: "\<forall>c \<in> set cs. ends_record c \<Longrightarrow> ends_record (concat cs)"
  by (induction cs) (simp_all add: ends_record_append, simp add: ends_record_def)

text \<open>
  The files still to be read, oldest first: the generations after the last one processed and the
  active file. \<open>caught_up T pos\<close>: of the text \<open>T\<close> written to the log so far, exactly the part in front
  of the checkpoint has been handed on.
\<close>

definition files_left :: "node_log \<Rightarrow> nodeLogCheckpoint \<Rightarrow> string list" where
  "files_left N cp = map snd (unseen_gens N (cp_LastRotationID cp)) @ [nl_active N]"

definition poll_inv :: "'w auto_config \<Rightarrow> string \<Rightarrow> string \<Rightarrow> ('w \<Rightarrow> node_log) \<Rightarrow> string \<Rightarrow> 'w auto_state \<Rightarrow> bool" where
  "poll_inv ac node uid log_of T st \<longleftrightarrow>
     log_ok (log_of (au_world st)) \<and>
     (\<exists>cp pre. gm_get (au_checkpoints st) node = Some cp \<and> cp_NodeUID cp = uid
        \<and> cp_matches (ac_hash ac) (hd (files_left (log_of (au_world st)) cp)) cp
        \<and> T = pre @ concat (files_left (log_of (au_world st)) cp) \<and> ends_record pre
        \<and> norm_lines (sk_lines (au_sink st))
            = norm_lines (records (pre @ take (cp_ByteOffset cp) (hd (files_left (log_of (au_world st)) cp)))))"

lemma unseen_gens_last:
  assumes "log_ok N" and "unseen_gens N lastID \<noteq> []"
  shows "unseen_gens N (fst (last (unseen_gens N lastID))) = []"
proof -
  have "map fst (unseen_gens N lastID) = filter (\<lambda>i. lastID < i) (map fst (nl_rotated N))"
    unfolding unseen_gens_def filter_map comp_def case_prod_beta ..
  then have srt: "sorted (map fst (unseen_gens N lastID))"
    using assms(1) by (simp add: log_ok_def sorted_wrt_filter)
  have "i \<le> fst (last (unseen_gens N lastID))" if "(i, c) \<in> set (nl_rotated N)" for i c
  proof (cases "lastID < i")
    case True
    with that have "i \<in> set (map fst (unseen_gens N lastID))" by (force simp: unseen_gens_def)
    from sorted_le_last [OF this srt] assms(2) show ?thesis by (simp add: last_map)
  next
    case False
    moreover have "lastID < fst (last (unseen_gens N lastID))"
      using last_in_set [OF assms(2)] by (auto simp: unseen_gens_def)
    ultimately show ?thesis by simp
  qed
  then show ?thesis by (force simp: unseen_gens_def filter_empty_conv)
qed

lemma fetcher_list_contract:
  assumes "kubelet_contract (ac_kubelet ac) (ac_logPath ac) node log_of"
  obtains files w' where "fetcher_list (ac_kubelet ac) (ac_logPath ac) node w = (Inr files, w')"
    and "log_of w' = log_of w" and "rf_ID ` set files = fst ` set (nl_rotated (log_of w))"
    and "\<forall>f \<in> set files. opens ac node log_of (log_of w) f"
proof -
  from assms [unfolded kubelet_contract_def, THEN conjunct1, THEN spec, of w]
  obtain raw w' where r: "kl_raw (ac_kubelet ac) node (dirSegments (ac_logPath ac)) w = (Inr raw, w')" "log_of w' = log_of w"
    "rf_ID ` set (list_rotations raw (activeBaseName (ac_logPath ac))) = fst ` set (nl_rotated (log_of w))"
    and o: "\<forall>f \<in> set (list_rotations raw (activeBaseName (ac_logPath ac))). \<forall>v. log_of v = log_of w \<longrightarrow>
         (\<exists>r v'. kl_get (ac_kubelet ac) node (dirSegments (ac_logPath ac) @ [rf_Filename f]) 0 v = (Inr r, v')
            \<and> log_of v' = log_of w \<and> rotated_answer (ac_kubelet ac) (log_of w) f r)"
    by (elim exE conjE) (rule that)
  show ?thesis
    by (rule that [of "list_rotations raw (activeBaseName (ac_logPath ac))" w'])
       (use r in \<open>simp_all add: fetcher_list_def\<close>, use o in \<open>simp add: opens_def\<close>)
qed

lemma active_poll:
  assumes kc: "kubelet_contract (ac_kubelet ac) (ac_logPath ac) node log_of" and live: "live_env ac"
    and ok: "log_ok (log_of (au_world st))" and m: "cp_matches (ac_hash ac) (nl_active (log_of (au_world st))) cp"
    and none: "unseen_gens (log_of (au_world st)) (cp_LastRotationID cp) = []"
    and T: "T = pre @ nl_active (log_of (au_world st))" "ends_record pre"
    and lines: "norm_lines (sk_lines (au_sink st))
                  = norm_lines (records (pre @ take (cp_ByteOffset cp) (nl_active (log_of (au_world st)))))"
  obtains cp' st' where "processActive ac node uid cp st = (Inr cp', st')"
    and "log_of (au_world st') = log_of (au_world st)" and "cp_LastRotationID cp' = cp_LastRotationID cp"
    and "poll_inv ac node uid log_of T (set_checkpoint node cp' st')"
    and "norm_lines (sk_lines (au_sink (set_checkpoint node cp' st'))) = norm_lines (records T)"
proof -
  let ?F = "nl_active (log_of (au_world st))"
  have F: "short ?F" "length ?F < 2 ^ 63" using ok by (simp_all add: log_ok_def)
  obtain cp' st' where p: "processActive ac node uid cp st = (Inr cp', st')"
    "log_of (au_world st') = log_of (au_world st)" "au_checkpoints st' = au_checkpoints st"
    "sk_lines (au_sink st') = sk_lines (au_sink st) @ records (drop (cp_ByteOffset cp) ?F)"
    "cp_matches (ac_hash ac) ?F cp'" "records (drop (cp_ByteOffset cp') ?F) = []"
    "records (take (cp_ByteOffset cp') ?F) = records ?F"
    "cp_NodeUID cp' = uid" "cp_LastRotationID cp' = cp_LastRotationID cp"
    by (rule processActive_continue [OF kc live refl F m])
  have recs: "records (pre @ s) = records pre @ records s" for s
    using T(2) by (simp add: records_append ends_record_def)
  have all: "norm_lines (sk_lines (au_sink st')) = norm_lines (records T)"
    using p(4) lines records_take_drop [OF m] by (simp add: T(1) recs)
  have "poll_inv ac node uid log_of T (set_checkpoint node cp' st')"
    unfolding poll_inv_def
    using p ok T all none recs
    by (auto simp: set_checkpoint_def store_set_def files_left_def intro!: exI [of _ pre])
  with p all show ?thesis by (intro that [of cp' st']) (simp_all add: set_checkpoint_def)
qed


text \<open>A poll hands on exactly the complete records behind the checkpoint, whatever has rotated.\<close>

lemma get_checkpoint_found: "gm_get (au_checkpoints st) node = Some cp \<Longrightarrow> get_checkpoint node st = (cp, st)"
  by (simp add: get_checkpoint_def store_get_def)

lemma concat_gen_lines: "norm_lines (concat (map (gen_lines \<circ> snd) gs)) = norm_lines (concat (map records (map snd gs)))"
  by (induction gs) (simp_all add: norm_gen_lines)

lemma recover_poll:
  assumes kc: "kubelet_contract (ac_kubelet ac) (ac_logPath ac) node log_of" and live: "live_env ac"
    and N: "log_of (au_world st) = N" and ok: "log_ok N"
    and cp: "gm_get (au_checkpoints st) node = Some cp" "cp_NodeUID cp = uid"
    and un: "map rf_ID unseen = map fst (unseen_gens N (cp_LastRotationID cp))" "unseen \<noteq> []"
    and opens: "\<forall>f \<in> set unseen. opens ac node log_of N f"
    and m: "cp_matches (ac_hash ac) (hd (files_left N cp)) cp"
    and T: "T = pre @ concat (files_left N cp)" "ends_record pre"
    and lines: "norm_lines (sk_lines (au_sink st)) = norm_lines (records (pre @ take (cp_ByteOffset cp) (hd (files_left N cp))))"
  obtains st' where "recoverRotations ac node uid unseen st = (Inr (), st')" and "log_of (au_world st') = N"
    and "poll_inv ac node uid log_of T st'" and "norm_lines (sk_lines (au_sink st')) = norm_lines (records T)"
proof -
  define gens where "gens = unseen_gens N (cp_LastRotationID cp)"
  obtain i c gs where g: "gens = (i, c) # gs" using un by (cases gens) (auto simp: gens_def)
  have sub: "set gens \<subseteq> set (nl_rotated N)" by (auto simp: gens_def unseen_gens_def)
  have hd: "hd (files_left N cp) = c" using g by (simp add: files_left_def gens_def)
  have ends: "\<forall>x \<in> set (map snd gens). ends_record x" using sub ok by (fastforce simp: log_ok_def)
  have c: "short c" "cp_ByteOffset cp \<le> length c"
    using sub ok g m hd by (fastforce simp: log_ok_def cp_matches_def)+
  obtain st1 where st1: "recover_loop ac node uid (cp_ByteOffset cp) unseen st = (Inr (), st1)" "log_of (au_world st1) = N"
    "sk_lines (au_sink st1) = sk_lines (au_sink st) @ (if unseen = [] then [] else gen_lines (drop (cp_ByteOffset cp) (snd (hd gens)))
        @ concat (map (gen_lines \<circ> snd) (tl gens)))"
    "gm_get (au_checkpoints st1) node = (if unseen = [] then gm_get (au_checkpoints st) node
        else Some (fresh_checkpoint node uid (rf_ID (last unseen))))"
    by (rule recover_loop_all [OF live ok N opens un(1) [folded gens_def] sub])
       (use g c short_parts(2) [OF m] hd in auto)
  let ?cp1 = "fresh_checkpoint node uid (rf_ID (last unseen))"
  have cp1: "gm_get (au_checkpoints st1) node = Some ?cp1" using st1(4) un(2) by simp
  have lastID: "rf_ID (last unseen) = fst (last gens)"
    using un g by (metis gens_def last_map list.distinct(1) map_is_Nil_conv)
  have none: "unseen_gens (log_of (au_world st1)) (cp_LastRotationID ?cp1) = []"
    using unseen_gens_last [OF ok, of "cp_LastRotationID cp"] g lastID st1(2)
    by (simp add: fresh_checkpoint_def gens_def)
  have recs: "records (pre @ s) = records pre @ records s" for s
    using T(2) by (simp add: records_append ends_record_def)
  define pre' where "pre' = pre @ concat (map snd gens)"
  have pre': "ends_record pre'" "T = pre' @ nl_active (log_of (au_world st1))"
    using T ends_record_append [OF T(2) ends_record_concat [OF ends]] st1(2)
    by (simp_all add: pre'_def files_left_def gens_def)
  have "records (concat (map snd gens)) = records c @ concat (map records (map snd gs))"
    using records_concat [OF ends, of "[]"] g by simp
  moreover have "records c = records (take (cp_ByteOffset cp) c) @ records (drop (cp_ByteOffset cp) c)"
    using records_take_drop [OF m] hd by simp
  ultimately have lines1: "norm_lines (sk_lines (au_sink st1))
      = norm_lines (records (pre' @ take (cp_ByteOffset ?cp1) (nl_active (log_of (au_world st1)))))"
    using st1(3) un(2) lines hd g
    by (simp add: fresh_checkpoint_def pre'_def recs norm_gen_lines concat_gen_lines [simplified])
  have ok1: "log_ok (log_of (au_world st1))" using ok st1(2) by simp
  have m1: "cp_matches (ac_hash ac) (nl_active (log_of (au_world st1))) ?cp1"
    by (simp add: cp_matches_def fresh_checkpoint_def)
  obtain cp' st' where fin: "processActive ac node uid ?cp1 st1 = (Inr cp', st')"
    "log_of (au_world st') = log_of (au_world st1)" "cp_LastRotationID cp' = cp_LastRotationID ?cp1"
    "poll_inv ac node uid log_of T (set_checkpoint node cp' st')"
    "norm_lines (sk_lines (au_sink (set_checkpoint node cp' st'))) = norm_lines (records T)"
    by (rule active_poll [OF kc live ok1 m1 none pre'(2,1) lines1])
  have "recoverRotations ac node uid unseen st = (Inr (), set_checkpoint node cp' st')"
    using st1(1) fin(1) by (simp add: recoverRotations_def get_checkpoint_found [OF cp(1)] get_checkpoint_found [OF cp1])
  with fin st1(2) show ?thesis by (intro that [of "set_checkpoint node cp' st'"]) (simp_all add: set_checkpoint_def)
qed


lemma poll_step:
  assumes kc: "kubelet_contract (ac_kubelet ac) (ac_logPath ac) node log_of" and live: "live_env ac" and uid: "uid \<noteq> []"
    and inv: "poll_inv ac node uid log_of T st"
  obtains st' where "pollNode ac node uid st = (Inr (), st')" and "log_of (au_world st') = log_of (au_world st)"
    and "poll_inv ac node uid log_of T st'" and "norm_lines (sk_lines (au_sink st')) = norm_lines (records T)"
proof -
  define N where "N = log_of (au_world st)"
  obtain cp pre where ok: "log_ok N" and cp: "gm_get (au_checkpoints st) node = Some cp" "cp_NodeUID cp = uid"
    and m: "cp_matches (ac_hash ac) (hd (files_left N cp)) cp"
    and T: "T = pre @ concat (files_left N cp)" "ends_record pre"
    and lines: "norm_lines (sk_lines (au_sink st)) = norm_lines (records (pre @ take (cp_ByteOffset cp) (hd (files_left N cp))))"
    using inv by (auto simp: poll_inv_def N_def)
  obtain files w' where f: "fetcher_list (ac_kubelet ac) (ac_logPath ac) node (au_world st) = (Inr files, w')"
    "log_of w' = log_of (au_world st)" "rf_ID ` set files = fst ` set (nl_rotated (log_of (au_world st)))"
    and opens: "\<forall>f \<in> set files. opens ac node log_of (log_of (au_world st)) f"
    by (rule fetcher_list_contract [OF kc])
  define unseen where "unseen = unseenRotations files (cp_LastRotationID cp)"
  have ids: "map rf_ID unseen = map fst (unseen_gens N (cp_LastRotationID cp))"
    unfolding unseen_def using f(3) by (intro unseen_ids [OF ok]) (simp add: N_def)
  have poll: "pollNode ac node uid st =
      (if unseen \<noteq> [] then recoverRotations ac node uid unseen (bump (AddAutoModeRotationsDetected (int (length unseen))) (st\<lparr>au_world := w'\<rparr>))
       else case processActive ac node uid cp (st\<lparr>au_world := w'\<rparr>) of
              (Inl e, st2) \<Rightarrow> (Inl e, st2) | (Inr cp', st2) \<Rightarrow> (Inr (), set_checkpoint node cp' st2))"
    using uid cp f(1) by (simp add: pollNode_def get_checkpoint_found [OF cp(1)] unseen_def Let_def)
  show ?thesis
  proof (cases "unseen = []")
    case True
    then have none: "unseen_gens N (cp_LastRotationID cp) = []" using ids by simp
    then have fl: "files_left N cp = [nl_active N]" by (simp add: files_left_def)
    obtain cp' st' where "processActive ac node uid cp (st\<lparr>au_world := w'\<rparr>) = (Inr cp', st')"
      "log_of (au_world st') = log_of (au_world (st\<lparr>au_world := w'\<rparr>))" "cp_LastRotationID cp' = cp_LastRotationID cp"
      "poll_inv ac node uid log_of T (set_checkpoint node cp' st')"
      "norm_lines (sk_lines (au_sink (set_checkpoint node cp' st'))) = norm_lines (records T)"
      by (rule active_poll [OF kc live, of "st\<lparr>au_world := w'\<rparr>" cp T pre uid])
         (use ok m fl none T lines f(2) in \<open>simp_all add: N_def\<close>)
    with poll True f(2) show ?thesis
      by (intro that [of "set_checkpoint node cp' st'"]) (simp_all add: set_checkpoint_def)
  next
    case False
    let ?st = "bump (AddAutoModeRotationsDetected (int (length unseen))) (st\<lparr>au_world := w'\<rparr>)"
    have st: "log_of (au_world ?st) = N" "gm_get (au_checkpoints ?st) node = Some cp" "au_sink ?st = au_sink st"
      using f(2) cp by (simp_all add: bump_def N_def)
    have op: "\<forall>f \<in> set unseen. opens ac node log_of N f"
      using opens unseenRotations_def dedupRotations_spec(3) by (fastforce simp: unseen_def best_of_def N_def)
    obtain st' where "recoverRotations ac node uid unseen ?st = (Inr (), st')" "log_of (au_world st') = N"
      "poll_inv ac node uid log_of T st'" "norm_lines (sk_lines (au_sink st')) = norm_lines (records T)"
      by (rule recover_poll [OF kc live st(1) ok st(2) cp(2) ids False op m T]) (use lines st(3) in simp)
    with poll False show ?thesis by (intro that [of st']) (simp_all add: N_def)
  qed
qed

lemma bootstrap_poll:
  assumes kc: "kubelet_contract (ac_kubelet ac) (ac_logPath ac) node log_of" and live: "live_env ac" and uid: "uid \<noteq> []"
    and new: "gm_get (au_checkpoints st) node = None" "sk_lines (au_sink st) = []" and ok: "log_ok (log_of (au_world st))"
  obtains st' where "pollNode ac node uid st = (Inr (), st')" and "log_of (au_world st') = log_of (au_world st)"
    and "poll_inv ac node uid log_of (nl_active (log_of (au_world st))) st'"
    and "\<forall>fs. fst (fetcher_list (ac_kubelet ac) (ac_logPath ac) node (au_world st)) = Inr fs
           \<longrightarrow> map_option cp_LastRotationID (gm_get (au_checkpoints st') node) = Some (newestRotationID fs)"
proof -
  obtain files w' where f: "fetcher_list (ac_kubelet ac) (ac_logPath ac) node (au_world st) = (Inr files, w')"
    "log_of w' = log_of (au_world st)" "rf_ID ` set files = fst ` set (nl_rotated (log_of (au_world st)))"
    and "\<forall>f \<in> set files. opens ac node log_of (log_of (au_world st)) f"
    by (rule fetcher_list_contract [OF kc])
  let ?id = "newestRotationID files"
  let ?st = "st\<lparr>au_checkpoints := gm_put node (fresh_checkpoint node [] []) (au_checkpoints st), au_world := w'\<rparr>"
  have "i \<le> ?id" if "(i, c) \<in> set (nl_rotated (log_of (au_world st)))" for i c
  proof -
    have "i \<in> rf_ID ` set files" using f(3) that by force
    then show ?thesis using newest_is_max by auto
  qed
  then have none: "unseen_gens (log_of (au_world ?st)) (cp_LastRotationID (fresh_checkpoint node uid ?id)) = []"
    using f(2) by (fastforce simp: unseen_gens_def filter_empty_conv fresh_checkpoint_def)
  obtain cp' st' where p: "processActive ac node uid (fresh_checkpoint node uid ?id) ?st = (Inr cp', st')"
    "log_of (au_world st') = log_of (au_world ?st)" "cp_LastRotationID cp' = cp_LastRotationID (fresh_checkpoint node uid ?id)"
    "poll_inv ac node uid log_of (nl_active (log_of (au_world st))) (set_checkpoint node cp' st')"
    "norm_lines (sk_lines (au_sink (set_checkpoint node cp' st'))) = norm_lines (records (nl_active (log_of (au_world st))))"
    by (rule active_poll [OF kc live, of ?st "fresh_checkpoint node uid ?id" "nl_active (log_of (au_world st))" "[]" uid])
       (use ok f(2) none new in \<open>simp_all add: cp_matches_def fresh_checkpoint_def ends_record_def norm_lines_def\<close>)
  have "cp'\<lparr>cp_LastRotationID := ?id\<rparr> = cp'" using p(3) by (simp add: fresh_checkpoint_def)
  then have "pollNode ac node uid st = (Inr (), set_checkpoint node cp' st')"
    using new(1) uid f(1) p(1)
    by (simp add: pollNode_def get_checkpoint_def store_get_def Let_def bootstrapNode_def fresh_checkpoint_def)
  with p f(1,2) show ?thesis
    by (intro that [of "set_checkpoint node cp' st'"]) (simp_all add: set_checkpoint_def store_set_def fresh_checkpoint_def)
qed


text \<open>
  The life of a node's log between polls. The agent appends to the active file; lumberjack renames
  it, with a later timestamp than any before, at a record boundary; generations already processed
  are deleted, oldest first; and the collector polls. The first component is all the text written
  since the collector first saw the node.
\<close>

inductive log_step :: "'w auto_config \<Rightarrow> string \<Rightarrow> string \<Rightarrow> ('w \<Rightarrow> node_log) \<Rightarrow> string \<times> 'w auto_state \<Rightarrow> string \<times> 'w auto_state \<Rightarrow> bool"
  for ac node uid log_of where
  append: "log_of v = (log_of (au_world st))\<lparr>nl_active := nl_active (log_of (au_world st)) @ txt\<rparr> \<Longrightarrow> log_ok (log_of v)
    \<Longrightarrow> log_step ac node uid log_of (T, st) (T @ txt, st\<lparr>au_world := v\<rparr>)"
| rotate: "log_of v = \<lparr>nl_rotated = nl_rotated (log_of (au_world st)) @ [(i, nl_active (log_of (au_world st)))], nl_active = []\<rparr>
    \<Longrightarrow> ends_record (nl_active (log_of (au_world st))) \<Longrightarrow> \<forall>j \<in> fst ` set (nl_rotated (log_of (au_world st))). j < i
    \<Longrightarrow> map_option cp_LastRotationID (gm_get (au_checkpoints st) node) = Some k \<Longrightarrow> k < i
    \<Longrightarrow> log_step ac node uid log_of (T, st) (T, st\<lparr>au_world := v\<rparr>)"
| expire: "nl_rotated (log_of (au_world st)) = (i, c) # gs \<Longrightarrow> log_of v = (log_of (au_world st))\<lparr>nl_rotated := gs\<rparr>
    \<Longrightarrow> map_option cp_LastRotationID (gm_get (au_checkpoints st) node) = Some k \<Longrightarrow> i \<le> k
    \<Longrightarrow> log_step ac node uid log_of (T, st) (T, st\<lparr>au_world := v\<rparr>)"
| poll: "log_step ac node uid log_of (T, st) (T, snd (pollNode ac node uid st))"

lemma inv_append:
  assumes inv: "poll_inv ac node uid log_of T st"
    and v: "log_of v = (log_of (au_world st))\<lparr>nl_active := nl_active (log_of (au_world st)) @ txt\<rparr>" "log_ok (log_of v)"
  shows "poll_inv ac node uid log_of (T @ txt) (st\<lparr>au_world := v\<rparr>)"
proof -
  define N where "N = log_of (au_world st)"
  obtain cp pre where cp: "gm_get (au_checkpoints st) node = Some cp" "cp_NodeUID cp = uid"
    and m: "cp_matches (ac_hash ac) (hd (files_left N cp)) cp" and T: "T = pre @ concat (files_left N cp)" "ends_record pre"
    and lines: "norm_lines (sk_lines (au_sink st)) = norm_lines (records (pre @ take (cp_ByteOffset cp) (hd (files_left N cp))))"
    using inv by (auto simp: poll_inv_def N_def)
  have fl: "files_left (log_of v) cp = butlast (files_left N cp) @ [last (files_left N cp) @ txt]"
    by (simp add: v(1) N_def files_left_def unseen_gens_def)
  have hd': "\<exists>x. hd (files_left (log_of v) cp) = hd (files_left N cp) @ x"
    unfolding fl by (cases "unseen_gens N (cp_LastRotationID cp)") (auto simp: files_left_def)
  then obtain x where x: "hd (files_left (log_of v) cp) = hd (files_left N cp) @ x" by blast
  have off: "cp_ByteOffset cp \<le> length (hd (files_left N cp))" using m by (auto simp: cp_matches_def)
  have "concat (files_left (log_of v) cp) = concat (files_left N cp) @ txt"
    by (simp add: fl) (simp add: files_left_def)
  then show ?thesis
    unfolding poll_inv_def using v(2) cp m T lines off
    by (auto simp: x cp_matches_append intro!: exI [of _ pre])
qed

lemma inv_rotate:
  assumes inv: "poll_inv ac node uid log_of T st"
    and v: "log_of v = \<lparr>nl_rotated = nl_rotated (log_of (au_world st)) @ [(i, nl_active (log_of (au_world st)))], nl_active = []\<rparr>"
    and ends: "ends_record (nl_active (log_of (au_world st)))" and new: "\<forall>j \<in> fst ` set (nl_rotated (log_of (au_world st))). j < i"
    and last: "map_option cp_LastRotationID (gm_get (au_checkpoints st) node) = Some k" "k < i"
  shows "poll_inv ac node uid log_of T (st\<lparr>au_world := v\<rparr>)"
proof -
  define N where "N = log_of (au_world st)"
  obtain cp pre where ok: "log_ok N" and cp: "gm_get (au_checkpoints st) node = Some cp" "cp_NodeUID cp = uid"
    and m: "cp_matches (ac_hash ac) (hd (files_left N cp)) cp" and T: "T = pre @ concat (files_left N cp)" "ends_record pre"
    and lines: "norm_lines (sk_lines (au_sink st)) = norm_lines (records (pre @ take (cp_ByteOffset cp) (hd (files_left N cp))))"
    using inv by (auto simp: poll_inv_def N_def)
  have fl: "files_left (log_of v) cp = files_left N cp @ [[]]"
    using last cp by (simp add: v N_def files_left_def unseen_gens_def)
  have ne: "files_left N cp \<noteq> []" by (simp add: files_left_def)
  have "log_ok (log_of v)"
    using ok ends new by (auto simp: v N_def log_ok_def sorted_append short_def less_imp_le)
  then show ?thesis
    unfolding poll_inv_def using cp m T lines ne by (auto simp: fl intro!: exI [of _ pre])
qed

lemma inv_expire:
  assumes inv: "poll_inv ac node uid log_of T st"
    and v: "nl_rotated (log_of (au_world st)) = (i, c) # gs" "log_of v = (log_of (au_world st))\<lparr>nl_rotated := gs\<rparr>"
    and last: "map_option cp_LastRotationID (gm_get (au_checkpoints st) node) = Some k" "i \<le> k"
  shows "poll_inv ac node uid log_of T (st\<lparr>au_world := v\<rparr>)"
proof -
  obtain cp where cp: "gm_get (au_checkpoints st) node = Some cp" using inv by (auto simp: poll_inv_def)
  then have "files_left (log_of v) cp = files_left (log_of (au_world st)) cp"
    using last v by (simp add: files_left_def unseen_gens_def leD)
  moreover have "log_ok (log_of v)" using inv v by (auto simp: poll_inv_def log_ok_def)
  ultimately show ?thesis using inv cp by (auto simp: poll_inv_def)
qed

lemma log_step_inv:
  assumes "kubelet_contract (ac_kubelet ac) (ac_logPath ac) node log_of" "live_env ac" "uid \<noteq> []"
    and "log_step ac node uid log_of x y" "poll_inv ac node uid log_of (fst x) (snd x)"
  shows "poll_inv ac node uid log_of (fst y) (snd y)"
  using assms(4,5)
proof cases
  case (poll T st)
  then have inv: "poll_inv ac node uid log_of T st" using assms(5) by simp
  obtain st' where "pollNode ac node uid st = (Inr (), st')" "log_of (au_world st') = log_of (au_world st)"
    "poll_inv ac node uid log_of T st'" "norm_lines (sk_lines (au_sink st')) = norm_lines (records T)"
    by (rule poll_step [OF assms(1-3) inv])
  then show ?thesis using poll by simp
qed (use assms(5) in \<open>auto intro: inv_append inv_rotate inv_expire\<close>)



text \<open>A concrete node: one record, then a second one and a rotation, then a third.\<close>

definition sample_rotation :: string where
  "sample_rotation = ''2026-08-07T15-04-05.000''"

definition sample_node_log :: "nat \<Rightarrow> node_log" where
  "sample_node_log n =
     (if n = 0 then \<lparr>nl_rotated = [], nl_active = ''a'' @ [NL]\<rparr>
      else if n = 1 then \<lparr>nl_rotated = [], nl_active = ''a'' @ [NL] @ ''b'' @ [NL]\<rparr>
      else if n = 2 then \<lparr>nl_rotated = [(sample_rotation, ''a'' @ [NL] @ ''b'' @ [NL])], nl_active = []\<rparr>
      else \<lparr>nl_rotated = [(sample_rotation, ''a'' @ [NL] @ ''b'' @ [NL])], nl_active = ''c'' @ [NL]\<rparr>)"

definition sample_page :: string where
  "sample_page = ''href='' @ [CHR 34] @ ''network-policy-agent-2026-08-07T15-04-05.000.log'' @ [CHR 34]"

definition sample_kubelet :: "nat kubelet" where
  "sample_kubelet =
     \<lparr>kl_get = (\<lambda>node segs start w.
        (Inr \<lparr>hr_status = 200, hr_content_range = [],
              hr_body = (if segs = activeSegments [] then nl_active (sample_node_log w) else ''a'' @ [NL] @ ''b'' @ [NL], IoEOF)\<rparr>, w)),
      kl_raw = (\<lambda>node segs w.
        (Inr (if w < 2 then [] else sample_page), w)),
      kl_gunzip = Inr\<rparr>"

definition sample_auto :: "nat auto_config" where
  "sample_auto = \<lparr>ac_kubelet = sample_kubelet, ac_logPath = [], ac_lib = sample_lib,
     ac_env = (\<lambda>_. \<lparr>le_ctx_done = False, le_now = 0, le_cache_err = None\<rparr>), ac_hash = (\<lambda>l. l)\<rparr>"

definition sample_auto_state :: "nat auto_state" where
  "sample_auto_state = \<lparr>au_checkpoints = newCheckpointStore, au_sink = \<lparr>sk_flows = [], sk_received = 0, sk_lines = []\<rparr>,
     au_stats = NewStats, au_world = 0\<rparr>"

lemma sample_segments:
  "activeSegments [] = [''logs'', ''aws-routed-eni'', ''network-policy-agent.log'']"
  "dirSegments [] = [''logs'', ''aws-routed-eni'']" "activeBaseName [] = ''network-policy-agent.log''"
  by code_simp+

lemma sample_listing:
  "list_rotations sample_page ''network-policy-agent.log''
     = [\<lparr>rf_ID = sample_rotation, rf_Filename = ''network-policy-agent-2026-08-07T15-04-05.000.log'', rf_Compressed = False\<rparr>]"
  "list_rotations [] ''network-policy-agent.log'' = []"
  by code_simp+

lemma sample_contract: "kubelet_contract (ac_kubelet sample_auto) (ac_logPath sample_auto) ''n'' sample_node_log"
  by (auto simp: kubelet_contract_def sample_auto_def sample_kubelet_def sample_segments sample_listing rotated_answer_def
      active_answer_def sample_node_log_def)

lemma sample_log_ok: "log_ok (sample_node_log n)"
proof -
  have "records (''a'' @ [NL] @ ''b'' @ [NL]) = [''a'', ''b'']" "records (''a'' @ [NL]) = [''a'']" "records (''c'' @ [NL]) = [''c'']"
    by code_simp+
  then show ?thesis
    by (simp add: log_ok_def sample_node_log_def short_def ends_record_def validationOverlap_def)
qed

lemma sample_fresh: "gm_get (au_checkpoints sample_auto_state) ''n'' = None" "sk_lines (au_sink sample_auto_state) = []"
  "log_ok (sample_node_log (au_world sample_auto_state))" "live_env sample_auto" "''u'' \<noteq> []"
  by (simp_all only: sample_log_ok)
     (simp_all add: sample_auto_state_def newCheckpointStore_def live_env_def sample_auto_def)

lemma sample_boot:
  "sample_node_log (au_world (snd (pollNode sample_auto ''n'' ''u'' sample_auto_state))) = sample_node_log 0
   \<and> map_option cp_LastRotationID (gm_get (au_checkpoints (snd (pollNode sample_auto ''n'' ''u'' sample_auto_state))) ''n'') = Some []"
proof -
  have l: "fst (fetcher_list (ac_kubelet sample_auto) (ac_logPath sample_auto) ''n'' (au_world sample_auto_state)) = Inr []"
    by (simp add: fetcher_list_def sample_auto_def sample_kubelet_def sample_auto_state_def sample_segments sample_listing)
  have n: "newestRotationID [] = []" by (simp add: newestRotationID_def dedupRotations_def sortRotations_def)
  have w: "au_world sample_auto_state = 0" by (simp add: sample_auto_state_def)
  obtain st' where "pollNode sample_auto ''n'' ''u'' sample_auto_state = (Inr (), st')"
    "sample_node_log (au_world st') = sample_node_log (au_world sample_auto_state)"
    "poll_inv sample_auto ''n'' ''u'' sample_node_log (nl_active (sample_node_log (au_world sample_auto_state))) st'"
    "\<forall>fs. fst (fetcher_list (ac_kubelet sample_auto) (ac_logPath sample_auto) ''n'' (au_world sample_auto_state)) = Inr fs
       \<longrightarrow> map_option cp_LastRotationID (gm_get (au_checkpoints st') ''n'') = Some (newestRotationID fs)"
    by (rule bootstrap_poll [OF sample_contract sample_fresh(4,5,1,2,3)])
  then show ?thesis using l n w by (simp only: snd_conv)
qed



section \<open>A failed poll\<close>

lemma readActiveOnce_checkpoints [simp]: "au_checkpoints (snd (readActiveOnce ac node cp start st)) = au_checkpoints st"
  by (auto simp: readActiveOnce_def Let_def split: prod.splits sum.splits)

lemma readActiveOnce_result: "readActiveOnce ac node cp start st = (r, st') \<Longrightarrow> au_checkpoints st' = au_checkpoints st"
  using readActiveOnce_checkpoints [of ac node cp start st] by simp

lemma processActive_result:
  assumes "processActive ac node uid cp st = (r, st')"
  shows "au_checkpoints st' = au_checkpoints st"
proof -
  obtain r1 st1 where 1: "readActiveOnce ac node cp (if cp_ByteOffset cp > validationOverlap then cp_ByteOffset cp - validationOverlap else 0) st
      = (r1, st1)" by fastforce
  obtain r2 st2 where 2: "readActiveOnce ac node (fresh_checkpoint node uid (cp_LastRotationID cp)) 0 st1 = (r2, st2)" by fastforce
  have "st' = st1 \<or> st' = st2"
    using assms by (cases r1; cases r2) (auto simp: processActive_def Let_def 1 2 split: if_splits)
  then show ?thesis
    using readActiveOnce_result [OF 1] readActiveOnce_result [OF 2] by auto
qed

lemma read_rotated_result: "read_rotated ac rot rc skip st = (r, st') \<Longrightarrow> au_checkpoints st' = au_checkpoints st"
  by (auto simp: read_rotated_def split: prod.splits sum.splits if_splits)

lemma recoverRotatedFile_result: "recoverRotatedFile ac node rot skip st = (r, st') \<Longrightarrow> au_checkpoints st' = au_checkpoints st"
  by (auto simp: recoverRotatedFile_def bump_def split: prod.splits sum.splits if_splits option.splits dest!: read_rotated_result)

lemma recover_loop_result:
  assumes "recover_loop ac node uid skip rots st = (r, st')"
  shows "(gm_get (au_checkpoints st') node = gm_get (au_checkpoints st) node \<or>
          (\<exists>f \<in> set rots. gm_get (au_checkpoints st') node = Some (fresh_checkpoint node uid (rf_ID f))))
         \<and> (\<forall>n. n \<noteq> node \<longrightarrow> gm_get (au_checkpoints st') n = gm_get (au_checkpoints st) n)"
  using assms
proof (induction rots arbitrary: skip st)
  case (Cons f rots)
  obtain r1 st1 where 1: "recoverRotatedFile ac node f skip st = (r1, st1)" by fastforce
  have cps: "au_checkpoints st1 = au_checkpoints st" by (rule recoverRotatedFile_result [OF 1])
  show ?case
  proof (cases r1)
    case (Inl e)
    then show ?thesis using Cons.prems 1 cps by (auto simp: bump_def)
  next
    case (Inr b)
    let ?st = "set_checkpoint node (fresh_checkpoint node uid (rf_ID f)) (if b then bump IncrementAutoModeRotationRecoveries st1 else st1)"
    have "recover_loop ac node uid 0 rots ?st = (r, st')" using Cons.prems 1 Inr by simp
    from Cons.IH [OF this] show ?thesis
      using cps by (auto simp: set_checkpoint_def store_set_def bump_def)
  qed
qed simp


definition failing_kubelet :: "nat kubelet" where
  "failing_kubelet = sample_kubelet\<lparr>kl_raw := (\<lambda>node segs w. (Inl (ErrMsg ''unreachable''), w))\<rparr>"

definition polled_checkpoint :: nodeLogCheckpoint where
  "polled_checkpoint = (fresh_checkpoint ''n'' ''u'' [])\<lparr>cp_ByteOffset := 2, cp_LastRecordHash := ''a''\<rparr>"


end
