(* ===== verification/Poll_Pool.thy ===== *)
theory Poll_Pool
  imports Auto_Mode "HOL-Library.Multiset"
begin

text \<open>
  \<open>pollAllNodes\<close> of \<open>stream/flows/awsautomode/client.go\<close> as its goroutines run: one per node, a semaphore that lets
  \<open>maxConcurrentPolls\<close> of them poll at a time, and a wait group for all of them. \<open>Auto_Mode\<close> polls the nodes one after the
  other; this theory shows that the goroutines do the same in some order, that the bound holds, and that the wait
  ends. The poll of one node is one step: it reads and writes the checkpoint of that node alone.
\<close>

section \<open>The goroutines\<close>

text \<open>
  A goroutine waits at the select for a slot or the cancelled context, holds a slot, has polled and is about to give the slot
  back, or is done. \<open>pp_polled\<close> is the order in which they took effect, with \<open>False\<close> for one that gave up.
\<close>

datatype poll_phase = AtSelect | HoldsSlot | Polled | PollDone

record 'w poll_pool =
  pp_phase :: "poll_phase list"
  pp_sem :: nat
  pp_cancelled :: bool
  pp_state :: "'w auto_state"
  pp_polled :: "(string \<times> string \<times> bool) list"

definition start_polls :: "(string \<times> string) list \<Rightarrow> bool \<Rightarrow> 'w auto_state \<Rightarrow> 'w poll_pool" where
  "start_polls nodes cancelled st =
     \<lparr>pp_phase = replicate (length nodes) AtSelect, pp_sem = 0, pp_cancelled = cancelled,
      pp_state = bump (SetAutoModeNodesObserved (int (length nodes))) st, pp_polled = []\<rparr>"

definition take_effect :: "'w auto_config \<Rightarrow> string \<times> string \<Rightarrow> bool \<Rightarrow> 'w poll_pool \<Rightarrow> 'w poll_pool" where
  "take_effect ac nd slot p =
     p\<lparr>pp_state := poll_one ac (fst nd, snd nd, slot) (pp_state p), pp_polled := pp_polled p @ [(fst nd, snd nd, slot)]\<rparr>"

definition set_phase :: "nat \<Rightarrow> poll_phase \<Rightarrow> 'w poll_pool \<Rightarrow> 'w poll_pool" where
  "set_phase i ph p = p\<lparr>pp_phase := (pp_phase p)[i := ph]\<rparr>"

inductive pool_step :: "'w auto_config \<Rightarrow> nat \<Rightarrow> (string \<times> string) list \<Rightarrow> 'w poll_pool \<Rightarrow> 'w poll_pool \<Rightarrow> bool"
  for ac limit nodes where
  acquire: "i < length nodes \<Longrightarrow> pp_phase p ! i = AtSelect \<Longrightarrow> pp_sem p < limit \<Longrightarrow>
     pool_step ac limit nodes p (set_phase i HoldsSlot (p\<lparr>pp_sem := Suc (pp_sem p)\<rparr>))"
| give_up: "i < length nodes \<Longrightarrow> pp_phase p ! i = AtSelect \<Longrightarrow> pp_cancelled p \<Longrightarrow>
     pool_step ac limit nodes p (set_phase i PollDone (take_effect ac (nodes ! i) False p))"
| poll: "i < length nodes \<Longrightarrow> pp_phase p ! i = HoldsSlot \<Longrightarrow>
     pool_step ac limit nodes p (set_phase i Polled (take_effect ac (nodes ! i) True p))"
| release: "i < length nodes \<Longrightarrow> pp_phase p ! i = Polled \<Longrightarrow>
     pool_step ac limit nodes p (set_phase i PollDone (p\<lparr>pp_sem := pp_sem p - 1\<rparr>))"

text \<open>The context may be cancelled between any two steps.\<close>

inductive pool_run :: "'w auto_config \<Rightarrow> nat \<Rightarrow> (string \<times> string) list \<Rightarrow> 'w poll_pool \<Rightarrow> 'w poll_pool \<Rightarrow> bool"
  for ac limit nodes where
  pool_refl: "pool_run ac limit nodes p p"
| pool_move: "pool_run ac limit nodes p q \<Longrightarrow> pool_step ac limit nodes q r \<Longrightarrow> pool_run ac limit nodes p r"
| pool_cancel: "pool_run ac limit nodes p q \<Longrightarrow> pool_run ac limit nodes p (q\<lparr>pp_cancelled := True\<rparr>)"

definition all_done :: "'w poll_pool \<Rightarrow> bool" where
  "all_done p \<longleftrightarrow> list_all (\<lambda>ph. ph = PollDone) (pp_phase p)"

text \<open>What follows the wait: checkpoints of nodes that are gone are dropped.\<close>

definition finish_polls :: "(string \<times> string) list \<Rightarrow> 'w poll_pool \<Rightarrow> 'w auto_state" where
  "finish_polls nodes p =
     (pp_state p)\<lparr>au_checkpoints := snd (store_retain (map fst nodes) (au_checkpoints (pp_state p)))\<rparr>"

section \<open>The slots\<close>

fun holds_slot :: "poll_phase \<Rightarrow> bool" where
  "holds_slot HoldsSlot = True" | "holds_slot Polled = True" | "holds_slot _ = False"

fun has_effect :: "poll_phase \<Rightarrow> bool" where
  "has_effect Polled = True" | "has_effect PollDone = True" | "has_effect _ = False"

definition slots_ok :: "nat \<Rightarrow> 'w poll_pool \<Rightarrow> bool" where
  "slots_ok limit p \<longleftrightarrow> pp_sem p = length (filter holds_slot (pp_phase p)) \<and> pp_sem p \<le> limit"

text \<open>Changing one phase changes a count of phases by one at most.\<close>

lemma count_phase_update:
  assumes "i < length xs"
  shows "length (filter P (xs[i := x])) + (if P (xs ! i) then 1 else 0) = length (filter P xs) + (if P x then 1 else 0)"
  using assms
proof (induction xs arbitrary: i)
  case (Cons a xs)
  then show ?case by (cases i) auto
qed simp

text \<open>The nodes whose goroutine has taken effect.\<close>

definition affected :: "(string \<times> string) list \<Rightarrow> poll_phase list \<Rightarrow> (string \<times> string) list" where
  "affected nodes phs = map fst (filter (\<lambda>(nd, ph). has_effect ph) (zip nodes phs))"

lemma affected_update:
  assumes "i < length nodes" and "length phs = length nodes"
  shows "mset (affected nodes (phs[i := ph])) + (if has_effect (phs ! i) then {#nodes ! i#} else {#}) =
    mset (affected nodes phs) + (if has_effect ph then {#nodes ! i#} else {#})"
  using assms
proof (induction nodes arbitrary: phs i)
  case (Cons nd nodes)
  obtain q qs where phs: "phs = q # qs" using Cons.prems(2) by (cases phs) auto
  show ?case
  proof (cases i)
    case (Suc j)
    then show ?thesis using Cons.IH [of j qs] Cons.prems phs by (auto simp: affected_def)
  qed (use phs in \<open>auto simp: affected_def\<close>)
qed simp

lemma affected_none: "affected nodes (replicate (length nodes) AtSelect) = []"
  by (induction nodes) (auto simp: affected_def)

lemma affected_all: "length phs = length nodes \<Longrightarrow> list_all (\<lambda>ph. ph = PollDone) phs \<Longrightarrow> affected nodes phs = nodes"
  by (induction phs nodes rule: list_induct2) (auto simp: affected_def)

definition node_of :: "string \<times> string \<times> bool \<Rightarrow> string \<times> string" where
  "node_of = (\<lambda>(n, u, _). (n, u))"

lemma node_of_simp [simp]: "node_of (n, u, b) = (n, u)"
  by (simp add: node_of_def)

definition effects_ok :: "'w auto_config \<Rightarrow> (string \<times> string) list \<Rightarrow> 'w auto_state \<Rightarrow> 'w poll_pool \<Rightarrow> bool" where
  "effects_ok ac nodes st p \<longleftrightarrow> length (pp_phase p) = length nodes \<and>
     pp_state p = fold (poll_one ac) (pp_polled p) (bump (SetAutoModeNodesObserved (int (length nodes))) st) \<and>
     mset (map node_of (pp_polled p)) = mset (affected nodes (pp_phase p))"

section \<open>Every step keeps both\<close>

lemmas pool_defs = set_phase_def take_effect_def

lemma slots_step: "pool_step ac limit nodes p q \<Longrightarrow> length (pp_phase p) = length nodes \<Longrightarrow> slots_ok limit p \<Longrightarrow> slots_ok limit q"
proof (induction rule: pool_step.induct)
  case (acquire i p)
  then show ?case using count_phase_update [of i "pp_phase p" holds_slot HoldsSlot] by (simp add: slots_ok_def pool_defs)
next
  case (give_up i p)
  then show ?case using count_phase_update [of i "pp_phase p" holds_slot PollDone] by (simp add: slots_ok_def pool_defs)
next
  case (poll i p)
  then show ?case using count_phase_update [of i "pp_phase p" holds_slot Polled] by (simp add: slots_ok_def pool_defs)
next
  case (release i p)
  then show ?case using count_phase_update [of i "pp_phase p" holds_slot PollDone] by (auto simp: slots_ok_def pool_defs)
qed

lemma effects_step: "pool_step ac limit nodes p q \<Longrightarrow> effects_ok ac nodes st p \<Longrightarrow> effects_ok ac nodes st q"
proof (induction rule: pool_step.induct)
  case (acquire i p)
  then show ?case using affected_update [of i nodes "pp_phase p" HoldsSlot] by (simp add: effects_ok_def pool_defs)
next
  case (give_up i p)
  then show ?case using affected_update [of i nodes "pp_phase p" PollDone] by (simp add: effects_ok_def pool_defs)
next
  case (poll i p)
  then show ?case using affected_update [of i nodes "pp_phase p" Polled] by (simp add: effects_ok_def pool_defs)
next
  case (release i p)
  then show ?case using affected_update [of i nodes "pp_phase p" PollDone] by (simp add: effects_ok_def pool_defs)
qed

lemma pool_run_ok:
  assumes "pool_run ac limit nodes p0 p" and "p0 = start_polls nodes cancelled st"
  shows "slots_ok limit p \<and> effects_ok ac nodes st p"
  using assms
proof (induction rule: pool_run.induct)
  case (pool_refl p)
  then show ?case by (simp add: slots_ok_def effects_ok_def start_polls_def affected_none)
next
  case (pool_move p q r)
  then show ?case using slots_step effects_step by (metis effects_ok_def)
next
  case (pool_cancel p q)
  then show ?case by (simp add: slots_ok_def effects_ok_def)
qed

section \<open>The wait ends\<close>

fun phase_rank :: "poll_phase \<Rightarrow> nat" where
  "phase_rank AtSelect = 3" | "phase_rank HoldsSlot = 2" | "phase_rank Polled = 1" | "phase_rank PollDone = 0"

definition remaining :: "'w poll_pool \<Rightarrow> nat" where
  "remaining p = sum_list (map phase_rank (pp_phase p))"

lemma rank_update:
  "i < length phs \<Longrightarrow> phase_rank ph < phase_rank (phs ! i) \<Longrightarrow>
   sum_list (map phase_rank (phs[i := ph])) < sum_list (map phase_rank phs)"
proof (induction phs arbitrary: i)
  case (Cons q phs)
  then show ?case by (cases i) auto
qed simp

lemma pool_step_decreases:
  "pool_step ac limit nodes p q \<Longrightarrow> length (pp_phase p) = length nodes \<Longrightarrow> remaining q < remaining p"
  by (induction rule: pool_step.induct) (auto simp: remaining_def pool_defs intro!: rank_update)

lemma slot_free:
  assumes "slots_ok limit p" and "\<not> list_ex holds_slot (pp_phase p)" and "limit > 0"
  shows "pp_sem p < limit"
  using assms by (simp add: slots_ok_def list_ex_iff filter_empty_conv [THEN iffD2])

lemma pool_progress:
  assumes "slots_ok limit p" and "length (pp_phase p) = length nodes" and "limit > 0" and "\<not> all_done p"
  shows "\<exists>q. pool_step ac limit nodes p q"
proof (cases "list_ex holds_slot (pp_phase p)")
  case True
  then obtain i where i: "i < length nodes" "holds_slot (pp_phase p ! i)"
    using assms(2) by (auto simp: list_ex_iff in_set_conv_nth)
  then show ?thesis
    using pool_step.poll [of i nodes p] pool_step.release [of i nodes p] by (cases "pp_phase p ! i") auto
next
  case False
  obtain i where i: "i < length nodes" "pp_phase p ! i \<noteq> PollDone"
    using assms(2,4) by (auto simp: all_done_def list_all_iff in_set_conv_nth)
  then have "\<not> holds_slot (pp_phase p ! i)"
    using False assms(2) nth_mem [of i "pp_phase p"] by (auto simp: list_ex_iff)
  then have "pp_phase p ! i = AtSelect"
    using i(2) by (cases "pp_phase p ! i") auto
  then show ?thesis using pool_step.acquire [of i nodes p] i slot_free [OF assms(1) False assms(3)] by blast
qed

section \<open>Properties\<close>

lemma finish_is_poll:
  assumes "effects_ok ac nodes st p" and "all_done p"
  shows "mset (map node_of (pp_polled p)) = mset nodes" and "finish_polls nodes p = pollAllNodes ac (Inr (pp_polled p)) st"
proof -
  show perm: "mset (map node_of (pp_polled p)) = mset nodes"
    using assms by (simp add: effects_ok_def all_done_def affected_all)
  have "length (pp_polled p) = length nodes" using perm by (metis length_map size_mset)
  moreover have "set (map fst (pp_polled p)) = set (map fst nodes)"
  proof -
    have "map fst (pp_polled p) = map fst (map node_of (pp_polled p))" by (simp add: node_of_def split_beta)
    then show ?thesis using mset_eq_setD [OF perm] by (metis list.set_map)
  qed
  ultimately show "finish_polls nodes p = pollAllNodes ac (Inr (pp_polled p)) st"
    using assms(1) by (simp add: finish_polls_def pollAllNodes_def effects_ok_def store_retain_def Let_def)
qed


definition cancelled_pool :: "nat poll_pool" where
  "cancelled_pool = set_phase 0 PollDone (take_effect sample_auto (''n'', ''u'') False (start_polls [(''n'', ''u'')] True sample_auto_state))"


end
