(* ===== verification/Log_Core.thy ===== *)
theory Log_Core
  imports Logging
begin

text \<open>
  The zap side of \<open>internal/controller/logging\<close>: \<open>zapCoreWrapper\<close>, which copies every console entry into the
  buffered writer, \<open>NewGRPCLogger\<close>, which builds the operator's logger around it, and
  \<open>grpc_internal_logger.go\<close>, through which gRPC logs into the same logger. zap's JSON encoder is the
  argument \<open>js\<close>: from the fields a logger carries, an entry and the fields of the call it makes a line or an
  error. \<open>fmt.Sprintf\<close> is the argument \<open>sprintf\<close>. The console is the list of lines written to standard output.
\<close>

section \<open>Entries, fields and the encoder\<close>

datatype zap_field = StringField string string | ErrorField "go_error option" | IntField string int

record zap_entry =
  ze_level :: zap_level
  ze_time :: int
  ze_message :: string
  ze_caller :: bool
  ze_stack :: bool

type_synonym json_encoder = "zap_field list \<Rightarrow> zap_entry \<Rightarrow> zap_field list \<Rightarrow> string result"

text \<open>\<open>Buffer.TrimNewline\<close> removes one final newline.\<close>

definition TrimNewline :: "string \<Rightarrow> string" where
  "TrimNewline s = (if s \<noteq> [] \<and> last s = CHR 10 then butlast s else s)"

definition encodeLogEntry :: "json_encoder \<Rightarrow> zap_field list \<Rightarrow> zap_entry \<Rightarrow> zap_field list \<Rightarrow> string result" where
  "encodeLogEntry js encoder logEntry flds =
     (case js encoder logEntry flds of
        Inl e \<Rightarrow> Inl (WrapErr ''failed to encode log entry'' e)
      | Inr buf \<Rightarrow> Inr (TrimNewline buf))"

section \<open>Cores\<close>

text \<open>
  The wrapper holds the console core and an encoder of its own; each is known by the fields that \<open>With\<close> has
  added to it. The level is shared: console core and syncer hold the same \<open>AtomicLevel\<close>, which is \<open>bw_level\<close>.
\<close>

record zapCoreWrapper =
  cw_core :: "zap_field list"
  cw_encoder :: "zap_field list"

datatype zap_core = ConsoleCore "zap_field list" | WrapperCore zapCoreWrapper

type_synonym checked_entry = "zap_core list option"

record log_io =
  li_console :: "string list"
  li_sys :: log_sys
  li_exited :: bool

definition AddCore :: "zap_core \<Rightarrow> checked_entry \<Rightarrow> checked_entry" where
  "AddCore c ce = (case ce of None \<Rightarrow> Some [c] | Some cs \<Rightarrow> Some (cs @ [c]))"

definition level_enabled :: "log_io \<Rightarrow> zap_level \<Rightarrow> bool" where
  "level_enabled io lvl \<longleftrightarrow> level_rank (bw_level (fst (li_sys io))) \<le> level_rank lvl"

definition Wrapper_Enabled :: "zapCoreWrapper \<Rightarrow> log_io \<Rightarrow> zap_level \<Rightarrow> bool" where
  "Wrapper_Enabled w io level = level_enabled io level"

definition Console_Check :: "zap_field list \<Rightarrow> log_io \<Rightarrow> zap_entry \<Rightarrow> checked_entry \<Rightarrow> checked_entry" where
  "Console_Check ctx io entry ce = (if level_enabled io (ze_level entry) then AddCore (ConsoleCore ctx) ce else ce)"

definition Wrapper_Check :: "zapCoreWrapper \<Rightarrow> log_io \<Rightarrow> zap_entry \<Rightarrow> checked_entry \<Rightarrow> checked_entry" where
  "Wrapper_Check w io entry ce =
     (case Console_Check (cw_core w) io entry ce of
        Some downstream \<Rightarrow> AddCore (WrapperCore w) (Some downstream)
      | None \<Rightarrow> ce)"

definition Wrapper_With :: "zap_field list \<Rightarrow> zapCoreWrapper \<Rightarrow> zapCoreWrapper" where
  "Wrapper_With flds w = \<lparr>cw_core = cw_core w @ flds, cw_encoder = cw_encoder w @ flds\<rparr>"

text \<open>
  The encoder as the writer uses it: \<open>flush\<close> encodes the notice of lost entries with the root encoder, and the
  writer's own messages go through the root logger, at time \<open>t\<close>.
\<close>

definition lost_fields :: "nat \<Rightarrow> go_error option \<Rightarrow> zap_field list" where
  "lost_fields n e = [ErrorField e, IntField ''lost_log_entries'' (int n)]"

definition root_entry :: "bool \<Rightarrow> int \<Rightarrow> zap_level \<Rightarrow> string \<Rightarrow> zap_entry" where
  "root_entry addCaller t lvl msg =
     \<lparr>ze_level = lvl, ze_time = t, ze_message = msg, ze_caller = addCaller,
      ze_stack = (level_rank ErrorLevel \<le> level_rank lvl)\<rparr>"

definition syncer_encoder :: "json_encoder \<Rightarrow> bool \<Rightarrow> int \<Rightarrow> log_encoder" where
  "syncer_encoder js addCaller t =
     \<lparr>enc_lost = (\<lambda>n e. encodeLogEntry js []
        \<lparr>ze_level = ErrorLevel, ze_time = t, ze_message = ''Lost logs due to buffer overflow'', ze_caller = False, ze_stack = False\<rparr>
        (lost_fields n e)),
      enc_entry = (\<lambda>lvl msg. encodeLogEntry js [] (root_entry addCaller t lvl msg) [])\<rparr>"

definition Console_Write :: "json_encoder \<Rightarrow> zap_field list \<Rightarrow> zap_entry \<Rightarrow> zap_field list \<Rightarrow> log_io \<Rightarrow> log_io" where
  "Console_Write js ctx entry flds io =
     (case js ctx entry flds of Inl _ \<Rightarrow> io | Inr line \<Rightarrow> io\<lparr>li_console := li_console io @ [line]\<rparr>)"

definition Wrapper_Write ::
  "json_encoder \<Rightarrow> bool \<Rightarrow> zapCoreWrapper \<Rightarrow> zap_entry \<Rightarrow> zap_field list \<Rightarrow> log_io \<Rightarrow> unit result \<times> log_io" where
  "Wrapper_Write js addCaller w entry flds io =
     (case encodeLogEntry js (cw_encoder w) entry flds of
        Inl e \<Rightarrow> (Inl e, io)
      | Inr jsonMessage \<Rightarrow>
          (Inr (), io\<lparr>li_sys := Syncer_write (syncer_encoder js addCaller (ze_time entry)) jsonMessage (li_sys io)\<rparr>))"

fun core_Write :: "json_encoder \<Rightarrow> bool \<Rightarrow> zap_entry \<Rightarrow> zap_field list \<Rightarrow> zap_core \<Rightarrow> log_io \<Rightarrow> log_io" where
  "core_Write js addCaller entry flds (ConsoleCore ctx) io = Console_Write js ctx entry flds io"
| "core_Write js addCaller entry flds (WrapperCore w) io = snd (Wrapper_Write js addCaller w entry flds io)"

section \<open>The logger\<close>

record zap_logger =
  lg_core :: zapCoreWrapper
  lg_addCaller :: bool

definition Logger_With :: "zap_field list \<Rightarrow> zap_logger \<Rightarrow> zap_logger" where
  "Logger_With flds lg = lg\<lparr>lg_core := Wrapper_With flds (lg_core lg)\<rparr>"

text \<open>
  A call on the logger: the entry is stamped once, the cores that accept it write it in the order they were
  added, and a fatal entry ends the process, written or not.
\<close>

definition Logger_log :: "json_encoder \<Rightarrow> zap_logger \<Rightarrow> int \<Rightarrow> zap_level \<Rightarrow> string \<Rightarrow> zap_field list \<Rightarrow> log_io \<Rightarrow> log_io" where
  "Logger_log js lg t lvl msg flds io =
     (let entry = root_entry (lg_addCaller lg) t lvl msg;
          cores = (case Wrapper_Check (lg_core lg) io entry None of None \<Rightarrow> [] | Some cs \<Rightarrow> cs);
          io1 = fold (core_Write js (lg_addCaller lg) entry flds) cores io
      in if lvl = FatalLevel then io1\<lparr>li_exited := True\<rparr> else io1)"

definition NewGRPCLogger :: "bool \<Rightarrow> log_io \<Rightarrow> zap_logger \<times> log_io" where
  "NewGRPCLogger addCaller io =
     (\<lparr>lg_core = \<lparr>cw_core = [], cw_encoder = []\<rparr>, lg_addCaller = addCaller\<rparr>,
      io\<lparr>li_sys := set_level InfoLevel (li_sys io)\<rparr>)"

definition NewProductionGRPCLogger :: "log_io \<Rightarrow> zap_logger \<times> log_io" where
  "NewProductionGRPCLogger io = NewGRPCLogger True io"

section \<open>The gRPC library's own log\<close>

text \<open>An argument of a log call is a string or something else, given by its printed form.\<close>

datatype go_arg = StrArg string | OtherArg string

fun arg_text :: "go_arg \<Rightarrow> string" where
  "arg_text (StrArg s) = s" | "arg_text (OtherArg s) = s"

fun is_str_arg :: "go_arg \<Rightarrow> bool" where
  "is_str_arg (StrArg _) = True" | "is_str_arg (OtherArg _) = False"

text \<open>\<open>fmt.Sprint\<close>: a space only between two operands neither of which is a string.\<close>

fun Sprint :: "go_arg list \<Rightarrow> string" where
  "Sprint [] = []"
| "Sprint [a] = arg_text a"
| "Sprint (a # b # as) =
     arg_text a @ (if is_str_arg a \<or> is_str_arg b then [] else '' '') @ Sprint (b # as)"

datatype grpclog_severity = GrpcInfo | GrpcWarning | GrpcError | GrpcFatal

datatype grpclog_form = Plain "go_arg list" | Line "go_arg list" | Formatted string "go_arg list"

definition NewGRPCInternalLogger :: "zap_logger \<Rightarrow> zap_logger" where
  "NewGRPCInternalLogger logger = Logger_With [StringField ''component'' ''grpc''] logger"

fun grpc_level :: "grpclog_severity \<Rightarrow> zap_level" where
  "grpc_level GrpcInfo = DebugLevel"
| "grpc_level GrpcWarning = WarnLevel"
| "grpc_level GrpcError = ErrorLevel"
| "grpc_level GrpcFatal = FatalLevel"

fun grpc_message :: "(string \<Rightarrow> go_arg list \<Rightarrow> string) \<Rightarrow> grpclog_form \<Rightarrow> string" where
  "grpc_message sprintf (Plain args) = Sprint args"
| "grpc_message sprintf (Line args) = Sprint args"
| "grpc_message sprintf (Formatted format args) = 
     (if args = [] then format else if format \<noteq> [] then sprintf format args else Sprint args)"

definition grpc_log ::
  "json_encoder \<Rightarrow> (string \<Rightarrow> go_arg list \<Rightarrow> string) \<Rightarrow> zap_logger \<Rightarrow> int \<Rightarrow> grpclog_severity \<Rightarrow> grpclog_form \<Rightarrow> log_io \<Rightarrow> log_io" where
  "grpc_log js sprintf g t sev form io = Logger_log js g t (grpc_level sev) (grpc_message sprintf form) [] io"

definition grpc_V :: "int \<Rightarrow> bool" where
  "grpc_V l = True"

section \<open>Runs of the logger\<close>

text \<open>
  \<open>OpLog\<close> is a call on a logger derived from the operator's by \<open>With\<close>, \<open>OpGrpc\<close> a call of the gRPC library, and
  \<open>OpSession\<close> any other event of the writer. The messages the writer logs itself go through the operator's
  logger too, so they reach the console as well. Once the process has exited nothing happens.
\<close>

datatype log_op =
    OpLog "zap_field list" zap_level string "zap_field list"
  | OpGrpc grpclog_severity grpclog_form
  | OpSession log_event

fun own_log :: "log_event \<Rightarrow> log_sys \<Rightarrow> (zap_level \<times> string) option" where
  "own_log (EvLogLevel l) s = Some (level_message l)"
| "own_log (EvRun KeepaliveTick) s =
     (if bw_running (fst s) \<and> bw_client (fst s) \<noteq> None \<and> fst (stream_send LogKeepalive (snd s)) \<noteq> None
      then Some (ErrorLevel, ''Failed to send logs keepalive'') else None)"
| "own_log _ s = None"

definition own_console :: "json_encoder \<Rightarrow> zap_logger \<Rightarrow> int \<Rightarrow> log_event \<Rightarrow> log_io \<Rightarrow> log_io" where
  "own_console js lg t e io =
     (case own_log e (li_sys io) of
        None \<Rightarrow> io
      | Some (lvl, msg) \<Rightarrow>
          (case Console_Check (cw_core (lg_core lg)) io (root_entry (lg_addCaller lg) t lvl msg) None of
             None \<Rightarrow> io
           | Some _ \<Rightarrow> Console_Write js (cw_core (lg_core lg)) (root_entry (lg_addCaller lg) t lvl msg) [] io))"

fun session_event :: "log_event \<Rightarrow> bool" where
  "session_event (EvWrite _) = False" | "session_event _ = True"

fun logger_step :: "json_encoder \<Rightarrow> (string \<Rightarrow> go_arg list \<Rightarrow> string) \<Rightarrow> zap_logger \<Rightarrow> int \<times> log_op \<Rightarrow> log_io \<Rightarrow> log_io" where
  "logger_step js sprintf lg (t, OpLog with_fields lvl msg flds) io =
     (if li_exited io then io else Logger_log js (Logger_With with_fields lg) t lvl msg flds io)"
| "logger_step js sprintf lg (t, OpGrpc sev form) io =
     (if li_exited io then io else grpc_log js sprintf (NewGRPCInternalLogger lg) t sev form io)"
| "logger_step js sprintf lg (t, OpSession e) io =
     (if li_exited io \<or> \<not> session_event e then io
      else (own_console js lg t e io)\<lparr>li_sys := log_apply (syncer_encoder js (lg_addCaller lg) t) e (li_sys io)\<rparr>)"

section \<open>The console and the writer see the same entries\<close>

definition agreeing :: "zap_logger \<Rightarrow> bool" where
  "agreeing lg \<longleftrightarrow> cw_core (lg_core lg) = cw_encoder (lg_core lg)"

lemma agreeing_With [simp]: "agreeing lg \<Longrightarrow> agreeing (Logger_With fs lg)"
  by (simp add: agreeing_def Logger_With_def Wrapper_With_def)

text \<open>The lines an enabled call adds: one when the encoder accepts the entry, none when it does not.\<close>

definition call_lines :: "json_encoder \<Rightarrow> zap_logger \<Rightarrow> int \<Rightarrow> zap_level \<Rightarrow> string \<Rightarrow> zap_field list \<Rightarrow> log_io \<Rightarrow> string list" where
  "call_lines js lg t lvl msg flds io =
     (if level_enabled io lvl
      then (case js (cw_core (lg_core lg)) (root_entry (lg_addCaller lg) t lvl msg) flds of Inl _ \<Rightarrow> [] | Inr line \<Rightarrow> [line])
      else [])"

lemma Logger_log_effect:
  assumes "agreeing lg"
  shows "Logger_log js lg t lvl msg flds io =
    io\<lparr>li_console := li_console io @ call_lines js lg t lvl msg flds io,
       li_sys := fold (\<lambda>line. Syncer_write (syncer_encoder js (lg_addCaller lg) t) (TrimNewline line))
                   (call_lines js lg t lvl msg flds io) (li_sys io),
       li_exited := (li_exited io \<or> lvl = FatalLevel)\<rparr>"
  using assms
  by (auto simp: Logger_log_def Let_def Wrapper_Check_def Console_Check_def AddCore_def Console_Write_def Wrapper_Write_def
      encodeLogEntry_def call_lines_def agreeing_def root_entry_def split: sum.splits)

text \<open>A step adds some lines to the console and hands exactly these, without their newlines, to the writer.\<close>

definition mirrored :: "string list \<Rightarrow> log_io \<Rightarrow> log_io \<Rightarrow> bool" where
  "mirrored ls io io' \<longleftrightarrow> li_console io' = li_console io @ ls \<and> accounts (map TrimNewline ls) (li_sys io) (li_sys io')"

lemma mirrored_refl [simp]: "mirrored [] io io"
  by (simp add: mirrored_def)

lemma no_step: "\<exists>ls. mirrored ls io io"
  using mirrored_refl by blast

lemma mirrored_trans: "mirrored ks io io1 \<Longrightarrow> mirrored ls io1 io2 \<Longrightarrow> mirrored (ks @ ls) io io2"
  by (auto simp: mirrored_def intro: accounts_trans)

lemma Logger_log_mirrored:
  assumes "agreeing lg"
  shows "mirrored (call_lines js lg t lvl msg flds io) io (Logger_log js lg t lvl msg flds io)"
  using write_accounts
  by (auto simp: Logger_log_effect [OF assms] mirrored_def call_lines_def split: sum.splits)

lemma entries_of_own: "session_event e \<Longrightarrow>
    entries_of enc e s = (case own_log e s of None \<Rightarrow> [] | Some (lvl, msg) \<Rightarrow> own_entry enc lvl msg s)"
  by (cases "(e, s)" rule: own_log.cases) (auto split: prod.splits)

lemma session_mirrored:
  assumes "agreeing lg" and "cw_core (lg_core lg) = []" and "session_event e" and "\<not> li_exited io"
  shows "\<exists>ls. mirrored ls io (logger_step js sprintf lg (t, OpSession e) io)"
proof -
  let ?enc = "syncer_encoder js (lg_addCaller lg) t"
  obtain ls where "li_console (own_console js lg t e io) = li_console io @ ls"
    and "entries_of ?enc e (li_sys io) = map TrimNewline ls"
    using assms(2) entries_of_own [OF assms(3), of ?enc "li_sys io"]
    by (auto simp: own_console_def Console_Check_def Console_Write_def AddCore_def level_enabled_def own_entry_def
        syncer_encoder_def encodeLogEntry_def root_entry_def split: option.splits sum.splits if_splits)
  then have "mirrored ls io (logger_step js sprintf lg (t, OpSession e) io)"
    using assms(3,4) log_apply_accounts [of ?enc e "li_sys io"] by (simp add: mirrored_def)
  then show ?thesis ..
qed

lemma logger_step_mirrored:
  assumes "agreeing lg" and "cw_core (lg_core lg) = []"
  shows "\<exists>ls. mirrored ls io (logger_step js sprintf lg op io)"
proof -
  obtain t a where op: "op = (t, a)" by (cases op)
  show ?thesis
  proof (cases a)
    case (OpSession e)
    then show ?thesis using session_mirrored [OF assms] mirrored_refl unfolding op by (metis logger_step.simps(3))
  next
    case (OpLog with_fields lvl msg flds)
    show ?thesis
      using Logger_log_mirrored [OF agreeing_With [OF assms(1)], of js with_fields t lvl msg flds io] no_step [of io]
      by (cases "li_exited io") (auto simp: op OpLog)
  next
    case (OpGrpc sev form)
    show ?thesis
      using Logger_log_mirrored [OF agreeing_With [OF assms(1)], of js "[StringField ''component'' ''grpc'']" t "grpc_level sev"
          "grpc_message sprintf form" "[]" io] no_step [of io]
      by (cases "li_exited io") (auto simp: op OpGrpc grpc_log_def NewGRPCInternalLogger_def)
  qed
qed

lemma logger_steps_mirrored:
  assumes "agreeing lg" and "cw_core (lg_core lg) = []"
  shows "\<exists>ls. mirrored ls io (fold (logger_step js sprintf lg) ops io)"
proof (induction ops arbitrary: io)
  case (Cons op ops)
  obtain ks where "mirrored ks io (logger_step js sprintf lg op io)" using logger_step_mirrored [OF assms] by blast
  moreover obtain ls where "mirrored ls (logger_step js sprintf lg op io) (fold (logger_step js sprintf lg) (op # ops) io)"
    using Cons.IH by auto
  ultimately show ?case using mirrored_trans by blast
qed (simp add: no_step)

definition fresh_logger :: "bool \<Rightarrow> nat \<Rightarrow> bool list \<Rightarrow> go_error option list \<Rightarrow> zap_logger \<times> log_io" where
  "fresh_logger addCaller d ready results =
     NewGRPCLogger addCaller \<lparr>li_console = [], li_sys = fresh_syncer d ready results, li_exited = False\<rparr>"


definition flat_encoder :: json_encoder where
  "flat_encoder ctx e flds = Inr (ze_message e @ [CHR 10])"

lemmas logger_eval = log_eval fresh_logger_def NewGRPCLogger_def Logger_log_def root_entry_def Wrapper_Check_def
  Console_Check_def AddCore_def level_enabled_def Console_Write_def Wrapper_Write_def encodeLogEntry_def TrimNewline_def
  flat_encoder_def syncer_encoder_def grpc_log_def NewGRPCInternalLogger_def Logger_With_def Wrapper_With_def own_console_def

definition sample_ops :: "(int \<times> log_op) list" where
  "sample_ops =
     [(1, OpLog [] InfoLevel ''start'' []), (2, OpGrpc GrpcInfo (Plain [StrArg ''dial''])), (3, OpSession (EvNewClient 1)),
      (4, OpSession (EvUpdateClient 7 7)), (5, OpSession (EvLogLevel LOG_LEVEL_DEBUG)), (6, OpGrpc GrpcInfo (Plain [StrArg ''up'']))]"

definition sample_io :: log_io where
  "sample_io =
     fold (logger_step flat_encoder (\<lambda>f _. f) (fst (fresh_logger True 0 [True, True, True] [None, None, None]))) sample_ops
       (snd (fresh_logger True 0 [True, True, True] [None, None, None]))"


section \<open>The level of gRPC's messages\<close>

text \<open>
  An informational message of the gRPC library leaves no trace at the default level, whatever its form, and
  is written once the server has set the level to debug.
\<close>

lemma grpc_info_needs_debug:
  assumes "agreeing g"
  shows "level_enabled io DebugLevel \<or> grpc_log js sprintf g t GrpcInfo form io = io"
    and "level_enabled io DebugLevel \<longleftrightarrow> bw_level (fst (li_sys io)) = DebugLevel"
  using assms
  by (auto simp: grpc_log_def Logger_log_effect call_lines_def level_enabled_def) (cases "bw_level (fst (li_sys io))", simp_all)+

text \<open>\<open>Infoln\<close>, \<open>Warningln\<close> and the others print their arguments as \<open>Info\<close> and \<open>Warning\<close> do: no space between strings.\<close>

lemma grpc_ln_joins_strings: "grpc_message sprintf (Line (map StrArg ss)) = concat ss"
proof (induction ss)
  case (Cons s ss)
  then show ?case by (cases ss) simp_all
qed simp

end
