(* ===== verification/Collector_Sink.thy ===== *)
theory Collector_Sink
  imports Flow_Keys
begin

text \<open>
  What every flow collector hands its flows to (\<open>FlowSink\<close> of \<open>collector/types.go\<close>, implemented by the adapter of
  \<open>stream/flows/flows.go\<close>), and the shape their loops share: read an input, skip it or turn it into a
  flow, cache the flow, count it, and stop at the first error. The locale \<open>collector_loop\<close> states that
  shape; each collector interprets it on its own loop.
\<close>

section \<open>The sink\<close>

record collector_sink =
  cs_flows :: "flow list"
  cs_received :: nat

definition sink_add :: "flow \<Rightarrow> collector_sink \<Rightarrow> collector_sink" where
  "sink_add f s = s\<lparr>cs_flows := cs_flows s @ [f], cs_received := Suc (cs_received s)\<rparr>"

text \<open>\<open>CacheFlow\<close> with the answer \<open>r\<close> of the flow cache, and the counter that follows it when it succeeds.\<close>

definition sink_cache :: "go_error option \<Rightarrow> flow \<Rightarrow> collector_sink \<Rightarrow> go_error option \<times> collector_sink" where
  "sink_cache r f s = (case r of Some e \<Rightarrow> (Some e, s) | None \<Rightarrow> (None, sink_add f s))"

lemma sink_cache_simps [simp]:
  "sink_cache (Some e) f s = (Some e, s)" "sink_cache None f s = (None, sink_add f s)"
  by (simp_all add: sink_cache_def)

definition sink_adds :: "flow list \<Rightarrow> collector_sink \<Rightarrow> collector_sink" where
  "sink_adds fs s = s\<lparr>cs_flows := cs_flows s @ fs, cs_received := cs_received s + length fs\<rparr>"

lemma sink_adds_simps [simp]:
  "sink_adds [] s = s" "sink_adds (f # fs) s = sink_adds fs (sink_add f s)"
  by (simp_all add: sink_adds_def sink_add_def)

lemma sink_adds_append: "sink_adds gs (sink_adds fs s) = sink_adds (fs @ gs) s"
  by (simp add: sink_adds_def)

lemma sink_adds_fields [simp]:
  "cs_flows (sink_adds fs s) = cs_flows s @ fs" "cs_received (sink_adds fs s) = cs_received s + length fs"
  by (simp_all add: sink_adds_def)

section \<open>Collector loops\<close>

locale collector_loop =
  fixes loop :: "'i list \<Rightarrow> collector_sink \<Rightarrow> 'e option \<times> collector_sink"
    and stops :: "'i \<Rightarrow> 'e option"
    and flow_of :: "'i \<Rightarrow> flow option"
  assumes loop_Nil: "loop [] s = (None, s)"
    and loop_Cons: "loop (i # is') s =
      (case stops i of
         Some e \<Rightarrow> (Some e, s)
       | None \<Rightarrow> loop is' (case flow_of i of None \<Rightarrow> s | Some f \<Rightarrow> sink_add f s))"
begin

text \<open>The inputs handled before the loop stops, and their flows.\<close>

definition handled :: "'i list \<Rightarrow> 'i list" where
  "handled xs = takeWhile (\<lambda>i. stops i = None) xs"

lemma loop_result:
  "loop xs s = (case dropWhile (\<lambda>i. stops i = None) xs of [] \<Rightarrow> None | i # _ \<Rightarrow> stops i,
                sink_adds (List.map_filter flow_of (handled xs)) s)"
proof (induction xs arbitrary: s)
  case (Cons i xs)
  then show ?case
    by (cases "stops i"; cases "flow_of i") (simp_all add: loop_Cons handled_def map_filter_simps)
qed (simp add: loop_Nil handled_def map_filter_simps)

lemma loop_flows: "cs_flows (snd (loop xs s)) = cs_flows s @ List.map_filter flow_of (handled xs)"
  by (simp add: loop_result)

lemma loop_counts:
  "cs_received s = length (cs_flows s) \<Longrightarrow> cs_received (snd (loop xs s)) = length (cs_flows (snd (loop xs s)))"
  by (simp add: loop_result)

lemma loop_running: "fst (loop xs s) = None \<longleftrightarrow> list_all (\<lambda>i. stops i = None) xs"
  by (induction xs arbitrary: s) (auto simp: loop_Nil loop_Cons split: option.splits)

lemma loop_running_all: "fst (loop xs s) = None \<Longrightarrow> cs_flows (snd (loop xs s)) = cs_flows s @ List.map_filter flow_of xs"
  by (simp add: loop_running loop_flows handled_def list_all_iff takeWhile_eq_all_conv [THEN iffD2])

end

end
