(* ===== verification/TLS_Creds.thy ===== *)
theory TLS_Creds
  imports Go_Strings
begin

text \<open>
  \<open>src/internal/pkg/tls\<close>: the transport credentials used for Hubble Relay when ALPN is disabled, the SPIFFE identity
  of the peer (\<open>spiffe/spiffe.go\<close>) and the wrapping of connections (\<open>syscallconn/syscallconn.go\<close>). The handshake itself is
  \<open>crypto/tls\<close> and an argument; what is modelled is the configuration it runs with and what is made of its
  result.
\<close>

section \<open>Configurations\<close>

text \<open>A certificate is its certificate and key data; \<open>'g\<close> is the server-side hook \<open>GetConfigForClient\<close>. Versions are their code points.\<close>

record 'g tls_config =
  tc_Certificates :: "(string \<times> string) list"
  tc_RootCAs :: "string option"
  tc_ServerName :: string
  tc_MinVersion :: nat
  tc_MaxVersion :: nat
  tc_NextProtos :: "string list"
  tc_CipherSuites :: "nat list option"
  tc_InsecureSkipVerify :: bool
  tc_GetConfigForClient :: 'g

definition VersionTLS12 :: nat where "VersionTLS12 = 0x0303"

definition zero_config :: "'g \<Rightarrow> 'g tls_config" where
  "zero_config hook = \<lparr>tc_Certificates = [], tc_RootCAs = None, tc_ServerName = [], tc_MinVersion = 0, tc_MaxVersion = 0,
     tc_NextProtos = [], tc_CipherSuites = None, tc_InsecureSkipVerify = False, tc_GetConfigForClient = hook\<rparr>"

text \<open>The suites HTTP/2 forbids: RSA key exchange, and CBC modes.\<close>

definition tls12ForbiddenCipherSuites :: "nat set" where
  "tls12ForbiddenCipherSuites = {0x002f, 0x0035, 0x009c, 0x009d, 0xc009, 0xc00a, 0xc013, 0xc014}"

definition cloneTLSConfig :: "'g \<Rightarrow> 'g tls_config option \<Rightarrow> 'g tls_config" where
  "cloneTLSConfig hook cfg = (case cfg of None \<Rightarrow> zero_config hook | Some c \<Rightarrow> c)"

definition appendH2ToNextProtos :: "string list \<Rightarrow> string list" where
  "appendH2ToNextProtos ps = (if list_ex (\<lambda>p. p = ''h2'') ps then ps else ps @ [''h2''])"

text \<open>\<open>suites\<close> is what \<open>tls.CipherSuites\<close> reports. Appending nothing to a nil slice leaves it nil.\<close>

definition applyDefaults :: "nat list \<Rightarrow> 'g \<Rightarrow> 'g tls_config option \<Rightarrow> 'g tls_config" where
  "applyDefaults suites hook c =
     (let config = cloneTLSConfig hook c;
          config1 = config\<lparr>tc_NextProtos := appendH2ToNextProtos (tc_NextProtos config)\<rparr>;
          config2 = (if tc_MinVersion config1 = 0 \<and> (tc_MaxVersion config1 = 0 \<or> tc_MaxVersion config1 \<ge> VersionTLS12)
                     then config1\<lparr>tc_MinVersion := VersionTLS12\<rparr> else config1)
      in case tc_CipherSuites config2 of
           Some _ \<Rightarrow> config2
         | None \<Rightarrow>
             let secure = filter (\<lambda>cs. cs \<notin> tls12ForbiddenCipherSuites) suites
             in config2\<lparr>tc_CipherSuites := (if secure = [] then None else Some secure)\<rparr>)"

text \<open>The hook gets a client's hello and may answer with another configuration.\<close>

type_synonym client_hook = "(string \<Rightarrow> unit tls_config option result) option"

type_synonym tls_creds = "client_hook tls_config"

definition NewTLSWithALPNDisabled :: "nat list \<Rightarrow> tls_creds option \<Rightarrow> tls_creds" where
  "NewTLSWithALPNDisabled suites c =
     (let config = applyDefaults suites None c in
      case tc_GetConfigForClient config of
        None \<Rightarrow> config
      | Some oldFn \<Rightarrow>
          config\<lparr>tc_GetConfigForClient := Some (\<lambda>hello.
            case oldFn hello of
              Inl err \<Rightarrow> Inl err
            | Inr None \<Rightarrow> Inr None
            | Inr (Some cfgForClient) \<Rightarrow> Inr (Some (applyDefaults suites () (Some cfgForClient))))\<rparr>)"

definition Clone :: "nat list \<Rightarrow> tls_creds \<Rightarrow> tls_creds" where
  "Clone suites c = NewTLSWithALPNDisabled suites (Some c)"

definition OverrideServerName :: "string \<Rightarrow> tls_creds \<Rightarrow> tls_creds" where
  "OverrideServerName serverNameOverride c = c\<lparr>tc_ServerName := serverNameOverride\<rparr>"

section \<open>Host and port\<close>

text \<open>\<open>net.SplitHostPort\<close>. The port follows the last colon; an address in brackets may contain colons.\<close>

definition split_last :: "char \<Rightarrow> string \<Rightarrow> (string \<times> string) option" where
  "split_last c s =
     (if c \<in> set s
      then Some (rev (tl (dropWhile (\<lambda>x. x \<noteq> c) (rev s))), rev (takeWhile (\<lambda>x. x \<noteq> c) (rev s)))
      else None)"

definition SplitHostPort :: "string \<Rightarrow> (string \<times> string) option" where
  "SplitHostPort hostport =
     (case split_last (CHR '':'') hostport of
        None \<Rightarrow> None
      | Some (before, port) \<Rightarrow>
          if before \<noteq> [] \<and> hd before = CHR ''['' then
            (let host = takeWhile (\<lambda>x. x \<noteq> CHR '']'') (tl before)
             in if before = ''['' @ host @ '']'' \<and> CHR ''['' \<notin> set host \<and> CHR ''['' \<notin> set port \<and> CHR '']'' \<notin> set port
                then Some (host, port) else None)
          else if CHR '':'' \<in> set before \<or> CHR ''['' \<in> set hostport \<or> CHR '']'' \<in> set hostport then None
          else Some (before, port))"

section \<open>The identity of the peer\<close>

record peer_uri =
  pu_Scheme :: string
  pu_Opaque :: string
  pu_Username :: "string option"
  pu_Host :: string
  pu_Path :: string
  pu_String :: string

fun spiffe_loop :: "nat \<Rightarrow> peer_uri option list \<Rightarrow> peer_uri option \<Rightarrow> peer_uri option" where
  "spiffe_loop n [] spiffeID = spiffeID"
| "spiffe_loop n (u # us) spiffeID =
     (case u of
        None \<Rightarrow> spiffe_loop n us spiffeID
      | Some uri \<Rightarrow>
          if pu_Scheme uri \<noteq> ''spiffe'' \<or> pu_Opaque uri \<noteq> [] \<or> (\<exists>name. pu_Username uri = Some name \<and> name \<noteq> [])
          then spiffe_loop n us spiffeID
          else if length (pu_String uri) > 2048 then None
          else if pu_Host uri = [] \<or> pu_Path uri = [] then None
          else if length (pu_Host uri) > 255 then None
          else if n > 1 then None
          else spiffe_loop n us (Some uri))"

text \<open>A certificate is the list of its URIs, \<open>None\<close> a nil one.\<close>

definition SPIFFEIDFromCert :: "peer_uri option list option \<Rightarrow> peer_uri option" where
  "SPIFFEIDFromCert cert =
     (case cert of None \<Rightarrow> None | Some uris \<Rightarrow> if uris = [] then None else spiffe_loop (length uris) uris None)"

definition SPIFFEIDFromState :: "peer_uri option list list \<Rightarrow> peer_uri option" where
  "SPIFFEIDFromState peerCertificates =
     (case peerCertificates of
        [] \<Rightarrow> None
      | cert # _ \<Rightarrow> if cert = [] then None else SPIFFEIDFromCert (Some cert))"

section \<open>The handshake\<close>

text \<open>
  \<open>serverName\<close> is the name the certificate is checked for. The result is one of those the \<open>select\<close> may take, each
  with whether the connection was closed: the handshake's, when it is over, and the context's error, when it is done.
\<close>

record tls_info =
  ti_peerCertificates :: "peer_uri option list list"
  ti_SPIFFEID :: "peer_uri option"

definition client_config :: "tls_creds \<Rightarrow> string \<Rightarrow> tls_creds" where
  "client_config c authority =
     (let cfg = cloneTLSConfig None (Some c) in
      if tc_ServerName cfg = []
      then cfg\<lparr>tc_ServerName := (case SplitHostPort authority of Some (serverName, _) \<Rightarrow> serverName | None \<Rightarrow> authority)\<rparr>
      else cfg)"

definition ClientHandshake ::
  "(tls_creds \<Rightarrow> peer_uri option list list result option) \<Rightarrow> bool \<Rightarrow> tls_creds \<Rightarrow> string \<Rightarrow> (tls_info result \<times> bool) list" where
  "ClientHandshake handshake ctxDone c authority =
     (case handshake (client_config c authority) of
        None \<Rightarrow> []
      | Some (Inl err) \<Rightarrow> [(Inl err, True)]
      | Some (Inr peers) \<Rightarrow> [(Inr \<lparr>ti_peerCertificates = peers, ti_SPIFFEID = SPIFFEIDFromState peers\<rparr>, False)])
     @ (if ctxDone then [(Inl CtxErr, True)] else [])"

definition ServerHandshake :: "(tls_creds \<Rightarrow> peer_uri option list list result) \<Rightarrow> tls_creds \<Rightarrow> tls_info result \<times> bool" where
  "ServerHandshake handshake c =
     (case handshake c of
        Inl err \<Rightarrow> (Inl err, True)
      | Inr peers \<Rightarrow> (Inr \<lparr>ti_peerCertificates = peers, ti_SPIFFEID = SPIFFEIDFromState peers\<rparr>, False))"

text \<open>Wrapping keeps reads and writes on the new connection and system calls on the raw one, if it has them.\<close>

datatype 'c wrapped_conn = Plain 'c | SyscallConn 'c 'c

definition WrapSyscallConn :: "('c \<Rightarrow> bool) \<Rightarrow> 'c \<Rightarrow> 'c \<Rightarrow> 'c wrapped_conn" where
  "WrapSyscallConn implementsSyscall rawConn newConn =
     (if implementsSyscall rawConn then SyscallConn newConn rawConn else Plain newConn)"

section \<open>Handshake errors\<close>

definition ErrTLSALPNHandshakeFailed :: go_error where
  "ErrTLSALPNHandshakeFailed = ErrMsg ''alpn handshake failed, retrying with ALPN disabled''"

definition ErrNoTLSHandshakeFailed :: go_error where
  "ErrNoTLSHandshakeFailed = ErrMsg ''no TLS handshake''"

text \<open>\<open>text\<close> is the \<open>Error\<close> method of the error, which its own type implements.\<close>

definition AsTLSHandshakeError :: "(go_error \<Rightarrow> string) \<Rightarrow> go_error \<Rightarrow> go_error" where
  "AsTLSHandshakeError text err =
     (if str_contains ''missing selected ALPN property'' (text err) then ErrTLSALPNHandshakeFailed
      else if str_contains ''first record does not look like a TLS handshake'' (text err) then ErrNoTLSHandshakeFailed
      else err)"

text \<open>What the operator has learned about the relay; the flags are only ever set.\<close>

record AuthProperties =
  DisableALPN :: bool
  DisableTLS :: bool

section \<open>Lemmas\<close>

lemma applyDefaults_fields [simp]:
  "tc_Certificates (applyDefaults suites hook (Some c)) = tc_Certificates c"
  "tc_RootCAs (applyDefaults suites hook (Some c)) = tc_RootCAs c"
  "tc_ServerName (applyDefaults suites hook (Some c)) = tc_ServerName c"
  "tc_MaxVersion (applyDefaults suites hook (Some c)) = tc_MaxVersion c"
  "tc_InsecureSkipVerify (applyDefaults suites hook (Some c)) = tc_InsecureSkipVerify c"
  "tc_GetConfigForClient (applyDefaults suites hook (Some c)) = tc_GetConfigForClient c"
  "tc_NextProtos (applyDefaults suites hook (Some c)) = appendH2ToNextProtos (tc_NextProtos c)"
  "tc_MinVersion (applyDefaults suites hook (Some c)) =
     (if tc_MinVersion c = 0 \<and> (tc_MaxVersion c = 0 \<or> tc_MaxVersion c \<ge> VersionTLS12) then VersionTLS12 else tc_MinVersion c)"
  "tc_CipherSuites (applyDefaults suites hook (Some c)) =
     (case tc_CipherSuites c of
        Some cs \<Rightarrow> Some cs
      | None \<Rightarrow> let secure = filter (\<lambda>cs. cs \<notin> tls12ForbiddenCipherSuites) suites in if secure = [] then None else Some secure)"
  by (auto simp: applyDefaults_def cloneTLSConfig_def Let_def split: option.splits)

lemma h2_offered [simp]: "''h2'' \<in> set (appendH2ToNextProtos ps)"
  by (auto simp: appendH2ToNextProtos_def list_ex_iff)

lemma appendH2_idem [simp]: "appendH2ToNextProtos (appendH2ToNextProtos ps) = appendH2ToNextProtos ps"
  using h2_offered [of ps] by (auto simp: appendH2ToNextProtos_def [of "appendH2ToNextProtos ps"] list_ex_iff)

text \<open>Applying the defaults again changes nothing, so a clone of the credentials is the credentials.\<close>

lemma applyDefaults_idem: "applyDefaults suites hook' (Some (applyDefaults suites hook (Some c))) = applyDefaults suites hook (Some c)"
  by (rule tls_config.equality) (auto simp: VersionTLS12_def Let_def split: option.splits)

lemma new_creds_fields [simp]:
  "tc_Certificates (NewTLSWithALPNDisabled suites (Some c)) = tc_Certificates c"
  "tc_RootCAs (NewTLSWithALPNDisabled suites (Some c)) = tc_RootCAs c"
  "tc_ServerName (NewTLSWithALPNDisabled suites (Some c)) = tc_ServerName c"
  "tc_MaxVersion (NewTLSWithALPNDisabled suites (Some c)) = tc_MaxVersion c"
  "tc_InsecureSkipVerify (NewTLSWithALPNDisabled suites (Some c)) = tc_InsecureSkipVerify c"
  "tc_NextProtos (NewTLSWithALPNDisabled suites (Some c)) = appendH2ToNextProtos (tc_NextProtos c)"
  "tc_MinVersion (NewTLSWithALPNDisabled suites (Some c)) = tc_MinVersion (applyDefaults suites None (Some c))"
  "tc_CipherSuites (NewTLSWithALPNDisabled suites (Some c)) = tc_CipherSuites (applyDefaults suites None (Some c))"
  "tc_GetConfigForClient (NewTLSWithALPNDisabled suites (Some c)) =
     map_option (\<lambda>oldFn hello. map_sum id (map_option (\<lambda>d. applyDefaults suites () (Some d))) (oldFn hello)) (tc_GetConfigForClient c)"
  by (auto simp del: applyDefaults_fields(8,9) simp: NewTLSWithALPNDisabled_def Let_def fun_eq_iff split: option.splits sum.splits)

lemma hook_defaults_idem:
  "map_sum id (map_option (\<lambda>d. applyDefaults suites () (Some d))) (map_sum id (map_option (\<lambda>d. applyDefaults suites () (Some d))) x) =
   map_sum id (map_option (\<lambda>d. applyDefaults suites () (Some d))) (x :: unit tls_config option result)"
  by (cases x) (simp_all add: option.map_comp comp_def applyDefaults_idem)

lemma Clone_new: "Clone suites (NewTLSWithALPNDisabled suites (Some c)) = NewTLSWithALPNDisabled suites (Some c)"
  unfolding Clone_def
  by (rule tls_config.equality)
    (simp_all add: option.map_comp comp_def hook_defaults_idem VersionTLS12_def Let_def split: option.split)

lemma split_last_append: "c \<notin> set y \<Longrightarrow> split_last c (x @ c # y) = Some (x, y)"
  by (simp add: split_last_def takeWhile_append dropWhile_append)

definition plain_host :: "string \<Rightarrow> bool" where
  "plain_host s \<longleftrightarrow> CHR '':'' \<notin> set s \<and> CHR ''['' \<notin> set s \<and> CHR '']'' \<notin> set s"

lemma SplitHostPort_plain:
  assumes "plain_host host" and "plain_host port"
  shows "SplitHostPort (host @ '':'' @ port) = Some (host, port)"
proof -
  have split: "split_last (CHR '':'') (host @ '':'' @ port) = Some (host, port)"
    using split_last_append [of "CHR '':''" port host] assms(2) by (simp add: plain_host_def)
  have "\<not> (host \<noteq> [] \<and> hd host = CHR ''['')"
    using assms(1) by (metis hd_in_set plain_host_def)
  with split assms show ?thesis by (auto simp: SplitHostPort_def plain_host_def)
qed

lemma SplitHostPort_bracketed:
  assumes "CHR ''['' \<notin> set host" and "CHR '']'' \<notin> set host" and "plain_host port"
  shows "SplitHostPort ((''['' @ host @ '']'') @ '':'' @ port) = Some (host, port)"
proof -
  have split: "split_last (CHR '':'') ((''['' @ host @ '']'') @ '':'' @ port) = Some (''['' @ host @ '']'', port)"
    using split_last_append [of "CHR '':''" port "''['' @ host @ '']''"] assms(3) by (simp add: plain_host_def)
  have "takeWhile (\<lambda>x. x \<noteq> CHR '']'') (host @ '']'') = host"
    using assms(2) by (subst takeWhile_append2) auto
  with assms show ?thesis unfolding SplitHostPort_def split by (simp add: plain_host_def)
qed

section \<open>What the handshake runs with\<close>



section \<open>Which identity is reported\<close>

definition spiffe_candidate :: "peer_uri \<Rightarrow> bool" where
  "spiffe_candidate u \<longleftrightarrow> pu_Scheme u = ''spiffe'' \<and> pu_Opaque u = [] \<and> \<not> (\<exists>name. pu_Username u = Some name \<and> name \<noteq> [])"

lemma spiffe_loop_many:
  "n > 1 \<Longrightarrow> spiffe_loop n us acc = (if \<exists>u. Some u \<in> set us \<and> spiffe_candidate u then None else acc)"
  by (induction us) (auto simp: spiffe_candidate_def split: option.splits)

text \<open>
  The identity reported for a peer is that of its leaf certificate, and exactly in the cases the
  SPIFFE standard allows: the certificate has one URI and no other, with the \<open>spiffe\<close> scheme, no user, a host of at
  most 255 bytes, a path, and at most 2048 bytes in all. Otherwise no identity is reported.
\<close>

theorem spiffe_identity:
  "SPIFFEIDFromState peers = Some u \<longleftrightarrow>
     (\<exists>chain. peers = [Some u] # chain) \<and> spiffe_candidate u \<and> pu_Host u \<noteq> [] \<and> length (pu_Host u) \<le> 255
     \<and> pu_Path u \<noteq> [] \<and> length (pu_String u) \<le> 2048"
proof (cases peers)
  case (Cons cert chain)
  show ?thesis
  proof (cases "length cert > 1")
    case True
    then show ?thesis by (auto simp: SPIFFEIDFromState_def SPIFFEIDFromCert_def Cons spiffe_loop_many)
  next
    case False
    then consider "cert = []" | x where "cert = [x]" by (cases cert) auto
    then show ?thesis
      by cases (auto simp: SPIFFEIDFromState_def SPIFFEIDFromCert_def Cons spiffe_candidate_def split: option.splits)
  qed
qed (simp add: SPIFFEIDFromState_def)

end
