(* ===== verification/Collector_Cilium.thy ===== *)
theory Collector_Cilium
  imports Collector_Sink TLS_Creds
begin

text \<open>
  \<open>collector/cilium.go\<close>, \<open>collector/hubble_watchdog.go\<close>, \<open>hubble/hubble.go\<close> and \<open>stream/flows/cilium/client.go\<close>: finding
  Hubble Relay, connecting to it, and exporting its flows. The Kubernetes client, the X.509 and PEM
  parsers and the gRPC dial are fields of \<open>hubble_lib\<close>. Flow enumerations are numbers, and the names the
  generated code gives them are an argument.
\<close>

section \<open>Converting a flow\<close>

record hubble_endpoint =
  he_ID :: u32
  he_ClusterName :: string
  he_Namespace :: string
  he_Labels :: "string list"
  he_PodName :: string
  he_Workloads :: "(string \<times> string) list"

text \<open>
  A layer 4 message has an optional protocol. The version of an IP header is one of the three values both
  enumerations have.
\<close>

record hubble_flow =
  hf_time :: "int option"
  hf_node_name :: string
  hf_verdict :: int
  hf_traffic_direction :: int
  hf_IP :: "ip_header option"
  hf_l4 :: "layer4 option option"
  hf_source :: "hubble_endpoint option"
  hf_destination :: "hubble_endpoint option"
  hf_destination_service :: "(string \<times> string) option"
  hf_is_reply :: "bool option"
  hf_egress_allowed_by :: "flow_policy list"
  hf_ingress_allowed_by :: "flow_policy list"
  hf_egress_denied_by :: "flow_policy list"
  hf_ingress_denied_by :: "flow_policy list"

definition convertCiliumIP :: "ip_header option \<Rightarrow> ip_header option" where
  "convertCiliumIP ipAddress =
     (case ipAddress of
        None \<Rightarrow> None
      | Some ip \<Rightarrow> Some \<lparr>ip_source = ip_source ip, ip_destination = ip_destination ip, ip_ip_version = ip_ip_version ip\<rparr>)"

definition convertCiliumLayer4 :: "layer4 option option \<Rightarrow> layer4 option" where
  "convertCiliumLayer4 l4 =
     (case l4 of
        None \<Rightarrow> None
      | Some protocol \<Rightarrow>
          (case protocol of
             Some (L4Tcp s d _) \<Rightarrow> Some (L4Tcp s d None)
           | Some (L4Udp s d) \<Rightarrow> Some (L4Udp s d)
           | Some (L4Icmpv4 t c) \<Rightarrow> Some (L4Icmpv4 t c)
           | Some (L4Icmpv6 t c) \<Rightarrow> Some (L4Icmpv6 t c)
           | Some (L4Sctp s d) \<Rightarrow> Some (L4Sctp s d)
           | None \<Rightarrow> None))"

definition convertCiliumWorkflows :: "(string \<times> string) list \<Rightarrow> (string \<times> string) list" where
  "convertCiliumWorkflows workloads = map (\<lambda>(name, kind). (name, kind)) workloads"

definition convertCiliumPolicies :: "flow_policy list \<Rightarrow> flow_policy list" where
  "convertCiliumPolicies policies =
     map (\<lambda>p. \<lparr>fp_name = fp_name p, fp_namespace = fp_namespace p, fp_labels = fp_labels p, fp_revision = fp_revision p,
               fp_kind = fp_kind p\<rparr>) policies"

definition cilium_endpoint :: "hubble_endpoint option \<Rightarrow> flow_endpoint option" where
  "cilium_endpoint ep =
     map_option (\<lambda>e. \<lparr>ep_uid = he_ID e, ep_cluster_name = he_ClusterName e, ep_namespace = he_Namespace e,
                      ep_labels = he_Labels e, ep_pod_name = he_PodName e,
                      ep_workloads = convertCiliumWorkflows (he_Workloads e)\<rparr>) ep"

text \<open>The names of the enumerations' values.\<close>

record flow_enums =
  fe_TrafficDirection :: "int \<Rightarrow> string"
  fe_Verdict :: "int \<Rightarrow> string"

text \<open>A response without a flow has all getters nil.\<close>

definition ConvertCiliumFlow :: "flow_enums \<Rightarrow> hubble_flow option \<Rightarrow> cilium_flow option" where
  "ConvertCiliumFlow en flowResp =
     (case flowResp of
        None \<Rightarrow> None
      | Some flowObj \<Rightarrow>
          if hf_time flowObj = None \<or> fe_TrafficDirection en (hf_traffic_direction flowObj) = []
             \<or> fe_Verdict en (hf_verdict flowObj) = [] \<or> hf_IP flowObj = None \<or> hf_l4 flowObj = None
          then None
          else Some
            \<lparr>cf_time = hf_time flowObj, cf_node_name = hf_node_name flowObj,
             cf_traffic_direction = hf_traffic_direction flowObj, cf_verdict = hf_verdict flowObj,
             cf_layer3 = convertCiliumIP (hf_IP flowObj), cf_layer4 = convertCiliumLayer4 (hf_l4 flowObj),
             cf_is_reply = hf_is_reply flowObj, cf_source_endpoint = cilium_endpoint (hf_source flowObj),
             cf_destination_endpoint = cilium_endpoint (hf_destination flowObj),
             cf_destination_service =
               Some (case hf_destination_service flowObj of None \<Rightarrow> ([], []) | Some (n, ns) \<Rightarrow> (n, ns)),
             cf_egress_allowed_by = convertCiliumPolicies (hf_egress_allowed_by flowObj),
             cf_ingress_allowed_by = convertCiliumPolicies (hf_ingress_allowed_by flowObj),
             cf_egress_denied_by = convertCiliumPolicies (hf_egress_denied_by flowObj),
             cf_ingress_denied_by = convertCiliumPolicies (hf_ingress_denied_by flowObj)\<rparr>)"

section \<open>Exporting flows\<close>

text \<open>One turn of the loop: whether the context is done, what \<open>Recv\<close> answers, what the flow cache answers.\<close>

record cilium_turn =
  ct_done :: bool
  ct_recv :: "hubble_flow option result"
  ct_cache :: "go_error option"

fun export_loop :: "flow_enums \<Rightarrow> cilium_turn list \<Rightarrow> collector_sink \<Rightarrow> go_error option \<times> collector_sink" where
  "export_loop en [] sink = (None, sink)"
| "export_loop en (t # ts) sink =
     (if ct_done t then (Some CtxErr, sink)
      else case ct_recv t of
             Inl err \<Rightarrow> (Some err, sink)
           | Inr flowResp \<Rightarrow>
               (case ConvertCiliumFlow en flowResp of
                  None \<Rightarrow> export_loop en ts sink
                | Some ciliumFlow \<Rightarrow>
                    (case sink_cache (ct_cache t) (CiliumFlow ciliumFlow) sink of
                       (Some err, sink') \<Rightarrow> (Some err, sink')
                     | (None, sink') \<Rightarrow> export_loop en ts sink')))"

text \<open>\<open>open\<close> is the error of \<open>GetFlows\<close>. A result \<open>None\<close> means that the loop still runs.\<close>

definition ExportCiliumFlows ::
  "flow_enums \<Rightarrow> (go_error \<Rightarrow> string) \<Rightarrow> go_error option \<Rightarrow> cilium_turn list \<Rightarrow> collector_sink \<Rightarrow> go_error option \<times> collector_sink" where
  "ExportCiliumFlows en text open ts sink =
     (case open of
        Some err \<Rightarrow> (Some (AsTLSHandshakeError text err), sink)
      | None \<Rightarrow> export_loop en ts sink)"

section \<open>Finding Hubble Relay\<close>

definition ErrHubbleNotFound :: go_error where
  "ErrHubbleNotFound = ErrMsg ''cilium Hubble Relay service not found; disabling Cilium flow collection''"

definition ErrNoPortsAvailable :: go_error where
  "ErrNoPortsAvailable = ErrMsg ''cilium Hubble Relay service has no ports; disabling Cilium flow collection''"

definition ErrCertDataMissingInSecret :: go_error where
  "ErrCertDataMissingInSecret =
     ErrMsg ''required certificate data (ca.crt, tls.crt, or tls.key) not found in secret''"

record hubble_service =
  hs_ClusterIP :: string
  hs_Ports :: "int list"

datatype relay_credentials = TLSCredentials tls_creds | TLSWithALPNDisabled tls_creds | InsecureCredentials

record hubble_lib =
  hl_GetService :: "string \<Rightarrow> string \<Rightarrow> hubble_service result"
  hl_GetSecret :: "string \<Rightarrow> string \<Rightarrow> (string, string) gomap result"
  hl_pemDecodes :: "string \<Rightarrow> bool"
  hl_X509KeyPair :: "string \<Rightarrow> string \<Rightarrow> (string \<times> string) result"
  hl_AppendCertsFromPEM :: "string \<Rightarrow> bool"
  hl_NewClient :: "string \<Rightarrow> relay_credentials \<Rightarrow> go_error option"

definition ciliumHubbleRelayServiceName :: string where
  "ciliumHubbleRelayServiceName = ''hubble-relay''"

definition ciliumHubbleMTLSSecretName :: string where
  "ciliumHubbleMTLSSecretName = ''hubble-relay-client-certs''"

definition expectedServerName :: "string \<Rightarrow> string \<Rightarrow> string" where
  "expectedServerName namespace serviceName =
     (if namespace = ''kube-system'' then ''ui.hubble-relay.cilium.io''
      else serviceName @ ''.'' @ namespace @ ''.svc.cluster.local'')"

definition secret_key :: "(string, string) gomap \<Rightarrow> string \<Rightarrow> string \<Rightarrow> string result" where
  "secret_key dat key what =
     (case gm_get dat key of
        Some x \<Rightarrow> if x = [] then Inl (WrapErr what ErrCertDataMissingInSecret) else Inr x
      | None \<Rightarrow> Inl (WrapErr what ErrCertDataMissingInSecret))"

definition getMTLSCertificatesFromSecret :: "hubble_lib \<Rightarrow> string \<Rightarrow> string \<Rightarrow> (string \<times> string \<times> string) result" where
  "getMTLSCertificatesFromSecret lib secretName secretNamespace =
     (case hl_GetSecret lib secretNamespace secretName of
        Inl e \<Rightarrow> Inl (WrapErr (''failed to get secret '' @ secretName @ '' in namespace '' @ secretNamespace) e)
      | Inr dat \<Rightarrow>
          (case secret_key dat ''ca.crt'' ''ca.crt key'' of
             Inl e \<Rightarrow> Inl e
           | Inr caData \<Rightarrow>
               (case secret_key dat ''tls.crt'' ''tls.crt key (client certificate)'' of
                  Inl e \<Rightarrow> Inl e
                | Inr clientCertData \<Rightarrow>
                    (case secret_key dat ''tls.key'' ''tls.key key (client key)'' of
                       Inl e \<Rightarrow> Inl e
                     | Inr clientKeyData \<Rightarrow> Inr (caData, clientCertData, clientKeyData)))))"

definition isValidPEM :: "hubble_lib \<Rightarrow> string \<Rightarrow> bool" where
  "isValidPEM lib dat = hl_pemDecodes lib dat"

definition loadMTLSConfigFromData :: "hubble_lib \<Rightarrow> string \<Rightarrow> string \<Rightarrow> string \<Rightarrow> string \<Rightarrow> tls_creds result" where
  "loadMTLSConfigFromData lib caCertData clientCertData clientKeyData namespace =
     (if \<not> isValidPEM lib caCertData \<or> \<not> isValidPEM lib clientCertData \<or> \<not> isValidPEM lib clientKeyData
      then Inl (ErrMsg ''invalid PEM data: ensure proper headers and formatting'')
      else case hl_X509KeyPair lib clientCertData clientKeyData of
             Inl e \<Rightarrow> Inl (WrapErr ''failed to load client certificate and key from data'' e)
           | Inr cert \<Rightarrow>
               if \<not> hl_AppendCertsFromPEM lib caCertData
               then Inl (ErrMsg ''failed to append CA certificate to pool from data'')
               else Inr ((zero_config None)\<lparr>tc_Certificates := [cert], tc_RootCAs := Some caCertData,
                         tc_ServerName := expectedServerName namespace ciliumHubbleRelayServiceName,
                         tc_MinVersion := VersionTLS12, tc_InsecureSkipVerify := False\<rparr>))"

definition GetTLSConfig :: "hubble_lib \<Rightarrow> string \<Rightarrow> string \<Rightarrow> tls_creds result" where
  "GetTLSConfig lib secretName namespace =
     (case getMTLSCertificatesFromSecret lib secretName namespace of
        Inl e \<Rightarrow> Inl (WrapErr ''failed to fetch mTLS certificates'' e)
      | Inr (caData, clientCertData, clientKeyData) \<Rightarrow>
          (case loadMTLSConfigFromData lib caData clientCertData clientKeyData namespace of
             Inl e \<Rightarrow> Inl (WrapErr ''failed to load mTLS credentials'' e)
           | Inr tlsConfig \<Rightarrow> Inr tlsConfig))"

definition DiscoverCiliumHubbleRelay :: "hubble_lib \<Rightarrow> string \<Rightarrow> hubble_service result" where
  "DiscoverCiliumHubbleRelay lib ciliumNamespace =
     (case hl_GetService lib ciliumNamespace ciliumHubbleRelayServiceName of
        Inl _ \<Rightarrow> Inl ErrHubbleNotFound
      | Inr service \<Rightarrow> Inr service)"

definition GetAddressFromService :: "hubble_service \<Rightarrow> string result" where
  "GetAddressFromService service =
     (case hs_Ports service of
        [] \<Rightarrow> Inl ErrNoPortsAvailable
      | port # _ \<Rightarrow> Inr (hs_ClusterIP service @ '':'' @ string_of_int port))"

definition ConnectToHubbleRelay :: "hubble_lib \<Rightarrow> string \<Rightarrow> tls_creds option \<Rightarrow> bool \<Rightarrow> relay_credentials result" where
  "ConnectToHubbleRelay lib hubbleAddress tlsConfig disableALPN =
     (let creds = (case tlsConfig of
                     Some c \<Rightarrow> if disableALPN then TLSWithALPNDisabled c else TLSCredentials c
                   | None \<Rightarrow> InsecureCredentials)
      in case hl_NewClient lib hubbleAddress creds of
           Some e \<Rightarrow> Inl (WrapErr ''failed to connect to Cilium Hubble Relay'' e)
         | None \<Rightarrow> Inr creds)"

section \<open>The collector\<close>

text \<open>The state of the loop over the namespaces: the address, the TLS configuration and the last error.\<close>

fun discovery_loop ::
  "hubble_lib \<Rightarrow> AuthProperties \<Rightarrow> string list \<Rightarrow> go_error option \<Rightarrow> (string \<times> tls_creds option \<times> go_error option) result" where
  "discovery_loop lib props [] discoveryErr = Inr ([], None, discoveryErr)"
| "discovery_loop lib props (ciliumNamespace # namespaces) discoveryErr =
     (case DiscoverCiliumHubbleRelay lib ciliumNamespace of
        Inl err \<Rightarrow> discovery_loop lib props namespaces (Some err)
      | Inr service \<Rightarrow>
          (case GetAddressFromService service of
             Inl err \<Rightarrow> Inl (WrapErr ''failed to discover Cilium Hubble Relay address'' err)
           | Inr hubbleAddress \<Rightarrow>
               let tlsConfig = (case GetTLSConfig lib ciliumHubbleMTLSSecretName ciliumNamespace of Inl _ \<Rightarrow> None | Inr c \<Rightarrow> Some c)
               in Inr (hubbleAddress, if DisableTLS props then None else tlsConfig, discoveryErr)))"

record cilium_collector =
  cc_address :: string
  cc_credentials :: relay_credentials

definition NewCiliumFlowCollector :: "hubble_lib \<Rightarrow> string list \<Rightarrow> AuthProperties \<Rightarrow> cilium_collector result" where
  "NewCiliumFlowCollector lib ciliumNamespaces props =
     (case discovery_loop lib props ciliumNamespaces None of
        Inl e \<Rightarrow> Inl e
      | Inr (hubbleAddress, tlsConfig, discoveryErr) \<Rightarrow>
          if hubbleAddress = []
          then Inl (case discoveryErr of
                      Some e \<Rightarrow> WrapErr ''failed to discover Cilium Hubble Relay'' e
                    | None \<Rightarrow> ErrMsg ''failed to discover Cilium Hubble Relay: %!w(<nil>)'')
          else case ConnectToHubbleRelay lib hubbleAddress tlsConfig (DisableALPN props) of
                 Inl e \<Rightarrow> Inl (WrapErr ''failed to connect to Cilium Hubble Relay'' e)
               | Inr creds \<Rightarrow> Inr \<lparr>cc_address = hubbleAddress, cc_credentials = creds\<rparr>)"

definition IsCiliumAvailable :: "hubble_lib \<Rightarrow> string list \<Rightarrow> AuthProperties \<Rightarrow> bool" where
  "IsCiliumAvailable lib ciliumNamespaces props =
     (case NewCiliumFlowCollector lib ciliumNamespaces props of Inl _ \<Rightarrow> False | Inr _ \<Rightarrow> True)"

section \<open>The client and its retries\<close>

definition ShouldStopRetries :: "go_error \<Rightarrow> bool" where
  "ShouldStopRetries err = (errors_is err ErrHubbleNotFound \<or> errors_is err ErrNoPortsAvailable)"

definition disableSubsystemCausingError :: "go_error \<Rightarrow> AuthProperties \<Rightarrow> AuthProperties" where
  "disableSubsystemCausingError err props =
     (if errors_is err ErrTLSALPNHandshakeFailed then props\<lparr>DisableALPN := True\<rparr>
      else if errors_is err ErrNoTLSHandshakeFailed then props\<lparr>DisableTLS := True\<rparr>
      else props)"

text \<open>
  One run of the client: its error, if it has ended, the sink and the TLS properties. The properties sit behind
  the pointer that the factory gives every client, so the next run starts from them.
\<close>

definition cilium_Run ::
  "hubble_lib \<Rightarrow> flow_enums \<Rightarrow> (go_error \<Rightarrow> string) \<Rightarrow> string list \<Rightarrow> go_error option \<Rightarrow> cilium_turn list
    \<Rightarrow> AuthProperties option \<Rightarrow> collector_sink \<Rightarrow> go_error option \<times> collector_sink \<times> AuthProperties" where
  "cilium_Run lib en text ciliumNamespaces open ts tlsAuthProps sink =
     (let props = (case tlsAuthProps of None \<Rightarrow> \<lparr>DisableALPN = False, DisableTLS = False\<rparr> | Some p \<Rightarrow> p)
      in case NewCiliumFlowCollector lib ciliumNamespaces props of
           Inl err \<Rightarrow>
             (Some (if ShouldStopRetries err then JoinErr [StopRetries, err] else err), sink, props)
         | Inr _ \<Rightarrow>
             (case ExportCiliumFlows en text open ts sink of
                (Some err, sink') \<Rightarrow> (Some err, sink', disableSubsystemCausingError err props)
              | (None, sink') \<Rightarrow> (None, sink', props)))"

section \<open>The relay watchdog\<close>

definition maxLoggedUnavailableNodes :: nat where
  "maxLoggedUnavailableNodes = 10"

definition boundUnavailableNodes :: "string list \<Rightarrow> string list" where
  "boundUnavailableNodes nodes =
     (if nodes = [] then nodes
      else let sorted = sort nodes
           in if length sorted > maxLoggedUnavailableNodes then take maxLoggedUnavailableNodes sorted else sorted)"

datatype watchdog_line = StatusLine u32 u32 "string list" | UnreachableLine u32 u32 "string list"

text \<open>One tick: \<open>None\<close> when the status call failed.\<close>

definition watchdog_tick :: "(u32 \<times> u32 \<times> string list) option \<Rightarrow> watchdog_line list" where
  "watchdog_tick status =
     (case status of
        None \<Rightarrow> []
      | Some (numConnectedNodes, numUnavailableNodes, unavailableNodes) \<Rightarrow>
          let loggedNodes = boundUnavailableNodes unavailableNodes
          in StatusLine numConnectedNodes numUnavailableNodes loggedNodes #
             (if numUnavailableNodes > 0 \<or> numConnectedNodes = 0
              then [UnreachableLine numConnectedNodes numUnavailableNodes loggedNodes] else []))"

text \<open>
  The reply of the \<open>ServerStatus\<close> call, its counts being wrapped integers that may be missing, and the loop that asks for it
  at every tick until its context is done.
\<close>

record relay_status =
  rs_NumConnectedNodes :: "u32 option"
  rs_NumUnavailableNodes :: "u32 option"
  rs_UnavailableNodes :: "string list"

definition GetValue :: "u32 option \<Rightarrow> u32" where
  "GetValue v = (case v of None \<Rightarrow> 0 | Some n \<Rightarrow> n)"

definition queryHubbleRelayServerStatus :: "relay_status result \<Rightarrow> (u32 \<times> u32 \<times> string list) option" where
  "queryHubbleRelayServerStatus reply =
     (case reply of
        Inl _ \<Rightarrow> None
      | Inr resp \<Rightarrow> Some (GetValue (rs_NumConnectedNodes resp), GetValue (rs_NumUnavailableNodes resp), rs_UnavailableNodes resp))"

definition relay_check_interval :: "int \<Rightarrow> int" where
  "relay_check_interval configured = (if configured \<le> 0 then 30 * 60 * 1000000000 else configured)"

datatype watchdog_event = WatchdogDone | WatchdogTick "relay_status result"

fun monitorHubbleRelayServerStatus :: "watchdog_event list \<Rightarrow> bool \<times> watchdog_line list" where
  "monitorHubbleRelayServerStatus [] = (False, [])"
| "monitorHubbleRelayServerStatus (WatchdogDone # es) = (True, [])"
| "monitorHubbleRelayServerStatus (WatchdogTick reply # es) =
     (case monitorHubbleRelayServerStatus es of
        (returned, ls) \<Rightarrow> (returned, watchdog_tick (queryHubbleRelayServerStatus reply) @ ls))"

text \<open>A status without counts reads as no node connected, so it is warned about; a failed call is passed over.\<close>

lemma watchdog_ticks:
  "monitorHubbleRelayServerStatus (map WatchdogTick rs @ WatchdogDone # es) =
     (True, concat (map (\<lambda>r. watchdog_tick (queryHubbleRelayServerStatus r)) rs))"
  by (induction rs) simp_all

lemma watchdog_warns:
  "UnreachableLine c u ns \<in> set (watchdog_tick (queryHubbleRelayServerStatus r)) \<longleftrightarrow>
     (\<exists>s. r = Inr s \<and> c = GetValue (rs_NumConnectedNodes s) \<and> u = GetValue (rs_NumUnavailableNodes s) \<and>
        ns = boundUnavailableNodes (rs_UnavailableNodes s) \<and> (u > 0 \<or> c = 0))"
  by (auto simp: watchdog_tick_def queryHubbleRelayServerStatus_def Let_def split: sum.splits)

section \<open>Every flow of the relay is exported once\<close>

text \<open>Why a turn of the loop ends it, and the flow it exports otherwise.\<close>

definition turn_stops :: "flow_enums \<Rightarrow> cilium_turn \<Rightarrow> go_error option" where
  "turn_stops en t =
     (if ct_done t then Some CtxErr
      else case ct_recv t of
             Inl e \<Rightarrow> Some e
           | Inr r \<Rightarrow> if ConvertCiliumFlow en r = None then None else ct_cache t)"

definition turn_flow :: "flow_enums \<Rightarrow> cilium_turn \<Rightarrow> flow option" where
  "turn_flow en t = (case ct_recv t of Inl _ \<Rightarrow> None | Inr r \<Rightarrow> map_option CiliumFlow (ConvertCiliumFlow en r))"

interpretation cilium_export: collector_loop "export_loop en" "turn_stops en" "turn_flow en" for en
proof
  show "export_loop en (t # ts) s =
      (case turn_stops en t of
         Some e \<Rightarrow> (Some e, s)
       | None \<Rightarrow> export_loop en ts (case turn_flow en t of None \<Rightarrow> s | Some f \<Rightarrow> sink_add f s))" for t ts s
    by (cases "ct_cache t") (auto simp: turn_stops_def turn_flow_def split: sum.splits option.splits)
qed simp

text \<open>
  C31: while the export runs, what it has put into the flow cache is exactly the flows
  of the relay that carry a time, addresses and a layer 4 message, in the order received and once
  each; responses without them are skipped. It ends only with an error: the context's, the stream's or
  the flow cache's, that of the first turn that has one, and everything received before that turn
  has been cached and counted.
\<close>

theorem cilium_export_exact:
  "export_loop en ts sink =
     (case dropWhile (\<lambda>t. turn_stops en t = None) ts of [] \<Rightarrow> None | t # _ \<Rightarrow> turn_stops en t,
      sink_adds (List.map_filter (turn_flow en) (takeWhile (\<lambda>t. turn_stops en t = None) ts)) sink)
   \<and> (ConvertCiliumFlow en (Some f) = None \<longleftrightarrow>
        hf_time f = None \<or> hf_IP f = None \<or> hf_l4 f = None
        \<or> fe_TrafficDirection en (hf_traffic_direction f) = [] \<or> fe_Verdict en (hf_verdict f) = [])"
  using cilium_export.loop_result [of en ts sink]
  by (auto simp: cilium_export.handled_def ConvertCiliumFlow_def)

section \<open>The connection to the relay\<close>

lemma address_nonempty: "GetAddressFromService svc = Inr a \<Longrightarrow> a \<noteq> []"
  by (auto simp: GetAddressFromService_def split: list.splits)

text \<open>The first namespace in which the API server finds the service.\<close>

definition relay_namespace :: "hubble_lib \<Rightarrow> string list \<Rightarrow> (string \<times> hubble_service) option" where
  "relay_namespace lib nss =
     (case List.map_filter (\<lambda>ns. case hl_GetService lib ns ciliumHubbleRelayServiceName of Inl _ \<Rightarrow> None | Inr s \<Rightarrow> Some (ns, s)) nss of
        [] \<Rightarrow> None | x # _ \<Rightarrow> Some x)"

lemma relay_namespace_simps [simp]:
  "relay_namespace lib [] = None"
  "relay_namespace lib (ns # nss) =
     (case hl_GetService lib ns ciliumHubbleRelayServiceName of Inl _ \<Rightarrow> relay_namespace lib nss | Inr s \<Rightarrow> Some (ns, s))"
  by (simp_all add: relay_namespace_def map_filter_simps split: sum.splits)

lemma discovery_none:
  "relay_namespace lib nss = None \<Longrightarrow> discovery_loop lib props nss d = Inr ([], None, if nss = [] then d else Some ErrHubbleNotFound)"
  by (induction nss arbitrary: d) (auto simp: DiscoverCiliumHubbleRelay_def split: sum.splits)

text \<open>The configuration used in a namespace: none when TLS is disabled or its secret is unusable.\<close>

definition namespace_tls :: "hubble_lib \<Rightarrow> AuthProperties \<Rightarrow> string \<Rightarrow> tls_creds option" where
  "namespace_tls lib props ns =
     (if DisableTLS props then None
      else case GetTLSConfig lib ciliumHubbleMTLSSecretName ns of Inl _ \<Rightarrow> None | Inr c \<Rightarrow> Some c)"

lemma discovery_Cons:
  "discovery_loop lib props (ns # nss) d =
     (case hl_GetService lib ns ciliumHubbleRelayServiceName of
        Inl _ \<Rightarrow> discovery_loop lib props nss (Some ErrHubbleNotFound)
      | Inr svc \<Rightarrow>
          (case GetAddressFromService svc of
             Inl e \<Rightarrow> Inl (WrapErr ''failed to discover Cilium Hubble Relay address'' e)
           | Inr a \<Rightarrow> Inr (a, namespace_tls lib props ns, d)))"
  by (simp add: DiscoverCiliumHubbleRelay_def Let_def namespace_tls_def split: sum.split)

lemma discovery_some:
  "relay_namespace lib nss = Some (ns, svc) \<Longrightarrow>
   (case GetAddressFromService svc of
      Inl e \<Rightarrow> discovery_loop lib props nss d = Inl (WrapErr ''failed to discover Cilium Hubble Relay address'' e)
    | Inr a \<Rightarrow> \<exists>d'. discovery_loop lib props nss d = Inr (a, namespace_tls lib props ns, d'))"
proof (induction nss arbitrary: d)
  case (Cons n nss)
  then show ?case
    by (cases "hl_GetService lib n ciliumHubbleRelayServiceName")
       (auto simp only: discovery_Cons relay_namespace_simps sum.case option.inject prod.inject split: sum.splits)
qed simp

text \<open>A configuration that checks the certificate of the relay of a namespace.\<close>

definition relay_verified :: "string \<Rightarrow> tls_creds \<Rightarrow> bool" where
  "relay_verified ns t \<longleftrightarrow> \<not> tc_InsecureSkipVerify t \<and> tc_RootCAs t \<noteq> None
     \<and> tc_ServerName t = expectedServerName ns ciliumHubbleRelayServiceName \<and> 0x0303 \<le> tc_MinVersion t"

lemma tls_config_verified: "GetTLSConfig lib secret ns = Inr c \<Longrightarrow> relay_verified ns c"
  by (auto simp: relay_verified_def GetTLSConfig_def loadMTLSConfigFromData_def VersionTLS12_def split: sum.splits if_splits)

text \<open>The credentials without ALPN run their handshake with the same checks.\<close>

lemma relay_verified_handshake:
  "relay_verified ns t \<Longrightarrow> relay_verified ns (client_config (NewTLSWithALPNDisabled suites (Some t)) authority)"
  by (auto simp: relay_verified_def client_config_def cloneTLSConfig_def expectedServerName_def Let_def)

text \<open>
  The collector connects to the relay of the first namespace that has one, at its
  first port. The connection is unencrypted exactly when TLS was disabled or the namespace has no usable
  certificate secret; an encrypted one checks the server's certificate for the name of that namespace's
  relay under the authority of that secret, at TLS 1.2 or later, and leaves out ALPN exactly when that was
  disabled; the handshake without ALPN makes the same checks.
\<close>

theorem relay_connection:
  assumes "NewCiliumFlowCollector lib nss props = Inr c"
  shows "\<exists>ns svc port ports. relay_namespace lib nss = Some (ns, svc) \<and> hs_Ports svc = port # ports
    \<and> cc_address c = hs_ClusterIP svc @ '':'' @ string_of_int port
    \<and> (cc_credentials c = InsecureCredentials \<longleftrightarrow>
         DisableTLS props \<or> (\<exists>e. GetTLSConfig lib ciliumHubbleMTLSSecretName ns = Inl e))
    \<and> (\<forall>t. cc_credentials c = TLSWithALPNDisabled t \<or> cc_credentials c = TLSCredentials t \<longrightarrow>
         relay_verified ns t \<and> (cc_credentials c = TLSWithALPNDisabled t \<longleftrightarrow> DisableALPN props)
         \<and> relay_verified ns (client_config (NewTLSWithALPNDisabled suites (Some t)) (cc_address c)))"
proof -
  obtain ns svc where ns: "relay_namespace lib nss = Some (ns, svc)"
    using assms discovery_none [of lib nss props None]
    by (cases "relay_namespace lib nss") (auto simp: NewCiliumFlowCollector_def)
  obtain port ports where port: "hs_Ports svc = port # ports"
    using assms discovery_some [OF ns, of props None]
    by (cases "hs_Ports svc") (auto simp: NewCiliumFlowCollector_def GetAddressFromService_def)
  let ?a = "hs_ClusterIP svc @ '':'' @ string_of_int port"
  let ?t = "namespace_tls lib props ns"
  obtain d where "discovery_loop lib props nss None = Inr (?a, ?t, d)"
    using discovery_some [OF ns, of props None] port by (auto simp: GetAddressFromService_def)
  then have "ConnectToHubbleRelay lib ?a ?t (DisableALPN props) = Inr (cc_credentials c) \<and> cc_address c = ?a"
    using assms by (auto simp: NewCiliumFlowCollector_def split: sum.splits)
  then show ?thesis
    using ns port tls_config_verified [of lib ciliumHubbleMTLSSecretName ns] relay_verified_handshake
    by (auto simp: ConnectToHubbleRelay_def Let_def namespace_tls_def split: option.splits sum.splits if_splits)
qed

section \<open>Retries\<close>

text \<open>The properties after a sequence of runs that ended with the given errors.\<close>

definition props_after :: "go_error list \<Rightarrow> AuthProperties \<Rightarrow> AuthProperties" where
  "props_after errs props = fold disableSubsystemCausingError errs props"

lemma handshake_errors_differ [simp]: "ErrTLSALPNHandshakeFailed \<noteq> ErrNoTLSHandshakeFailed" "ErrNoTLSHandshakeFailed \<noteq> ErrTLSALPNHandshakeFailed"
  by (simp_all add: ErrTLSALPNHandshakeFailed_def ErrNoTLSHandshakeFailed_def)

lemma props_after_flags:
  "DisableALPN (props_after errs p) \<longleftrightarrow> DisableALPN p \<or> (\<exists>e \<in> set errs. errors_is e ErrTLSALPNHandshakeFailed)"
  "DisableTLS (props_after errs p) \<longleftrightarrow> DisableTLS p \<or>
     (\<exists>e \<in> set errs. errors_is e ErrNoTLSHandshakeFailed \<and> \<not> errors_is e ErrTLSALPNHandshakeFailed)"
  by (induction errs arbitrary: p) (auto simp: props_after_def disableSubsystemCausingError_def)

text \<open>
  When the API server answers the look-up of the relay with an error in every
  configured namespace, whatever the error (a timeout or a refused connection as well as a missing
  service), the client returns an error that asks its stream for no further retries: each error is reported as a missing service.
\<close>

theorem discovery_error_stops_collection:
  assumes "nss \<noteq> []" and "\<And>ns. ns \<in> set nss \<Longrightarrow> \<exists>e. hl_GetService lib ns ''hubble-relay'' = Inl e"
  shows "\<exists>e. fst (cilium_Run lib en text nss open ts props sink) = Some e \<and> errors_is e StopRetries"
proof -
  have "relay_namespace lib nss = None"
    using assms(2) by (induction nss) (fastforce simp: ciliumHubbleRelayServiceName_def split: sum.splits)+
  then show ?thesis
    using assms(1) by (simp add: cilium_Run_def NewCiliumFlowCollector_def discovery_none Let_def ShouldStopRetries_def errors_is_refl)
qed

section \<open>A sample cluster\<close>

definition sample_hubble :: hubble_lib where
  "sample_hubble =
     \<lparr>hl_GetService = (\<lambda>ns _. if ns = ''cilium'' then Inr \<lparr>hs_ClusterIP = ''10.0.0.9'', hs_Ports = [443]\<rparr> else Inl NotFoundErr),
      hl_GetSecret = (\<lambda>_ _. Inr [(''ca.crt'', ''a''), (''tls.crt'', ''b''), (''tls.key'', ''c'')]),
      hl_pemDecodes = (\<lambda>_. True), hl_X509KeyPair = (\<lambda>c k. Inr (c, k)), hl_AppendCertsFromPEM = (\<lambda>_. True),
      hl_NewClient = (\<lambda>_ _. None)\<rparr>"

lemmas sample_hubble_simps = sample_hubble_def NewCiliumFlowCollector_def DiscoverCiliumHubbleRelay_def GetAddressFromService_def
  GetTLSConfig_def getMTLSCertificatesFromSecret_def secret_key_def loadMTLSConfigFromData_def isValidPEM_def ConnectToHubbleRelay_def

theorem relay_connection_witness:
  "\<exists>c t. NewCiliumFlowCollector sample_hubble [''kube-system'', ''cilium''] \<lparr>DisableALPN = False, DisableTLS = False\<rparr> = Inr c
     \<and> cc_credentials c = TLSCredentials t \<and> tc_ServerName t = ''hubble-relay.cilium.svc.cluster.local''"
proof -
  let ?p = "\<lparr>DisableALPN = False, DisableTLS = False\<rparr>"
  obtain c where c: "NewCiliumFlowCollector sample_hubble [''kube-system'', ''cilium''] ?p = Inr c"
    by (simp add: sample_hubble_simps Let_def)
  have "relay_namespace sample_hubble [''kube-system'', ''cilium''] = Some (''cilium'', \<lparr>hs_ClusterIP = ''10.0.0.9'', hs_Ports = [443]\<rparr>)"
    by (simp add: sample_hubble_def)
  moreover have "GetTLSConfig sample_hubble ciliumHubbleMTLSSecretName ''cilium'' \<noteq> Inl e" for e
    by (simp add: sample_hubble_simps)
  ultimately show ?thesis
    using relay_connection [OF c] c by (cases "cc_credentials c")
      (auto simp: relay_verified_def expectedServerName_def ciliumHubbleRelayServiceName_def)
qed

theorem discovery_error_stops_collection_witness:
  "\<exists>e. fst (cilium_Run (sample_hubble\<lparr>hl_GetService := \<lambda>_ _. Inl (ErrMsg ''i/o timeout'')\<rparr>)
        \<lparr>fe_TrafficDirection = (\<lambda>_. ''EGRESS''), fe_Verdict = (\<lambda>_. ''FORWARDED'')\<rparr> (\<lambda>_. []) [''kube-system''] None [] None
        \<lparr>cs_flows = [], cs_received = 0\<rparr>) = Some e \<and> errors_is e StopRetries"
  by (rule discovery_error_stops_collection) simp_all

end
