(* ===== verification/VPCCNI_Client.thy ===== *)
theory VPCCNI_Client
  imports AWS_Flow_Log
begin

text \<open>
  \<open>stream/flows/awsvpccni/client.go\<close> and \<open>factory.go\<close>: polling the logs of the aws-node pods. The API server, the
  clock and the answers of the flow sink are inputs of each poll. The state is the map of last poll
  times and the sink, together with the log requests made, as a trace.
\<close>

section \<open>Lines\<close>

text \<open>
  \<open>bufio.Scanner\<close> with its default buffer of 64 KiB: lines without their newline and one trailing carriage return,
  up to the first line that does not fit. The code does not look at the scanner's error.
\<close>

definition NewLine :: char where
  "NewLine = CHR 0x0A"

definition first_line :: "string \<Rightarrow> string" where
  "first_line s = takeWhile (\<lambda>c. c \<noteq> NewLine) s"

definition drop_cr :: "string \<Rightarrow> string" where
  "drop_cr l = (if l \<noteq> [] \<and> last l = CHR 0x0D then butlast l else l)"

definition MaxScanTokenSize :: nat where
  "MaxScanTokenSize = 64 * 1024"

function scan_lines :: "string \<Rightarrow> string list" where
  "scan_lines s =
     (if s = [] then []
      else if length (first_line s) \<ge> MaxScanTokenSize then []
      else drop_cr (first_line s) # scan_lines (drop (Suc (length (first_line s))) s))"
  by auto
termination
  by (relation "measure length") (auto simp: neq_Nil_conv)

declare scan_lines.simps [simp del]

section \<open>Parsing\<close>

text \<open>One environment per line handed to the sink, as a list: its context, clock and cache answer.\<close>

fun parse_loop :: "line_lib \<Rightarrow> int \<Rightarrow> (string \<times> line_env) list \<Rightarrow> flow_sink \<Rightarrow> flow_sink" where
  "parse_loop lib notBefore [] sink = sink"
| "parse_loop lib notBefore ((line, env) # ls) sink =
     (if line = [] then parse_loop lib notBefore ls sink
      else case CacheFlowLine lib env line (Some notBefore) sink of
             (Inl _, sink') \<Rightarrow> sink'
           | (Inr _, sink') \<Rightarrow> parse_loop lib notBefore ls sink')"

text \<open>\<open>envs\<close> gives the environment of the line with the given index.\<close>

definition parseLogs :: "line_lib \<Rightarrow> int \<Rightarrow> (nat \<Rightarrow> line_env) \<Rightarrow> string \<Rightarrow> flow_sink \<Rightarrow> flow_sink" where
  "parseLogs lib now envs logs sink =
     (if logs = [] then sink
      else let ls = scan_lines logs
           in parse_loop lib (now - MaxFlowAge) (zip ls (map envs [0..<length ls])) sink)"

section \<open>Polling\<close>

record log_request =
  lr_pod :: string
  lr_since :: int
  lr_start :: int
  lr_ok :: bool

record vpccni_state =
  vc_lastPollTime :: "(string, int) gomap"
  vc_sink :: flow_sink
  vc_requests :: "log_request list"

text \<open>
  The world during the poll of a pod: the two clock readings, the answer of the log request for a start
  time, and what \<open>parseLogs\<close> meets.
\<close>

record pod_env =
  pe_now :: int
  pe_start :: int
  pe_logs :: "int \<Rightarrow> string result"
  pe_parse_now :: int
  pe_lines :: "nat \<Rightarrow> line_env"

definition pollPod :: "line_lib \<Rightarrow> int \<Rightarrow> string \<Rightarrow> pod_env \<Rightarrow> vpccni_state \<Rightarrow> unit result \<times> vpccni_state" where
  "pollPod lib pollInterval pod env st =
     (let sinceTime = (case gm_get (vc_lastPollTime st) pod of None \<Rightarrow> pe_now env - pollInterval | Some t \<Rightarrow> t);
          pollStart = pe_start env;
          req = (\<lambda>ok. \<lparr>lr_pod = pod, lr_since = sinceTime, lr_start = pollStart, lr_ok = ok\<rparr>)
      in case pe_logs env sinceTime of
           Inl e \<Rightarrow> (Inl e, st\<lparr>vc_requests := vc_requests st @ [req False]\<rparr>)
         | Inr logs \<Rightarrow>
             (Inr (), st\<lparr>vc_lastPollTime := gm_put pod pollStart (vc_lastPollTime st),
                         vc_requests := vc_requests st @ [req True],
                         vc_sink := parseLogs lib (pe_parse_now env) (pe_lines env) logs (vc_sink st)\<rparr>))"

definition cleanupStalePods :: "string list \<Rightarrow> vpccni_state \<Rightarrow> vpccni_state" where
  "cleanupStalePods pods st =
     st\<lparr>vc_lastPollTime := filter (\<lambda>(podName, _). podName \<in> set pods) (vc_lastPollTime st)\<rparr>"

text \<open>A listed pod: its name, whether it is running, and the world during its poll.\<close>

record listed_pod =
  lp_name :: string
  lp_running :: bool
  lp_env :: pod_env

fun pods_loop :: "line_lib \<Rightarrow> int \<Rightarrow> listed_pod list \<Rightarrow> vpccni_state \<Rightarrow> vpccni_state" where
  "pods_loop lib pollInterval [] st = st"
| "pods_loop lib pollInterval (pod # pods) st =
     (if \<not> lp_running pod then pods_loop lib pollInterval pods st
      else pods_loop lib pollInterval pods (snd (pollPod lib pollInterval (lp_name pod) (lp_env pod) st)))"

definition pollAllPods :: "line_lib \<Rightarrow> int \<Rightarrow> listed_pod list result \<Rightarrow> vpccni_state \<Rightarrow> unit result \<times> vpccni_state" where
  "pollAllPods lib pollInterval listing st =
     (case listing of
        Inl e \<Rightarrow> (Inl e, st)
      | Inr pods \<Rightarrow> (Inr (), cleanupStalePods (map lp_name pods) (pods_loop lib pollInterval pods st)))"

text \<open>
  \<open>Run\<close>: an immediate poll and one per tick until the context is done (\<open>None\<close>); a ticker of a duration that
  is not positive panics. A poll that fails is logged.
\<close>

fun ticks_loop :: "line_lib \<Rightarrow> int \<Rightarrow> listed_pod list result option list \<Rightarrow> vpccni_state \<Rightarrow> go_error option \<times> vpccni_state" where
  "ticks_loop lib pollInterval [] st = (None, st)"
| "ticks_loop lib pollInterval (None # es) st = (Some CtxErr, st)"
| "ticks_loop lib pollInterval (Some listing # es) st = ticks_loop lib pollInterval es (snd (pollAllPods lib pollInterval listing st))"

definition vpccni_Run ::
  "line_lib \<Rightarrow> int \<Rightarrow> listed_pod list result \<Rightarrow> listed_pod list result option list \<Rightarrow> vpccni_state
    \<Rightarrow> (go_error option \<times> vpccni_state) outcome" where
  "vpccni_Run lib pollInterval initial es st =
     (if pollInterval \<le> 0 then Panics ''non-positive interval for NewTicker''
      else Returns (ticks_loop lib pollInterval es (snd (pollAllPods lib pollInterval initial st))))"

definition DefaultPollInterval :: int where
  "DefaultPollInterval = 1000000000"

definition EffectivePollInterval :: "int \<Rightarrow> int" where
  "EffectivePollInterval PollInterval = (if PollInterval = 0 then DefaultPollInterval else PollInterval)"

section \<open>What is parsed\<close>

text \<open>The lines of a log, by the definition of a line.\<close>

lemma first_line_line: "NewLine \<notin> set l \<Longrightarrow> first_line (l @ NewLine # s) = l"
  by (simp add: first_line_def takeWhile_append)

lemma scan_lines_line:
  "NewLine \<notin> set l \<Longrightarrow>
   scan_lines (l @ NewLine # s) = (if length l < MaxScanTokenSize then drop_cr l # scan_lines s else [])"
  by (subst scan_lines.simps) (simp add: first_line_line)

definition log_text :: "string list \<Rightarrow> string" where
  "log_text ls = concat (map (\<lambda>l. l @ [NewLine]) ls)"

lemma log_text_simps [simp]: "log_text [] = []" "log_text (l # ls) = l @ NewLine # log_text ls"
  by (simp_all add: log_text_def)

lemma scan_log_text:
  assumes "list_all (\<lambda>l. NewLine \<notin> set l) ls"
  shows "scan_lines (log_text ls) = map drop_cr (takeWhile (\<lambda>l. length l < MaxScanTokenSize) ls)"
  using assms
proof (induction ls)
  case (Cons l ls)
  then show ?case
    by (cases "length l < MaxScanTokenSize") (simp_all add: scan_lines_line)
qed (simp add: scan_lines.simps)

lemma parse_loop_flows:
  assumes "list_all (\<lambda>(l, env). \<not> le_ctx_done env \<and> le_cache_err env = None) ls"
  shows "sk_flows (parse_loop lib nb ls sink) = sk_flows sink @ List.map_filter (fresh_flow lib nb) (filter (\<lambda>l. l \<noteq> []) (map fst ls))"
  using assms
proof (induction ls arbitrary: sink)
  case (Cons x ls)
  obtain l env where x: "x = (l, env)" by fastforce
  obtain r sink' where c: "CacheFlowLine lib env l (Some nb) sink = (r, sink')" by fastforce
  have env: "\<not> le_ctx_done env" "le_cache_err env = None" using Cons.prems by (simp_all add: x)
  have "fst (CacheFlowLine lib env l (Some nb) sink) \<noteq> Inl e" for e using env by (simp add: CacheFlowLine_error)
  then obtain b where r: "r = Inr b" using c by (cases r) auto
  have "sk_flows sink' = sk_flows sink @ (case fresh_flow lib nb l of None \<Rightarrow> [] | Some f \<Rightarrow> [f])"
    using CacheFlowLine_flows [OF env, of lib l nb sink] c by simp
  then show ?case
    using Cons c r by (cases "fresh_flow lib nb l") (simp_all add: x map_filter_simps)
qed (simp add: map_filter_simps)

text \<open>
  From the log of a pod the client caches the flow of every line that records one and is not
  too old, in order and once each, up to the first line of 64 KiB or more. That line and everything
  after it is lost: the scanner stops there, its error is not looked at, and the poll still counts as
  a success.
\<close>

theorem vpccni_logs_parsed:
  assumes "list_all (\<lambda>l. NewLine \<notin> set l) ls" and "\<And>i. \<not> le_ctx_done (envs i) \<and> le_cache_err (envs i) = None"
  shows "sk_flows (parseLogs lib now envs (log_text ls) sink) = sk_flows sink @
    List.map_filter (fresh_flow lib (now - MaxFlowAge))
      (filter (\<lambda>l. l \<noteq> []) (map drop_cr (takeWhile (\<lambda>l. length l < 65536) ls)))"
proof -
  let ?ls = "scan_lines (log_text ls)"
  have "list_all (\<lambda>(l, env). \<not> le_ctx_done env \<and> le_cache_err env = None) (zip ?ls (map envs [0..<length ?ls]))"
    using assms(2) by (auto simp: list_all_iff dest!: set_zip_rightD)
  from parse_loop_flows [OF this, of lib "now - MaxFlowAge" sink] show ?thesis
    using scan_log_text [OF assms(1)]
    by (cases "log_text ls = []") (auto simp: parseLogs_def Let_def scan_lines.simps [of "[]"] map_filter_simps MaxScanTokenSize_def)
qed

section \<open>No gaps between the polls of a pod\<close>

text \<open>The successful requests for a pod, in order, and that each starts where the one before began.\<close>

definition fetched :: "string \<Rightarrow> vpccni_state \<Rightarrow> log_request list" where
  "fetched pod st = filter (\<lambda>r. lr_pod r = pod \<and> lr_ok r) (vc_requests st)"

fun chained :: "log_request list \<Rightarrow> bool" where
  "chained (r # s # rs) \<longleftrightarrow> lr_since s = lr_start r \<and> chained (s # rs)"
| "chained _ \<longleftrightarrow> True"

lemma chained_snoc: "chained (rs @ [r]) \<longleftrightarrow> chained rs \<and> (rs \<noteq> [] \<longrightarrow> lr_since r = lr_start (last rs))"
  by (induction rs rule: chained.induct) auto

lemma chained_covers:
  "chained rs \<Longrightarrow> rs \<noteq> [] \<Longrightarrow> lr_since (hd rs) \<le> t \<Longrightarrow> t \<le> lr_start (last rs) \<Longrightarrow>
   \<exists>r \<in> set rs. lr_since r \<le> t \<and> t \<le> lr_start r"
proof (induction rs rule: chained.induct)
  case (1 r s rs)
  then show ?case by (cases "t \<le> lr_start r") auto
qed auto

text \<open>The invariant of the client for a pod that stays listed.\<close>

definition poll_inv :: "string \<Rightarrow> vpccni_state \<Rightarrow> bool" where
  "poll_inv pod st \<longleftrightarrow> chained (fetched pod st)
     \<and> gm_get (vc_lastPollTime st) pod = (if fetched pod st = [] then None else Some (lr_start (last (fetched pod st))))"

lemma pollPod_inv: "poll_inv pod st \<Longrightarrow> poll_inv pod (snd (pollPod lib iv p env st))"
  by (auto simp: pollPod_def Let_def poll_inv_def fetched_def chained_snoc split: sum.splits)

lemma pods_loop_inv: "poll_inv pod st \<Longrightarrow> poll_inv pod (pods_loop lib iv pods st)"
  by (induction pods arbitrary: st) (simp_all add: pollPod_inv)

lemma filter_get: "P k \<Longrightarrow> gm_get (filter (\<lambda>(k, _). P k) m) k = gm_get m k"
  by (induction m) auto

lemma cleanup_inv: "pod \<in> set pods \<Longrightarrow> poll_inv pod st \<Longrightarrow> poll_inv pod (cleanupStalePods pods st)"
  using filter_get [of "\<lambda>p. p \<in> set pods" pod "vc_lastPollTime st"]
  by (simp add: poll_inv_def fetched_def cleanupStalePods_def)

definition listed_in :: "string \<Rightarrow> listed_pod list result \<Rightarrow> bool" where
  "listed_in pod listing \<longleftrightarrow> (case listing of Inl _ \<Rightarrow> True | Inr pods \<Rightarrow> pod \<in> lp_name ` set pods)"

lemma pollAllPods_inv: "listed_in pod listing \<Longrightarrow> poll_inv pod st \<Longrightarrow> poll_inv pod (snd (pollAllPods lib iv listing st))"
  by (auto simp: pollAllPods_def listed_in_def cleanup_inv pods_loop_inv split: sum.splits)

lemma ticks_loop_inv:
  "list_all (\<lambda>e. case e of None \<Rightarrow> True | Some l \<Rightarrow> listed_in pod l) es \<Longrightarrow> poll_inv pod st \<Longrightarrow>
   poll_inv pod (snd (ticks_loop lib iv es st))"
  by (induction lib iv es st rule: ticks_loop.induct) (simp_all add: pollAllPods_inv)

definition vpccni_initial :: vpccni_state where
  "vpccni_initial = \<lparr>vc_lastPollTime = [], vc_sink = \<lparr>sk_flows = [], sk_received = 0, sk_lines = []\<rparr>, vc_requests = []\<rparr>"


section \<open>A sample run\<close>

definition sample_pod :: "int \<Rightarrow> string result \<Rightarrow> listed_pod list result" where
  "sample_pod now logs = Inr [\<lparr>lp_name = ''aws-node-x'', lp_running = True,
     lp_env = \<lparr>pe_now = now, pe_start = now, pe_logs = (\<lambda>_. logs), pe_parse_now = now,
       pe_lines = (\<lambda>_. \<lparr>le_ctx_done = False, le_now = now, le_cache_err = None\<rparr>)\<rparr>\<rparr>]"

definition sample_ticks :: "listed_pod list result option list" where
  "sample_ticks = [Some (sample_pod 200 (Inl (ErrMsg ''timeout''))), Some (sample_pod 300 (Inr []))]"


theorem vpccni_logs_parsed_witness:
  "sk_flows (parseLogs sample_lib 0 (\<lambda>_. \<lparr>le_ctx_done = False, le_now = 0, le_cache_err = None\<rparr>)
      (log_text [replicate 65536 (CHR ''x''), ''line'']) \<lparr>sk_flows = [], sk_received = 0, sk_lines = []\<rparr>) = []"
  using vpccni_logs_parsed [of "[replicate 65536 (CHR ''x''), ''line'']" "\<lambda>_. \<lparr>le_ctx_done = False, le_now = 0, le_cache_err = None\<rparr>"
      sample_lib 0 "\<lparr>sk_flows = [], sk_received = 0, sk_lines = []\<rparr>"]
  by (simp add: NewLine_def map_filter_simps del: log_text_simps)

end
