(* ===== verification/Policy_Read_Back.thy ===== *)
theory Policy_Read_Back
  imports Convert_AWS
begin

text \<open>
  Applying a configured AWS cluster network policy and reading it back. The operator sends the policy's
  message as JSON (\<open>policy.go\<close>) and the watcher reads the stored object back through the structs of
  \<open>awsvpccni_types.go\<close>; the reconciler then compares the two. The JSON form of a message is what
  \<open>protojson\<close> documents: camel case names, unset fields and empty lists left out. It is stated here as
  \<open>policy_json\<close> over \<open>jsel\<close>, the form of a label selector.
\<close>

named_theorems reads \<open>what the decoders return on encoded messages\<close>

section \<open>The JSON form of a message\<close>

definition opt_field :: "string \<Rightarrow> ('a \<Rightarrow> json) \<Rightarrow> 'a option \<Rightarrow> json_obj" where
  "opt_field name enc v = (case v of None \<Rightarrow> [] | Some x \<Rightarrow> [(name, enc x)])"

definition str_field :: "string \<Rightarrow> string \<Rightarrow> json_obj" where
  "str_field name s = (if s = [] then [] else [(name, JStr s)])"

definition int_field :: "string \<Rightarrow> int \<Rightarrow> json_obj" where
  "int_field name i = (if i = 0 then [] else [(name, JNum i)])"

definition list_field :: "string \<Rightarrow> ('a \<Rightarrow> json) \<Rightarrow> 'a list \<Rightarrow> json_obj" where
  "list_field name enc xs = (if xs = [] then [] else [(name, JArr (map enc xs))])"

lemma get_fields [simp]:
  "gm_get (opt_field name enc v) k = (if k = name then map_option enc v else None)"
  "gm_get (str_field name s) k = (if k = name \<and> s \<noteq> [] then Some (JStr s) else None)"
  "gm_get (int_field name i) k = (if k = name \<and> i \<noteq> 0 then Some (JNum i) else None)"
  "gm_get (list_field name enc' xs) k = (if k = name \<and> xs \<noteq> [] then Some (JArr (map enc' xs)) else None)"
  by (auto simp: opt_field_def str_field_def int_field_def list_field_def split: option.splits)

definition pods_json :: "(pb_label_selector \<Rightarrow> json) \<Rightarrow> aws_pod_selector \<Rightarrow> json" where
  "pods_json jsel p =
     JObj (opt_field ''namespaceSelector'' jsel (aps_namespace_selector p) @ opt_field ''podSelector'' jsel (aps_pod_selector p))"

definition subject_json :: "(pb_label_selector \<Rightarrow> json) \<Rightarrow> aws_subject \<Rightarrow> json" where
  "subject_json jsel s =
     JObj (opt_field ''pods'' (pods_json jsel) (asu_pods s) @ opt_field ''namespaces'' jsel (asu_namespaces s))"

definition port_number_json :: "string \<times> int \<Rightarrow> json" where
  "port_number_json n = JObj (str_field ''protocol'' (fst n) @ int_field ''port'' (snd n))"

definition port_range_json :: "string \<times> int \<times> int \<Rightarrow> json" where
  "port_range_json r =
     JObj (str_field ''protocol'' (fst r) @ int_field ''start'' (fst (snd r)) @ int_field ''end'' (snd (snd r)))"

definition port_json :: "aws_policy_port \<Rightarrow> json" where
  "port_json p =
     JObj (opt_field ''portNumber'' port_number_json (app_port_number p) @ opt_field ''portRange'' port_range_json (app_port_range p)
       @ opt_field ''namedPort'' JStr (app_named_port p))"

definition ingress_peer_json :: "(pb_label_selector \<Rightarrow> json) \<Rightarrow> aws_ingress_peer \<Rightarrow> json" where
  "ingress_peer_json jsel p =
     JObj (opt_field ''pods'' (pods_json jsel) (aip_pods p) @ opt_field ''namespaces'' jsel (aip_namespaces p))"

definition egress_peer_json :: "(pb_label_selector \<Rightarrow> json) \<Rightarrow> aws_egress_peer \<Rightarrow> json" where
  "egress_peer_json jsel p =
     JObj (opt_field ''pods'' (pods_json jsel) (aep_pods p) @ opt_field ''namespaces'' jsel (aep_namespaces p)
       @ list_field ''networks'' JStr (aep_networks p) @ list_field ''domainNames'' JStr (aep_domain_names p))"

definition ingress_rule_json :: "(pb_label_selector \<Rightarrow> json) \<Rightarrow> aws_ingress_rule \<Rightarrow> json" where
  "ingress_rule_json jsel r =
     JObj (opt_field ''name'' JStr (air_name r) @ str_field ''action'' (air_action r)
       @ list_field ''ports'' port_json (air_ports r) @ list_field ''from'' (ingress_peer_json jsel) (air_from r))"

definition egress_rule_json :: "(pb_label_selector \<Rightarrow> json) \<Rightarrow> aws_egress_rule \<Rightarrow> json" where
  "egress_rule_json jsel r =
     JObj (opt_field ''name'' JStr (aer_name r) @ str_field ''action'' (aer_action r)
       @ list_field ''ports'' port_json (aer_ports r) @ list_field ''to'' (egress_peer_json jsel) (aer_to r))"

definition policy_json :: "(pb_label_selector \<Rightarrow> json) \<Rightarrow> aws_cluster_policy \<Rightarrow> json_obj" where
  "policy_json jsel p =
     opt_field ''priority'' JNum (acp_priority p) @ str_field ''tier'' (acp_tier p)
       @ opt_field ''subject'' (subject_json jsel) (acp_subject p)
       @ list_field ''ingress'' (ingress_rule_json jsel) (acp_ingress p)
       @ list_field ''egress'' (egress_rule_json jsel) (acp_egress p)"

section \<open>The policies that survive the round trip\<close>

text \<open>
  The fields the resource definition requires: a priority, a subject, both selectors of a pod selector, and
  rule names that are left out rather than empty; ports and the priority are 32-bit integers.
\<close>

definition int32_ok :: "int \<Rightarrow> bool" where
  "int32_ok i \<longleftrightarrow> - (2 ^ 31) \<le> i \<and> i < 2 ^ 31"

definition pods_normal :: "aws_pod_selector \<Rightarrow> bool" where
  "pods_normal p \<longleftrightarrow> aps_namespace_selector p \<noteq> None \<and> aps_pod_selector p \<noteq> None"

definition port_normal :: "aws_policy_port \<Rightarrow> bool" where
  "port_normal p \<longleftrightarrow> pred_option (\<lambda>n. int32_ok (snd n)) (app_port_number p)
     \<and> pred_option (\<lambda>r. int32_ok (fst (snd r)) \<and> int32_ok (snd (snd r))) (app_port_range p)"

definition policy_normal :: "aws_cluster_policy \<Rightarrow> bool" where
  "policy_normal p \<longleftrightarrow>
     (\<exists>i. acp_priority p = Some i \<and> int32_ok i) \<and> (\<exists>s. acp_subject p = Some s \<and> pred_option pods_normal (asu_pods s))
     \<and> list_all (\<lambda>r. air_name r \<noteq> Some [] \<and> list_all port_normal (air_ports r)
          \<and> list_all (\<lambda>q. pred_option pods_normal (aip_pods q)) (air_from r)) (acp_ingress p)
     \<and> list_all (\<lambda>r. aer_name r \<noteq> Some [] \<and> list_all port_normal (aer_ports r)
          \<and> list_all (\<lambda>q. pred_option pods_normal (aep_pods q)) (aer_to r)) (acp_egress p)"

section \<open>The structs a message is read into\<close>

definition k8s_selector :: "pb_label_selector \<Rightarrow> label_selector" where
  "k8s_selector s = \<lparr>sel_MatchLabels = ls_match_labels s,
     sel_MatchExpressions = map (\<lambda>r. \<lparr>sr_Key = lsr_key r, sr_Operator = lsr_operator r, sr_Values = lsr_values r\<rparr>) (ls_match_expressions s)\<rparr>"

lemma requirement_eta [simp]:
  "\<lparr>lsr_key = lsr_key r, lsr_operator = lsr_operator r, lsr_values = lsr_values r\<rparr> = (r :: label_selector_requirement)"
  by (cases r) simp

lemma selector_of_k8s [simp]: "selector_of (k8s_selector s) = s"
  by (cases s) (simp add: selector_of_def k8s_selector_def convertLabelSelectorRequirementsToProto_def comp_def)

definition pods_struct :: "aws_pod_selector \<Rightarrow> awsNamespacedPod" where
  "pods_struct p =
     \<lparr>anp_NamespaceSelector = (case aps_namespace_selector p of None \<Rightarrow> empty_selector | Some s \<Rightarrow> k8s_selector s),
      anp_PodSelector = (case aps_pod_selector p of None \<Rightarrow> empty_selector | Some s \<Rightarrow> k8s_selector s)\<rparr>"

definition port_struct :: "aws_policy_port \<Rightarrow> awsPort" where
  "port_struct p =
     \<lparr>awp_PortNumber = map_option (\<lambda>n. \<lparr>awn_Protocol = fst n, awn_Port = snd n\<rparr>) (app_port_number p),
      awp_PortRange = map_option (\<lambda>r. \<lparr>awg_Protocol = fst r, awg_Start = fst (snd r), awg_End = snd (snd r)\<rparr>) (app_port_range p),
      awp_NamedPort = app_named_port p\<rparr>"

definition ports_struct :: "aws_policy_port list \<Rightarrow> awsPort list option" where
  "ports_struct ps = (if ps = [] then None else Some (map port_struct ps))"

definition ingress_peer_struct :: "aws_ingress_peer \<Rightarrow> awsIngressPeer" where
  "ingress_peer_struct p =
     \<lparr>awi_Namespaces = map_option k8s_selector (aip_namespaces p), awi_Pods = map_option pods_struct (aip_pods p)\<rparr>"

definition egress_peer_struct :: "aws_egress_peer \<Rightarrow> awsEgressPeer" where
  "egress_peer_struct p =
     \<lparr>awe_Namespaces = map_option k8s_selector (aep_namespaces p), awe_Pods = map_option pods_struct (aep_pods p),
      awe_Networks = aep_networks p, awe_DomainNames = aep_domain_names p\<rparr>"

definition ingress_rule_struct :: "aws_ingress_rule \<Rightarrow> awsIngressRule" where
  "ingress_rule_struct r =
     \<lparr>ari_Name = str_get (air_name r), ari_Action = air_action r, ari_From = map ingress_peer_struct (air_from r),
      ari_Ports = ports_struct (air_ports r)\<rparr>"

definition egress_rule_struct :: "aws_egress_rule \<Rightarrow> awsEgressRule" where
  "egress_rule_struct r =
     \<lparr>are_Name = str_get (aer_name r), are_Action = aer_action r, are_To = map egress_peer_struct (aer_to r),
      are_Ports = ports_struct (aer_ports r)\<rparr>"

definition subject_struct :: "aws_subject option \<Rightarrow> awsSubject" where
  "subject_struct s = (case s of None \<Rightarrow> \<lparr>asj_Namespaces = None, asj_Pods = None\<rparr>
     | Some x \<Rightarrow> \<lparr>asj_Namespaces = map_option k8s_selector (asu_namespaces x), asj_Pods = map_option pods_struct (asu_pods x)\<rparr>)"

definition policy_struct :: "aws_cluster_policy \<Rightarrow> awsClusterNetworkPolicySpec" where
  "policy_struct p =
     \<lparr>acs_Priority = (case acp_priority p of None \<Rightarrow> 0 | Some i \<Rightarrow> i), acs_Tier = acp_tier p,
      acs_Subject = subject_struct (acp_subject p), acs_Ingress = map ingress_rule_struct (acp_ingress p),
      acs_Egress = map egress_rule_struct (acp_egress p)\<rparr>"

section \<open>Decoding reads the struct\<close>

lemma dec_items_map: "(\<And>x. x \<in> set xs \<Longrightarrow> d (enc x) = Inr (f x)) \<Longrightarrow> dec_items d (map enc xs) = Inr (map f xs)"
  by (induction xs) auto

text \<open>
  The contract between the two sides: the decoder of label selectors reads what \<open>protojson\<close> writes for one.
\<close>

locale selector_codec =
  fixes jsel :: "pb_label_selector \<Rightarrow> json"
    and dsel :: "json \<Rightarrow> label_selector result"
  assumes jsel_object: "\<exists>m. jsel s = JObj m"
    and dsel_jsel: "dsel (jsel s) = Inr (k8s_selector s)"
begin

lemma dec_ptr_sel [reads]: "dec_ptr dsel (jsel s) = Inr (Some (k8s_selector s))"
  using jsel_object [of s] dsel_jsel [of s] by auto

lemmas field_defs = dec_field_def map_add_def

lemma dec_pods [reads]: "dec_struct (dec_NamespacedPod dsel) (pods_json jsel p) = Inr (pods_struct p)"
  by (simp add: pods_json_def dec_NamespacedPod_def pods_struct_def field_defs dsel_jsel split: option.split)

lemma dec_ptr_pods [reads]: "dec_ptr (dec_struct (dec_NamespacedPod dsel)) (pods_json jsel p) = Inr (Some (pods_struct p))"
  using dec_pods [of p] by (simp add: pods_json_def)

lemma dec_port_number [reads]:
  "int32_ok (snd n) \<Longrightarrow> dec_ptr (dec_struct dec_PortNumber) (port_number_json n) = Inr (Some \<lparr>awn_Protocol = fst n, awn_Port = snd n\<rparr>)"
  by (auto simp: port_number_json_def dec_PortNumber_def field_defs int32_ok_def)

lemma dec_port_range [reads]:
  "int32_ok (fst (snd r)) \<Longrightarrow> int32_ok (snd (snd r)) \<Longrightarrow>
   dec_ptr (dec_struct dec_PortRange) (port_range_json r)
     = Inr (Some \<lparr>awg_Protocol = fst r, awg_Start = fst (snd r), awg_End = snd (snd r)\<rparr>)"
  by (auto simp: port_range_json_def dec_PortRange_def field_defs int32_ok_def)

lemma dec_port [reads]: "port_normal p \<Longrightarrow> dec_struct dec_Port (port_json p) = Inr (port_struct p)"
  by (cases "app_port_number p"; cases "app_port_range p"; cases "app_named_port p")
     (simp_all add: port_json_def dec_Port_def port_struct_def field_defs port_normal_def reads)

lemma dec_ports [reads]:
  "list_all port_normal ps \<Longrightarrow> dec_list (dec_struct dec_Port) (JArr (map port_json ps)) = Inr (map port_struct ps)"
  by (simp add: list_all_iff dec_items_map reads)

lemma dec_ingress_peer [reads]: "dec_struct (dec_IngressPeer dsel) (ingress_peer_json jsel p) = Inr (ingress_peer_struct p)"
  by (cases "aip_pods p"; cases "aip_namespaces p")
     (simp_all add: ingress_peer_json_def dec_IngressPeer_def ingress_peer_struct_def field_defs reads)

lemma dec_strings: "dec_items dec_string (map JStr xs) = Inr xs"
  using dec_items_map [of xs dec_string JStr "\<lambda>x. x"] by simp

lemma dec_egress_peer [reads]: "dec_struct (dec_EgressPeer dsel) (egress_peer_json jsel p) = Inr (egress_peer_struct p)"
  by (cases "aep_pods p"; cases "aep_namespaces p")
     (simp_all add: egress_peer_json_def dec_EgressPeer_def egress_peer_struct_def field_defs dec_strings reads)

lemma dec_ingress_rule [reads]:
  "list_all port_normal (air_ports r) \<Longrightarrow> dec_struct (dec_IngressRule dsel) (ingress_rule_json jsel r) = Inr (ingress_rule_struct r)"
  by (cases "air_name r"; cases "air_ports r = []")
     (simp_all add: ingress_rule_json_def dec_IngressRule_def ingress_rule_struct_def ports_struct_def field_defs dec_items_map reads
       list_all_iff)

lemma dec_egress_rule [reads]:
  "list_all port_normal (aer_ports r) \<Longrightarrow> dec_struct (dec_EgressRule dsel) (egress_rule_json jsel r) = Inr (egress_rule_struct r)"
  by (cases "aer_name r"; cases "aer_ports r = []")
     (simp_all add: egress_rule_json_def dec_EgressRule_def egress_rule_struct_def ports_struct_def field_defs dec_items_map reads
       list_all_iff)

lemma dec_subject [reads]: "dec_struct (dec_Subject dsel) (subject_json jsel s) = Inr (subject_struct (Some s))"
  by (cases "asu_pods s"; cases "asu_namespaces s")
     (simp_all add: subject_json_def dec_Subject_def subject_struct_def field_defs reads)

lemma dec_policy:
  assumes "policy_normal p"
  shows "dec_ClusterNetworkPolicySpec dsel (policy_json jsel p) = Inr (policy_struct p)"
proof -
  obtain i s where ps: "acp_priority p = Some i" "int32_ok i" "acp_subject p = Some s"
    using assms by (auto simp: policy_normal_def)
  have rules: "dec_items (dec_struct (dec_IngressRule dsel)) (map (ingress_rule_json jsel) (acp_ingress p)) = Inr (map ingress_rule_struct (acp_ingress p))"
    "dec_items (dec_struct (dec_EgressRule dsel)) (map (egress_rule_json jsel) (acp_egress p)) = Inr (map egress_rule_struct (acp_egress p))"
    using assms by (intro dec_items_map dec_ingress_rule dec_egress_rule; auto simp: policy_normal_def list_all_iff)+
  show ?thesis
    using ps(2) by (simp add: policy_json_def dec_ClusterNetworkPolicySpec_def policy_struct_def field_defs ps(1,3) rules reads int32_ok_def)
qed

end

section \<open>Converting the struct gives the message back\<close>

lemma convert_pods_struct: "pred_option pods_normal p \<Longrightarrow> convertAWSNamespacedPod (map_option pods_struct p) = p"
  by (cases p) (auto simp: convertAWSNamespacedPod_def pods_struct_def pods_normal_def)

lemma convert_sel_struct [simp]: "convertLabelSelectorToProto (map_option k8s_selector s) = s"
  by (cases s) simp_all

lemma convert_ports_struct [simp]: "convertAWSPorts (ports_struct ps) = ps"
  by (auto simp: convertAWSPorts_def ports_struct_def port_struct_def option.map_comp comp_def option.map_ident intro!: map_idI)

lemma convert_ingress_rule:
  "air_name r \<noteq> Some [] \<Longrightarrow> list_all (\<lambda>q. pred_option pods_normal (aip_pods q)) (air_from r) \<Longrightarrow>
   convertAWSIngressRules [ingress_rule_struct r] = [r]"
  by (cases r) (auto simp: convertAWSIngressRules_def ingress_rule_struct_def convertAWSIngressPeers_def ingress_peer_struct_def
      convert_pods_struct list_all_iff str_get_def split: option.splits intro!: map_idI)

lemma convert_egress_rule:
  "aer_name r \<noteq> Some [] \<Longrightarrow> list_all (\<lambda>q. pred_option pods_normal (aep_pods q)) (aer_to r) \<Longrightarrow>
   convertAWSEgressRules [egress_rule_struct r] = [r]"
  by (cases r) (auto simp: convertAWSEgressRules_def egress_rule_struct_def convertAWSEgressPeers_def egress_peer_struct_def
      convert_pods_struct list_all_iff str_get_def split: option.splits intro!: map_idI)

lemma convert_rules:
  assumes "conv [] = []" and "\<And>x xs. conv (x # xs) = conv [x] @ conv xs" and "\<And>r. r \<in> set rs \<Longrightarrow> conv [f r] = [r]"
  shows "conv (map f rs) = rs"
  using assms(3)
proof (induction rs)
  case (Cons r rs)
  then show ?case using assms(2) [of "f r" "map f rs"] by simp
qed (simp add: assms(1))

lemma convert_policy_struct:
  assumes "policy_normal p"
  shows "convertAWSClusterNetworkPolicy (policy_struct p) = p"
proof -
  obtain i s where ps: "acp_priority p = Some i" "acp_subject p = Some s" "pred_option pods_normal (asu_pods s)"
    using assms by (auto simp: policy_normal_def)
  have "convertAWSIngressRules (map ingress_rule_struct (acp_ingress p)) = acp_ingress p"
  proof (rule convert_rules [where conv = convertAWSIngressRules and f = ingress_rule_struct])
    fix r
    assume "r \<in> set (acp_ingress p)"
    then show "convertAWSIngressRules [ingress_rule_struct r] = [r]"
      using assms by (intro convert_ingress_rule) (auto simp: policy_normal_def list_all_iff)
  qed (simp_all add: convertAWSIngressRules_def)
  moreover have "convertAWSEgressRules (map egress_rule_struct (acp_egress p)) = acp_egress p"
  proof (rule convert_rules [where conv = convertAWSEgressRules and f = egress_rule_struct])
    fix r
    assume "r \<in> set (acp_egress p)"
    then show "convertAWSEgressRules [egress_rule_struct r] = [r]"
      using assms by (intro convert_egress_rule) (auto simp: policy_normal_def list_all_iff)
  qed (simp_all add: convertAWSEgressRules_def)
  moreover have "convertAWSSubject (subject_struct (Some s)) = s"
    using convert_pods_struct [OF ps(3)] convert_sel_struct [of "asu_namespaces s"]
    by (cases s) (auto simp: convertAWSSubject_def subject_struct_def split: option.splits)
  ultimately show ?thesis
    using ps by (cases p) (simp add: convertAWSClusterNetworkPolicy_def policy_struct_def)
qed

section \<open>The documented form of a label selector\<close>

definition strmap_json :: "strmap \<Rightarrow> json_obj" where
  "strmap_json m = map (\<lambda>k. (k, JStr (the (fmlookup m k)))) (sorted_list_of_fset (fmdom m))"

definition requirement_json :: "label_selector_requirement \<Rightarrow> json" where
  "requirement_json r = JObj (str_field ''key'' (lsr_key r) @ str_field ''operator'' (lsr_operator r) @ list_field ''values'' JStr (lsr_values r))"

definition selector_json :: "pb_label_selector \<Rightarrow> json" where
  "selector_json s =
     JObj ((if ls_match_labels s = fmempty then [] else [(''matchLabels'', JObj (strmap_json (ls_match_labels s)))])
       @ list_field ''matchExpressions'' requirement_json (ls_match_expressions s))"

fun dec_strmap :: "json \<Rightarrow> strmap result" where
  "dec_strmap (JObj kvs) = map_sum id (\<lambda>vs. fmap_of_list (zip (map fst kvs) vs)) (dec_items dec_string (map snd kvs))"
| "dec_strmap JNull = Inr fmempty"
| "dec_strmap _ = Inl type_error"

definition dec_Requirement :: "json_obj \<Rightarrow> selector_requirement result" where
  "dec_Requirement m =
     result_bind (dec_field [] dec_string ''key'' m) (\<lambda>key.
     result_bind (dec_field [] dec_string ''operator'' m) (\<lambda>op.
     result_bind (dec_field [] (dec_list dec_string) ''values'' m) (\<lambda>vals.
     Inr \<lparr>sr_Key = key, sr_Operator = op, sr_Values = vals\<rparr>)))"

definition dec_LabelSelector :: "json_obj \<Rightarrow> label_selector result" where
  "dec_LabelSelector m =
     result_bind (dec_field fmempty dec_strmap ''matchLabels'' m) (\<lambda>labels.
     result_bind (dec_field [] (dec_list (dec_struct dec_Requirement)) ''matchExpressions'' m) (\<lambda>exprs.
     Inr \<lparr>sel_MatchLabels = labels, sel_MatchExpressions = exprs\<rparr>))"

lemma fmap_of_entries: "fmap_of_list (map (\<lambda>k. (k, the (fmlookup m k))) (sorted_list_of_fset (fmdom m))) = (m :: strmap)"
  by (rule fmap_ext) (auto simp: fmlookup_of_list map_of_map_restrict restrict_map_def sorted_list_of_fset_simps fmlookup_dom_iff)

lemma dec_strmap_json: "dec_strmap (JObj (strmap_json m)) = Inr m"
proof -
  let ?ks = "sorted_list_of_fset (fmdom m)"
  have "dec_items dec_string (map (\<lambda>k. JStr (the (fmlookup m k))) ?ks) = Inr (map (\<lambda>k. the (fmlookup m k)) ?ks)"
    by (rule dec_items_map) simp
  then show ?thesis
    by (simp add: strmap_json_def comp_def zip_map2 zip_same_conv_map fmap_of_entries)
qed

lemma dec_requirement_json:
  "dec_struct dec_Requirement (requirement_json r) = Inr \<lparr>sr_Key = lsr_key r, sr_Operator = lsr_operator r, sr_Values = lsr_values r\<rparr>"
  using dec_items_map [of "lsr_values r" dec_string JStr "\<lambda>x. x"]
  by (auto simp: requirement_json_def dec_Requirement_def dec_field_def map_add_def)

interpretation documented: selector_codec selector_json "dec_struct dec_LabelSelector"
proof
  show "\<exists>m. selector_json s = JObj m" for s by (simp add: selector_json_def)
  have "dec_items (dec_struct dec_Requirement) (map requirement_json rs)
      = Inr (map (\<lambda>r. \<lparr>sr_Key = lsr_key r, sr_Operator = lsr_operator r, sr_Values = lsr_values r\<rparr>) rs)" for rs
    by (rule dec_items_map) (rule dec_requirement_json)
  then show "dec_struct dec_LabelSelector (selector_json s) = Inr (k8s_selector s)" for s
    by (simp add: selector_json_def dec_LabelSelector_def k8s_selector_def dec_field_def map_add_def dec_strmap_json del: dec_strmap.simps)
qed

section \<open>Applied policies are read back unchanged\<close>

text \<open>
  What the API server promises of an applied object it stores: the spec is the one sent, and so are the
  kind, name and namespace; labels and annotations too, when no one else sets any.
\<close>

definition json_strmap :: "json option \<Rightarrow> strmap" where
  "json_strmap j = (case j of Some (JStrMap m) \<Rightarrow> m | _ \<Rightarrow> fmempty)"

definition stored_as :: "json_obj \<Rightarrow> unstructured \<Rightarrow> bool" where
  "stored_as obj u \<longleftrightarrow>
     gm_get (un_object u) ''spec'' = gm_get obj ''spec'' \<and> gm_get (un_object u) ''specs'' = gm_get obj ''specs'' \<and>
     gm_get obj ''kind'' = Some (JStr (un_kind u)) \<and>
     (case gm_get obj ''metadata'' of
        Some (JObj md) \<Rightarrow> gm_get md ''name'' = Some (JStr (un_name u)) \<and>
          gm_get md ''namespace'' = map_option JStr (str_opt (un_namespace u)) \<and>
          map_content (un_labels u) = json_strmap (gm_get md ''labels'') \<and>
          map_content (un_annotations u) = json_strmap (gm_get md ''annotations'')
      | _ \<Rightarrow> False)"

lemma json_strmap_option [simp]: "json_strmap (map_option JStrMap m) = map_content m"
  by (cases m) (simp_all add: json_strmap_def map_content_def)

lemma stored_metadata:
  assumes "stored_as obj u" and "ConvertToApplyObject lib (Some d) grp ver = Inr (obj, rn)"
  shows "un_name u = co_name d" and "un_namespace u = str_get (co_namespace d)"
    and "map_content (un_labels u) = map_content (co_labels d)"
    and "map_content (un_annotations u) = map_content (co_annotations d)"
    and "ExtractKind d = Inr (un_kind u)"
  using assms(1) ConvertToApplyObject_get(1,3) [OF assms(2)]
  by (auto simp: stored_as_def apply_metadata_get str_opt_def split: sum.splits if_splits)

lemma apply_spec:
  assumes "protoToMap lib (MsgAWSClusterNetworkPolicy p) = Inr m" and "co_kind_specific d = Some (CksAwsClusterNetworkPolicy p)"
    and "ConvertToApplyObject lib (Some d) grp ver = Inr (obj, rn)"
  shows "gm_get obj ''spec'' = Some (JObj m)"
  using assms by (auto simp: ConvertToApplyObject_def marshalConfiguredObjectSpecs_def marshalSpec_def specField_def)

text \<open>
  C14: the reconciler reaches a fixed point on AWS cluster network policies: when
  a configured policy with the fields its resource definition requires has been applied, and the API
  server stores the spec, name, labels and annotations it was sent, then the converter reads the stored object
  back into an object equal to the configured one, so the comparison of the two caches finds no
  difference.
\<close>

theorem applied_policy_reads_back:
  assumes proto: "protoToMap lib (MsgAWSClusterNetworkPolicy p) = Inr (policy_json jsel p)"
    and sel: "\<And>s. \<exists>m. jsel s = JObj m" "\<And>s. al_LabelSelector al (jsel s) = Inr (k8s_selector s)"
    and cfg: "co_kind_specific d = Some (CksAwsClusterNetworkPolicy p)" "policy_normal p" "co_namespace d = None"
    and sent: "ConvertToApplyObject lib (Some d) awsVPCCNIAPIGroup ver = Inr (obj, rn)"
    and stored: "stored_as obj u" "un_group u = awsVPCCNIAPIGroup" "al_MarshalJSON al u = Inr (un_object u)"
  shows "\<exists>md c. NewAWSResourceConverter al u = Inr md \<and> BuildConfiguredFromMetadata md = Inr c \<and> proto_equal d c"
proof -
  have "selector_codec jsel (al_LabelSelector al)" using sel by (simp add: selector_codec_def)
  from selector_codec.dec_policy [OF this cfg(2)]
  have dec: "dec_ClusterNetworkPolicySpec (al_LabelSelector al) (policy_json jsel p) = Inr (policy_struct p)" .
  note meta = stored_metadata [OF stored(1) sent]
  have kind: "un_kind u = ''ClusterNetworkPolicy''"
    using meta(5) cfg(1) by (simp add: ExtractKind_def)
  have "gm_get (un_object u) ''spec'' = Some (JObj (policy_json jsel p))"
    using stored(1) apply_spec [OF proto cfg(1) sent] by (simp add: stored_as_def)
  then have "NewAWSResourceConverter al u = Inr ((crd_metadata u)\<lparr>od_kind_specific := Some (KsAwsClusterNetworkPolicy p)\<rparr>)"
    using dec convert_policy_struct [OF cfg(2)]
    by (simp add: NewAWSResourceConverter_def ConvertUnstructuredToAWSResource_def stored kind dec_ClusterNetworkPolicy_def)
  then show ?thesis
    using meta cfg by (simp add: BuildConfiguredFromMetadata_def proto_equal_def crd_metadata_def)
qed

definition sample_cluster_policy :: aws_cluster_policy where
  "sample_cluster_policy = \<lparr>acp_priority = Some 0, acp_tier = ''Admin'',
     acp_subject = Some \<lparr>asu_pods = None, asu_namespaces = Some \<lparr>ls_match_labels = fmempty, ls_match_expressions = []\<rparr>\<rparr>,
     acp_ingress = [\<lparr>air_name = None, air_action = ''Deny'', air_ports = [\<lparr>app_port_number = Some (''TCP'', 22), app_port_range = None, app_named_port = None\<rparr>],
                     air_from = []\<rparr>],
     acp_egress = []\<rparr>"

definition sample_cluster_object :: configured_object where
  "sample_cluster_object = \<lparr>co_annotations = None, co_labels = None, co_name = ''deny-ssh'', co_namespace = None,
     co_kind_specific = Some (CksAwsClusterNetworkPolicy sample_cluster_policy)\<rparr>"

definition sample_aws_lib :: aws_lib where
  "sample_aws_lib = \<lparr>al_MarshalJSON = (\<lambda>u. Inr (un_object u)), al_LabelSelector = dec_struct dec_LabelSelector,
     al_ApplicationNetworkPolicy = (\<lambda>_. Inl type_error)\<rparr>"

definition sample_json_lib :: json_lib where
  "sample_json_lib = \<lparr>jl_marshal = (\<lambda>_. Inr []), jl_unmarshal = (\<lambda>_. Inr (policy_json selector_json sample_cluster_policy))\<rparr>"

definition sample_stored :: unstructured where
  "sample_stored = (bare_object ''ClusterNetworkPolicy'' [] ''deny-ssh'')
     \<lparr>un_group := awsVPCCNIAPIGroup, un_object := [(''spec'', JObj (policy_json selector_json sample_cluster_policy))]\<rparr>"

theorem applied_policy_reads_back_witness:
  "\<exists>md c. NewAWSResourceConverter sample_aws_lib sample_stored = Inr md \<and> BuildConfiguredFromMetadata md = Inr c
     \<and> proto_equal sample_cluster_object c"
proof -
  have proto: "protoToMap sample_json_lib (MsgAWSClusterNetworkPolicy sample_cluster_policy)
      = Inr (policy_json selector_json sample_cluster_policy)"
    by (simp add: protoToMap_def sample_json_lib_def)
  have cfg: "co_kind_specific sample_cluster_object = Some (CksAwsClusterNetworkPolicy sample_cluster_policy)"
    "policy_normal sample_cluster_policy" "co_namespace sample_cluster_object = None"
    by (simp_all add: sample_cluster_object_def sample_cluster_policy_def policy_normal_def int32_ok_def port_normal_def)
  obtain obj rn where sent: "ConvertToApplyObject sample_json_lib (Some sample_cluster_object) awsVPCCNIAPIGroup ''v1alpha1'' = Inr (obj, rn)"
    using proto by (simp add: ConvertToApplyObject_def marshalConfiguredObjectSpecs_def marshalSpec_def cfg(1))
  have "gm_get obj ''specs'' = None"
    using sent proto by (auto simp: ConvertToApplyObject_def marshalConfiguredObjectSpecs_def marshalSpec_def cfg(1) specField_def)
  then have "stored_as obj sample_stored"
    using ConvertToApplyObject_get [OF sent] apply_spec [OF proto cfg(1) sent]
    by (simp add: stored_as_def sample_stored_def ExtractKind_def cfg(1) apply_metadata_get)
       (simp add: sample_cluster_object_def map_content_def)
  moreover have "un_group sample_stored = awsVPCCNIAPIGroup" "al_MarshalJSON sample_aws_lib sample_stored = Inr (un_object sample_stored)"
    by (simp_all add: sample_stored_def sample_aws_lib_def)
  moreover have "al_LabelSelector sample_aws_lib (selector_json s) = Inr (k8s_selector s)" for s
    using documented.dsel_jsel by (simp add: sample_aws_lib_def)
  ultimately show ?thesis
    using applied_policy_reads_back [OF proto documented.jsel_object _ cfg sent] by blast
qed

end
