(* ===== verification/Flow_Detect.thy ===== *)
theory Flow_Detect
  imports Collector_Cilium VPCCNI_Client Stats Policy_Read_Back
begin

text \<open>
  \<open>stream/flows/detect.go\<close> with the availability checks of \<open>collector\<close> and the flow logging policy of
  \<open>stream/flows/awsvpccni/cluster_network_policy.go\<close>: which collector the operator uses in a cluster, and what
  it does to the cluster when it chooses one. The Kubernetes clients are fields of \<open>detect_lib\<close>.
\<close>

section \<open>The cluster\<close>

text \<open>A pod is its name and the names of its containers.\<close>

record detect_lib =
  dl_hubble :: hubble_lib
  dl_GetNamespace :: "string \<Rightarrow> go_error option"
  dl_ListPods :: "string \<Rightarrow> string \<Rightarrow> (string \<times> string list) list result"
  dl_ListNodes :: "string \<Rightarrow> string list result"
  dl_ServerResources :: "string \<Rightarrow> go_error option"
  dl_Create :: "json_obj \<Rightarrow> go_error option"
  dl_IsAlreadyExists :: "go_error \<Rightarrow> bool"

record CollectorConfig =
  cg_CiliumNamespaces :: "string list"
  cg_TlsAuthProps :: "AuthProperties option"
  cg_OVNKNamespace :: string
  cg_AWSVPCCNIPollingInterval :: int
  cg_AutoModePollInterval :: int

section \<open>Availability\<close>

definition IsOVNKDeployed :: "detect_lib \<Rightarrow> string \<Rightarrow> bool" where
  "IsOVNKDeployed lib ovnkNamespace = (dl_GetNamespace lib ovnkNamespace = None)"

definition AWSNodeLabel :: string where "AWSNodeLabel = ''k8s-app=aws-node''"
definition AWSNodeNamespace :: string where "AWSNodeNamespace = ''kube-system''"
definition AWSEksNodeagentContainer :: string where "AWSEksNodeagentContainer = ''aws-eks-nodeagent''"

definition hasNodeagentContainer :: "string \<times> string list \<Rightarrow> bool" where
  "hasNodeagentContainer pod = list_ex (\<lambda>container. container = AWSEksNodeagentContainer) (snd pod)"

definition IsAWSVPCCNIAvailable :: "detect_lib \<Rightarrow> bool" where
  "IsAWSVPCCNIAvailable lib =
     (case dl_ListPods lib AWSNodeNamespace AWSNodeLabel of
        Inl _ \<Rightarrow> False
      | Inr pods \<Rightarrow> if pods = [] then False else list_ex hasNodeagentContainer pods)"

definition IsEKSAutoModeAvailable :: "detect_lib \<Rightarrow> bool" where
  "IsEKSAutoModeAvailable lib =
     (case dl_ListNodes lib ''eks.amazonaws.com/compute-type=auto'' of
        Inl _ \<Rightarrow> False
      | Inr nodes \<Rightarrow> nodes \<noteq> [])"

section \<open>The flow logging policy\<close>

definition ClusterNetworkPolicyAPIVersion :: string where
  "ClusterNetworkPolicyAPIVersion = ''networking.k8s.aws/v1alpha1''"

definition ClusterNetworkPolicyName :: string where
  "ClusterNetworkPolicyName = ''illumio-cloud-operator-flow-logging''"

definition all_namespaces :: json where
  "all_namespaces = JObj [(''namespaces'', JObj [(''matchLabels'', JObj [])])]"

definition flow_logging_policy :: json_obj where
  "flow_logging_policy =
     [(''apiVersion'', JStr ClusterNetworkPolicyAPIVersion),
      (''kind'', JStr ''ClusterNetworkPolicy''),
      (''metadata'', JObj
         [(''name'', JStr ClusterNetworkPolicyName),
          (''labels'', JObj [(''app.kubernetes.io/managed-by'', JStr ''illumio-cloud-operator''),
                             (''app.kubernetes.io/component'', JStr ''flow-logging'')])]),
      (''spec'', JObj
         [(''tier'', JStr ''Baseline''),
          (''priority'', JNum 1000),
          (''subject'', all_namespaces),
          (''ingress'', JArr [JObj [(''action'', JStr ''Pass''), (''from'', JArr [all_namespaces])]]),
          (''egress'', JArr [JObj [(''action'', JStr ''Pass''), (''to'', JArr [all_namespaces])]])])]"

definition IsCRDAvailable :: "detect_lib \<Rightarrow> bool" where
  "IsCRDAvailable lib = (dl_ServerResources lib ClusterNetworkPolicyAPIVersion = None)"

text \<open>The object it asks the API server to create comes with the result.\<close>

definition EnsureFlowLoggingPolicy :: "detect_lib \<Rightarrow> unit result \<times> json_obj list" where
  "EnsureFlowLoggingPolicy lib =
     (case dl_Create lib flow_logging_policy of
        Some err \<Rightarrow> (if dl_IsAlreadyExists lib err then Inr () else Inl err, [flow_logging_policy])
      | None \<Rightarrow> (Inr (), [flow_logging_policy]))"

section \<open>Detection\<close>

datatype FlowCollector = FLOW_COLLECTOR_CILIUM | FLOW_COLLECTOR_OVNK | FLOW_COLLECTOR_AWS_VPC_CNI | FLOW_COLLECTOR_DISABLED

text \<open>A factory, by what its collector is built from: the TLS properties, or the effective polling interval.\<close>

datatype collector_factory =
    CiliumFactory AuthProperties
  | OVNKFactory
  | VPCCNIFactory int
  | AutoModeFactory int

definition PollingInterval :: "collector_factory \<Rightarrow> int" where
  "PollingInterval f = (case f of VPCCNIFactory i \<Rightarrow> i | AutoModeFactory i \<Rightarrow> i | _ \<Rightarrow> 0)"

definition AutoMode_EffectivePollInterval :: "int \<Rightarrow> int" where
  "AutoMode_EffectivePollInterval pollInterval = (if pollInterval \<le> 0 then 10 * 1000000000 else pollInterval)"

text \<open>The result: type, name and factory, the objects created, and the counters.\<close>

definition DetectFlowCollector ::
  "detect_lib \<Rightarrow> CollectorConfig \<Rightarrow> stats
    \<Rightarrow> (FlowCollector \<times> string \<times> collector_factory option) \<times> json_obj list \<times> stats" where
  "DetectFlowCollector lib config st =
     (let tlsAuthProps = (case cg_TlsAuthProps config of None \<Rightarrow> \<lparr>DisableALPN = False, DisableTLS = False\<rparr> | Some p \<Rightarrow> p) in
      if IsCiliumAvailable (dl_hubble lib) (cg_CiliumNamespaces config) tlsAuthProps
      then ((FLOW_COLLECTOR_CILIUM, ''Cilium'', Some (CiliumFactory tlsAuthProps)), [], st)
      else if IsOVNKDeployed lib (cg_OVNKNamespace config)
      then ((FLOW_COLLECTOR_OVNK, ''OVN-K'', Some OVNKFactory), [], st)
      else if IsAWSVPCCNIAvailable lib
      then let created = (if IsCRDAvailable lib then snd (EnsureFlowLoggingPolicy lib) else [])
           in ((FLOW_COLLECTOR_AWS_VPC_CNI, ''AWS-VPC-CNI'',
                Some (VPCCNIFactory (EffectivePollInterval (cg_AWSVPCCNIPollingInterval config)))), created, st)
      else if IsEKSAutoModeAvailable lib
      then ((FLOW_COLLECTOR_AWS_VPC_CNI, ''EKS-Auto-Mode'',
             Some (AutoModeFactory (AutoMode_EffectivePollInterval (cg_AutoModePollInterval config)))), [], SetAutoModeActive st)
      else ((FLOW_COLLECTOR_DISABLED, ''None'', None), [], st))"

definition collector_stream_name :: "string \<Rightarrow> string" where
  "collector_stream_name collectorName = (if collectorName \<noteq> [] then ''FlowCollector-'' @ collectorName else ''FlowCollector'')"

section \<open>What detection does to the cluster\<close>

text \<open>The policy as the AWS converter reads it.\<close>

definition every_namespace :: label_selector where
  "every_namespace = \<lparr>sel_MatchLabels = fmempty, sel_MatchExpressions = []\<rparr>"

lemma dec_all_namespaces:
  "dec_struct dec_LabelSelector (JObj [(''matchLabels'', JObj [])]) = Inr every_namespace"
  by (simp add: dec_LabelSelector_def dec_field_def every_namespace_def)

lemma flow_logging_policy_spec:
  "dec_ClusterNetworkPolicy (dec_struct dec_LabelSelector) flow_logging_policy = Inr
     \<lparr>acs_Priority = 1000, acs_Tier = ''Baseline'',
      acs_Subject = \<lparr>asj_Namespaces = Some every_namespace, asj_Pods = None\<rparr>,
      acs_Ingress = [\<lparr>ari_Name = [], ari_Action = ''Pass'', ari_From = [\<lparr>awi_Namespaces = Some every_namespace, awi_Pods = None\<rparr>], ari_Ports = None\<rparr>],
      acs_Egress = [\<lparr>are_Name = [], are_Action = ''Pass'',
        are_To = [\<lparr>awe_Namespaces = Some every_namespace, awe_Pods = None, awe_Networks = [], awe_DomainNames = []\<rparr>], are_Ports = None\<rparr>]\<rparr>"
  using dec_all_namespaces
  by (simp add: dec_ClusterNetworkPolicy_def flow_logging_policy_def dec_ClusterNetworkPolicySpec_def dec_Subject_def dec_IngressRule_def
      dec_EgressRule_def dec_IngressPeer_def dec_EgressPeer_def all_namespaces_def dec_field_def)

text \<open>
  C33: choosing a collector uses the first that is available, in the order Cilium,
  OVN-Kubernetes, AWS VPC CNI, EKS Auto Mode, and none otherwise; it changes the cluster in one case
  only, AWS VPC CNI with the policy resource served, and then by at most one object, a
  ClusterNetworkPolicy that, read by the operator's own converter, selects every namespace and whose
  rules all pass: it allows and denies nothing.
\<close>

theorem detection_leaves_traffic_alone:
  "(case DetectFlowCollector lib config st of ((ty, name, factory), created, st') \<Rightarrow>
      (ty, name) = (case find fst
          [(IsCiliumAvailable (dl_hubble lib) (cg_CiliumNamespaces config)
              (case cg_TlsAuthProps config of None \<Rightarrow> \<lparr>DisableALPN = False, DisableTLS = False\<rparr> | Some p \<Rightarrow> p), FLOW_COLLECTOR_CILIUM, ''Cilium''),
           (IsOVNKDeployed lib (cg_OVNKNamespace config), FLOW_COLLECTOR_OVNK, ''OVN-K''),
           (IsAWSVPCCNIAvailable lib, FLOW_COLLECTOR_AWS_VPC_CNI, ''AWS-VPC-CNI''),
           (IsEKSAutoModeAvailable lib, FLOW_COLLECTOR_AWS_VPC_CNI, ''EKS-Auto-Mode'')] of
         Some x \<Rightarrow> snd x | None \<Rightarrow> (FLOW_COLLECTOR_DISABLED, ''None''))
      \<and> (factory = None \<longleftrightarrow> ty = FLOW_COLLECTOR_DISABLED)
      \<and> created = (if name = ''AWS-VPC-CNI'' \<and> IsCRDAvailable lib then [flow_logging_policy] else []))
   \<and> (\<exists>spec. dec_ClusterNetworkPolicy (dec_struct dec_LabelSelector) flow_logging_policy = Inr spec
        \<and> (let p = convertAWSClusterNetworkPolicy spec
           in list_all (\<lambda>r. air_action r = ''Pass'') (acp_ingress p) \<and> list_all (\<lambda>r. aer_action r = ''Pass'') (acp_egress p)
              \<and> (\<exists>s sel. acp_subject p = Some s \<and> asu_namespaces s = Some sel \<and> (\<forall>labels. pb_selector_matches sel labels))))"
proof (intro conjI, goal_cases)
  case 1
  show ?case
    by (simp add: DetectFlowCollector_def EnsureFlowLoggingPolicy_def Let_def split: option.split)
next
  case 2
  have "All (pb_selector_matches (selector_of every_namespace))"
    by (rule allI) (simp add: empty_selector_matches every_namespace_def)
  then show ?case
    by (simp add: flow_logging_policy_spec convertAWSClusterNetworkPolicy_def convertAWSIngressRules_def convertAWSEgressRules_def
        convertAWSSubject_def)
qed

end
