(* ===== verification/Node_Proxy.thy ===== *)
theory Node_Proxy
  imports Auto_Mode Flow_Detect
begin

text \<open>
  The requests of \<open>stream/flows/awsautomode/fetcher.go\<close> as they go out: the HTTP client taken from the REST client, the
  URL of the node proxy, the Range header, and the factory that puts the fetcher into a collector. The REST client is the
  argument \<open>rc\<close>: its URL builder, whether it exposes an HTTP client, the check of a URL, and the answer to a request with its
  headers. The lemmas show that a server that treats Range as HTTP prescribes gives the collector the kubelet its
  theorems rely on.
\<close>

section \<open>Requests\<close>

record 'w rest_client =
  rc_http :: bool
  rc_url :: "string \<Rightarrow> string list \<Rightarrow> string"
  rc_bad_url :: "string \<Rightarrow> go_error option"
  rc_do :: "string \<Rightarrow> (string \<times> string) list \<Rightarrow> 'w \<Rightarrow> http_response result \<times> 'w"
  rc_raw :: "string \<Rightarrow> 'w \<Rightarrow> string result \<times> 'w"
  rc_gunzip :: "body \<Rightarrow> body result"

definition errNoHTTPClient :: go_error where
  "errNoHTTPClient = ErrMsg ''REST client does not expose an *http.Client for streaming''"

definition httpClient :: "'w rest_client \<Rightarrow> (string \<Rightarrow> (string \<times> string) list \<Rightarrow> 'w \<Rightarrow> http_response result \<times> 'w) result" where
  "httpClient rc = (if \<not> rc_http rc then Inl errNoHTTPClient else Inr (rc_do rc))"

definition requestURL :: "'w rest_client \<Rightarrow> string \<Rightarrow> string list \<Rightarrow> string" where
  "requestURL rc nodeName segments = rc_url rc nodeName segments"

definition range_header :: "nat \<Rightarrow> (string \<times> string) list" where
  "range_header rangeStart =
     (if rangeStart > 0 then [(''Range'', ''bytes='' @ string_of_nat rangeStart @ ''-'')] else [])"

definition rawGet :: "'w rest_client \<Rightarrow> string \<Rightarrow> string list \<Rightarrow> nat \<Rightarrow> 'w \<Rightarrow> http_response result \<times> 'w" where
  "rawGet rc nodeName segments rangeStart w =
     (case httpClient rc of
        Inl err \<Rightarrow> (Inl err, w)
      | Inr client \<Rightarrow>
          let url = requestURL rc nodeName segments
          in case rc_bad_url rc url of
               Some err \<Rightarrow> (Inl err, w)
             | None \<Rightarrow> client url (range_header rangeStart) w)"

text \<open>The fetcher: ranged requests go through \<open>rawGet\<close>, the directory page through the REST client itself.\<close>

definition restLogFetcher :: "'w rest_client \<Rightarrow> 'w kubelet" where
  "restLogFetcher rc =
     \<lparr>kl_get = rawGet rc, kl_raw = (\<lambda>node segs. rc_raw rc (rc_url rc node segs)), kl_gunzip = rc_gunzip rc\<rparr>"

section \<open>The factory\<close>

definition DefaultMaxConcurrentNodePolls :: int where
  "DefaultMaxConcurrentNodePolls = 10"

record 'w autoModeClient =
  am_fetcher :: "'w kubelet"
  am_logPath :: string
  am_pollInterval :: int
  am_maxConcurrentPolls :: int
  am_checkpoints :: checkpoint_store

definition AutoMode_NewCollector :: "'w rest_client \<Rightarrow> string \<Rightarrow> int \<Rightarrow> int \<Rightarrow> 'w autoModeClient" where
  "AutoMode_NewCollector rc logPath pollInterval maxConcurrentNodePolls =
     \<lparr>am_fetcher = restLogFetcher rc, am_logPath = logPath, am_pollInterval = AutoMode_EffectivePollInterval pollInterval,
      am_maxConcurrentPolls = (if maxConcurrentNodePolls \<le> 0 then DefaultMaxConcurrentNodePolls else maxConcurrentNodePolls),
      am_checkpoints = []\<rparr>"

text \<open>The ticker's period and the semaphore's capacity are positive whatever was configured.\<close>

lemma AutoMode_NewCollector_positive:
  "am_pollInterval (AutoMode_NewCollector rc p i n) > 0" "am_maxConcurrentPolls (AutoMode_NewCollector rc p i n) > 0"
  by (simp_all add: AutoMode_NewCollector_def AutoMode_EffectivePollInterval_def DefaultMaxConcurrentNodePolls_def)

section \<open>A server that understands Range\<close>

text \<open>The start a \<open>bytes=<start>-\<close> header asks for.\<close>

definition parse_range :: "string \<Rightarrow> nat option" where
  "parse_range h =
     (let ds = takeWhile is_digit (drop 6 h)
      in if take 6 h = ''bytes='' \<and> ds \<noteq> [] \<and> drop (length ds) (drop 6 h) = ''-'' then Some (digits_val ds) else None)"

lemma parse_range_header: "parse_range (''bytes='' @ string_of_nat n @ ''-'') = Some n"
proof -
  have d: "list_all is_digit (string_of_nat n)" "string_of_nat n \<noteq> []" "digits_val (string_of_nat n) = n"
    using string_of_nat_digits [of n] by auto
  have "takeWhile is_digit (string_of_nat n @ ''-'') = string_of_nat n"
    using d(1) by (auto simp: list_all_iff takeWhile_append is_digit_def)
  then show ?thesis using d by (simp add: parse_range_def Let_def)
qed

text \<open>
  A GET of the bytes \<open>F\<close>: the server may ignore Range and send everything, or honour a start within the file and say so in
  Content-Range.
\<close>

definition http_serves :: "string \<Rightarrow> (string \<times> string) list \<Rightarrow> http_response \<Rightarrow> bool" where
  "http_serves F hdrs r \<longleftrightarrow>
     hr_status r = 200 \<and> hr_body r = (F, IoEOF) \<or>
     (\<exists>h start. map_of hdrs ''Range'' = Some h \<and> parse_range h = Some start \<and> start < length F \<and> hr_status r = 206 \<and>
        hr_content_range r = content_range start (length F) \<and> hr_body r = (drop start F, IoEOF))"

definition node_server :: "'w rest_client \<Rightarrow> string \<Rightarrow> string \<Rightarrow> ('w \<Rightarrow> node_log) \<Rightarrow> bool" where
  "node_server rc logPath node log_of \<longleftrightarrow> rc_http rc \<and> (\<forall>url. rc_bad_url rc url = None) \<and>
     (\<forall>w. \<exists>raw w'. rc_raw rc (rc_url rc node (dirSegments logPath)) w = (Inr raw, w') \<and> log_of w' = log_of w
        \<and> rf_ID ` set (list_rotations raw (activeBaseName logPath)) = fst ` set (nl_rotated (log_of w))
        \<and> (\<forall>f \<in> set (list_rotations raw (activeBaseName logPath)). \<forall>v. log_of v = log_of w \<longrightarrow>
             (\<exists>c stored r v'. gm_get (nl_rotated (log_of w)) (rf_ID f) = Some c
                \<and> (if rf_Compressed f then rc_gunzip rc (stored, IoEOF) = Inr (c, IoEOF) else stored = c)
                \<and> rc_do rc (rc_url rc node (dirSegments logPath @ [rf_Filename f])) [] v = (Inr r, v')
                \<and> log_of v' = log_of w \<and> http_serves stored [] r)))
     \<and> (\<forall>w hdrs. \<exists>r w'. rc_do rc (rc_url rc node (activeSegments logPath)) hdrs w = (Inr r, w') \<and> log_of w' = log_of w
          \<and> http_serves (nl_active (log_of w)) hdrs r)"

lemma rawGet_serves:
  assumes "rc_http rc" and "\<forall>url. rc_bad_url rc url = None"
  shows "rawGet rc node segs start w = rc_do rc (rc_url rc node segs) (range_header start) w"
  using assms by (simp add: rawGet_def httpClient_def requestURL_def)

lemma http_serves_plain: "http_serves F [] r \<Longrightarrow> hr_status r = 200 \<and> hr_body r = (F, IoEOF)"
  by (simp add: http_serves_def)

lemma http_serves_active: "http_serves F (range_header start) r \<Longrightarrow> active_answer F start r"
  using parse_range_header [of start]
  by (auto simp: http_serves_def active_answer_def range_header_def split: if_splits)

text \<open>
  The fetcher on such a server is the kubelet the polling theorems assume: the header it writes is the range the server reads,
  and an unranged request gets the file.
\<close>

theorem node_proxy_contract:
  assumes "node_server rc logPath node log_of"
  shows "kubelet_contract (restLogFetcher rc) logPath node log_of"
  unfolding kubelet_contract_def
proof (intro conjI allI)
  have http: "rc_http rc" "\<forall>url. rc_bad_url rc url = None" using assms by (simp_all add: node_server_def)
  note get = rawGet_serves [OF http]
  fix w
  obtain raw w' where raw: "rc_raw rc (rc_url rc node (dirSegments logPath)) w = (Inr raw, w')" "log_of w' = log_of w"
      "rf_ID ` set (list_rotations raw (activeBaseName logPath)) = fst ` set (nl_rotated (log_of w))"
    and files: "\<forall>f \<in> set (list_rotations raw (activeBaseName logPath)). \<forall>v. log_of v = log_of w \<longrightarrow>
        (\<exists>c stored r v'. gm_get (nl_rotated (log_of w)) (rf_ID f) = Some c
           \<and> (if rf_Compressed f then rc_gunzip rc (stored, IoEOF) = Inr (c, IoEOF) else stored = c)
           \<and> rc_do rc (rc_url rc node (dirSegments logPath @ [rf_Filename f])) [] v = (Inr r, v')
           \<and> log_of v' = log_of w \<and> http_serves stored [] r)"
    using assms [unfolded node_server_def, THEN conjunct2, THEN conjunct2, THEN conjunct1, THEN spec, of w]
    by (elim exE conjE) (rule that)
  have "\<exists>r v'. rawGet rc node (dirSegments logPath @ [rf_Filename f]) 0 v = (Inr r, v') \<and> log_of v' = log_of w
      \<and> rotated_answer (restLogFetcher rc) (log_of w) f r"
    if f: "f \<in> set (list_rotations raw (activeBaseName logPath))" and v: "log_of v = log_of w" for f v
  proof -
    obtain c stored r v' where a: "gm_get (nl_rotated (log_of w)) (rf_ID f) = Some c"
        "if rf_Compressed f then rc_gunzip rc (stored, IoEOF) = Inr (c, IoEOF) else stored = c"
        "rc_do rc (rc_url rc node (dirSegments logPath @ [rf_Filename f])) [] v = (Inr r, v')"
        "log_of v' = log_of w" "http_serves stored [] r"
      using files [THEN bspec, OF f, THEN spec, THEN mp, OF v] by (elim exE conjE) (rule that)
    have "rawGet rc node (dirSegments logPath @ [rf_Filename f]) 0 v = (Inr r, v')"
      using a(3) by (simp add: get range_header_def)
    moreover have "rotated_answer (restLogFetcher rc) (log_of w) f r"
      using a(1,2) http_serves_plain [OF a(5)] by (auto simp: rotated_answer_def restLogFetcher_def split: if_splits)
    ultimately show ?thesis using a(4) by blast
  qed
  with raw show "\<exists>raw w'. kl_raw (restLogFetcher rc) node (dirSegments logPath) w = (Inr raw, w') \<and> log_of w' = log_of w
      \<and> rf_ID ` set (list_rotations raw (activeBaseName logPath)) = fst ` set (nl_rotated (log_of w))
      \<and> (\<forall>f \<in> set (list_rotations raw (activeBaseName logPath)). \<forall>v. log_of v = log_of w \<longrightarrow>
           (\<exists>r v'. kl_get (restLogFetcher rc) node (dirSegments logPath @ [rf_Filename f]) 0 v = (Inr r, v')
              \<and> log_of v' = log_of w \<and> rotated_answer (restLogFetcher rc) (log_of w) f r))"
    by (auto simp: restLogFetcher_def)
  show "\<exists>r w'. kl_get (restLogFetcher rc) node (activeSegments logPath) start w = (Inr r, w') \<and> log_of w' = log_of w
      \<and> active_answer (nl_active (log_of w)) start r" for start
  proof -
    obtain r w' where "rc_do rc (rc_url rc node (activeSegments logPath)) (range_header start) w = (Inr r, w')"
        "log_of w' = log_of w" "http_serves (nl_active (log_of w)) (range_header start) r"
      using assms [unfolded node_server_def, THEN conjunct2, THEN conjunct2, THEN conjunct2, THEN spec, THEN spec, of "range_header start" w]
      by (elim exE conjE) (rule that)
    then show ?thesis using http_serves_active by (auto simp: restLogFetcher_def get)
  qed
qed

text \<open>Such a server exists: one that ignores Range and serves one file.\<close>

definition plain_rest :: "string \<Rightarrow> unit rest_client" where
  "plain_rest F =
     \<lparr>rc_http = True, rc_url = (\<lambda>node segs. concat segs), rc_bad_url = (\<lambda>_. None),
      rc_do = (\<lambda>url hdrs w. (Inr \<lparr>hr_status = 200, hr_content_range = [], hr_body = (F, IoEOF)\<rparr>, w)),
      rc_raw = (\<lambda>url w. (Inr [], w)), rc_gunzip = Inr\<rparr>"

lemma plain_rest_serves: "node_server (plain_rest F) logPath node (\<lambda>_. \<lparr>nl_rotated = [], nl_active = F\<rparr>)"
proof -
  have "hrefs [] = []" by (subst hrefs.simps) simp
  then have "list_rotations [] base = []" for base by (simp add: list_rotations_def map_filter_simps)
  then show ?thesis by (simp add: node_server_def plain_rest_def http_serves_def)
qed

text \<open>Without an HTTP client, or with a URL that does not parse, nothing goes out and the poll reports the error.\<close>

lemma rawGet_refused:
  "\<not> rc_http rc \<Longrightarrow> rawGet rc node segs start w = (Inl errNoHTTPClient, w)"
  "rc_http rc \<Longrightarrow> rc_bad_url rc (rc_url rc node segs) = Some e \<Longrightarrow> rawGet rc node segs start w = (Inl e, w)"
  by (simp_all add: rawGet_def httpClient_def requestURL_def)

end
