(* ===== verification/Convert_Policy.thy ===== *)
theory Convert_Policy
  imports Convert_Shared Go_Strings
begin

text \<open>
  \<open>internal/convert/k8s_resources.go\<close>, network policies: the conversion of a NetworkPolicy into the
  message sent upstream. What a NetworkPolicy allows is given a meaning, as the Kubernetes API documents
  it, and so is what the message says; the conversion keeps that meaning.
\<close>

section \<open>Definitions\<close>

definition convertProtocolToProto :: "string option \<Rightarrow> port_protocol" where
  "convertProtocolToProto protocol =
     (case protocol of
        None \<Rightarrow> PROTOCOL_TCP_UNSPECIFIED
      | Some p \<Rightarrow>
          if p = ''TCP'' then PROTOCOL_TCP_UNSPECIFIED
          else if p = ''UDP'' then PROTOCOL_UDP
          else if p = ''SCTP'' then PROTOCOL_SCTP
          else PROTOCOL_TCP_UNSPECIFIED)"

definition convertEndPortToProto :: "int option \<Rightarrow> int option" where
  "convertEndPortToProto endPort = endPort"

definition convertNetworkPolicyPortToProto :: "np_port list \<Rightarrow> pb_port list" where
  "convertNetworkPolicyPortToProto ports =
     map (\<lambda>port. \<lparr>ppt_protocol = convertProtocolToProto (npp_Protocol port),
                  ppt_port = map_option intstr_String (npp_Port port),
                  ppt_end_port = convertEndPortToProto (npp_EndPort port)\<rparr>) ports"

definition convertNetworkPolicyPeerToProto :: "np_peer list \<Rightarrow> pb_peer list" where
  "convertNetworkPolicyPeerToProto peers =
     map (\<lambda>peer. case npe_IPBlock peer of
             Some b \<Rightarrow> PeerIpBlock (convertIPBlockToProto (Some b))
           | None \<Rightarrow> PeerPods (convertLabelSelectorToProto (npe_NamespaceSelector peer))
                              (convertLabelSelectorToProto (npe_PodSelector peer))) peers"

definition convertNetworkPolicyIngressRuleToProto :: "np_ingress_rule list \<Rightarrow> pb_network_policy_rule list" where
  "convertNetworkPolicyIngressRuleToProto ingressRules =
     map (\<lambda>rule. \<lparr>pnr_peers = convertNetworkPolicyPeerToProto (nin_From rule),
                  pnr_ports = convertNetworkPolicyPortToProto (nin_Ports rule)\<rparr>) ingressRules"

definition convertNetworkPolicyEgressRuleToProto :: "np_egress_rule list \<Rightarrow> pb_network_policy_rule list" where
  "convertNetworkPolicyEgressRuleToProto egressRules =
     map (\<lambda>rule. \<lparr>pnr_peers = convertNetworkPolicyPeerToProto (neg_To rule),
                  pnr_ports = convertNetworkPolicyPortToProto (neg_Ports rule)\<rparr>) egressRules"

text \<open>The loop over the policy types.\<close>

fun policy_types_loop :: "string list \<Rightarrow> bool \<times> bool \<Rightarrow> bool \<times> bool" where
  "policy_types_loop [] enabled = enabled"
| "policy_types_loop (t # ts) (ingress, egress) =
     policy_types_loop ts (if t = ''Ingress'' then (True, egress) else if t = ''Egress'' then (ingress, True) else (ingress, egress))"

definition convertNetworkPolicyToProto :: "network_policy option \<Rightarrow> network_policy_data result" where
  "convertNetworkPolicyToProto networkPolicy =
     (case networkPolicy of
        None \<Rightarrow> Inl (ErrMsg ''networkPolicy is nil'')
      | Some p \<Rightarrow>
          let (ingressEnabled, egressEnabled) = policy_types_loop (nps_PolicyTypes p) (False, False)
          in Inr \<lparr>npd_ingress = ingressEnabled, npd_egress = egressEnabled,
                  npd_pod_selector =
                    (if sel_MatchLabels (nps_PodSelector p) \<noteq> fmempty \<or> sel_MatchExpressions (nps_PodSelector p) \<noteq> []
                     then convertLabelSelectorToProto (Some (nps_PodSelector p)) else None),
                  npd_ingress_rules =
                    (if nps_Ingress p \<noteq> [] then convertNetworkPolicyIngressRuleToProto (nps_Ingress p) else []),
                  npd_egress_rules =
                    (if nps_Egress p \<noteq> [] then convertNetworkPolicyEgressRuleToProto (nps_Egress p) else [])\<rparr>)"

text \<open>\<open>getContentsOfNetworkPolicy\<close>: \<open>get\<close> is the typed client's \<open>Get\<close>.\<close>

definition getContentsOfNetworkPolicy ::
  "(string \<Rightarrow> string \<Rightarrow> network_policy option result) \<Rightarrow> string \<Rightarrow> string \<Rightarrow> network_policy_data result" where
  "getContentsOfNetworkPolicy get_policy name namespace =
     (case get_policy namespace name of
        Inl e \<Rightarrow> Inl e
      | Inr networkPolicy \<Rightarrow> convertNetworkPolicyToProto networkPolicy)"

section \<open>What a policy allows\<close>

text \<open>
  A connection attempt between a pod the policy may select and a peer: the labels of that pod, of the
  peer (when it is a pod) and of the peer's namespace, which CIDRs contain the peer's address, and
  the destination's protocol, port number and the names the destination pod gives that port.
\<close>

record connection =
  cn_subject :: strmap
  cn_peer :: "strmap option"
  cn_peer_namespace :: strmap
  cn_same_namespace :: bool
  cn_in_cidr :: "string \<Rightarrow> bool"
  cn_protocol :: string
  cn_port :: nat
  cn_port_names :: "string list"

datatype direction = Ingress_dir | Egress_dir

definition block_matches :: "connection \<Rightarrow> string \<Rightarrow> string list \<Rightarrow> bool" where
  "block_matches c cidr exc \<longleftrightarrow> cn_in_cidr c cidr \<and> \<not> list_ex (cn_in_cidr c) exc"

definition np_peer_matches :: "connection \<Rightarrow> np_peer \<Rightarrow> bool" where
  "np_peer_matches c p =
     (case npe_IPBlock p of
        Some b \<Rightarrow> block_matches c (ib_CIDR b) (ib_Except b)
      | None \<Rightarrow>
          (case cn_peer c of
             None \<Rightarrow> False
           | Some labels \<Rightarrow>
               (case npe_NamespaceSelector p of None \<Rightarrow> cn_same_namespace c | Some s \<Rightarrow> selector_matches s (cn_peer_namespace c)) \<and>
               (case npe_PodSelector p of None \<Rightarrow> True | Some s \<Rightarrow> selector_matches s labels)))"

definition np_port_matches :: "connection \<Rightarrow> np_port \<Rightarrow> bool" where
  "np_port_matches c q \<longleftrightarrow>
     (case npp_Protocol q of None \<Rightarrow> ''TCP'' | Some p \<Rightarrow> p) = cn_protocol c \<and>
     (case npp_Port q of
        None \<Rightarrow> True
      | Some (IntVal i) \<Rightarrow>
          (case npp_EndPort q of None \<Rightarrow> int (cn_port c) = i | Some e \<Rightarrow> i \<le> int (cn_port c) \<and> int (cn_port c) \<le> e)
      | Some (StrVal s) \<Rightarrow> s \<in> set (cn_port_names c))"

text \<open>A rule without peers or without ports matches every peer or port.\<close>

definition rule_matches :: "('p \<Rightarrow> bool) \<Rightarrow> ('q \<Rightarrow> bool) \<Rightarrow> 'p list \<Rightarrow> 'q list \<Rightarrow> bool" where
  "rule_matches peer_ok port_ok peers ports \<longleftrightarrow> (peers = [] \<or> list_ex peer_ok peers) \<and> (ports = [] \<or> list_ex port_ok ports)"

text \<open>No verdict when the policy does not select the pod or does not restrict the direction.\<close>

fun np_verdict :: "direction \<Rightarrow> connection \<Rightarrow> network_policy \<Rightarrow> bool option" where
  "np_verdict Ingress_dir c p =
     (if selector_matches (nps_PodSelector p) (cn_subject c) \<and> ''Ingress'' \<in> set (nps_PolicyTypes p)
      then Some (list_ex (\<lambda>r. rule_matches (np_peer_matches c) (np_port_matches c) (nin_From r) (nin_Ports r)) (nps_Ingress p))
      else None)"
| "np_verdict Egress_dir c p =
     (if selector_matches (nps_PodSelector p) (cn_subject c) \<and> ''Egress'' \<in> set (nps_PolicyTypes p)
      then Some (list_ex (\<lambda>r. rule_matches (np_peer_matches c) (np_port_matches c) (neg_To r) (neg_Ports r)) (nps_Egress p))
      else None)"

text \<open>The message, read the same way: a port that is all digits is a number, any other a name.\<close>

fun protocol_name :: "port_protocol \<Rightarrow> string" where
  "protocol_name PROTOCOL_TCP_UNSPECIFIED = ''TCP''"
| "protocol_name PROTOCOL_UDP = ''UDP''"
| "protocol_name PROTOCOL_SCTP = ''SCTP''"

definition numeric :: "string \<Rightarrow> bool" where
  "numeric s \<longleftrightarrow> s \<noteq> [] \<and> list_all is_digit s"

fun pb_peer_matches :: "connection \<Rightarrow> pb_peer \<Rightarrow> bool" where
  "pb_peer_matches c (PeerIpBlock b) = (case b of None \<Rightarrow> False | Some x \<Rightarrow> block_matches c (pib_cidr x) (pib_except x))"
| "pb_peer_matches c (PeerPods ns pods) =
     (case cn_peer c of
        None \<Rightarrow> False
      | Some labels \<Rightarrow>
          (case ns of None \<Rightarrow> cn_same_namespace c | Some s \<Rightarrow> pb_selector_matches s (cn_peer_namespace c)) \<and>
          (case pods of None \<Rightarrow> True | Some s \<Rightarrow> pb_selector_matches s labels))"

definition pb_port_matches :: "connection \<Rightarrow> pb_port \<Rightarrow> bool" where
  "pb_port_matches c q \<longleftrightarrow>
     protocol_name (ppt_protocol q) = cn_protocol c \<and>
     (case ppt_port q of
        None \<Rightarrow> True
      | Some s \<Rightarrow>
          if numeric s
          then (case ppt_end_port q of
                  None \<Rightarrow> cn_port c = digits_val s
                | Some e \<Rightarrow> digits_val s \<le> cn_port c \<and> int (cn_port c) \<le> e)
          else s \<in> set (cn_port_names c))"

fun pb_verdict :: "direction \<Rightarrow> connection \<Rightarrow> network_policy_data \<Rightarrow> bool option" where
  "pb_verdict dir c d =
     (if (case npd_pod_selector d of None \<Rightarrow> True | Some s \<Rightarrow> pb_selector_matches s (cn_subject c)) \<and>
         (case dir of Ingress_dir \<Rightarrow> npd_ingress d | Egress_dir \<Rightarrow> npd_egress d)
      then Some (list_ex (\<lambda>r. rule_matches (pb_peer_matches c) (pb_port_matches c) (pnr_peers r) (pnr_ports r))
                   (case dir of Ingress_dir \<Rightarrow> npd_ingress_rules d | Egress_dir \<Rightarrow> npd_egress_rules d))
      else None)"

text \<open>
  What the API server's validation guarantees of a stored policy: known protocols, port numbers that
  are not negative, and port names with a character that is no digit.
\<close>

definition valid_port :: "np_port \<Rightarrow> bool" where
  "valid_port q \<longleftrightarrow>
     (case npp_Protocol q of None \<Rightarrow> True | Some p \<Rightarrow> p \<in> {''TCP'', ''UDP'', ''SCTP''}) \<and>
     (case npp_Port q of None \<Rightarrow> True | Some (IntVal i) \<Rightarrow> 0 \<le> i | Some (StrVal s) \<Rightarrow> \<not> numeric s)"

definition valid_policy :: "network_policy \<Rightarrow> bool" where
  "valid_policy p \<longleftrightarrow>
     list_all (\<lambda>r. list_all valid_port (nin_Ports r)) (nps_Ingress p) \<and>
     list_all (\<lambda>r. list_all valid_port (neg_Ports r)) (nps_Egress p)"

section \<open>The conversion keeps the meaning\<close>

lemma policy_types_loop_eq:
  "policy_types_loop ts (i, e) = (i \<or> ''Ingress'' \<in> set ts, e \<or> ''Egress'' \<in> set ts)"
  by (induction ts arbitrary: i e) auto

lemma convert_peer_matches:
  "list_ex (pb_peer_matches c) (convertNetworkPolicyPeerToProto ps) = list_ex (np_peer_matches c) ps"
  by (induction ps)
     (auto simp: convertNetworkPolicyPeerToProto_def np_peer_matches_def convertIPBlockToProto_def split: option.splits)

lemma numeric_string_of_int: "0 \<le> i \<Longrightarrow> numeric (string_of_int i) \<and> digits_val (string_of_int i) = nat i"
  using string_of_nat_digits [of "nat i"] by (simp add: numeric_def string_of_int_def)

lemma convert_port_matches:
  assumes "list_all valid_port qs"
  shows "list_ex (pb_port_matches c) (convertNetworkPolicyPortToProto qs) = list_ex (np_port_matches c) qs"
  using assms
proof (induction qs)
  case (Cons q qs)
  have proto: "protocol_name (convertProtocolToProto (npp_Protocol q)) = (case npp_Protocol q of None \<Rightarrow> ''TCP'' | Some p \<Rightarrow> p)"
    using Cons.prems by (auto simp: valid_port_def convertProtocolToProto_def split: option.splits)
  have "pb_port_matches c (hd (convertNetworkPolicyPortToProto [q])) = np_port_matches c q"
  proof (cases "npp_Port q")
    case None
    then show ?thesis by (simp add: pb_port_matches_def np_port_matches_def convertNetworkPolicyPortToProto_def proto)
  next
    case (Some v)
    then show ?thesis
      using Cons.prems numeric_string_of_int
      by (cases v) (auto simp: pb_port_matches_def np_port_matches_def convertNetworkPolicyPortToProto_def proto valid_port_def
          convertEndPortToProto_def split: option.splits)
  qed
  then show ?case using Cons by (simp add: convertNetworkPolicyPortToProto_def)
qed (simp add: convertNetworkPolicyPortToProto_def)

lemma convert_empty [simp]:
  "convertNetworkPolicyPeerToProto ps = [] \<longleftrightarrow> ps = []" "convertNetworkPolicyPortToProto qs = [] \<longleftrightarrow> qs = []"
  by (simp_all add: convertNetworkPolicyPeerToProto_def convertNetworkPolicyPortToProto_def)

lemma convert_rule_matches:
  assumes "list_all valid_port qs"
  shows "rule_matches (pb_peer_matches c) (pb_port_matches c) (convertNetworkPolicyPeerToProto ps) (convertNetworkPolicyPortToProto qs)
    = rule_matches (np_peer_matches c) (np_port_matches c) ps qs"
  by (simp add: rule_matches_def convert_peer_matches convert_port_matches [OF assms])

lemma convert_ingress_rules:
  "list_all (\<lambda>r. list_all valid_port (nin_Ports r)) rs \<Longrightarrow>
   list_ex (\<lambda>r. rule_matches (pb_peer_matches c) (pb_port_matches c) (pnr_peers r) (pnr_ports r)) (convertNetworkPolicyIngressRuleToProto rs)
   = list_ex (\<lambda>r. rule_matches (np_peer_matches c) (np_port_matches c) (nin_From r) (nin_Ports r)) rs"
  by (induction rs) (simp_all add: convertNetworkPolicyIngressRuleToProto_def convert_rule_matches)

lemma convert_egress_rules:
  "list_all (\<lambda>r. list_all valid_port (neg_Ports r)) rs \<Longrightarrow>
   list_ex (\<lambda>r. rule_matches (pb_peer_matches c) (pb_port_matches c) (pnr_peers r) (pnr_ports r)) (convertNetworkPolicyEgressRuleToProto rs)
   = list_ex (\<lambda>r. rule_matches (np_peer_matches c) (np_port_matches c) (neg_To r) (neg_Ports r)) rs"
  by (induction rs) (simp_all add: convertNetworkPolicyEgressRuleToProto_def convert_rule_matches)

lemma convert_pod_selector:
  "(case (if sel_MatchLabels s \<noteq> fmempty \<or> sel_MatchExpressions s \<noteq> [] then convertLabelSelectorToProto (Some s) else None) of
      None \<Rightarrow> True | Some s' \<Rightarrow> pb_selector_matches s' labels) = selector_matches s labels"
  using empty_selector_matches [of s labels] by auto

definition converted_policy :: "network_policy \<Rightarrow> network_policy_data" where
  "converted_policy p =
     \<lparr>npd_ingress = (''Ingress'' \<in> set (nps_PolicyTypes p)), npd_egress = (''Egress'' \<in> set (nps_PolicyTypes p)),
      npd_pod_selector =
        (if sel_MatchLabels (nps_PodSelector p) \<noteq> fmempty \<or> sel_MatchExpressions (nps_PodSelector p) \<noteq> []
         then convertLabelSelectorToProto (Some (nps_PodSelector p)) else None),
      npd_ingress_rules = convertNetworkPolicyIngressRuleToProto (nps_Ingress p),
      npd_egress_rules = convertNetworkPolicyEgressRuleToProto (nps_Egress p)\<rparr>"

lemma convertNetworkPolicy_eq: "convertNetworkPolicyToProto (Some p) = Inr (converted_policy p)"
  by (simp add: convertNetworkPolicyToProto_def converted_policy_def policy_types_loop_eq
      convertNetworkPolicyIngressRuleToProto_def convertNetworkPolicyEgressRuleToProto_def)

text \<open>
  C13: the message built for a NetworkPolicy allows and forbids exactly what the
  policy does: for every connection and both directions, the verdict read off the message (does the
  policy select the pod and restrict the direction, and if so does some rule match the peer and the
  port) is the verdict of the policy.
\<close>

theorem network_policy_meaning:
  assumes "valid_policy p"
  shows "\<exists>d. convertNetworkPolicyToProto (Some p) = Inr d \<and> (\<forall>dir c. pb_verdict dir c d = np_verdict dir c p)"
proof -
  let ?d = "converted_policy p"
  have "pb_verdict dir c ?d = np_verdict dir c p" for dir c
    using assms convert_pod_selector [where s = "nps_PodSelector p" and labels = "cn_subject c"] by (cases dir)
      (simp_all add: converted_policy_def convert_ingress_rules convert_egress_rules valid_policy_def del: convertLabelSelector_simps)
  with convertNetworkPolicy_eq show ?thesis by blast
qed

definition sample_np :: network_policy where
  "sample_np = \<lparr>nps_PodSelector = empty_selector,
     nps_Ingress = [\<lparr>nin_Ports = [\<lparr>npp_Protocol = None, npp_Port = Some (IntVal 8000), npp_EndPort = Some 8080\<rparr>],
                     nin_From = [\<lparr>npe_PodSelector = None, npe_NamespaceSelector = None,
                                  npe_IPBlock = Some \<lparr>ib_CIDR = ''10.0.0.0/8'', ib_Except = [''10.1.0.0/16'']\<rparr>\<rparr>]\<rparr>],
     nps_Egress = [], nps_PolicyTypes = [''Ingress'']\<rparr>"

definition sample_connection :: connection where
  "sample_connection = \<lparr>cn_subject = fmempty, cn_peer = None, cn_peer_namespace = fmempty, cn_same_namespace = False,
     cn_in_cidr = (\<lambda>cidr. cidr = ''10.0.0.0/8''), cn_protocol = ''TCP'', cn_port = 8042, cn_port_names = []\<rparr>"

theorem network_policy_meaning_witness:
  "\<exists>d. convertNetworkPolicyToProto (Some sample_np) = Inr d \<and> pb_verdict Ingress_dir sample_connection d = Some True"
proof -
  have "valid_policy sample_np" by (simp add: valid_policy_def sample_np_def valid_port_def)
  from network_policy_meaning [OF this] obtain d
    where "convertNetworkPolicyToProto (Some sample_np) = Inr d"
      and "pb_verdict Ingress_dir sample_connection d = np_verdict Ingress_dir sample_connection sample_np"
    by blast
  moreover have "np_verdict Ingress_dir sample_connection sample_np = Some True"
    by (simp add: sample_np_def sample_connection_def rule_matches_def np_peer_matches_def np_port_matches_def block_matches_def
        empty_selector_def empty_selector_matches)
  ultimately show ?thesis by auto
qed

end
