(* ===== verification/Convert_Entry.thy ===== *)
theory Convert_Entry
  imports Convert_Shared Discovery
begin

text \<open>
  \<open>internal/convert/lb_bindings.go\<close> and \<open>entry_points.go\<close>: the objects that lead traffic into the
  cluster. Reading an object into the local structs of \<open>lb_bindings_types.go\<close> and
  \<open>entry_points_types.go\<close> is \<open>runtime.DefaultUnstructuredConverter\<close>, library code: its result per type is
  a field of \<open>entry_decoder\<close>, an argument of the conversions. \<open>makeRepeated\<close> only chooses between nil and
  an empty slice, which are the same repeated field.
\<close>

section \<open>Load balancer bindings\<close>

record tgbServiceReference =
  tsr_Name :: string
  tsr_Port :: int_or_string

record tgbPeer =
  tpe_IPBlock :: "string option"
  tpe_SecurityGroup :: "string option"

record tgbPort =
  tpo_Protocol :: "string option"
  tpo_Port :: "int_or_string option"

record tgbIngressRule =
  tir_From :: "tgbPeer list"
  tir_Ports :: "tgbPort list"

text \<open>The optional \<open>networking\<close> field holds the list of ingress rules.\<close>

record tgbSpec =
  tsp_TargetGroupARN :: string
  tsp_TargetGroupName :: string
  tsp_MultiClusterTargetGroup :: bool
  tsp_TargetType :: "string option"
  tsp_TargetGroupProtocol :: "string option"
  tsp_ServiceRef :: tgbServiceReference
  tsp_Networking :: "tgbIngressRule list option"
  tsp_NodeSelector :: "label_selector option"
  tsp_IPAddressType :: "string option"
  tsp_VpcID :: string

record svcNegObjectReference =
  sno_ID :: string
  sno_SelfLink :: string
  sno_SubnetURL :: string
  sno_NetworkEndpointType :: string
  sno_State :: string

record metalLBServiceStatusStatus =
  mls_Node :: string
  mls_ServiceName :: string
  mls_ServiceNamespace :: string
  mls_Interfaces :: "string list"

definition convertTGBPeers :: "tgbPeer list \<Rightarrow> (string option \<times> string option) list" where
  "convertTGBPeers peers =
     map (\<lambda>peer. (case tpe_IPBlock peer of None \<Rightarrow> None | Some cidr \<Rightarrow> nonEmptyString (Some cidr),
                  case tpe_SecurityGroup peer of None \<Rightarrow> None | Some g \<Rightarrow> nonEmptyString (Some g))) peers"

definition convertTGBPorts :: "tgbPort list \<Rightarrow> (string option \<times> string option) list" where
  "convertTGBPorts ports =
     map (\<lambda>port. (nonEmptyString (tpo_Protocol port), map_option intstr_String (tpo_Port port))) ports"

definition convertTGBIngressRules :: "tgbIngressRule list option \<Rightarrow> tgb_ingress_rule list" where
  "convertTGBIngressRules networking =
     (case networking of
        None \<Rightarrow> []
      | Some rules \<Rightarrow> map (\<lambda>rule. \<lparr>tgi_from = convertTGBPeers (tir_From rule), tgi_ports = convertTGBPorts (tir_Ports rule)\<rparr>) rules)"

definition convertAWSTargetGroupBinding :: "tgbSpec \<Rightarrow> tgb_data" where
  "convertAWSTargetGroupBinding spec =
     \<lparr>tgd_service_name = tsr_Name (tsp_ServiceRef spec), tgd_service_port = intstr_String (tsr_Port (tsp_ServiceRef spec)),
      tgd_target_type = nonEmptyString (tsp_TargetType spec), tgd_target_group_arn = tsp_TargetGroupARN spec,
      tgd_target_group_name = nonEmptyString (Some (tsp_TargetGroupName spec)),
      tgd_ip_address_type = nonEmptyString (tsp_IPAddressType spec),
      tgd_node_selector = convertLabelSelectorToProto (tsp_NodeSelector spec),
      tgd_networking_ingress_rules = convertTGBIngressRules (tsp_Networking spec),
      tgd_vpc_id = nonEmptyString (Some (tsp_VpcID spec)),
      tgd_target_group_protocol = nonEmptyString (tsp_TargetGroupProtocol spec),
      tgd_multi_cluster_target_group = tsp_MultiClusterTargetGroup spec\<rparr>"

definition gkeNegServiceNameLabel :: string where
  "gkeNegServiceNameLabel = ''networking.gke.io/service-name''"

definition gkeNegServicePortLabel :: string where
  "gkeNegServicePortLabel = ''networking.gke.io/service-port''"

text \<open>Indexing a map, nil or not, with an absent key yields the empty string.\<close>

definition label_at :: "strmap option \<Rightarrow> string \<Rightarrow> string" where
  "label_at labels k = (case labels of None \<Rightarrow> [] | Some m \<Rightarrow> str_get (fmlookup m k))"

definition convertGKEServiceNetworkEndpointGroup :: "svcNegObjectReference list \<Rightarrow> strmap option \<Rightarrow> gke_neg_data" where
  "convertGKEServiceNetworkEndpointGroup negs labels =
     \<lparr>gnd_service_name = label_at labels gkeNegServiceNameLabel, gnd_service_port = label_at labels gkeNegServicePortLabel,
      gnd_network_endpoint_groups =
        map (\<lambda>neg. \<lparr>ngd_id = sno_ID neg, ngd_network_endpoint_type = sno_NetworkEndpointType neg,
                    ngd_self_link = sno_SelfLink neg, ngd_subnet_url = sno_SubnetURL neg, ngd_state = sno_State neg\<rparr>) negs\<rparr>"

definition convertMetalLBServiceStatus :: "metalLBServiceStatusStatus \<Rightarrow> metallb_data" where
  "convertMetalLBServiceStatus st =
     \<lparr>mld_service_name = mls_ServiceName st, mld_service_namespace = mls_ServiceNamespace st, mld_node = mls_Node st,
      mld_interfaces = filter (\<lambda>name. name \<noteq> []) (mls_Interfaces st)\<rparr>"

section \<open>Gateways and routes\<close>

record gwListener =
  gwl_Name :: string
  gwl_Port :: int
  gwl_Protocol :: string

record gwGateway =
  gwg_GatewayClassName :: string
  gwg_Listeners :: "gwListener list"
  gwg_Addresses :: "(string option \<times> string) list"

record gwParentReference =
  gwp_Group :: "string option"
  gwp_Kind :: "string option"
  gwp_Namespace :: "string option"
  gwp_Name :: string
  gwp_SectionName :: "string option"
  gwp_Port :: "int option"

record gwBackendRef =
  gwb_Group :: "string option"
  gwb_Kind :: "string option"
  gwb_Name :: string
  gwb_Namespace :: "string option"
  gwb_Port :: "int option"
  gwb_Weight :: "int option"

record gwCondition =
  gwc_Type :: string
  gwc_Status :: string
  gwc_Reason :: string
  gwc_ObservedGeneration :: int

record gwRouteParentStatus =
  gws_ParentRef :: gwParentReference
  gws_ControllerName :: string
  gws_Conditions :: "gwCondition list"

text \<open>A rule of a route is the list of its backend references.\<close>

record gwRoute =
  gwr_ParentRefs :: "gwParentReference list"
  gwr_Rules :: "gwBackendRef list list"
  gwr_Parents :: "gwRouteParentStatus list"

definition int32PtrToUint32 :: "int option \<Rightarrow> 32 word option" where
  "int32PtrToUint32 i = (case i of None \<Rightarrow> None | Some x \<Rightarrow> if x < 0 then None else Some (uint32 x))"

definition convertGateway :: "gwGateway \<Rightarrow> gateway_data" where
  "convertGateway gateway =
     \<lparr>gwd_gateway_class_name = gwg_GatewayClassName gateway,
      gwd_listeners = map (\<lambda>l. (gwl_Name l, uint32 (gwl_Port l), gwl_Protocol l)) (gwg_Listeners gateway),
      gwd_addresses = map (\<lambda>(t, v). (nonEmptyString t, v)) (gwg_Addresses gateway)\<rparr>"

definition convertGatewayParentReference :: "gwParentReference \<Rightarrow> parent_ref_data" where
  "convertGatewayParentReference parentRef =
     \<lparr>prd_group = gwp_Group parentRef, prd_kind = gwp_Kind parentRef, prd_namespace = nonEmptyString (gwp_Namespace parentRef),
      prd_name = gwp_Name parentRef, prd_section_name = nonEmptyString (gwp_SectionName parentRef),
      prd_port = int32PtrToUint32 (gwp_Port parentRef)\<rparr>"

definition route_backend :: "gwBackendRef \<Rightarrow> backend_ref_data" where
  "route_backend backendRef =
     \<lparr>brd_group = gwb_Group backendRef, brd_kind = gwb_Kind backendRef, brd_name = gwb_Name backendRef,
      brd_namespace = nonEmptyString (gwb_Namespace backendRef), brd_port = int32PtrToUint32 (gwb_Port backendRef),
      brd_weight = gwb_Weight backendRef\<rparr>"

text \<open>The loop over a parent's conditions; both exits of its body are \<open>break\<close>.\<close>

fun condition_loop :: "gwCondition list \<Rightarrow> int \<Rightarrow> route_parent_data \<Rightarrow> route_parent_data" where
  "condition_loop [] generation pbParent = pbParent"
| "condition_loop (condition # conditions) generation pbParent =
     (if gwc_Type condition \<noteq> ''Accepted'' then condition_loop conditions generation pbParent
      else if gwc_ObservedGeneration condition > 0 \<and> gwc_ObservedGeneration condition < generation then pbParent
      else pbParent
        \<lparr>rpd_accepted := (if gwc_Status condition = ''True'' then Some True
                          else if gwc_Status condition = ''False'' then Some False
                          else rpd_accepted pbParent),
         rpd_accepted_reason := nonEmptyString (Some (gwc_Reason condition))\<rparr>)"

definition route_parent :: "int \<Rightarrow> gwRouteParentStatus \<Rightarrow> route_parent_data" where
  "route_parent generation parent =
     condition_loop (gws_Conditions parent) generation
       \<lparr>rpd_parent_ref = Some (convertGatewayParentReference (gws_ParentRef parent)),
        rpd_controller_name = gws_ControllerName parent, rpd_accepted = None, rpd_accepted_reason = None\<rparr>"

definition convertGatewayRoute :: "gwRoute \<Rightarrow> int \<Rightarrow> route_data" where
  "convertGatewayRoute route generation =
     \<lparr>rtd_parent_refs = map convertGatewayParentReference (gwr_ParentRefs route),
      rtd_backend_refs = concat (map (map route_backend) (gwr_Rules route)),
      rtd_parents = map (route_parent generation) (gwr_Parents route)\<rparr>"

section \<open>Ingresses\<close>

definition convertIngressBackend :: "ingress_backend \<Rightarrow> ingress_backend_data" where
  "convertIngressBackend backend =
     (case backend of
        None \<Rightarrow> \<lparr>ibd_service_name = None, ibd_service_port_number = None, ibd_service_port_name = None\<rparr>
      | Some service \<Rightarrow>
          if isv_PortNumber service > 0
          then \<lparr>ibd_service_name = nonEmptyString (Some (isv_Name service)),
                ibd_service_port_number = Some (uint32 (isv_PortNumber service)), ibd_service_port_name = None\<rparr>
          else \<lparr>ibd_service_name = nonEmptyString (Some (isv_Name service)), ibd_service_port_number = None,
                ibd_service_port_name = nonEmptyString (Some (isv_PortName service))\<rparr>)"

definition port_status_data :: "port_status \<Rightarrow> lb_port_status" where
  "port_status_data portStatus =
     \<lparr>lps_port = uint32 (pst_Port portStatus), lps_protocol = pst_Protocol portStatus, lps_error = pst_Error portStatus\<rparr>"

definition convertIngressLoadBalancerIngress :: "ingress_lb list \<Rightarrow> lb_ingress list" where
  "convertIngressLoadBalancerIngress ingresses =
     map (\<lambda>i. \<lparr>lbi_ip = nonEmptyString (Some (igl_IP i)), lbi_hostname = nonEmptyString (Some (igl_Hostname i)),
               lbi_ip_mode = None, lbi_ports = map port_status_data (igl_Ports i)\<rparr>) ingresses"

definition ingressClassAnnotation :: string where
  "ingressClassAnnotation = ''kubernetes.io/ingress.class''"

definition ingress_class :: "ingress \<Rightarrow> string option" where
  "ingress_class i =
     (case nonEmptyString (ing_IngressClassName i) of
        Some c \<Rightarrow> Some c
      | None \<Rightarrow> (case fmlookup (ing_Annotations i) ingressClassAnnotation of
                   Some cls \<Rightarrow> nonEmptyString (Some cls)
                 | None \<Rightarrow> None))"

definition ingress_path_of :: "ingress_path \<Rightarrow> ingress_path_data" where
  "ingress_path_of p =
     \<lparr>ipd_path = nonEmptyString (Some (igp_Path p)), ipd_path_type = str_get (igp_PathType p),
      ipd_backend = Some (convertIngressBackend (igp_Backend p))\<rparr>"

definition convertIngress :: "ingress \<Rightarrow> ingress_data" where
  "convertIngress i =
     \<lparr>igd_ingress_class_name = ingress_class i,
      igd_default_backend = map_option convertIngressBackend (ing_DefaultBackend i),
      igd_rules = map (\<lambda>rule. \<lparr>ird_host = nonEmptyString (Some (igr_Host rule)),
                               ird_paths = (case igr_HTTP rule of None \<Rightarrow> [] | Some ps \<Rightarrow> map ingress_path_of ps)\<rparr>) (ing_Rules i),
      igd_tls = map (\<lambda>(hosts, secret). (hosts, nonEmptyString (Some secret))) (ing_TLS i),
      igd_load_balancer_ingress = convertIngressLoadBalancerIngress (ing_LBIngress i)\<rparr>"

section \<open>Dispatch on the kind\<close>

record entry_decoder =
  ed_TargetGroupBinding :: "json_obj \<Rightarrow> tgbSpec result"
  ed_ServiceNetworkEndpointGroup :: "json_obj \<Rightarrow> svcNegObjectReference list result"
  ed_MetalLBServiceStatus :: "json_obj \<Rightarrow> metalLBServiceStatusStatus result"
  ed_Ingress :: "json_obj \<Rightarrow> ingress result"
  ed_IngressClass :: "json_obj \<Rightarrow> string result"
  ed_GatewayClass :: "json_obj \<Rightarrow> string result"
  ed_Gateway :: "json_obj \<Rightarrow> gwGateway result"
  ed_Route :: "json_obj \<Rightarrow> gwRoute result"

text \<open>
  A decoded object sets the kind-specific data; a decoding error is returned and leaves the metadata as
  it was.
\<close>

definition set_decoded :: "string \<Rightarrow> ('t \<Rightarrow> kind_specific) \<Rightarrow> 't result \<Rightarrow> object_data \<Rightarrow> object_data \<times> go_error option" where
  "set_decoded kind conv decoded md =
     (case decoded of
        Inl e \<Rightarrow> (md, Some (WrapErr (''deserializing '' @ kind) e))
      | Inr x \<Rightarrow> (md\<lparr>od_kind_specific := Some (conv x)\<rparr>, None))"

definition awsLoadBalancerControllerGroup :: string where
  "awsLoadBalancerControllerGroup = ''elbv2.k8s.aws''"

definition gkeNetworkingGroup :: string where
  "gkeNetworkingGroup = ''networking.gke.io''"

definition metalLBGroup :: string where
  "metalLBGroup = ''metallb.io''"

definition convertLoadBalancerBinding ::
  "entry_decoder \<Rightarrow> object_data \<Rightarrow> unstructured option \<Rightarrow> string \<Rightarrow> string \<Rightarrow> object_data \<times> go_error option" where
  "convertLoadBalancerBinding dec md obj kind apiGroup =
     (case obj of
        None \<Rightarrow> (md, None)
      | Some u \<Rightarrow>
          if kind = ''TargetGroupBinding'' \<and> apiGroup = awsLoadBalancerControllerGroup
          then set_decoded kind (\<lambda>t. KsAwsTargetGroupBinding (convertAWSTargetGroupBinding t))
                 (ed_TargetGroupBinding dec (un_object u)) md
          else if kind = ''ServiceNetworkEndpointGroup'' \<and> apiGroup = gkeNetworkingGroup
          then set_decoded kind (\<lambda>n. KsGkeServiceNetworkEndpointGroup (convertGKEServiceNetworkEndpointGroup n (un_labels u)))
                 (ed_ServiceNetworkEndpointGroup dec (un_object u)) md
          else if (kind = ''ServiceL2Status'' \<or> kind = ''ServiceBGPStatus'') \<and> apiGroup = metalLBGroup
          then set_decoded kind (\<lambda>s. KsMetallbServiceStatus (convertMetalLBServiceStatus s))
                 (ed_MetalLBServiceStatus dec (un_object u)) md
          else (md, None))"

definition networkingGroup :: string where
  "networkingGroup = ''networking.k8s.io''"

definition gatewayRouteKinds :: "string list" where
  "gatewayRouteKinds = [''GRPCRoute'', ''HTTPRoute'', ''TCPRoute'', ''TLSRoute'', ''UDPRoute'']"

definition convertEntryPoint ::
  "entry_decoder \<Rightarrow> object_data \<Rightarrow> unstructured option \<Rightarrow> string \<Rightarrow> string \<Rightarrow> object_data \<times> go_error option" where
  "convertEntryPoint dec md obj kind apiGroup =
     (case obj of
        None \<Rightarrow> (md, None)
      | Some u \<Rightarrow>
          if kind = ''Ingress'' \<and> apiGroup = networkingGroup
          then set_decoded kind (\<lambda>i. KsIngress (convertIngress i)) (ed_Ingress dec (un_object u)) md
          else if kind = ''IngressClass'' \<and> apiGroup = networkingGroup
          then set_decoded kind KsIngressClass (ed_IngressClass dec (un_object u)) md
          else if kind = ''GatewayClass'' \<and> apiGroup = GatewayAPIGroup
          then set_decoded kind KsGatewayClass (ed_GatewayClass dec (un_object u)) md
          else if kind = ''Gateway'' \<and> apiGroup = GatewayAPIGroup
          then set_decoded kind (\<lambda>g. KsGateway (convertGateway g)) (ed_Gateway dec (un_object u)) md
          else if kind \<in> set gatewayRouteKinds \<and> apiGroup = GatewayAPIGroup
          then set_decoded kind (\<lambda>r. KsGatewayRoute (convertGatewayRoute r (un_generation u))) (ed_Route dec (un_object u)) md
          else (md, None))"

section \<open>Accepted routes\<close>

text \<open>
  What the message documents: the status of the first \<open>Accepted\<close> condition, unless it describes an older
  generation of the route than the one sent.
\<close>

definition accepted_condition :: "int \<Rightarrow> gwCondition list \<Rightarrow> gwCondition option" where
  "accepted_condition generation cs =
     (case find (\<lambda>c. gwc_Type c = ''Accepted'') cs of
        None \<Rightarrow> None
      | Some c \<Rightarrow> if 0 < gwc_ObservedGeneration c \<and> gwc_ObservedGeneration c < generation then None else Some c)"

fun status_value :: "string \<Rightarrow> bool option" where
  "status_value s = (if s = ''True'' then Some True else if s = ''False'' then Some False else None)"

lemma condition_loop_eq:
  assumes "rpd_accepted p = None" and "rpd_accepted_reason p = None"
  shows "condition_loop cs generation p =
    p\<lparr>rpd_accepted := (case accepted_condition generation cs of None \<Rightarrow> None | Some c \<Rightarrow> status_value (gwc_Status c)),
      rpd_accepted_reason := (case accepted_condition generation cs of None \<Rightarrow> None | Some c \<Rightarrow> str_opt (gwc_Reason c))\<rparr>"
  using assms
  by (induction cs) (auto simp: accepted_condition_def nonEmptyString_def str_opt_def)

text \<open>
  A route is reported as accepted or refused by a parent exactly when the first
  \<open>Accepted\<close> condition of that parent's status says so and is not stale; a stale or missing condition
  gives neither a verdict nor a reason, and an undecided one only its reason. Every parent of the
  status and every backend of every rule is reported, in order.
\<close>

theorem route_acceptance:
  "map (\<lambda>p. (rpd_controller_name p, rpd_accepted p, rpd_accepted_reason p)) (rtd_parents (convertGatewayRoute route generation)) =
     map (\<lambda>s. (gws_ControllerName s,
               case accepted_condition generation (gws_Conditions s) of None \<Rightarrow> None | Some c \<Rightarrow> status_value (gwc_Status c),
               case accepted_condition generation (gws_Conditions s) of None \<Rightarrow> None | Some c \<Rightarrow> str_opt (gwc_Reason c)))
       (gwr_Parents route)
   \<and> map brd_name (rtd_backend_refs (convertGatewayRoute route generation)) = map gwb_Name (concat (gwr_Rules route))"
  by (simp add: convertGatewayRoute_def route_parent_def condition_loop_eq route_backend_def map_concat comp_def)

end
