(* ===== verification/Convert_Core.thy ===== *)
theory Convert_Core
  imports Convert_Policy Convert_Entry
begin

text \<open>
  \<open>internal/convert/k8s_resources.go\<close>, the converter of the built-in resources: metadata, and the data
  specific to Pods, Nodes, Services, NetworkPolicies and workloads. The helpers of the
  \<open>unstructured\<close> package that read nested fields, the decoding of the metadata and of a Service, and the
  typed client are library code and fields of \<open>core_lib\<close>. A Go panic is an outcome, and the converter is
  shown to have none.
\<close>

section \<open>Library functions\<close>

text \<open>
  The nested getters return the value and whether it was found, or an error when a field on the way has
  another type; with an error the value is the zero value.
\<close>

record core_lib =
  cl_NestedString :: "json_obj \<Rightarrow> string list \<Rightarrow> (string \<times> bool) result"
  cl_NestedSlice :: "json_obj \<Rightarrow> string list \<Rightarrow> (json list \<times> bool) result"
  cl_NestedStringMap :: "json_obj \<Rightarrow> string list \<Rightarrow> (strmap \<times> bool) result"
  cl_ObjectMeta :: "json_obj \<Rightarrow> object_meta result"
  cl_Service :: "json_obj \<Rightarrow> service result"
  cl_GetNetworkPolicy :: "string \<Rightarrow> string \<Rightarrow> network_policy option result"
  cl_entry :: entry_decoder

definition found_value :: "('a \<times> bool) result \<Rightarrow> 'a option" where
  "found_value r = (case r of Inr (x, True) \<Rightarrow> Some x | _ \<Rightarrow> None)"

definition value_of :: "'a \<Rightarrow> ('a \<times> bool) result \<Rightarrow> 'a" where
  "value_of zero r = (case r of Inr (x, _) \<Rightarrow> x | Inl _ \<Rightarrow> zero)"

section \<open>Workloads\<close>

definition workloadKinds :: "(string \<times> string) list" where
  "workloadKinds =
     [(''CronJob'', ''batch''), (''DaemonSet'', ''apps''), (''Deployment'', ''apps''), (''Job'', ''batch''),
      (''ReplicaSet'', ''apps''), (''StatefulSet'', ''apps'')]"

definition extractWorkloadData :: "core_lib \<Rightarrow> unstructured \<Rightarrow> string \<Rightarrow> string \<Rightarrow> workload_data option" where
  "extractWorkloadData lib obj kind apiGroup =
     (if gm_get workloadKinds kind \<noteq> Some apiGroup then None
      else let specPath = (if kind = ''CronJob'' then [specField, ''jobTemplate'', specField] else [specField]);
               templateLabels = found_value (cl_NestedStringMap lib (un_object obj) (specPath @ [''template'', ''metadata'', ''labels'']));
               selectorLabels = found_value (cl_NestedStringMap lib (un_object obj) (specPath @ [''selector'', ''matchLabels'']))
           in if templateLabels = None \<and> selectorLabels = None then None
              else Some \<lparr>wld_template_labels = map_content templateLabels,
                         wld_selector_match_labels = map_content selectorLabels\<rparr>)"

section \<open>Metadata\<close>

definition convertObjectToMetadata :: "unstructured \<Rightarrow> object_meta" where
  "convertObjectToMetadata obj =
     \<lparr>om_Name = un_name obj, om_Namespace = un_namespace obj, om_UID = un_uid obj,
      om_ResourceVersion = un_resourceVersion obj, om_CreationTimestamp = 0, om_Labels = un_labels obj,
      om_Annotations = un_annotations obj, om_OwnerReferences = []\<rparr>"

definition GetMetadataFromResource :: "core_lib \<Rightarrow> unstructured \<Rightarrow> object_meta result" where
  "GetMetadataFromResource lib resource =
     (case gm_get (un_object resource) ''metadata'' of
        Some (JObj metadata) \<Rightarrow> cl_ObjectMeta lib metadata
      | _ \<Rightarrow> Inl (ErrMsg ''could not grab metadata from a resource''))"

section \<open>Pods and Nodes\<close>

definition extractPodIPsFromUnstructured :: "core_lib \<Rightarrow> unstructured option \<Rightarrow> string list" where
  "extractPodIPsFromUnstructured lib obj =
     (case obj of
        None \<Rightarrow> []
      | Some u \<Rightarrow>
          if un_kind u \<noteq> ''Pod'' then []
          else case found_value (cl_NestedSlice lib (un_object u) [''status'', ''podIPs'']) of
                 None \<Rightarrow> []
               | Some podIPsField \<Rightarrow>
                   List.map_filter (\<lambda>entry. case entry of
                       JObj podIP \<Rightarrow> (case gm_get podIP ''ip'' of Some (JStr ip) \<Rightarrow> if ip \<noteq> [] then Some ip else None | _ \<Rightarrow> None)
                     | _ \<Rightarrow> None) podIPsField)"

definition getNodeIpAddresses :: "(string \<times> string) list \<Rightarrow> string list" where
  "getNodeIpAddresses addresses =
     map snd (filter (\<lambda>(t, _). t = ''InternalIP'' \<or> t = ''ExternalIP'') addresses)"

definition convertNodeAddresses :: "(string \<times> string) list \<Rightarrow> (string \<times> string) list" where
  "convertNodeAddresses addresses = map (\<lambda>(t, a). (t, a)) addresses"

definition node_addresses :: "core_lib \<Rightarrow> json list \<Rightarrow> (string \<times> string) list" where
  "node_addresses lib entries =
     List.map_filter (\<lambda>entry. case entry of
         JObj fs \<Rightarrow> Some (value_of [] (cl_NestedString lib fs [''type'']), value_of [] (cl_NestedString lib fs [''address'']))
       | _ \<Rightarrow> None) entries"

definition extractNodeDataFromUnstructured :: "core_lib \<Rightarrow> unstructured option \<Rightarrow> node_data result" where
  "extractNodeDataFromUnstructured lib obj =
     (case obj of
        None \<Rightarrow> Inl (ErrMsg ''node object is nil'')
      | Some u \<Rightarrow>
          (case cl_NestedString lib (un_object u) [''spec'', ''providerID''] of
             Inl e \<Rightarrow> Inl (WrapErr ''failed to read spec.providerID'' e)
           | Inr (providerID, _) \<Rightarrow>
               (case cl_NestedSlice lib (un_object u) [''status'', ''addresses''] of
                  Inl e \<Rightarrow> Inl (WrapErr ''failed to read status.addresses'' e)
                | Inr (addressesField, _) \<Rightarrow>
                    let addresses = node_addresses lib addressesField
                    in Inr \<lparr>nd_provider_id = providerID, nd_ip_addresses = getNodeIpAddresses addresses,
                            nd_addresses = convertNodeAddresses addresses\<rparr>)))"

section \<open>Services\<close>

definition int32ToUint32 :: "int option \<Rightarrow> 32 word option outcome" where
  "int32ToUint32 i =
     (case i of
        None \<Rightarrow> Returns None
      | Some x \<Rightarrow> if x < 0 then Panics (''attempting to convert '' @ string_of_int x @ '' to uint32'') else Returns (Some (uint32 x)))"

text \<open>A call that runs only when a port is positive, and whose result is stored.\<close>

definition positive_port :: "int \<Rightarrow> 32 word option outcome" where
  "positive_port p = (if p > 0 then int32ToUint32 (Some p) else Returns None)"

fun convertServicePortsToPorts :: "service_port list \<Rightarrow> service_port_data list outcome" where
  "convertServicePortsToPorts [] = Returns []"
| "convertServicePortsToPorts (sp # sps) =
     (case positive_port (svp_NodePort sp) of
        Panics m \<Rightarrow> Panics m
      | Returns nodePort \<Rightarrow>
          (case convertServicePortsToPorts sps of
             Panics m \<Rightarrow> Panics m
           | Returns ports \<Rightarrow>
               Returns (\<lparr>spd_node_port = nodePort, spd_port = uint32 (svp_Port sp),
                         spd_protocol = (if svp_Protocol sp = [] then ''TCP'' else svp_Protocol sp),
                         spd_load_balancer_ports = [], spd_target_port = intstr_String (svp_TargetPort sp),
                         spd_name = svp_Name sp\<rparr> # ports)))"

definition convertIngressToStringList :: "load_balancer_ingress list \<Rightarrow> string list" where
  "convertIngressToStringList ingresses =
     concat (map (\<lambda>i. (if lin_IP i \<noteq> [] then [lin_IP i] else []) @ (if lin_Hostname i \<noteq> [] then [lin_Hostname i] else [])) ingresses)"

definition combineIPAddresses :: "string list \<Rightarrow> string list \<Rightarrow> string list \<Rightarrow> string \<Rightarrow> string list" where
  "combineIPAddresses clusterIps externalIps loadBalancerIngresses loadBalancerIp =
     clusterIps @ externalIps @ loadBalancerIngresses @ (if loadBalancerIp \<noteq> [] then [loadBalancerIp] else [])"

definition convertLoadBalancerIngress :: "load_balancer_ingress list \<Rightarrow> lb_ingress list" where
  "convertLoadBalancerIngress ingresses =
     map (\<lambda>i. \<lparr>lbi_ip = (if lin_IP i \<noteq> [] then Some (lin_IP i) else None),
               lbi_hostname = (if lin_Hostname i \<noteq> [] then Some (lin_Hostname i) else None),
               lbi_ip_mode = lin_IPMode i, lbi_ports = map port_status_data (lin_Ports i)\<rparr>) ingresses"

definition service_data_of :: "service \<Rightarrow> service_port_data list \<Rightarrow> 32 word option \<Rightarrow> service_data" where
  "service_data_of svc ports healthCheck =
     \<lparr>svd_ip_addresses = combineIPAddresses (svc_ClusterIPs svc) (svc_ExternalIPs svc)
        (if svc_LBIngress svc \<noteq> [] then convertIngressToStringList (svc_LBIngress svc) else []) (svc_LoadBalancerIP svc),
      svd_ports = map (\<lambda>np. np) ports, svd_type = svc_Type svc, svd_external_name = Some (svc_ExternalName svc),
      svd_load_balancer_class = svc_LoadBalancerClass svc, svd_selector = svc_Selector svc,
      svd_external_traffic_policy = (if svc_ExternalTrafficPolicy svc \<noteq> [] then Some (svc_ExternalTrafficPolicy svc) else None),
      svd_load_balancer_ingress = convertLoadBalancerIngress (svc_LBIngress svc),
      svd_load_balancer_source_ranges = svc_LoadBalancerSourceRanges svc,
      svd_health_check_node_port = healthCheck,
      svd_allocate_load_balancer_node_ports = svc_AllocateLoadBalancerNodePorts svc\<rparr>"

definition convertToKubernetesServiceData :: "core_lib \<Rightarrow> unstructured option \<Rightarrow> service_data result outcome" where
  "convertToKubernetesServiceData lib obj =
     (case obj of
        None \<Rightarrow> Returns (Inl (ErrMsg ''service object is nil''))
      | Some u \<Rightarrow>
          (case cl_Service lib (un_object u) of
             Inl e \<Rightarrow> Returns (Inl (WrapErr ''failed to convert unstructured to Service'' e))
           | Inr svc \<Rightarrow>
               (case convertServicePortsToPorts (svc_Ports svc) of
                  Panics m \<Rightarrow> Panics m
                | Returns ports \<Rightarrow>
                    (case positive_port (svc_HealthCheckNodePort svc) of
                       Panics m \<Rightarrow> Panics m
                     | Returns healthCheck \<Rightarrow> Returns (Inr (service_data_of svc ports healthCheck))))))"

section \<open>The converter\<close>

definition core_metadata :: "object_meta \<Rightarrow> string \<Rightarrow> string \<Rightarrow> string \<Rightarrow> object_data" where
  "core_metadata obj kind apiGroup apiVersion =
     \<lparr>od_annotations = om_Annotations obj, od_creation_timestamp = om_CreationTimestamp obj, od_kind = kind,
      od_labels = om_Labels obj, od_name = om_Name obj,
      od_namespace = (if om_Namespace obj \<noteq> [] then Some (om_Namespace obj) else None),
      od_owner_references = convertOwnerReferences (om_OwnerReferences obj),
      od_resource_version = om_ResourceVersion obj, od_uid = om_UID obj, od_api_group = apiGroup,
      od_api_version = apiVersion, od_kind_specific = None\<rparr>"

text \<open>An error of the kind-specific part leaves the metadata only.\<close>

definition with_kind :: "('a \<Rightarrow> kind_specific) \<Rightarrow> 'a result \<Rightarrow> object_data \<Rightarrow> object_data" where
  "with_kind c r md = (case r of Inl _ \<Rightarrow> md | Inr x \<Rightarrow> md\<lparr>od_kind_specific := Some (c x)\<rparr>)"

definition ConvertMetaObjectToMetadata ::
  "core_lib \<Rightarrow> object_meta \<Rightarrow> unstructured option \<Rightarrow> string \<Rightarrow> string \<Rightarrow> string \<Rightarrow> object_data outcome" where
  "ConvertMetaObjectToMetadata lib obj rawObj kind apiGroup apiVersion =
     (let md = core_metadata obj kind apiGroup apiVersion in
      if kind = ''Pod'' then
        Returns (if apiGroup \<noteq> [] then md else md\<lparr>od_kind_specific := Some (KsPod (extractPodIPsFromUnstructured lib rawObj))\<rparr>)
      else if kind = ''NetworkPolicy'' then
        Returns (if apiGroup \<noteq> networkingGroup then md
                 else with_kind KsNetworkPolicy
                        (getContentsOfNetworkPolicy (cl_GetNetworkPolicy lib) (om_Name obj) (om_Namespace obj)) md)
      else if kind = ''Node'' then
        Returns (if apiGroup \<noteq> [] then md else with_kind KsNode (extractNodeDataFromUnstructured lib rawObj) md)
      else if kind = ''Service'' then
        (if apiGroup \<noteq> [] then Returns md
         else map_outcome (\<lambda>r. with_kind KsService r md) (convertToKubernetesServiceData lib rawObj))
      else Returns md)"

text \<open>The errors of the load balancer and entry point converters are logged; their metadata is kept.\<close>

definition enrich :: "core_lib \<Rightarrow> unstructured \<Rightarrow> object_data \<Rightarrow> object_data" where
  "enrich lib obj md =
     (let md1 = (case extractWorkloadData lib obj (un_kind obj) (un_group obj) of
                   Some workload \<Rightarrow> md\<lparr>od_kind_specific := Some (KsWorkload workload)\<rparr>
                 | None \<Rightarrow> md);
          md2 = fst (convertLoadBalancerBinding (cl_entry lib) md1 (Some obj) (un_kind obj) (un_group obj))
      in fst (convertEntryPoint (cl_entry lib) md2 (Some obj) (un_kind obj) (un_group obj)))"

definition NewCoreResourceConverter :: "core_lib \<Rightarrow> unstructured \<Rightarrow> object_data result outcome" where
  "NewCoreResourceConverter lib obj =
     (case GetMetadataFromResource lib obj of
        Inl e \<Rightarrow> Returns (Inl (WrapErr ''cannot get metadata from resource'' e))
      | Inr objMeta \<Rightarrow>
          map_outcome (\<lambda>md. Inr (enrich lib obj md))
            (ConvertMetaObjectToMetadata lib objMeta (Some obj) (un_kind obj) (un_group obj) (un_version obj)))"

section \<open>No panic, and data only for the right group\<close>

lemma positive_port_eq: "positive_port p = Returns (if p > 0 then Some (uint32 p) else None)"
  by (simp add: positive_port_def int32ToUint32_def)

lemma service_ports_return:
  "convertServicePortsToPorts sps =
     Returns (map (\<lambda>sp. \<lparr>spd_node_port = (if svp_NodePort sp > 0 then Some (uint32 (svp_NodePort sp)) else None),
        spd_port = uint32 (svp_Port sp), spd_protocol = (if svp_Protocol sp = [] then ''TCP'' else svp_Protocol sp),
        spd_load_balancer_ports = [], spd_target_port = intstr_String (svp_TargetPort sp), spd_name = svp_Name sp\<rparr>) sps)"
  by (induction sps) (simp_all add: positive_port_eq)

lemma service_returns: "\<exists>r. convertToKubernetesServiceData lib obj = Returns r"
  by (auto simp: convertToKubernetesServiceData_def service_ports_return positive_port_eq split: option.splits sum.splits)

lemma convertMeta_returns: "\<exists>md. ConvertMetaObjectToMetadata lib m raw kind grp ver = Returns md"
proof -
  obtain r where "convertToKubernetesServiceData lib raw = Returns r" using service_returns by blast
  then show ?thesis by (simp add: ConvertMetaObjectToMetadata_def Let_def)
qed

text \<open>The kinds and API groups each variant of the kind-specific data is for.\<close>

fun variant_of :: "kind_specific \<Rightarrow> (string \<times> string) set" where
  "variant_of (KsPod _) = {(''Pod'', '''')}"
| "variant_of (KsNode _) = {(''Node'', '''')}"
| "variant_of (KsService _) = {(''Service'', '''')}"
| "variant_of (KsNetworkPolicy _) = {(''NetworkPolicy'', ''networking.k8s.io'')}"
| "variant_of (KsWorkload _) = set workloadKinds"
| "variant_of (KsAwsTargetGroupBinding _) = {(''TargetGroupBinding'', ''elbv2.k8s.aws'')}"
| "variant_of (KsGkeServiceNetworkEndpointGroup _) = {(''ServiceNetworkEndpointGroup'', ''networking.gke.io'')}"
| "variant_of (KsMetallbServiceStatus _) = {(''ServiceL2Status'', ''metallb.io''), (''ServiceBGPStatus'', ''metallb.io'')}"
| "variant_of (KsIngress _) = {(''Ingress'', ''networking.k8s.io'')}"
| "variant_of (KsIngressClass _) = {(''IngressClass'', ''networking.k8s.io'')}"
| "variant_of (KsGatewayClass _) = {(''GatewayClass'', ''gateway.networking.k8s.io'')}"
| "variant_of (KsGateway _) = {(''Gateway'', ''gateway.networking.k8s.io'')}"
| "variant_of (KsGatewayRoute _) = set gatewayRouteKinds \<times> {''gateway.networking.k8s.io''}"
| "variant_of _ = {}"

definition variant_ok :: "string \<Rightarrow> string \<Rightarrow> object_data \<Rightarrow> bool" where
  "variant_ok kind grp md \<longleftrightarrow>
     od_kind md = kind \<and> od_api_group md = grp \<and> (\<forall>ks. od_kind_specific md = Some ks \<longrightarrow> (kind, grp) \<in> variant_of ks)"

lemma variant_ok_set:
  "variant_ok kind grp md \<Longrightarrow> (kind, grp) \<in> variant_of ks \<Longrightarrow> variant_ok kind grp (md\<lparr>od_kind_specific := Some ks\<rparr>)"
  by (simp add: variant_ok_def)

lemma variant_ok_with_kind:
  "variant_ok kind grp md \<Longrightarrow> (\<And>x. (kind, grp) \<in> variant_of (c x)) \<Longrightarrow> variant_ok kind grp (with_kind c r md)"
  by (auto simp: with_kind_def variant_ok_set split: sum.splits)

lemma variant_ok_set_decoded:
  "variant_ok kind grp md \<Longrightarrow> (\<And>x. (kind, grp) \<in> variant_of (c x)) \<Longrightarrow> variant_ok kind grp (fst (set_decoded k c r md))"
  by (auto simp: set_decoded_def variant_ok_set split: sum.splits)

lemma fst_if_ok:
  "(P \<Longrightarrow> variant_ok kind grp (fst x)) \<Longrightarrow> variant_ok kind grp (fst y) \<Longrightarrow> variant_ok kind grp (fst (if P then x else y))"
  by simp

lemma core_metadata_ok: "variant_ok kind grp (core_metadata m kind grp ver)"
  by (simp add: variant_ok_def core_metadata_def)

lemma convertMeta_ok:
  assumes "ConvertMetaObjectToMetadata lib m raw kind grp ver = Returns md"
  shows "variant_ok kind grp md"
proof -
  obtain r where "convertToKubernetesServiceData lib raw = Returns r" using service_returns by blast
  with assms show ?thesis
    by (auto simp: ConvertMetaObjectToMetadata_def Let_def core_metadata_ok networkingGroup_def
        intro: variant_ok_set variant_ok_with_kind split: if_splits)
qed

lemma convertLoadBalancerBinding_ok:
  "variant_ok kind grp md \<Longrightarrow> variant_ok kind grp (fst (convertLoadBalancerBinding dec md obj kind grp))"
  by (cases obj; simp only: convertLoadBalancerBinding_def option.case; (intro fst_if_ok variant_ok_set_decoded)?)
     (auto simp: awsLoadBalancerControllerGroup_def gkeNetworkingGroup_def metalLBGroup_def)

lemma convertEntryPoint_ok:
  "variant_ok kind grp md \<Longrightarrow> variant_ok kind grp (fst (convertEntryPoint dec md obj kind grp))"
  by (cases obj; simp only: convertEntryPoint_def option.case; (intro fst_if_ok variant_ok_set_decoded)?)
     (simp_all add: networkingGroup_def GatewayAPIGroup_def)

lemma workload_ok: "extractWorkloadData lib obj kind grp = Some w \<Longrightarrow> (kind, grp) \<in> set workloadKinds"
  by (auto simp: extractWorkloadData_def dest: map_of_SomeD split: if_splits)

lemma enrich_ok: "variant_ok (un_kind obj) (un_group obj) md \<Longrightarrow> variant_ok (un_kind obj) (un_group obj) (enrich lib obj md)"
  unfolding enrich_def Let_def
  by (intro convertEntryPoint_ok convertLoadBalancerBinding_ok)
     (simp add: variant_ok_set workload_ok split: option.splits)

text \<open>
  C35: whatever the API server sends, the core converter returns (the conversion
  of a port to an unsigned integer, which panics on a negative one, is never reached with one), it
  fails only when the metadata cannot be read, and the data it attaches belongs to the object's kind
  and API group: a custom resource that reuses the name of a built-in kind in another group gets
  none, and no variant is ever attached to an object of another kind.
\<close>

theorem core_converter_by_group:
  "\<exists>r. NewCoreResourceConverter lib obj = Returns r \<and>
     (case r of
        Inl e \<Rightarrow> \<exists>e'. GetMetadataFromResource lib obj = Inl e'
      | Inr md \<Rightarrow> od_kind md = un_kind obj \<and> od_api_group md = un_group obj \<and>
          (case od_kind_specific md of None \<Rightarrow> True | Some ks \<Rightarrow> (un_kind obj, un_group obj) \<in> variant_of ks))"
proof (cases "GetMetadataFromResource lib obj")
  case (Inl e)
  then show ?thesis by (simp add: NewCoreResourceConverter_def)
next
  case (Inr m)
  obtain md where md: "ConvertMetaObjectToMetadata lib m (Some obj) (un_kind obj) (un_group obj) (un_version obj) = Returns md"
    using convertMeta_returns by blast
  have "variant_ok (un_kind obj) (un_group obj) (enrich lib obj md)"
    by (intro enrich_ok convertMeta_ok [OF md])
  with Inr md show ?thesis
    by (auto simp: NewCoreResourceConverter_def variant_ok_def split: option.splits)
qed

text \<open>
  A Service is reported with every address it has, in a fixed order (cluster
  addresses, external addresses, the addresses and host names of its load balancers, the requested load
  balancer address), and with every port: its number, protocol (TCP when unset), target and
  name, and a node port exactly when one is set.
\<close>

theorem service_data_complete:
  assumes "cl_Service lib (un_object u) = Inr svc"
  shows "\<exists>d. convertToKubernetesServiceData lib (Some u) = Returns (Inr d) \<and>
    set (svd_ip_addresses d) = set (svc_ClusterIPs svc) \<union> set (svc_ExternalIPs svc)
      \<union> ({x. \<exists>i \<in> set (svc_LBIngress svc). x = lin_IP i \<or> x = lin_Hostname i} \<union> {svc_LoadBalancerIP svc}) \<inter> {x. x \<noteq> []}
      \<and> map (\<lambda>p. (spd_port p, spd_protocol p, spd_target_port p, spd_name p, spd_node_port p)) (svd_ports d) =
        map (\<lambda>p. (uint32 (svp_Port p), if svp_Protocol p = [] then ''TCP'' else svp_Protocol p, intstr_String (svp_TargetPort p),
                  svp_Name p, if svp_NodePort p > 0 then Some (uint32 (svp_NodePort p)) else None)) (svc_Ports svc)"
  using assms
  by (auto simp: convertToKubernetesServiceData_def service_ports_return positive_port_eq service_data_of_def
      combineIPAddresses_def convertIngressToStringList_def comp_def split: if_splits)

end
