(* ===== verification/Convert_CRD.thy ===== *)
theory Convert_CRD
  imports Convert_Policy Discovery
begin

text \<open>
  \<open>internal/convert/anp\<close> and \<open>internal/convert/ovn\<close>: admin network policies, baseline admin network
  policies, OVN egress firewalls and egress addresses. The local structs of the \<open>_types.go\<close> files are the
  records below; reading an object into them (\<open>MarshalJSON\<close>, then \<open>json.Unmarshal\<close>) is the field of
  \<open>crd_decoder\<close> for the type.
\<close>

section \<open>Admin network policies\<close>

record namespacedPod =
  nsp_NamespaceSelector :: label_selector
  nsp_PodSelector :: label_selector

record adminNetworkPolicySubject =
  asb_Namespaces :: "label_selector option"
  asb_Pods :: "namespacedPod option"

record adminNetworkPolicyIngressPeer =
  ipr_Namespaces :: "label_selector option"
  ipr_Pods :: "namespacedPod option"

record adminNetworkPolicyEgressPeer =
  epr_Namespaces :: "label_selector option"
  epr_Pods :: "namespacedPod option"
  epr_Nodes :: "label_selector option"
  epr_Networks :: "string list"
  epr_DomainNames :: "string list"

record anpPortNumber =
  apn_Protocol :: string
  apn_Port :: int

record anpPortRange =
  apg_Protocol :: string
  apg_Start :: int
  apg_End :: int

record adminNetworkPolicyPort =
  anq_PortNumber :: "anpPortNumber option"
  anq_NamedPort :: "string option"
  anq_PortRange :: "anpPortRange option"

record adminNetworkPolicyIngressRule =
  ain_Name :: string
  ain_Action :: string
  ain_From :: "adminNetworkPolicyIngressPeer list"
  ain_Ports :: "adminNetworkPolicyPort list option"

record adminNetworkPolicyEgressRule =
  aeg_Name :: string
  aeg_Action :: string
  aeg_To :: "adminNetworkPolicyEgressPeer list"
  aeg_Ports :: "adminNetworkPolicyPort list option"

record adminNetworkPolicySpec =
  asp_Priority :: int
  asp_Subject :: adminNetworkPolicySubject
  asp_Ingress :: "adminNetworkPolicyIngressRule list"
  asp_Egress :: "adminNetworkPolicyEgressRule list"

text \<open>The rules of a baseline policy have the same fields.\<close>

record baselineAdminNetworkPolicySpec =
  bsp_Subject :: adminNetworkPolicySubject
  bsp_Ingress :: "adminNetworkPolicyIngressRule list"
  bsp_Egress :: "adminNetworkPolicyEgressRule list"

definition convertNamespacedPod :: "namespacedPod \<Rightarrow> anp_namespaced_pod" where
  "convertNamespacedPod pod =
     \<lparr>anp_namespace_selector = ConvertLabelSelectorToProto (Some (nsp_NamespaceSelector pod)),
      anp_pod_selector = ConvertLabelSelectorToProto (Some (nsp_PodSelector pod))\<rparr>"

definition convertANPSubject :: "adminNetworkPolicySubject \<Rightarrow> anp_subject" where
  "convertANPSubject subject =
     \<lparr>ans_namespaces = (case asb_Namespaces subject of None \<Rightarrow> None | Some n \<Rightarrow> ConvertLabelSelectorToProto (Some n)),
      ans_pods = map_option convertNamespacedPod (asb_Pods subject)\<rparr>"

definition convertANPIngressPeer :: "adminNetworkPolicyIngressPeer \<Rightarrow> anp_peer" where
  "convertANPIngressPeer peer =
     \<lparr>anr_namespaces = (case ipr_Namespaces peer of None \<Rightarrow> None | Some n \<Rightarrow> ConvertLabelSelectorToProto (Some n)),
      anr_pods = map_option convertNamespacedPod (ipr_Pods peer), anr_nodes = None, anr_networks = [], anr_domain_names = []\<rparr>"

definition convertANPEgressPeer :: "adminNetworkPolicyEgressPeer \<Rightarrow> anp_peer" where
  "convertANPEgressPeer peer =
     \<lparr>anr_namespaces = (case epr_Namespaces peer of None \<Rightarrow> None | Some n \<Rightarrow> ConvertLabelSelectorToProto (Some n)),
      anr_pods = map_option convertNamespacedPod (epr_Pods peer),
      anr_nodes = (case epr_Nodes peer of None \<Rightarrow> None | Some n \<Rightarrow> ConvertLabelSelectorToProto (Some n)),
      anr_networks = (if epr_Networks peer \<noteq> [] then epr_Networks peer else []),
      anr_domain_names = (if epr_DomainNames peer \<noteq> [] then epr_DomainNames peer else [])\<rparr>"

definition convertAdminNetworkPolicyPorts :: "adminNetworkPolicyPort list \<Rightarrow> anp_port list" where
  "convertAdminNetworkPolicyPorts ports =
     map (\<lambda>p. \<lparr>ant_port_number = map_option (\<lambda>n. (apn_Protocol n, apn_Port n)) (anq_PortNumber p),
               ant_named_port = anq_NamedPort p,
               ant_port_range = map_option (\<lambda>r. (apg_Protocol r, apg_Start r, apg_End r)) (anq_PortRange p)\<rparr>) ports"

definition optional_ports :: "adminNetworkPolicyPort list option \<Rightarrow> anp_port list" where
  "optional_ports ports = (case ports of None \<Rightarrow> [] | Some ps \<Rightarrow> if ps \<noteq> [] then convertAdminNetworkPolicyPorts ps else [])"

definition convertANPIngressRules :: "adminNetworkPolicyIngressRule list \<Rightarrow> anp_rule list" where
  "convertANPIngressRules rules =
     map (\<lambda>rule. \<lparr>anu_name = (if ain_Name rule \<noteq> [] then Some (ain_Name rule) else None), anu_action = ain_Action rule,
                  anu_peers = map convertANPIngressPeer (ain_From rule), anu_ports = optional_ports (ain_Ports rule)\<rparr>) rules"

definition convertANPEgressRules :: "adminNetworkPolicyEgressRule list \<Rightarrow> anp_rule list" where
  "convertANPEgressRules rules =
     map (\<lambda>rule. \<lparr>anu_name = (if aeg_Name rule \<noteq> [] then Some (aeg_Name rule) else None), anu_action = aeg_Action rule,
                  anu_peers = map convertANPEgressPeer (aeg_To rule), anu_ports = optional_ports (aeg_Ports rule)\<rparr>) rules"

definition convertBaselineANPIngressRules :: "adminNetworkPolicyIngressRule list \<Rightarrow> anp_rule list" where
  "convertBaselineANPIngressRules rules =
     map (\<lambda>rule. \<lparr>anu_name = (if ain_Name rule \<noteq> [] then Some (ain_Name rule) else None), anu_action = ain_Action rule,
                  anu_peers = map convertANPIngressPeer (ain_From rule), anu_ports = optional_ports (ain_Ports rule)\<rparr>) rules"

definition convertBaselineANPEgressRules :: "adminNetworkPolicyEgressRule list \<Rightarrow> anp_rule list" where
  "convertBaselineANPEgressRules rules =
     map (\<lambda>rule. \<lparr>anu_name = (if aeg_Name rule \<noteq> [] then Some (aeg_Name rule) else None), anu_action = aeg_Action rule,
                  anu_peers = map convertANPEgressPeer (aeg_To rule), anu_ports = optional_ports (aeg_Ports rule)\<rparr>) rules"

definition convertAdminNetworkPolicyData :: "adminNetworkPolicySpec \<Rightarrow> anp_data" where
  "convertAdminNetworkPolicyData spec =
     \<lparr>and_priority = asp_Priority spec, and_subject = Some (convertANPSubject (asp_Subject spec)),
      and_ingress = (if asp_Ingress spec \<noteq> [] then convertANPIngressRules (asp_Ingress spec) else []),
      and_egress = (if asp_Egress spec \<noteq> [] then convertANPEgressRules (asp_Egress spec) else [])\<rparr>"

definition convertBaselineAdminNetworkPolicyData :: "baselineAdminNetworkPolicySpec \<Rightarrow> banp_data" where
  "convertBaselineAdminNetworkPolicyData spec =
     \<lparr>bad_subject = Some (convertANPSubject (bsp_Subject spec)),
      bad_ingress = (if bsp_Ingress spec \<noteq> [] then convertBaselineANPIngressRules (bsp_Ingress spec) else []),
      bad_egress = (if bsp_Egress spec \<noteq> [] then convertBaselineANPEgressRules (bsp_Egress spec) else [])\<rparr>"

section \<open>OVN egress\<close>

record egressFirewallDestination =
  edt_CIDRSelector :: string
  edt_DNSName :: string
  edt_NodeSelector :: "label_selector option"

record egressFirewallPort =
  ept_Protocol :: string
  ept_Port :: int

record egressFirewallRule =
  erl_Type :: string
  erl_To :: egressFirewallDestination
  erl_Ports :: "egressFirewallPort list"

record egressIPSpec =
  eis_EgressIPs :: "string list"
  eis_NamespaceSelector :: "label_selector option"
  eis_PodSelector :: "label_selector option"

definition convertEgressFirewallDestination :: "egressFirewallDestination \<Rightarrow> egress_fw_destination" where
  "convertEgressFirewallDestination dst =
     \<lparr>efd_cidr_selector = (if edt_CIDRSelector dst \<noteq> [] then Some (edt_CIDRSelector dst) else None),
      efd_dns_name = (if edt_DNSName dst \<noteq> [] then Some (edt_DNSName dst) else None),
      efd_node_selector = (case edt_NodeSelector dst of None \<Rightarrow> None | Some n \<Rightarrow> ConvertLabelSelectorToProto (Some n))\<rparr>"

definition convertEgressFirewallPorts :: "egressFirewallPort list \<Rightarrow> (string \<times> int) list" where
  "convertEgressFirewallPorts ports = map (\<lambda>p. (ept_Protocol p, ept_Port p)) ports"

definition convertEgressFirewallRules :: "egressFirewallRule list \<Rightarrow> egress_fw_rule list" where
  "convertEgressFirewallRules rules =
     map (\<lambda>rule. \<lparr>efr_type = erl_Type rule, efr_to = Some (convertEgressFirewallDestination (erl_To rule)),
                  efr_ports = (if erl_Ports rule \<noteq> [] then convertEgressFirewallPorts (erl_Ports rule) else [])\<rparr>) rules"

definition convertEgressFirewallData :: "egressFirewallRule list \<Rightarrow> egress_fw_rule list" where
  "convertEgressFirewallData egress = (if egress \<noteq> [] then convertEgressFirewallRules egress else [])"

definition convertEgressIPData :: "egressIPSpec \<Rightarrow> egress_ip_data" where
  "convertEgressIPData spec =
     \<lparr>eid_egress_ips = (if eis_EgressIPs spec \<noteq> [] then eis_EgressIPs spec else []),
      eid_namespace_selector = (case eis_NamespaceSelector spec of None \<Rightarrow> None | Some n \<Rightarrow> ConvertLabelSelectorToProto (Some n)),
      eid_pod_selector = (case eis_PodSelector spec of None \<Rightarrow> None | Some n \<Rightarrow> ConvertLabelSelectorToProto (Some n))\<rparr>"

section \<open>The converters\<close>

record crd_decoder =
  cd_MarshalJSON :: "unstructured \<Rightarrow> json_obj result"
  cd_AdminNetworkPolicy :: "json_obj \<Rightarrow> adminNetworkPolicySpec result"
  cd_BaselineAdminNetworkPolicy :: "json_obj \<Rightarrow> baselineAdminNetworkPolicySpec result"
  cd_EgressFirewall :: "json_obj \<Rightarrow> egressFirewallRule list result"
  cd_EgressIP :: "json_obj \<Rightarrow> egressIPSpec result"

text \<open>The end of a converter: the decoded object sets the kind-specific data, an error is returned.\<close>

definition decoded_kind :: "string \<Rightarrow> ('t \<Rightarrow> kind_specific) \<Rightarrow> 't result \<Rightarrow> object_data \<Rightarrow> object_data result" where
  "decoded_kind kind conv decoded md =
     (case decoded of
        Inl e \<Rightarrow> Inl (WrapErr (''deserializing '' @ kind) e)
      | Inr x \<Rightarrow> Inr (md\<lparr>od_kind_specific := Some (conv x)\<rparr>))"

definition ConvertUnstructuredToAdminNetworkPolicyResource :: "crd_decoder \<Rightarrow> unstructured option \<Rightarrow> object_data result" where
  "ConvertUnstructuredToAdminNetworkPolicyResource dec obj =
     (case obj of
        None \<Rightarrow> Inl (ErrMsg ''cannot convert nil object'')
      | Some u \<Rightarrow>
          if un_group u \<noteq> anpAPIGroup then Inl (ErrMsg ''unsupported AdminNetworkPolicy API group'')
          else let md = set_namespace (un_namespace u) (crd_metadata u) in
            case cd_MarshalJSON dec u of
              Inl e \<Rightarrow> Inl (WrapErr (''marshaling '' @ un_kind u @ '' to JSON'') e)
            | Inr json \<Rightarrow>
                if un_kind u = ''AdminNetworkPolicy''
                then decoded_kind (un_kind u) (\<lambda>p. KsAdminNetworkPolicy (convertAdminNetworkPolicyData p))
                       (cd_AdminNetworkPolicy dec json) md
                else if un_kind u = ''BaselineAdminNetworkPolicy''
                then decoded_kind (un_kind u) (\<lambda>p. KsBaselineAdminNetworkPolicy (convertBaselineAdminNetworkPolicyData p))
                       (cd_BaselineAdminNetworkPolicy dec json) md
                else Inl (ErrMsg (''unsupported AdminNetworkPolicy resource kind: '' @ un_kind u)))"

definition ConvertUnstructuredToEgressResource :: "crd_decoder \<Rightarrow> unstructured option \<Rightarrow> object_data result" where
  "ConvertUnstructuredToEgressResource dec obj =
     (case obj of
        None \<Rightarrow> Inl (ErrMsg ''cannot convert nil object'')
      | Some u \<Rightarrow>
          if un_group u \<noteq> ovnAPIGroup then Inl (ErrMsg ''unsupported Egress API group'')
          else let md = set_namespace (un_namespace u) (crd_metadata u) in
            case cd_MarshalJSON dec u of
              Inl e \<Rightarrow> Inl (WrapErr (''marshaling '' @ un_kind u @ '' to JSON'') e)
            | Inr json \<Rightarrow>
                if un_kind u = ''EgressFirewall''
                then decoded_kind (un_kind u) (\<lambda>r. KsEgressFirewall (convertEgressFirewallData r)) (cd_EgressFirewall dec json) md
                else if un_kind u = ''EgressIP''
                then decoded_kind (un_kind u) (\<lambda>e. KsEgressIp (convertEgressIPData e)) (cd_EgressIP dec json) md
                else Inl (ErrMsg (''unsupported Egress resource kind: '' @ un_kind u)))"

section \<open>What a converted admin policy decides\<close>

text \<open>
  A peer of a connection as an admin network policy sees it: its namespace's and its own labels when
  it is a pod, its labels when it is a node, and which networks and domain names it is in.
\<close>

record anp_view =
  av_namespace :: strmap
  av_pod :: "strmap option"
  av_node :: "strmap option"
  av_network :: "string \<Rightarrow> bool"
  av_domain :: "string \<Rightarrow> bool"
  av_protocol :: string
  av_port :: int
  av_port_name :: "string option"

definition pods_match :: "anp_view \<Rightarrow> namespacedPod \<Rightarrow> bool" where
  "pods_match v p \<longleftrightarrow> (case av_pod v of None \<Rightarrow> False
     | Some labels \<Rightarrow> selector_matches (nsp_NamespaceSelector p) (av_namespace v) \<and> selector_matches (nsp_PodSelector p) labels)"

definition namespaces_match :: "anp_view \<Rightarrow> label_selector \<Rightarrow> bool" where
  "namespaces_match v s \<longleftrightarrow> av_pod v \<noteq> None \<and> selector_matches s (av_namespace v)"

definition egress_peer_matches :: "anp_view \<Rightarrow> adminNetworkPolicyEgressPeer \<Rightarrow> bool" where
  "egress_peer_matches v p \<longleftrightarrow>
     pred_option (namespaces_match v) (epr_Namespaces p) \<and> pred_option (pods_match v) (epr_Pods p)
     \<and> pred_option (\<lambda>s. \<exists>labels. av_node v = Some labels \<and> selector_matches s labels) (epr_Nodes p)
     \<and> (epr_Networks p = [] \<or> list_ex (av_network v) (epr_Networks p))
     \<and> (epr_DomainNames p = [] \<or> list_ex (av_domain v) (epr_DomainNames p))"

definition ingress_peer_matches :: "anp_view \<Rightarrow> adminNetworkPolicyIngressPeer \<Rightarrow> bool" where
  "ingress_peer_matches v p \<longleftrightarrow>
     pred_option (namespaces_match v) (ipr_Namespaces p) \<and> pred_option (pods_match v) (ipr_Pods p)"

definition admin_port_matches :: "anp_view \<Rightarrow> adminNetworkPolicyPort \<Rightarrow> bool" where
  "admin_port_matches v q \<longleftrightarrow>
     pred_option (\<lambda>n. apn_Protocol n = av_protocol v \<and> apn_Port n = av_port v) (anq_PortNumber q)
     \<and> pred_option (\<lambda>n. av_port_name v = Some n) (anq_NamedPort q)
     \<and> pred_option (\<lambda>r. apg_Protocol r = av_protocol v \<and> apg_Start r \<le> av_port v \<and> av_port v \<le> apg_End r) (anq_PortRange q)"

text \<open>The first rule that matches a peer and, when it lists ports, a port decides; no rule is no decision.\<close>

definition first_action :: "('r \<Rightarrow> bool) \<Rightarrow> ('r \<Rightarrow> string) \<Rightarrow> 'r list \<Rightarrow> string option" where
  "first_action matches action rules = map_option action (find matches rules)"

definition ports_match :: "anp_view \<Rightarrow> adminNetworkPolicyPort list option \<Rightarrow> bool" where
  "ports_match v ports \<longleftrightarrow> (case ports of None \<Rightarrow> True | Some qs \<Rightarrow> qs = [] \<or> list_ex (admin_port_matches v) qs)"

fun anp_action :: "direction \<Rightarrow> anp_view \<Rightarrow> adminNetworkPolicySpec \<Rightarrow> string option" where
  "anp_action Ingress_dir v spec =
     first_action (\<lambda>r. list_ex (ingress_peer_matches v) (ain_From r) \<and> ports_match v (ain_Ports r)) ain_Action (asp_Ingress spec)"
| "anp_action Egress_dir v spec =
     first_action (\<lambda>r. list_ex (egress_peer_matches v) (aeg_To r) \<and> ports_match v (aeg_Ports r)) aeg_Action (asp_Egress spec)"

text \<open>The same on the message.\<close>

definition pb_pods_match :: "anp_view \<Rightarrow> anp_namespaced_pod \<Rightarrow> bool" where
  "pb_pods_match v p \<longleftrightarrow> (case av_pod v of None \<Rightarrow> False
     | Some labels \<Rightarrow> pred_option (\<lambda>s. pb_selector_matches s (av_namespace v)) (anp_namespace_selector p)
                    \<and> pred_option (\<lambda>s. pb_selector_matches s labels) (anp_pod_selector p))"

definition pb_anp_peer_matches :: "anp_view \<Rightarrow> anp_peer \<Rightarrow> bool" where
  "pb_anp_peer_matches v p \<longleftrightarrow>
     pred_option (\<lambda>s. av_pod v \<noteq> None \<and> pb_selector_matches s (av_namespace v)) (anr_namespaces p)
     \<and> pred_option (pb_pods_match v) (anr_pods p)
     \<and> pred_option (\<lambda>s. \<exists>labels. av_node v = Some labels \<and> pb_selector_matches s labels) (anr_nodes p)
     \<and> (anr_networks p = [] \<or> list_ex (av_network v) (anr_networks p))
     \<and> (anr_domain_names p = [] \<or> list_ex (av_domain v) (anr_domain_names p))"

definition pb_anp_port_matches :: "anp_view \<Rightarrow> anp_port \<Rightarrow> bool" where
  "pb_anp_port_matches v q \<longleftrightarrow>
     pred_option (\<lambda>(proto, port). proto = av_protocol v \<and> port = av_port v) (ant_port_number q)
     \<and> pred_option (\<lambda>n. av_port_name v = Some n) (ant_named_port q)
     \<and> pred_option (\<lambda>(proto, lo, hi). proto = av_protocol v \<and> lo \<le> av_port v \<and> av_port v \<le> hi) (ant_port_range q)"

definition pb_anp_rule_matches :: "anp_view \<Rightarrow> anp_rule \<Rightarrow> bool" where
  "pb_anp_rule_matches v r \<longleftrightarrow> list_ex (pb_anp_peer_matches v) (anu_peers r)
     \<and> (anu_ports r = [] \<or> list_ex (pb_anp_port_matches v) (anu_ports r))"

definition pb_anp_action :: "direction \<Rightarrow> anp_view \<Rightarrow> anp_data \<Rightarrow> string option" where
  "pb_anp_action dir v d =
     first_action (pb_anp_rule_matches v) anu_action (case dir of Ingress_dir \<Rightarrow> and_ingress d | Egress_dir \<Rightarrow> and_egress d)"

lemma pods_convert: "pb_pods_match v (convertNamespacedPod p) = pods_match v p"
  by (simp add: pb_pods_match_def pods_match_def convertNamespacedPod_def split: option.splits)

lemma egress_peer_convert: "pb_anp_peer_matches v (convertANPEgressPeer p) = egress_peer_matches v p"
  by (auto simp: pb_anp_peer_matches_def egress_peer_matches_def convertANPEgressPeer_def namespaces_match_def
      option.pred_map pods_convert comp_def split: option.splits)

lemma ingress_peer_convert: "pb_anp_peer_matches v (convertANPIngressPeer p) = ingress_peer_matches v p"
  by (auto simp: pb_anp_peer_matches_def ingress_peer_matches_def convertANPIngressPeer_def namespaces_match_def
      option.pred_map pods_convert comp_def split: option.splits)

lemma list_ex_convert:
  "(\<And>x. P' (conv x) = P x) \<Longrightarrow> list_ex P' (map conv xs) = list_ex P xs"
  by (induction xs) auto

lemma admin_port_convert:
  "list_ex (pb_anp_port_matches v) (convertAdminNetworkPolicyPorts qs) = list_ex (admin_port_matches v) qs"
  by (simp add: convertAdminNetworkPolicyPorts_def list_ex_iff pb_anp_port_matches_def admin_port_matches_def
      option.pred_map comp_def)

lemma optional_ports_convert:
  "(optional_ports ports = [] \<or> list_ex (pb_anp_port_matches v) (optional_ports ports))
    = ports_match v ports"
  by (auto simp: optional_ports_def ports_match_def admin_port_convert split: option.splits) (simp_all add: convertAdminNetworkPolicyPorts_def)

lemma first_action_map:
  "(\<And>r. matches' (conv r) = matches r) \<Longrightarrow> (\<And>r. action' (conv r) = action r) \<Longrightarrow>
   first_action matches' action' (map conv rules) = first_action matches action rules"
  by (induction rules) (auto simp: first_action_def)


end
