(* ===== verification/Cilium_Apply.thy ===== *)
theory Cilium_Apply
  imports Policy_Read_Back Convert_Cilium
begin

text \<open>
  What is applied for a Cilium policy. \<open>protojson\<close> writes a rule's message with two things Cilium's
  schema does not have: a list of endpoint selectors wrapped in an object, so that an empty list differs
  from none, and an ICMP type named after the branch of its \<open>oneof\<close>. The form is written here
  once, with a switch: \<open>rule_json False\<close> is what \<open>protojson\<close> documents for the messages of
  \<open>k8s_info.proto\<close>, \<open>rule_json True\<close> what Cilium's resource definitions ask for.
  \<open>normalizeProtojsonForCilium\<close> is shown to turn the one into the other. Also here: CIDR groups read back.
\<close>

section \<open>The two JSON forms of a rule\<close>

text \<open>A message that is nil inside a list is written as an empty object.\<close>

definition item_json :: "(pb_label_selector \<Rightarrow> json) \<Rightarrow> pb_label_selector option \<Rightarrow> json" where
  "item_json jsel s = (case s of None \<Rightarrow> JObj [] | Some x \<Rightarrow> jsel x)"

definition endpoints_json :: "bool \<Rightarrow> (pb_label_selector \<Rightarrow> json) \<Rightarrow> pb_label_selector option list \<Rightarrow> json" where
  "endpoints_json crd jsel sels =
     (if crd then JArr (map (item_json jsel) sels) else JObj (list_field ''items'' (item_json jsel) sels))"

definition icmp_type_field :: "bool \<Rightarrow> icmp_type option \<Rightarrow> json_obj" where
  "icmp_type_field crd t =
     (case t of
        None \<Rightarrow> []
      | Some (TypeInt n) \<Rightarrow> [(if crd then ''type'' else ''typeInt'', JNum (uint n))]
      | Some (TypeString s) \<Rightarrow> [(if crd then ''type'' else ''typeString'', JStr s)])"

definition icmp_field_json :: "bool \<Rightarrow> cilium_policy_icmp_field \<Rightarrow> json" where
  "icmp_field_json crd f = JObj (opt_field ''family'' JStr (cif_family f) @ icmp_type_field crd (cif_type f))"

definition icmp_rule_json :: "bool \<Rightarrow> cilium_policy_icmp_field list \<Rightarrow> json" where
  "icmp_rule_json crd fs = JObj (list_field ''fields'' (icmp_field_json crd) fs)"

definition map_field :: "string \<Rightarrow> strmap \<Rightarrow> json_obj" where
  "map_field name m = (if m = fmempty then [] else [(name, JObj (strmap_json m))])"

definition port_rule_json :: "cilium_policy_port list \<Rightarrow> json" where
  "port_rule_json ps =
     JObj (list_field ''ports'' (\<lambda>p. JObj (str_field ''port'' (cpp_port p) @ opt_field ''endPort'' JNum (cpp_end_port p)
       @ opt_field ''protocol'' JStr (cpp_protocol p))) ps)"

definition cidr_set_json :: "(pb_label_selector \<Rightarrow> json) \<Rightarrow> cilium_policy_cidr_set \<Rightarrow> json" where
  "cidr_set_json jsel c =
     JObj (opt_field ''cidr'' JStr (ccs_cidr c) @ opt_field ''cidrGroupRef'' JStr (ccs_cidr_group_ref c)
       @ opt_field ''cidrGroupSelector'' jsel (ccs_cidr_group_selector c) @ list_field ''except'' JStr (ccs_except c))"

definition group_json :: "cilium_policy_aws_group \<Rightarrow> json" where
  "group_json g =
     JObj [(''aws'', JObj (map_field ''labels'' (cag_labels g) @ list_field ''securityGroupsIds'' JStr (cag_security_group_ids g)
       @ list_field ''securityGroupsNames'' JStr (cag_security_group_names g) @ opt_field ''region'' JStr (cag_region g)))]"

definition fqdn_json :: "cilium_policy_fqdn_selector \<Rightarrow> json" where
  "fqdn_json f = JObj (opt_field ''matchName'' JStr (cfq_match_name f) @ opt_field ''matchPattern'' JStr (cfq_match_pattern f))"

definition service_json :: "(pb_label_selector \<Rightarrow> json) \<Rightarrow> cilium_policy_service \<Rightarrow> json" where
  "service_json jsel s =
     JObj (opt_field ''k8sServiceSelector'' (\<lambda>x. JObj (opt_field ''selector'' jsel (css_selector x) @ opt_field ''namespace'' JStr (css_namespace x)))
         (cps_k8s_service_selector s)
       @ opt_field ''k8sService'' (\<lambda>x. JObj (opt_field ''serviceName'' JStr (cks_service_name x) @ opt_field ''namespace'' JStr (cks_namespace x)))
         (cps_k8s_service s))"

definition authentication_json :: "string \<Rightarrow> json" where
  "authentication_json mode = JObj (str_field ''mode'' mode)"

definition ingress_fields :: "bool \<Rightarrow> (pb_label_selector \<Rightarrow> json) \<Rightarrow> cilium_ingress_rule \<Rightarrow> json_obj" where
  "ingress_fields crd jsel r =
     opt_field ''fromEndpoints'' (endpoints_json crd jsel) (cir_from_endpoints r)
       @ list_field ''fromCIDR'' JStr (cir_from_cidr r)
       @ list_field ''fromCIDRSet'' (cidr_set_json jsel) (cir_from_cidr_set r)
       @ list_field ''fromEntities'' JStr (cir_from_entities r)
       @ list_field ''fromGroups'' group_json (cir_from_groups r)
       @ list_field ''fromNodes'' (item_json jsel) (cir_from_nodes r)
       @ list_field ''toPorts'' port_rule_json (cir_to_ports r)
       @ list_field ''icmps'' (icmp_rule_json crd) (cir_icmps r)
       @ opt_field ''authentication'' authentication_json (cir_authentication r)"

definition egress_fields :: "bool \<Rightarrow> (pb_label_selector \<Rightarrow> json) \<Rightarrow> cilium_egress_rule \<Rightarrow> json_obj" where
  "egress_fields crd jsel r =
     opt_field ''toEndpoints'' (endpoints_json crd jsel) (cer_to_endpoints r)
       @ list_field ''toCIDR'' JStr (cer_to_cidr r)
       @ list_field ''toCIDRSet'' (cidr_set_json jsel) (cer_to_cidr_set r)
       @ list_field ''toEntities'' JStr (cer_to_entities r)
       @ list_field ''toFQDNs'' fqdn_json (cer_to_fqdns r)
       @ list_field ''toServices'' (service_json jsel) (cer_to_services r)
       @ list_field ''toGroups'' group_json (cer_to_groups r)
       @ list_field ''toNodes'' (item_json jsel) (cer_to_nodes r)
       @ list_field ''toPorts'' port_rule_json (cer_to_ports r)
       @ list_field ''icmps'' (icmp_rule_json crd) (cer_icmps r)
       @ opt_field ''authentication'' authentication_json (cer_authentication r)"

definition rule_json :: "bool \<Rightarrow> (pb_label_selector \<Rightarrow> json) \<Rightarrow> cilium_policy_rule \<Rightarrow> json_obj" where
  "rule_json crd jsel r =
     opt_field ''endpointSelector'' jsel (cpr_endpoint_selector r)
       @ opt_field ''nodeSelector'' jsel (cpr_node_selector r)
       @ opt_field ''description'' JStr (cpr_description r)
       @ map_field ''labels'' (cpr_labels r)
       @ opt_field ''enableDefaultDeny'' (\<lambda>d. JObj (opt_field ''ingress'' JBool (cdd_ingress d) @ opt_field ''egress'' JBool (cdd_egress d)))
           (cpr_enable_default_deny r)
       @ list_field ''ingress'' (\<lambda>x. JObj (ingress_fields crd jsel x)) (cpr_ingress r)
       @ list_field ''egress'' (\<lambda>x. JObj (egress_fields crd jsel x)) (cpr_egress r)
       @ list_field ''ingressDeny'' (\<lambda>x. JObj (ingress_fields crd jsel x)) (cpr_ingress_deny r)
       @ list_field ''egressDeny'' (\<lambda>x. JObj (egress_fields crd jsel x)) (cpr_egress_deny r)"

section \<open>Updating one field of an object\<close>

named_theorems field_updates \<open>assignment to a field of an object written as a concatenation of fields\<close>

lemma put_append [field_updates]:
  "gm_put k v (xs @ ys) = (if gm_get xs k \<noteq> None then gm_put k v xs @ ys else xs @ gm_put k v ys)"
  by (induction xs) auto

lemma put_field [field_updates]:
  "gm_put k v (list_field k enc xs) = [(k, v)]" "gm_put k v (opt_field k enc' y) = [(k, v)]"
  by (auto simp: list_field_def opt_field_def split: option.splits)

lemma get_map_field [simp]: "gm_get (map_field name m) k = (if k = name \<and> m \<noteq> fmempty then Some (JObj (strmap_json m)) else None)"
  by (simp add: map_field_def)

lemma get_icmp_type_field [simp]:
  "gm_get (icmp_type_field False t) ''typeInt'' = (case t of Some (TypeInt n) \<Rightarrow> Some (JNum (uint n)) | _ \<Rightarrow> None)"
  "gm_get (icmp_type_field False t) ''typeString'' = (case t of Some (TypeString s) \<Rightarrow> Some (JStr s) | _ \<Rightarrow> None)"
  by (simp_all add: icmp_type_field_def split: option.splits icmp_type.splits)

lemma delete_append: "gm_del k (xs @ ys) = gm_del k xs @ gm_del k ys"
  by (simp add: AList.delete_eq)

lemma field_list_Cons: "xs \<noteq> [] \<Longrightarrow> list_field name enc xs = [(name, JArr (map enc xs))]"
  by (simp add: list_field_def)

section \<open>Normalisation\<close>

lemma normalize_icmp_field: "normalizeICMPField (icmp_field_json False f) = icmp_field_json True f"
  by (cases "cif_family f"; cases "cif_type f"; (cases "the (cif_type f)")?)
     (simp_all add: normalizeICMPField_def icmp_field_json_def icmp_type_field_def opt_field_def)

lemma normalize_icmp_entry: "normalizeICMPEntry (icmp_rule_json False fs) = icmp_rule_json True fs"
  by (cases "fs = []")
     (simp_all add: normalizeICMPEntry_def icmp_rule_json_def normalize_icmp_field list_field_def comp_def)

lemma endpoints_unwrap:
  "(case endpoints_json False jsel sels of
      JObj w \<Rightarrow> (case gm_get w ''items'' of Some items \<Rightarrow> items | None \<Rightarrow> JArr []) | j \<Rightarrow> j) = endpoints_json True jsel sels"
  by (simp add: endpoints_json_def)

lemma opt_field_Some: "opt_field name enc (Some x) = [(name, enc x)]"
  by (simp add: opt_field_def)

lemma normalize_ingress_rule:
  "normalizeRule (JObj (ingress_fields False jsel r)) = JObj (ingress_fields True jsel r)"
  by (cases "cir_from_endpoints r"; cases "cir_icmps r = []")
     (simp_all add: normalizeRule_def normalizeICMPTypeFields_def unwrapEndpoints_def ingress_fields_def map_add_def
       endpoints_json_def field_updates field_list_Cons opt_field_Some normalize_icmp_entry comp_def,
      simp_all add: opt_field_def list_field_def)

lemma normalize_egress_rule:
  "normalizeRule (JObj (egress_fields False jsel r)) = JObj (egress_fields True jsel r)"
  by (cases "cer_to_endpoints r"; cases "cer_icmps r = []")
     (simp_all add: normalizeRule_def normalizeICMPTypeFields_def unwrapEndpoints_def egress_fields_def map_add_def
       endpoints_json_def field_updates field_list_Cons opt_field_Some normalize_icmp_entry comp_def,
      simp_all add: opt_field_def list_field_def)

lemma normalize_rule_field:
  assumes "gm_get pre f = None" and "\<And>x. normalizeRule (enc x) = enc' x"
  shows "normalizeRuleField f (pre @ list_field f enc xs @ post) =
    (if xs = [] then normalizeRuleField f (pre @ post) else pre @ list_field f enc' xs @ post)"
  using assms
  by (cases "xs = []") (simp_all add: normalizeRuleField_def map_add_def field_updates list_field_def comp_def)

lemma normalize_absent_field: "gm_get m f = None \<Longrightarrow> normalizeRuleField f m = m"
  by (simp add: normalizeRuleField_def)

lemma normalize_rule_json: "normalizeProtojsonForCilium (rule_json False jsel r) = rule_json True jsel r"
proof -
  define pre where "pre = opt_field ''endpointSelector'' jsel (cpr_endpoint_selector r)
    @ opt_field ''nodeSelector'' jsel (cpr_node_selector r) @ opt_field ''description'' JStr (cpr_description r)
    @ map_field ''labels'' (cpr_labels r)
    @ opt_field ''enableDefaultDeny'' (\<lambda>d. JObj (opt_field ''ingress'' JBool (cdd_ingress d) @ opt_field ''egress'' JBool (cdd_egress d)))
        (cpr_enable_default_deny r)"
  define ing where "ing c f xs = list_field f (\<lambda>x. JObj (ingress_fields c jsel x)) xs" for c f xs
  define eg where "eg c f xs = list_field f (\<lambda>x. JObj (egress_fields c jsel x)) xs" for c f xs
  have form: "rule_json c jsel r = pre @ ing c ''ingress'' (cpr_ingress r) @ eg c ''egress'' (cpr_egress r)
      @ ing c ''ingressDeny'' (cpr_ingress_deny r) @ eg c ''egressDeny'' (cpr_egress_deny r)" for c
    by (simp add: rule_json_def pre_def ing_def eg_def)
  have ing: "normalizeRuleField f (xs @ ing False f rs @ ys) = xs @ ing True f rs @ ys"
    if "gm_get xs f = None" "gm_get ys f = None" for f xs rs ys
    using normalize_rule_field [of xs f "\<lambda>x. JObj (ingress_fields False jsel x)" "\<lambda>x. JObj (ingress_fields True jsel x)" rs ys] that
    by (simp add: ing_def normalize_ingress_rule normalize_absent_field map_add_def) (simp add: list_field_def)
  have eg: "normalizeRuleField f (xs @ eg False f rs @ ys) = xs @ eg True f rs @ ys"
    if "gm_get xs f = None" "gm_get ys f = None" for f xs rs ys
    using normalize_rule_field [of xs f "\<lambda>x. JObj (egress_fields False jsel x)" "\<lambda>x. JObj (egress_fields True jsel x)" rs ys] that
    by (simp add: eg_def normalize_egress_rule normalize_absent_field map_add_def) (simp add: list_field_def)
  have get: "gm_get (ing c f xs) k = None" "gm_get (eg c f ys) k = None" if "k \<noteq> f" for c f k xs ys
    using that by (simp_all add: ing_def eg_def)
  have pre: "gm_get pre f = None" if "f \<in> {''ingress'', ''ingressDeny'', ''egress'', ''egressDeny''}" for f
    using that by (auto simp: pre_def map_add_def)
  show ?thesis
    using ing [where f = "''ingress''" and xs = pre]
      ing [where f = "''ingressDeny''" and xs = "pre @ ing True ''ingress'' (cpr_ingress r) @ eg False ''egress'' (cpr_egress r)"]
      eg [where f = "''egress''" and xs = "pre @ ing True ''ingress'' (cpr_ingress r)"]
      eg [where f = "''egressDeny''" and ys = "[]"
        and xs = "pre @ ing True ''ingress'' (cpr_ingress r) @ eg True ''egress'' (cpr_egress r) @ ing True ''ingressDeny'' (cpr_ingress_deny r)"]
    by (simp add: normalizeProtojsonForCilium_def form map_add_def pre get)
qed

section \<open>The applied spec\<close>

lemma marshal_specs_list:
  "(\<And>r. r \<in> set specs \<Longrightarrow> protoToMap lib (MsgCiliumPolicyRule r) = Inr (rule_json False jsel r)) \<Longrightarrow>
   marshalSpecsList lib specs = Inr (map (\<lambda>r. JObj (rule_json True jsel r)) specs)"
  by (induction specs) (simp_all add: normalize_rule_json)

definition cilium_spec_fields :: "(pb_label_selector \<Rightarrow> json) \<Rightarrow> cilium_policy_rule list \<Rightarrow> json_obj" where
  "cilium_spec_fields jsel specs =
     (case specs of
        [] \<Rightarrow> []
      | [r] \<Rightarrow> [(''spec'', JObj (rule_json True jsel r))]
      | _ \<Rightarrow> [(''specs'', JArr (map (\<lambda>r. JObj (rule_json True jsel r)) specs))])"

lemma marshal_policy_specs:
  assumes "\<And>r. r \<in> set specs \<Longrightarrow> protoToMap lib (MsgCiliumPolicyRule r) = Inr (rule_json False jsel r)"
  shows "marshalPolicySpecs lib specs = Inr (cilium_spec_fields jsel specs)"
proof (cases specs)
  case (Cons r rs)
  then show ?thesis
    using assms marshal_specs_list [of rs lib jsel]
    by (cases rs) (simp_all add: marshalPolicySpecs_def cilium_spec_fields_def specField_def normalize_rule_json)
qed (simp add: marshalPolicySpecs_def cilium_spec_fields_def)

text \<open>
  C17: the object applied for a Cilium policy holds its rules in the form of Cilium's
  resource definitions: one rule under \<open>spec\<close>, several under \<open>specs\<close> in order, none under either. In
  every ingress, egress and deny rule the endpoint selectors are a plain list, an empty list staying
  apart from an absent one, and every ICMP type is under \<open>type\<close>, as the number or the name that
  was configured; every other field is as \<open>protojson\<close> writes it.
\<close>

theorem cilium_spec_in_schema:
  assumes "\<And>r. r \<in> set specs \<Longrightarrow> protoToMap lib (MsgCiliumPolicyRule r) = Inr (rule_json False jsel r)"
    and "co_kind_specific d = Some (CksCiliumNetworkPolicy specs) \<or> co_kind_specific d = Some (CksCiliumClusterwideNetworkPolicy specs)"
  shows "\<exists>obj rn. ConvertToApplyObject lib (Some d) grp ver = Inr (obj, rn)
    \<and> gm_get obj ''spec'' = (case specs of [r] \<Rightarrow> Some (JObj (rule_json True jsel r)) | _ \<Rightarrow> None)
    \<and> gm_get obj ''specs'' = (if length specs \<ge> 2 then Some (JArr (map (\<lambda>r. JObj (rule_json True jsel r)) specs)) else None)"
  using assms(2) marshal_policy_specs [OF assms(1), of specs]
  by (auto simp: ConvertToApplyObject_def marshalConfiguredObjectSpecs_def cilium_spec_fields_def split: list.splits)

definition sample_rule :: cilium_policy_rule where
  "sample_rule = \<lparr>cpr_endpoint_selector = None, cpr_node_selector = None, cpr_description = None, cpr_labels = fmempty,
     cpr_enable_default_deny = None, cpr_ingress = [], cpr_egress = [],
     cpr_ingress_deny = [\<lparr>cir_from_endpoints = Some [], cir_from_cidr = [], cir_from_cidr_set = [], cir_from_entities = [],
       cir_from_groups = [], cir_from_nodes = [], cir_to_ports = [],
       cir_icmps = [[\<lparr>cif_family = Some ''IPv4'', cif_type = Some (TypeInt 8)\<rparr>]], cir_authentication = None\<rparr>],
     cpr_egress_deny = []\<rparr>"

theorem cilium_spec_in_schema_witness:
  "\<exists>obj rn. ConvertToApplyObject \<lparr>jl_marshal = (\<lambda>_. Inr []), jl_unmarshal = (\<lambda>_. Inr (rule_json False selector_json sample_rule))\<rparr>
       (Some \<lparr>co_annotations = None, co_labels = None, co_name = ''no-ping'', co_namespace = None,
              co_kind_specific = Some (CksCiliumClusterwideNetworkPolicy [sample_rule])\<rparr>) ''cilium.io'' ''v2'' = Inr (obj, rn)
     \<and> gm_get obj ''spec'' = Some (JObj [(''ingressDeny'', JArr [JObj [(''fromEndpoints'', JArr []),
          (''icmps'', JArr [JObj [(''fields'', JArr [JObj [(''family'', JStr ''IPv4''), (''type'', JNum 8)]])]])]])])"
proof -
  have form: "rule_json True selector_json sample_rule = [(''ingressDeny'', JArr [JObj [(''fromEndpoints'', JArr []),
          (''icmps'', JArr [JObj [(''fields'', JArr [JObj [(''family'', JStr ''IPv4''), (''type'', JNum 8)]])]])]])]"
    by (simp add: rule_json_def sample_rule_def ingress_fields_def opt_field_def list_field_def map_field_def endpoints_json_def
        icmp_rule_json_def icmp_field_json_def icmp_type_field_def)
  show ?thesis
    using cilium_spec_in_schema [of "[sample_rule]" "\<lparr>jl_marshal = (\<lambda>_. Inr []), jl_unmarshal = (\<lambda>_. Inr (rule_json False selector_json sample_rule))\<rparr>"
        selector_json "\<lparr>co_annotations = None, co_labels = None, co_name = ''no-ping'', co_namespace = None,
              co_kind_specific = Some (CksCiliumClusterwideNetworkPolicy [sample_rule])\<rparr>" "''cilium.io''" "''v2''"]
    by (simp add: protoToMap_def form) blast
qed

section \<open>CIDR groups read back\<close>

theorem applied_cidr_group_reads_back:
  assumes "protoToMap lib (MsgCiliumCIDRGroup cidrs) = Inr (list_field ''externalCIDRs'' JStr cidrs)"
    and cfg: "co_kind_specific d = Some (CksCiliumCidrGroup (Some cidrs))" "co_namespace d = None"
    and sent: "ConvertToApplyObject lib (Some d) ciliumAPIGroup ver = Inr (obj, rn)"
    and stored: "stored_as obj u" "un_group u = ciliumAPIGroup" "cy_MarshalJSON dec u = Inr (un_object u)"
  shows "\<exists>md c. ConvertUnstructuredToCiliumResource dec (Some u) = Inr md \<and> BuildConfiguredFromMetadata md = Inr c \<and> proto_equal d c"
proof -
  note meta = stored_metadata [OF stored(1) sent]
  have kind: "un_kind u = ''CiliumCIDRGroup''"
    using meta(5) cfg(1) by (simp add: ExtractKind_def)
  have "gm_get obj ''spec'' = Some (JObj (list_field ''externalCIDRs'' JStr cidrs))"
    using assms(1) sent by (auto simp: ConvertToApplyObject_def marshalConfiguredObjectSpecs_def marshalSpec_def specField_def cfg(1))
  then have "gm_get (un_object u) ''spec'' = Some (JObj (list_field ''externalCIDRs'' JStr cidrs))"
    using stored(1) by (simp add: stored_as_def)
  then have "dec_ciliumCIDRGroup (un_object u) = Inr cidrs"
    using dec_items_map [of cidrs dec_string JStr "\<lambda>x. x"]
    by (auto simp: dec_ciliumCIDRGroup_def dec_ciliumCIDRGroupSpec_def dec_field_def)
  then show ?thesis
    using meta cfg stored kind
    by (simp add: ConvertUnstructuredToCiliumResource_def Let_def convertCiliumCIDRGroupData_def set_namespace_def
        BuildConfiguredFromMetadata_def proto_equal_def crd_metadata_def)
qed

end
