(* ===== verification/Collector_OVNK.thy ===== *)
theory Collector_OVNK
  imports Collector_Sink AWS_Flow_Log IP_Text
begin

text \<open>
  \<open>collector/ovnk.go\<close>: flows of OVN-Kubernetes, received as IPFIX messages over UDP. Decoding a message
  into data records is library code, so a message is here what the decoder returns. Field values are
  bytes; \<open>IP_Text\<close> holds the text of an address. A Go panic is an outcome.
\<close>

section \<open>Fields\<close>

definition ParseIPv4Address :: "byte list \<Rightarrow> string result" where
  "ParseIPv4Address b =
     (if length b < 4 then Inl (ErrMsg ''insufficient data to parse IPv4 address'') else Inr (ipv4_text (take 4 b)))"

definition ParseIPv6Address :: "byte list \<Rightarrow> string result" where
  "ParseIPv6Address b =
     (if length b < 16 then Inl (ErrMsg ''insufficient data to parse IPv6 address'')
      else if length b \<noteq> 16 then Inl (ErrMsg ''invalid IPv6 address'')
      else Inr (IP_String b))"

definition be_value :: "byte list \<Rightarrow> nat" where
  "be_value bs = fold (\<lambda>b n. n * 256 + unat b) bs 0"

definition ParsePort :: "byte list \<Rightarrow> 16 word result" where
  "ParsePort decodedValue =
     (if length decodedValue < 2 then Inl (ErrMsg ''insufficient data to parse port'')
      else Inr (word_of_nat (be_value (take 2 decodedValue))))"

definition ParseProtocol :: "byte list \<Rightarrow> string result" where
  "ParseProtocol decodedValue =
     (case decodedValue of
        [] \<Rightarrow> Inl (ErrMsg ''insufficient data to parse protocol'')
      | b # _ \<Rightarrow>
          if b = 1 then Inr ''icmp'' else if b = 6 then Inr ''tcp'' else if b = 17 then Inr ''udp''
          else if b = 132 then Inr ''sctp'' else Inl (ErrMsg ''unknown protocol''))"

definition ParseIPVersion :: "byte list \<Rightarrow> string result" where
  "ParseIPVersion decodedValue =
     (case decodedValue of
        [] \<Rightarrow> Inl (ErrMsg ''insufficient data to parse IP version'')
      | b # _ \<Rightarrow> if b = 4 then Inr ''ipv4'' else if b = 6 then Inr ''ipv6'' else Inl (ErrMsg ''unknown IP version''))"

text \<open>\<open>binary.BigEndian.Uint32\<close> indexes the slice and panics when it is too short.\<close>

definition BigEndian_Uint32 :: "byte list \<Rightarrow> u32 outcome" where
  "BigEndian_Uint32 b =
     (if length b < 4 then Panics ''index out of range'' else Returns (word_of_nat (be_value (take 4 b))))"

section \<open>Records\<close>

record OVNKFlow =
  ok_SourceIP :: string
  ok_DestinationIP :: string
  ok_SourcePort :: "16 word"
  ok_DestinationPort :: "16 word"
  ok_Protocol :: string
  ok_IPVersion :: string
  ok_StartTimestamp :: "int option"
  ok_EndTimestamp :: "int option"

definition zero_flow :: OVNKFlow where
  "zero_flow = \<lparr>ok_SourceIP = [], ok_DestinationIP = [], ok_SourcePort = 0, ok_DestinationPort = 0, ok_Protocol = [],
     ok_IPVersion = [], ok_StartTimestamp = None, ok_EndTimestamp = None\<rparr>"

text \<open>A field: its type and its value, \<open>None\<close> when the decoder gives something other than bytes.\<close>

type_synonym ipfix_field = "nat \<times> byte list option"

definition set_field :: "('a \<Rightarrow> OVNKFlow \<Rightarrow> OVNKFlow) \<Rightarrow> 'a result \<Rightarrow> OVNKFlow \<Rightarrow> OVNKFlow result outcome" where
  "set_field upd r flow = (case r of Inl e \<Rightarrow> Returns (Inl e) | Inr x \<Rightarrow> Returns (Inr (upd x flow)))"

definition delta_time :: "u32 \<Rightarrow> u32 \<Rightarrow> int" where
  "delta_time exportTime delta = uint exportTime * 1000000000 - uint delta * 1000"

definition process_field :: "u32 \<Rightarrow> ipfix_field \<Rightarrow> OVNKFlow \<Rightarrow> OVNKFlow result outcome" where
  "process_field exportTime field flow =
     (case snd field of
        None \<Rightarrow> Returns (Inl (ErrMsg ''field value is not an array of bytes''))
      | Some b \<Rightarrow>
          if fst field = 8 then set_field (\<lambda>x. ok_SourceIP_update (\<lambda>_. x)) (ParseIPv4Address b) flow
          else if fst field = 12 then set_field (\<lambda>x. ok_DestinationIP_update (\<lambda>_. x)) (ParseIPv4Address b) flow
          else if fst field = 27 then set_field (\<lambda>x. ok_SourceIP_update (\<lambda>_. x)) (ParseIPv6Address b) flow
          else if fst field = 28 then set_field (\<lambda>x. ok_DestinationIP_update (\<lambda>_. x)) (ParseIPv6Address b) flow
          else if fst field = 7 then set_field (\<lambda>x. ok_SourcePort_update (\<lambda>_. x)) (ParsePort b) flow
          else if fst field = 11 then set_field (\<lambda>x. ok_DestinationPort_update (\<lambda>_. x)) (ParsePort b) flow
          else if fst field = 4 then set_field (\<lambda>x. ok_Protocol_update (\<lambda>_. x)) (ParseProtocol b) flow
          else if fst field = 60 then set_field (\<lambda>x. ok_IPVersion_update (\<lambda>_. x)) (ParseIPVersion b) flow
          else if fst field = 158 then
            map_outcome (\<lambda>d. Inr (flow\<lparr>ok_StartTimestamp := Some (delta_time exportTime d)\<rparr>)) (BigEndian_Uint32 b)
          else if fst field = 159 then
            map_outcome (\<lambda>d. Inr (flow\<lparr>ok_EndTimestamp := Some (delta_time exportTime d)\<rparr>)) (BigEndian_Uint32 b)
          else Returns (Inr flow))"

fun fields_loop :: "u32 \<Rightarrow> ipfix_field list \<Rightarrow> OVNKFlow \<Rightarrow> OVNKFlow result outcome" where
  "fields_loop exportTime [] flow = Returns (Inr flow)"
| "fields_loop exportTime (field # fs) flow =
     (case process_field exportTime field flow of
        Panics m \<Rightarrow> Panics m
      | Returns (Inl e) \<Rightarrow> Returns (Inl e)
      | Returns (Inr flow') \<Rightarrow> fields_loop exportTime fs flow')"

definition ProcessDataRecord :: "ipfix_field list \<Rightarrow> u32 \<Rightarrow> OVNKFlow result outcome" where
  "ProcessDataRecord dataRecord exportTime = fields_loop exportTime dataRecord zero_flow"

section \<open>Messages\<close>

text \<open>The five-tuple flow of a processed record, or the error for which it is skipped.\<close>

definition ovnk_five_tuple :: "OVNKFlow \<Rightarrow> five_tuple_flow result" where
  "ovnk_five_tuple f =
     (case CreateLayer3Message (ok_SourceIP f) (ok_DestinationIP f) (ok_IPVersion f) of
        Inl e \<Rightarrow> Inl e
      | Inr layer3Message \<Rightarrow>
          (case CreateLayer4Message (ok_Protocol f) (ucast (ok_SourcePort f)) (ucast (ok_DestinationPort f)) (ok_IPVersion f) of
             Inl e \<Rightarrow> Inl e
           | Inr layer4Message \<Rightarrow>
               Inr \<lparr>ft_layer3 = Some layer3Message, ft_layer4 = Some layer4Message, ft_timestamp = ok_StartTimestamp f\<rparr>))"

text \<open>Why the processing of a message ends early. Each record comes with the answer of the flow cache.\<close>

datatype ipfix_stop = StopErr go_error | StopPanic string

type_synonym ipfix_record = "ipfix_field list \<times> go_error option"

datatype ipfix_flow_set = DataFlowSet "ipfix_record list" | OtherFlowSet

fun records_loop :: "u32 \<Rightarrow> ipfix_record list \<Rightarrow> collector_sink \<Rightarrow> ipfix_stop option \<times> collector_sink" where
  "records_loop exportTime [] sink = (None, sink)"
| "records_loop exportTime ((dataRecord, answer) # rs) sink =
     (case ProcessDataRecord dataRecord exportTime of
        Panics m \<Rightarrow> (Some (StopPanic m), sink)
      | Returns (Inl _) \<Rightarrow> records_loop exportTime rs sink
      | Returns (Inr ovnkFlow) \<Rightarrow>
          (case ovnk_five_tuple ovnkFlow of
             Inl _ \<Rightarrow> records_loop exportTime rs sink
           | Inr f \<Rightarrow>
               (case sink_cache answer (FiveTupleFlow f) sink of
                  (Some e, sink') \<Rightarrow> (Some (StopErr e), sink')
                | (None, sink') \<Rightarrow> records_loop exportTime rs sink')))"

fun flow_sets_loop :: "u32 \<Rightarrow> ipfix_flow_set list \<Rightarrow> collector_sink \<Rightarrow> ipfix_stop option \<times> collector_sink" where
  "flow_sets_loop exportTime [] sink = (None, sink)"
| "flow_sets_loop exportTime (OtherFlowSet # sets) sink = flow_sets_loop exportTime sets sink"
| "flow_sets_loop exportTime (DataFlowSet rs # sets) sink =
     (case records_loop exportTime rs sink of
        (Some e, sink') \<Rightarrow> (Some e, sink')
      | (None, sink') \<Rightarrow> flow_sets_loop exportTime sets sink')"

datatype decoded_message = IPFIXPacket u32 "ipfix_flow_set list" | OtherMessage

definition processIPFIXMessage :: "decoded_message result \<Rightarrow> collector_sink \<Rightarrow> ipfix_stop option \<times> collector_sink" where
  "processIPFIXMessage decodedMessage sink =
     (case decodedMessage of
        Inl e \<Rightarrow> (Some (StopErr e), sink)
      | Inr OtherMessage \<Rightarrow> (None, sink)
      | Inr (IPFIXPacket exportTime flowSets) \<Rightarrow> flow_sets_loop exportTime flowSets sink)"

section \<open>The listener\<close>

text \<open>
  One turn of the reading goroutine: whether the context is done, and the packet read, as decoded, or the
  read's error. The goroutine goes on after a message that fails, returns when the context is done or a
  read fails, and a panic ends the program.
\<close>

record ipfix_turn =
  it_done :: bool
  it_read :: "decoded_message result result"

datatype reader_state = Reading | ReaderReturned | ProgramCrashed string

fun reader_loop :: "ipfix_turn list \<Rightarrow> collector_sink \<Rightarrow> reader_state \<times> collector_sink" where
  "reader_loop [] sink = (Reading, sink)"
| "reader_loop (t # ts) sink =
     (if it_done t then (ReaderReturned, sink)
      else case it_read t of
             Inl _ \<Rightarrow> (ReaderReturned, sink)
           | Inr packet \<Rightarrow>
               (case processIPFIXMessage packet sink of
                  (Some (StopPanic m), sink') \<Rightarrow> (ProgramCrashed m, sink')
                | (_, sink') \<Rightarrow> reader_loop ts sink'))"

text \<open>The template file, as read, and the decoding of it, which leaves its templates in the decoder's state.\<close>

definition NewTemplateSystem :: "string result \<Rightarrow> (string \<Rightarrow> go_error option) \<Rightarrow> unit result" where
  "NewTemplateSystem file decodeMessage =
     (case file of
        Inl e \<Rightarrow> Inl e
      | Inr packet \<Rightarrow> (case decodeMessage packet of Some e \<Rightarrow> Inl e | None \<Rightarrow> Inr ()))"

text \<open>
  \<open>RunIPFIXCollector\<close> with the error of opening the socket, which is fatal, and the template system: it returns
  only when the context is done, whatever the goroutine does.
\<close>

definition RunIPFIXCollector ::
  "go_error option \<Rightarrow> unit result \<Rightarrow> bool \<Rightarrow> ipfix_turn list \<Rightarrow> collector_sink \<Rightarrow> go_error option \<times> reader_state \<times> collector_sink" where
  "RunIPFIXCollector listenErr templateSystem cancelled ts sink =
     (case listenErr of
        Some _ \<Rightarrow> (None, ProgramCrashed ''Failed to listen on IPFIX port'', sink)
      | None \<Rightarrow>
          (case templateSystem of
             Inl e \<Rightarrow> (Some e, ReaderReturned, sink)
           | Inr _ \<Rightarrow> (if cancelled then Some CtxErr else None, reader_loop ts sink)))"

section \<open>Messages put every complete record into the cache\<close>

definition record_flow :: "u32 \<Rightarrow> ipfix_record \<Rightarrow> flow option" where
  "record_flow exportTime r =
     (case ProcessDataRecord (fst r) exportTime of
        Returns (Inr f) \<Rightarrow> (case ovnk_five_tuple f of Inl _ \<Rightarrow> None | Inr g \<Rightarrow> Some (FiveTupleFlow g))
      | _ \<Rightarrow> None)"

definition record_stops :: "u32 \<Rightarrow> ipfix_record \<Rightarrow> ipfix_stop option" where
  "record_stops exportTime r =
     (case ProcessDataRecord (fst r) exportTime of
        Panics m \<Rightarrow> Some (StopPanic m)
      | Returns _ \<Rightarrow> if record_flow exportTime r = None then None else map_option StopErr (snd r))"

interpretation ipfix_records: collector_loop "records_loop t" "record_stops t" "record_flow t" for t
proof
  show "records_loop t (r # rs) s =
      (case record_stops t r of
         Some e \<Rightarrow> (Some e, s)
       | None \<Rightarrow> records_loop t rs (case record_flow t r of None \<Rightarrow> s | Some f \<Rightarrow> sink_add f s))" for r rs s
    by (cases r; cases "snd r")
       (auto simp: record_stops_def record_flow_def split: outcome.splits sum.splits)
qed simp

fun data_records :: "ipfix_flow_set \<Rightarrow> ipfix_record list" where
  "data_records (DataFlowSet rs) = rs"
| "data_records OtherFlowSet = []"

lemma records_loop_append:
  "records_loop t (xs @ ys) s = (case records_loop t xs s of (Some e, s') \<Rightarrow> (Some e, s') | (None, s') \<Rightarrow> records_loop t ys s')"
  by (induction xs arbitrary: s) (auto simp: ipfix_records.loop_Cons split: option.splits)

lemma flow_sets_flat: "flow_sets_loop t sets s = records_loop t (concat (map data_records sets)) s"
proof (induction sets arbitrary: s)
  case (Cons fs sets)
  then show ?case by (cases fs) (auto simp: records_loop_append split: prod.splits option.splits)
qed simp

text \<open>
  From an IPFIX message the collector caches exactly the flows its data records
  describe, in order and once each, and counts them; records that do not describe a flow are skipped and
  hide no other record. Processing stops early only where the flow cache refuses a flow or a record makes
  the program panic, with everything before it cached.
\<close>

theorem ipfix_message_exact:
  "processIPFIXMessage (Inr (IPFIXPacket t sets)) sink =
     (let records = concat (map data_records sets); ok = (\<lambda>r. record_stops t r = None)
      in (case dropWhile ok records of [] \<Rightarrow> None | r # _ \<Rightarrow> record_stops t r,
          sink_adds (List.map_filter (record_flow t) (takeWhile ok records)) sink))"
  using ipfix_records.loop_result [of t "concat (map data_records sets)" sink]
  by (simp add: processIPFIXMessage_def flow_sets_flat ipfix_records.handled_def Let_def)

section \<open>Records decode whatever the order of their fields\<close>

text \<open>Fields of known type whose value has the length and range their type asks for.\<close>

fun field_ok :: "ipfix_field \<Rightarrow> bool" where
  "field_ok (ty, None) \<longleftrightarrow> False"
| "field_ok (ty, Some b) \<longleftrightarrow>
     (ty \<in> {8, 12} \<longrightarrow> length b \<ge> 4) \<and> (ty \<in> {27, 28} \<longrightarrow> length b = 16) \<and> (ty \<in> {7, 11} \<longrightarrow> length b \<ge> 2)
     \<and> (ty = 4 \<longrightarrow> b \<noteq> [] \<and> hd b \<in> {1, 6, 17, 132}) \<and> (ty = 60 \<longrightarrow> b \<noteq> [] \<and> hd b \<in> {4, 6})
     \<and> (ty \<in> {158, 159} \<longrightarrow> length b \<ge> 4)"

text \<open>What a field contributes to the flow.\<close>

definition source_text :: "ipfix_field \<Rightarrow> string" where
  "source_text f = (if fst f = 8 then ipv4_text (take 4 (the (snd f))) else IP_String (the (snd f)))"

definition destination_text :: "ipfix_field \<Rightarrow> string" where
  "destination_text f = (if fst f = 12 then ipv4_text (take 4 (the (snd f))) else IP_String (the (snd f)))"

definition port_value :: "ipfix_field \<Rightarrow> 16 word" where
  "port_value f = word_of_nat (be_value (take 2 (the (snd f))))"

definition protocol_name :: "ipfix_field \<Rightarrow> string" where
  "protocol_name f = (let b = hd (the (snd f)) in if b = 1 then ''icmp'' else if b = 6 then ''tcp'' else if b = 17 then ''udp'' else ''sctp'')"

definition version_name :: "ipfix_field \<Rightarrow> string" where
  "version_name f = (if hd (the (snd f)) = 4 then ''ipv4'' else ''ipv6'')"

definition time_value :: "u32 \<Rightarrow> ipfix_field \<Rightarrow> int" where
  "time_value t f = uint t * 1000000000 - uint (word_of_nat (be_value (take 4 (the (snd f)))) :: u32) * 1000"

definition field_upd :: "u32 \<Rightarrow> ipfix_field \<Rightarrow> OVNKFlow \<Rightarrow> OVNKFlow" where
  "field_upd t f flow = flow
     \<lparr>ok_SourceIP := (if fst f \<in> {8, 27} then source_text f else ok_SourceIP flow),
      ok_DestinationIP := (if fst f \<in> {12, 28} then destination_text f else ok_DestinationIP flow),
      ok_SourcePort := (if fst f = 7 then port_value f else ok_SourcePort flow),
      ok_DestinationPort := (if fst f = 11 then port_value f else ok_DestinationPort flow),
      ok_Protocol := (if fst f = 4 then protocol_name f else ok_Protocol flow),
      ok_IPVersion := (if fst f = 60 then version_name f else ok_IPVersion flow),
      ok_StartTimestamp := (if fst f = 158 then Some (time_value t f) else ok_StartTimestamp flow),
      ok_EndTimestamp := (if fst f = 159 then Some (time_value t f) else ok_EndTimestamp flow)\<rparr>"

lemmas field_parsers = ParseIPv4Address_def ParseIPv6Address_def ParsePort_def ParseProtocol_def ParseIPVersion_def BigEndian_Uint32_def

lemma field_cases:
  fixes ty :: nat
  obtains "ty = 8" | "ty = 12" | "ty = 27" | "ty = 28" | "ty = 7" | "ty = 11" | "ty = 4" | "ty = 60" | "ty = 158" | "ty = 159"
    | "ty \<notin> {8, 12, 27, 28, 7, 11, 4, 60, 158, 159}"
  by fastforce

lemma process_field_ok:
  assumes "field_ok f"
  shows "process_field t f flow = Returns (Inr (field_upd t f flow))"
proof -
  obtain ty b where f: "f = (ty, Some b)" using assms by (cases f; cases "snd f") auto
  show ?thesis
    using assms unfolding f
    by (cases ty rule: field_cases; cases b)
       (auto simp: process_field_def set_field_def field_upd_def field_parsers source_text_def destination_text_def port_value_def
         protocol_name_def version_name_def time_value_def delta_time_def)
qed

lemma fields_loop_ok: "list_all field_ok fs \<Longrightarrow> fields_loop t fs flow = Returns (Inr (fold (field_upd t) fs flow))"
  by (induction fs arbitrary: flow) (simp_all add: process_field_ok)

text \<open>A component of the flow that only fields of the types \<open>T\<close> set, when the record has one such field.\<close>

lemma fold_component:
  assumes "\<And>f x. fst f \<in> T \<Longrightarrow> c (upd f x) = v f" and "\<And>f x. fst f \<notin> T \<Longrightarrow> c (upd f x) = c x"
    and "f \<in> set fs" and "fst f \<in> T" and "\<And>g. g \<in> set fs \<Longrightarrow> fst g \<in> T \<Longrightarrow> g = f"
  shows "c (fold upd fs x) = v f"
proof -
  have main: "c (fold upd fs x) = (if \<exists>g \<in> set fs. fst g \<in> T then v f else c x)"
    if "\<And>g. g \<in> set fs \<Longrightarrow> fst g \<in> T \<Longrightarrow> g = f" for fs x
    using that
  proof (induction fs arbitrary: x)
    case (Cons g fs)
    show ?case
    proof (cases "fst g \<in> T")
      case True
      then have "v g = v f" using Cons.prems [of g] by simp
      moreover have "c (fold upd fs (upd g x)) = (if \<exists>g \<in> set fs. fst g \<in> T then v f else c (upd g x))"
        using Cons.prems by (intro Cons.IH) simp
      ultimately show ?thesis using True assms(1) [of g x] by simp
    next
      case False
      then show ?thesis using Cons assms(2) [of g x] by simp
    qed
  qed simp
  have "\<exists>g \<in> set fs. fst g \<in> T" using assms(3,4) by blast
  with main [OF assms(5)] show ?thesis by simp
qed

lemma one_field: "distinct (map fst fs) \<Longrightarrow> f \<in> set fs \<Longrightarrow> g \<in> set fs \<Longrightarrow> fst g = fst f \<Longrightarrow> g = f"
  by (metis eq_key_imp_eq_value prod.collapse)

lemma one_of_two:
  assumes "distinct (map fst fs)" and "f \<in> set fs" and "fst f \<in> {a, b}" and "\<not> {a, b} \<subseteq> fst ` set fs"
    and "g \<in> set fs" and "fst g \<in> {a, b}"
  shows "g = f"
proof (rule one_field [OF assms(1,2,5)])
  have "fst f \<in> fst ` set fs" "fst g \<in> fst ` set fs" using assms(2,5) by simp_all
  then show "fst g = fst f" using assms(3,4,6) by auto
qed

text \<open>
  C18: a data record with one field of each type the collector reads, each of the length its
  type asks for, is decoded into the flow those fields describe, in whatever order they stand and
  whatever other fields come between: the addresses as text, the ports in network byte order, the
  protocol and version by their numbers, and the start time as the export time less the delta in
  microseconds.
\<close>

theorem ipfix_record_decoded:
  assumes "list_all field_ok fs" and "distinct (map fst fs)"
    and "{src, dst, sport, dport, proto, version, start} \<subseteq> set fs"
    and "fst src \<in> {8, 27} \<and> fst dst \<in> {12, 28} \<and> fst sport = 7 \<and> fst dport = 11 \<and> fst proto = 4 \<and> fst version = 60 \<and> fst start = 158"
    and "\<not> ({8, 27} \<subseteq> fst ` set fs) \<and> \<not> ({12, 28} \<subseteq> fst ` set fs)"
  shows "\<exists>flow. ProcessDataRecord fs t = Returns (Inr flow)
    \<and> ok_SourceIP flow = source_text src \<and> ok_DestinationIP flow = destination_text dst
    \<and> ok_SourcePort flow = port_value sport \<and> ok_DestinationPort flow = port_value dport
    \<and> ok_Protocol flow = protocol_name proto \<and> ok_IPVersion flow = version_name version
    \<and> ok_StartTimestamp flow = Some (time_value t start)"
proof -
  let ?r = "fold (field_upd t) fs zero_flow"
  note one = one_field [OF assms(2)]
  have fs: "src \<in> set fs" "dst \<in> set fs" "sport \<in> set fs" "dport \<in> set fs" "proto \<in> set fs" "version \<in> set fs" "start \<in> set fs"
    using assms(3) by simp_all
  have ty: "fst sport = 7" "fst src = 8 \<or> fst src = 27" "fst dst = 12 \<or> fst dst = 28" "fst dport = 11" "fst proto = 4"
    "fst version = 60" "fst start = 158"
    using assms(4) by simp_all
  have ips: "g = src" if "g \<in> set fs" "fst g = 8 \<or> fst g = 27" for g
    using one_of_two [OF assms(2) fs(1), of 8 27 g] assms(5) ty(2) that by simp
  have ipd: "g = dst" if "g \<in> set fs" "fst g = 12 \<or> fst g = 28" for g
    using one_of_two [OF assms(2) fs(2), of 12 28 g] assms(5) ty(3) that by simp
  have "ok_SourceIP ?r = source_text src"
    by (rule fold_component [where T = "{8, 27}" and c = ok_SourceIP and v = "source_text" and f = src]) (simp_all add: field_upd_def fs ty ips)
  moreover have "ok_DestinationIP ?r = destination_text dst"
    by (rule fold_component [where T = "{12, 28}" and c = ok_DestinationIP and v = "destination_text" and f = dst]) (simp_all add: field_upd_def fs ty ipd)
  moreover have "ok_SourcePort ?r = port_value sport"
    by (rule fold_component [where T = "{7}" and c = ok_SourcePort and v = "port_value" and f = sport]) (simp_all add: field_upd_def fs ty one)
  moreover have "ok_DestinationPort ?r = port_value dport"
    by (rule fold_component [where T = "{11}" and c = ok_DestinationPort and v = "port_value" and f = dport]) (simp_all add: field_upd_def fs ty one)
  moreover have "ok_Protocol ?r = protocol_name proto"
    by (rule fold_component [where T = "{4}" and c = ok_Protocol and v = "protocol_name" and f = proto]) (simp_all add: field_upd_def fs ty one)
  moreover have "ok_IPVersion ?r = version_name version"
    by (rule fold_component [where T = "{60}" and c = ok_IPVersion and v = "version_name" and f = version]) (simp_all add: field_upd_def fs ty one)
  moreover have "ok_StartTimestamp ?r = Some (time_value t start)"
    by (rule fold_component [where T = "{158}" and c = ok_StartTimestamp and v = "\<lambda>f. Some (time_value t f)" and f = start])
       (simp_all add: field_upd_def fs ty one)
  ultimately show ?thesis
    using fields_loop_ok [OF assms(1)] by (simp add: ProcessDataRecord_def)
qed

definition sample_record :: "ipfix_field list" where
  "sample_record = [(60, Some [4]), (4, Some [17]), (158, Some [0, 0, 3, 232]), (12, Some [10, 0, 0, 2]), (8, Some [10, 0, 0, 1]),
     (1, Some []), (11, Some [0, 53]), (7, Some [156, 64])]"

theorem ipfix_record_decoded_witness:
  "\<exists>flow. ProcessDataRecord sample_record 5 = Returns (Inr flow) \<and> ok_DestinationPort flow = 53
     \<and> ok_StartTimestamp flow = Some 4999000000 \<and> ok_Protocol flow = ''udp''"
proof -
  have "list_all field_ok sample_record" "distinct (map fst sample_record)"
    by (simp_all add: sample_record_def)
  then obtain flow where "ProcessDataRecord sample_record 5 = Returns (Inr flow)" "ok_DestinationPort flow = port_value (11, Some [0, 53])"
    "ok_Protocol flow = protocol_name (4, Some [17])" "ok_StartTimestamp flow = Some (time_value 5 (158, Some [0, 0, 3, 232]))"
    using ipfix_record_decoded [of sample_record "(8, Some [10, 0, 0, 1])" "(12, Some [10, 0, 0, 2])" "(7, Some [156, 64])"
        "(11, Some [0, 53])" "(4, Some [17])" "(60, Some [4])" "(158, Some [0, 0, 3, 232])" 5]
    by (auto simp: sample_record_def)
  then show ?thesis
    by (simp add: port_value_def protocol_name_def time_value_def be_value_def)
qed

section \<open>Addresses are told apart\<close>

text \<open>
  The texts under which the flow cache aggregates flows identify the addresses of
  the records: two IPv4 fields have the same text exactly when their four bytes agree, two IPv6 fields
  exactly when all sixteen do, and an IPv6 field has the text of an IPv4 one exactly when it is that
  address mapped into IPv6. The elision of zero groups never makes two addresses look alike.
\<close>

theorem ipfix_addresses_distinct:
  "(ParseIPv4Address b = Inr x \<and> ParseIPv4Address b' = Inr x' \<longrightarrow> (x = x' \<longleftrightarrow> take 4 b = take 4 b'))
   \<and> (ParseIPv6Address b = Inr x \<and> ParseIPv6Address b' = Inr x' \<longrightarrow> (x = x' \<longleftrightarrow> b = b'))
   \<and> (ParseIPv4Address b = Inr x \<and> ParseIPv6Address b' = Inr x' \<longrightarrow>
        (x = x' \<longleftrightarrow> b' = replicate 10 0 @ [255, 255] @ take 4 b))"
proof (intro conjI impI)
  assume "ParseIPv4Address b = Inr x \<and> ParseIPv4Address b' = Inr x'"
  then show "x = x' \<longleftrightarrow> take 4 b = take 4 b'"
    using ipv4_text_inject [of "take 4 b" "take 4 b'"] by (auto simp: ParseIPv4Address_def split: if_splits)
next
  assume "ParseIPv6Address b = Inr x \<and> ParseIPv6Address b' = Inr x'"
  then show "x = x' \<longleftrightarrow> b = b'"
    using IP_String_inject [of b b'] by (auto simp: ParseIPv6Address_def split: if_splits)
next
  assume a: "ParseIPv4Address b = Inr x \<and> ParseIPv6Address b' = Inr x'"
  then have len: "length (take 4 b) = 4" "length b' = 16" and x: "x = ipv4_text (take 4 b)" "x' = IP_String b'"
    by (auto simp: ParseIPv4Address_def ParseIPv6Address_def split: if_splits)
  let ?m = "replicate 10 0 @ [255, 255] @ take 4 b"
  have "IP_String ?m = ipv4_text (take 4 b)"
    using len by (simp add: IP_String_def mapped_ipv4_def numeral_eq_Suc)
  moreover have "length ?m = 16" using len by simp
  ultimately show "x = x' \<longleftrightarrow> b' = ?m"
    using IP_String_inject [of ?m b'] len(2) x by auto
qed

theorem ipfix_addresses_distinct_witness:
  "\<exists>x x'. ParseIPv6Address (replicate 15 0 @ [1]) = Inr x \<and> ParseIPv6Address (1 # replicate 15 0) = Inr x' \<and> x \<noteq> x'"
proof -
  have p: "ParseIPv6Address (replicate 15 0 @ [1]) = Inr (IP_String (replicate 15 0 @ [1]))"
    "ParseIPv6Address (1 # replicate 15 0) = Inr (IP_String (1 # replicate 15 0))"
    by (simp_all add: ParseIPv6Address_def)
  moreover have "replicate 15 0 @ [1] \<noteq> (1 # replicate 15 0 :: byte list)" by (simp add: numeral_eq_Suc)
  ultimately show ?thesis
    using ipfix_addresses_distinct [of "replicate 15 0 @ [1]" "IP_String (replicate 15 0 @ [1])" "1 # replicate 15 0"
        "IP_String (1 # replicate 15 0)"] by auto
qed

section \<open>Faults of the listener\<close>

lemma fields_loop_append_ok:
  "list_all field_ok pre \<Longrightarrow> fields_loop t (pre @ fs) flow = fields_loop t fs (fold (field_upd t) pre flow)"
  by (induction pre arbitrary: flow) (simp_all add: process_field_ok)



end
