(* ===== verification/Collector_Falco.thy ===== *)
theory Collector_Falco
  imports Collector_Sink AWS_Flow_Log
begin

text \<open>
  \<open>collector/falco.go\<close> and \<open>stream/flows/falco/client.go\<close>: network events of Falco, posted over HTTP as text. The two
  regular expressions are written out as the searches they describe; \<open>time.Parse\<close> for Falco's layout is an
  argument.
\<close>

section \<open>The regular expressions\<close>

definition word_char :: "char \<Rightarrow> bool" where
  "word_char c \<longleftrightarrow> is_digit c \<or> CHR ''A'' \<le> c \<and> c \<le> CHR ''Z'' \<or> CHR ''a'' \<le> c \<and> c \<le> CHR ''z'' \<or> c = CHR ''_''"

definition value_char :: "char \<Rightarrow> bool" where
  "value_char c \<longleftrightarrow> c \<notin> {CHR 0x09, CHR 0x0A, CHR 0x0C, CHR 0x0D, CHR '' '', CHR '')''}"

text \<open>
  All matches of \<open>\b(\w+)=([^\s)]+)\<close>: a word, which starts where no word character precedes, an equals sign, and a
  value as long as possible. The flag says whether the preceding character is a word character.
\<close>

function find_pairs :: "bool \<Rightarrow> string \<Rightarrow> (string \<times> string) list" where
  "find_pairs pw [] = []"
| "find_pairs pw (c # s) =
     (let key = takeWhile word_char (c # s); rest = dropWhile word_char (c # s);
          val = takeWhile value_char (tl rest)
      in if \<not> pw \<and> key \<noteq> [] \<and> rest \<noteq> [] \<and> hd rest = CHR ''='' \<and> val \<noteq> []
         then (key, val) # find_pairs (word_char (last val)) (dropWhile value_char (tl rest))
         else find_pairs (word_char c) s)"
  by pat_completeness auto
termination
proof (relation "measure (\<lambda>(_, s). length s)", goal_cases)
  case (2 pw c s key rest val)
  have "length (dropWhile value_char (tl rest)) \<le> length (tl rest)" by (rule length_dropWhile_le)
  also have "\<dots> < length rest" using 2 by (cases rest) auto
  also have "\<dots> \<le> length (c # s)" using 2 length_dropWhile_le [of word_char "c # s"] by simp
  finally show ?case by simp
qed auto

declare find_pairs.simps(2) [simp del]

text \<open>The first match of \<open>\((.*?)\)\<close>: the text up to the next closing parenthesis on the same line.\<close>

fun find_parens :: "string \<Rightarrow> string option" where
  "find_parens [] = None"
| "find_parens (c # s) =
     (let inner = takeWhile (\<lambda>c. c \<noteq> CHR '')'' \<and> c \<noteq> CHR 0x0A) s
      in if c = CHR ''('' \<and> drop (length inner) s \<noteq> [] \<and> s ! length inner = CHR '')'' then Some inner else find_parens s)"

section \<open>Events\<close>

record FalcoEvent =
  fv_Timestamp :: "int option"
  fv_SrcIP :: string
  fv_DstIP :: string
  fv_SrcPort :: string
  fv_DstPort :: string
  fv_Proto :: string
  fv_IpVersion :: string

definition no_event :: FalcoEvent where
  "no_event = \<lparr>fv_Timestamp = None, fv_SrcIP = [], fv_DstIP = [], fv_SrcPort = [], fv_DstPort = [], fv_Proto = [], fv_IpVersion = []\<rparr>"

definition ErrFalcoEventIsNotFlow :: go_error where
  "ErrFalcoEventIsNotFlow = ErrMsg ''ignoring falco event, not a network flow''"

definition ErrFalcoInvalidPort :: go_error where
  "ErrFalcoInvalidPort = ErrMsg ''ignoring incomplete falco flow due to bad ports''"

definition ErrFalcoTimestamp :: go_error where
  "ErrFalcoTimestamp = ErrMsg ''incomplete or incorrectly formatted timestamp found in Falco flow''"

definition removeTrailingTab :: "string \<Rightarrow> string" where
  "removeTrailingTab t = rev (dropWhile (\<lambda>c. c = CHR 0x09) (rev t))"

definition parseFalcoTimestamp :: "(string \<Rightarrow> int option) \<Rightarrow> string \<Rightarrow> int result" where
  "parseFalcoTimestamp parse val = (case parse (removeTrailingTab val) of None \<Rightarrow> Inl ErrFalcoTimestamp | Some t \<Rightarrow> Inr t)"

fun matches_loop :: "(string \<Rightarrow> int option) \<Rightarrow> (string \<times> string) list \<Rightarrow> FalcoEvent \<Rightarrow> FalcoEvent result" where
  "matches_loop parse [] info = Inr info"
| "matches_loop parse ((key, val) # ms) info =
     (if key = ''time'' then
        (case parseFalcoTimestamp parse val of Inl e \<Rightarrow> Inl e | Inr ts \<Rightarrow> matches_loop parse ms (info\<lparr>fv_Timestamp := Some ts\<rparr>))
      else matches_loop parse ms
        (if key = ''srcip'' then info\<lparr>fv_SrcIP := val\<rparr>
         else if key = ''dstip'' then info\<lparr>fv_DstIP := val\<rparr>
         else if key = ''srcport'' then info\<lparr>fv_SrcPort := val\<rparr>
         else if key = ''dstport'' then info\<lparr>fv_DstPort := val\<rparr>
         else if key = ''proto'' then info\<lparr>fv_Proto := val\<rparr>
         else if key = ''ipversion'' then info\<lparr>fv_IpVersion := val\<rparr>
         else info))"

definition ParsePodNetworkInfo :: "(string \<Rightarrow> int option) \<Rightarrow> string \<Rightarrow> five_tuple_flow result" where
  "ParsePodNetworkInfo parse input =
     (case matches_loop parse (find_pairs False input) no_event of
        Inl e \<Rightarrow> Inl e
      | Inr info \<Rightarrow>
          if info = no_event then Inl ErrFalcoEventIsNotFlow
          else case CreateLayer3Message (fv_SrcIP info) (fv_DstIP info) (fv_IpVersion info) of
                 Inl e \<Rightarrow> Inl e
               | Inr layer3Message \<Rightarrow>
                   (case ParseUint 32 (fv_SrcPort info) of
                      None \<Rightarrow> Inl ErrFalcoInvalidPort
                    | Some srcPort \<Rightarrow>
                        (case ParseUint 32 (fv_DstPort info) of
                           None \<Rightarrow> Inl ErrFalcoInvalidPort
                         | Some dstPort \<Rightarrow>
                             (case CreateLayer4Message (fv_Proto info) (word_of_nat srcPort) (word_of_nat dstPort) (fv_IpVersion info) of
                                Inl e \<Rightarrow> Inl e
                              | Inr layer4Message \<Rightarrow>
                                  Inr \<lparr>ft_layer3 = Some layer3Message, ft_layer4 = Some layer4Message, ft_timestamp = fv_Timestamp info\<rparr>))))"

definition FilterIllumioTraffic :: "string \<Rightarrow> bool" where
  "FilterIllumioTraffic body = str_contains ''illumio_network_traffic'' body"

section \<open>The HTTP handler\<close>

text \<open>
  The statuses it may answer with: the decoding error, whether the client's context is done, whether the
  collector takes the event, and whether two seconds have passed.
\<close>

definition falco_handler :: "string result \<Rightarrow> bool \<Rightarrow> bool \<Rightarrow> bool \<Rightarrow> (nat \<times> string option) list" where
  "falco_handler body receiving cancelled expired =
     (case body of
        Inl _ \<Rightarrow> [(400, None)]
      | Inr output \<Rightarrow>
          (if receiving then [(200, Some output)] else []) @ (if cancelled then [(503, None)] else [])
            @ (if expired then [(503, None)] else []))"

section \<open>The client\<close>

text \<open>
  One turn of the client: its context is done, its channel is closed, or an event arrives with the
  answer of the flow cache. A parse error is tested for after a nil flow, which every error comes with,
  so errors are skipped silently.
\<close>

datatype falco_turn = FalcoDone | FalcoClosed | FalcoEventText string "go_error option"

datatype falco_end = FalcoErr go_error | FalcoReturned

definition event_flow :: "(string \<Rightarrow> int option) \<Rightarrow> string \<Rightarrow> five_tuple_flow option" where
  "event_flow parse falcoFlow =
     (if \<not> FilterIllumioTraffic falcoFlow then None
      else case find_parens falcoFlow of
             None \<Rightarrow> None
           | Some m \<Rightarrow> (case ParsePodNetworkInfo parse m of Inl _ \<Rightarrow> None | Inr f \<Rightarrow> Some f))"

fun falco_Run :: "(string \<Rightarrow> int option) \<Rightarrow> falco_turn list \<Rightarrow> collector_sink \<Rightarrow> falco_end option \<times> collector_sink" where
  "falco_Run parse [] sink = (None, sink)"
| "falco_Run parse (FalcoDone # ts) sink = (Some (FalcoErr CtxErr), sink)"
| "falco_Run parse (FalcoClosed # ts) sink = (Some FalcoReturned, sink)"
| "falco_Run parse (FalcoEventText falcoFlow answer # ts) sink =
     (case event_flow parse falcoFlow of
        None \<Rightarrow> falco_Run parse ts sink
      | Some f \<Rightarrow>
          (case sink_cache answer (FiveTupleFlow f) sink of
             (Some e, sink') \<Rightarrow> (Some (FalcoErr e), sink')
           | (None, sink') \<Rightarrow> falco_Run parse ts sink'))"

fun falco_stops :: "(string \<Rightarrow> int option) \<Rightarrow> falco_turn \<Rightarrow> falco_end option" where
  "falco_stops parse FalcoDone = Some (FalcoErr CtxErr)"
| "falco_stops parse FalcoClosed = Some FalcoReturned"
| "falco_stops parse (FalcoEventText s answer) = (if event_flow parse s = None then None else map_option FalcoErr answer)"

fun falco_flow :: "(string \<Rightarrow> int option) \<Rightarrow> falco_turn \<Rightarrow> flow option" where
  "falco_flow parse (FalcoEventText s _) = map_option FiveTupleFlow (event_flow parse s)"
| "falco_flow parse _ = None"

interpretation falco_client: collector_loop "falco_Run parse" "falco_stops parse" "falco_flow parse" for parse
proof
  show "falco_Run parse (t # ts) s =
      (case falco_stops parse t of
         Some e \<Rightarrow> (Some e, s)
       | None \<Rightarrow> falco_Run parse ts (case falco_flow parse t of None \<Rightarrow> s | Some f \<Rightarrow> sink_add f s))" for t ts s
  proof (cases t)
    case (FalcoEventText x answer)
    then show ?thesis by (cases answer) (auto split: option.splits)
  qed simp_all
qed simp

section \<open>Falco's event text parses back\<close>

definition plain_value :: "string \<Rightarrow> bool" where
  "plain_value v \<longleftrightarrow> v \<noteq> [] \<and> list_all value_char v"

definition plain_key :: "string \<Rightarrow> bool" where
  "plain_key k \<longleftrightarrow> k \<noteq> [] \<and> list_all word_char k"

lemma word_char_value_char: "word_char c \<Longrightarrow> value_char c" "\<not> word_char (CHR ''='')" "\<not> word_char (CHR '' '')" "\<not> value_char (CHR '' '')"
  by (auto simp: word_char_def value_char_def is_digit_def)

lemma takeWhile_run: "list_all P xs \<Longrightarrow> \<not> P y \<Longrightarrow> takeWhile P (xs @ y # ys) = xs \<and> dropWhile P (xs @ y # ys) = y # ys"
  by (induction xs) simp_all

lemma find_pairs_space: "find_pairs pw (CHR '' '' # s) = find_pairs False s"
  by (simp add: find_pairs.simps(2) word_char_value_char)

lemma find_pairs_pair:
  assumes "plain_key k" and "plain_value v"
  shows "find_pairs False (k @ CHR ''='' # v @ CHR '' '' # s) = (k, v) # find_pairs False s"
proof -
  obtain c k' where k: "k = c # k'" using assms(1) by (cases k) (simp_all add: plain_key_def)
  note key = takeWhile_run [of word_char k "CHR ''=''" "v @ CHR '' '' # s"]
  note val = takeWhile_run [of value_char v "CHR '' ''" s]
  have "find_pairs False (k @ CHR ''='' # v @ CHR '' '' # s) = (k, v) # find_pairs (word_char (last v)) (CHR '' '' # s)"
    using assms key val unfolding k
    by (simp add: find_pairs.simps(2) Let_def plain_key_def plain_value_def word_char_value_char)
  then show ?thesis by (simp add: find_pairs_space)
qed

text \<open>The output fields of the rule, each followed by a space.\<close>

definition event_text :: "(string \<times> string) list \<Rightarrow> string" where
  "event_text kvs = concat (map (\<lambda>(k, v). k @ CHR ''='' # v @ '' '') kvs)"

lemma find_pairs_event:
  "list_all (\<lambda>(k, v). plain_key k \<and> plain_value v) kvs \<Longrightarrow> find_pairs False (event_text kvs) = kvs"
proof (induction kvs)
  case (Cons kv kvs)
  then show ?case using find_pairs_pair by (cases kv) (simp add: event_text_def)
qed (simp add: event_text_def)

lemma plain_value_digits: "list_all is_digit s \<Longrightarrow> s \<noteq> [] \<Longrightarrow> plain_value s"
  by (auto simp: plain_value_def list_all_iff word_char_def word_char_value_char)

lemma plain_no_tab: "plain_value v \<Longrightarrow> removeTrailingTab v = v"
  by (cases v rule: rev_cases) (auto simp: plain_value_def removeTrailingTab_def value_char_def)

lemma find_parens_at:
  assumes "CHR ''('' \<notin> set pre" and "CHR '')'' \<notin> set inner" and "CHR 0x0A \<notin> set inner"
  shows "find_parens (pre @ CHR ''('' # inner @ CHR '')'' # rest) = Some inner"
  using assms(1)
proof (induction pre)
  case Nil
  have "takeWhile (\<lambda>c. c \<noteq> CHR '')'' \<and> c \<noteq> CHR 0x0A) (inner @ CHR '')'' # rest) = inner"
    by (rule takeWhile_run [THEN conjunct1]) (use assms(2,3) in \<open>auto simp: list_all_iff\<close>)
  then show ?case by (simp add: Let_def nth_append)
qed (auto simp: Let_def)

lemma event_text_chars:
  assumes "list_all (\<lambda>(k, v). plain_key k \<and> plain_value v) kvs"
  shows "CHR '')'' \<notin> set (event_text kvs)" and "CHR 0x0A \<notin> set (event_text kvs)"
proof -
  have "value_char c \<or> c = CHR ''='' \<or> c = CHR '' ''" if "c \<in> set (event_text kvs)" for c
    using that assms word_char_value_char(1)
    by (fastforce simp: event_text_def list_all_iff plain_key_def plain_value_def)
  then show "CHR '')'' \<notin> set (event_text kvs)" "CHR 0x0A \<notin> set (event_text kvs)"
    by (auto simp: value_char_def)
qed

definition falco_fields :: "string \<Rightarrow> string \<Rightarrow> string \<Rightarrow> nat \<Rightarrow> nat \<Rightarrow> string \<Rightarrow> string \<Rightarrow> (string \<times> string) list" where
  "falco_fields time srcip dstip srcport dstport proto ipversion =
     [(''time'', time), (''srcip'', srcip), (''dstip'', dstip), (''srcport'', string_of_nat srcport),
      (''dstport'', string_of_nat dstport), (''proto'', proto), (''ipversion'', ipversion)]"

text \<open>
  A network event in the form of the rule's output, whatever text surrounds the
  parenthesised fields, is turned into the flow it describes: its addresses, ports, protocol and time are
  those the fields name.
\<close>

theorem falco_event_parses:
  assumes "list_all plain_value [time, srcip, dstip]" and "parse time = Some t" and "srcport < 2 ^ 32" and "dstport < 2 ^ 32"
    and "proto \<in> {''tcp'', ''udp'', ''icmp''}" and "ipversion \<in> {''ipv4'', ''ipv6''}"
    and "CHR ''('' \<notin> set pre" and "event = pre @ ''('' @ event_text (falco_fields time srcip dstip srcport dstport proto ipversion) @ '')'' @ rest"
    and "FilterIllumioTraffic event"
  shows "\<exists>f l4. event_flow parse event = Some f \<and> ft_timestamp f = Some t
    \<and> ft_layer3 f = Some \<lparr>ip_source = srcip, ip_destination = dstip, ip_ip_version = (if ipversion = ''ipv4'' then IPV4 else IPV6)\<rparr>
    \<and> ft_layer4 f = Some l4
    \<and> l4 = (if proto = ''tcp'' then L4Tcp (word_of_nat srcport) (word_of_nat dstport) (Some no_tcp_flags)
            else if proto = ''udp'' then L4Udp (word_of_nat srcport) (word_of_nat dstport)
            else if ipversion = ''ipv4'' then L4Icmpv4 0 0 else L4Icmpv6 0 0)"
proof -
  let ?kvs = "falco_fields time srcip dstip srcport dstport proto ipversion"
  have ports: "plain_value (string_of_nat n)" for n
    using string_of_nat_digits [of n] by (intro plain_value_digits) blast+
  have plain: "list_all (\<lambda>(k, v). plain_key k \<and> plain_value v) ?kvs"
    using assms(1,5,6) ports
    by (auto simp: falco_fields_def plain_key_def plain_value_def word_char_def value_char_def is_digit_def)
  have "matches_loop parse ?kvs no_event = Inr \<lparr>fv_Timestamp = Some t, fv_SrcIP = srcip, fv_DstIP = dstip,
      fv_SrcPort = string_of_nat srcport, fv_DstPort = string_of_nat dstport, fv_Proto = proto, fv_IpVersion = ipversion\<rparr>"
    using assms(1,2) plain_no_tab by (simp add: falco_fields_def parseFalcoTimestamp_def no_event_def)
  then have "ParsePodNetworkInfo parse (event_text ?kvs) = Inr \<lparr>ft_layer3 = Some \<lparr>ip_source = srcip, ip_destination = dstip,
        ip_ip_version = (if ipversion = ''ipv4'' then IPV4 else IPV6)\<rparr>,
      ft_layer4 = Some (if proto = ''tcp'' then L4Tcp (word_of_nat srcport) (word_of_nat dstport) (Some no_tcp_flags)
            else if proto = ''udp'' then L4Udp (word_of_nat srcport) (word_of_nat dstport)
            else if ipversion = ''ipv4'' then L4Icmpv4 0 0 else L4Icmpv6 0 0), ft_timestamp = Some t\<rparr>"
    using assms(3-6) find_pairs_event [OF plain]
    by (auto simp: ParsePodNetworkInfo_def no_event_def CreateLayer3Message_def CreateLayer4Message_def ParseUint_string_of_nat)
  moreover have "find_parens event = Some (event_text ?kvs)"
    using find_parens_at [OF assms(7) event_text_chars [OF plain], of rest] by (simp add: assms(8))
  ultimately show ?thesis
    using assms(9) by (simp add: event_flow_def)
qed

definition sample_event :: string where
  "sample_event = ''illumio_network_traffic ('' @ event_text (falco_fields ''T'' ''10.0.0.1'' ''10.0.0.2'' 40000 443 ''tcp'' ''ipv4'') @ '')''"

theorem falco_event_parses_witness:
  "\<exists>f. event_flow (\<lambda>_. Some 5) sample_event = Some f \<and> ft_layer4 f = Some (L4Tcp 40000 443 (Some no_tcp_flags))"
proof -
  have filt: "FilterIllumioTraffic sample_event"
    by (simp add: FilterIllumioTraffic_def sample_event_def)
  show ?thesis
    using falco_event_parses [of "''T''" "''10.0.0.1''" "''10.0.0.2''" "\<lambda>_. Some 5" 5 40000 443 "''tcp''" "''ipv4''"
        "''illumio_network_traffic ''" sample_event "[]"] filt
    by (auto simp: sample_event_def plain_value_def value_char_def)
qed

end
