(* ===== verification/Falco_Server.thy ===== *)
theory Falco_Server
  imports Collector_Falco "HOL-Library.Multiset"
begin

text \<open>
  \<open>stream/flows/falco/server.go\<close> beside the client and the handlers: three kinds of goroutines that meet on one
  unbuffered channel. The server's goroutine listens, serves and closes the channel when it returns; every
  request runs the handler of \<open>collector/falco.go\<close>, which waits for the client to take its event; the client's
  loop ends with a deferred \<open>Shutdown\<close>. The interleavings are the step relation \<open>falco_step\<close>.
\<close>

section \<open>State\<close>

text \<open>The server's goroutine: before \<open>Listen\<close>, between \<open>Listen\<close> and \<open>Serve\<close>, in \<open>Serve\<close>, returned, or killed by \<open>Fatal\<close>.\<close>

datatype falco_goroutine = Starting | Listened | Serving | Finished | Killed

datatype falco_client = Looping | Ended falco_end

record falco_system =
  fz_server :: falco_goroutine
  fz_failed :: bool
  fz_shutdown :: bool
  fz_cancelled :: bool
  fz_client :: falco_client
  fz_next :: nat
  fz_waiting :: "(nat \<times> string) list"
  fz_answered :: "(nat \<times> nat) list"
  fz_panicked :: "nat list"
  fz_turns :: "falco_turn list"
  fz_accepted :: "string list"
  fz_sink :: collector_sink

definition StartServer :: "collector_sink \<Rightarrow> falco_system" where
  "StartServer sink =
     \<lparr>fz_server = Starting, fz_failed = False, fz_shutdown = False, fz_cancelled = False, fz_client = Looping, fz_next = 0,
      fz_waiting = [], fz_answered = [], fz_panicked = [], fz_turns = [], fz_accepted = [], fz_sink = sink\<rparr>"

text \<open>The channel is closed by the deferred \<open>close\<close> of the server's goroutine.\<close>

definition events_closed :: "falco_system \<Rightarrow> bool" where
  "events_closed s \<longleftrightarrow> fz_server s = Finished"

definition leave :: "nat \<Rightarrow> falco_system \<Rightarrow> falco_system" where
  "leave n s = s\<lparr>fz_waiting := filter (\<lambda>h. fst h \<noteq> n) (fz_waiting s)\<rparr>"

definition answer :: "nat \<Rightarrow> nat \<Rightarrow> falco_system \<Rightarrow> falco_system" where
  "answer n status s = s\<lparr>fz_answered := fz_answered s @ [(n, status)]\<rparr>"

text \<open>One turn of the client's loop.\<close>

definition client_turn :: "(string \<Rightarrow> int option) \<Rightarrow> falco_turn \<Rightarrow> falco_system \<Rightarrow> falco_system" where
  "client_turn parse t s =
     (case falco_Run parse [t] (fz_sink s) of (r, sink) \<Rightarrow>
        s\<lparr>fz_turns := fz_turns s @ [t], fz_sink := sink,
          fz_client := (case r of None \<Rightarrow> Looping | Some e \<Rightarrow> Ended e)\<rparr>)"

text \<open>A request: a body that does not decode is answered at once, the others wait in the handler's select.\<close>

definition accept_request :: "string result \<Rightarrow> falco_system \<Rightarrow> falco_system" where
  "accept_request body s =
     (let n = fz_next s; s1 = s\<lparr>fz_next := Suc n\<rparr>
      in case body of Inl _ \<Rightarrow> answer n 400 s1 | Inr output \<Rightarrow> s1\<lparr>fz_waiting := fz_waiting s1 @ [(n, output)]\<rparr>)"

section \<open>Steps\<close>

inductive falco_step :: "(string \<Rightarrow> int option) \<Rightarrow> falco_system \<Rightarrow> falco_system \<Rightarrow> bool" for parse where
  cancel: "falco_step parse s (s\<lparr>fz_cancelled := True\<rparr>)"
| setsockopt_fails: "fz_server s = Starting \<Longrightarrow> falco_step parse s (s\<lparr>fz_server := Killed\<rparr>)"
| listen_fails: "fz_server s = Starting \<Longrightarrow>
    falco_step parse s (s\<lparr>fz_server := (if errors_is e CtxErr then Finished else Killed)\<rparr>)"
| listen: "fz_server s = Starting \<Longrightarrow> falco_step parse s (s\<lparr>fz_server := Listened\<rparr>)"
| serve: "fz_server s = Listened \<Longrightarrow> falco_step parse s (s\<lparr>fz_server := (if fz_shutdown s then Finished else Serving)\<rparr>)"
| serve_closed: "fz_server s = Serving \<Longrightarrow> fz_shutdown s \<Longrightarrow> falco_step parse s (s\<lparr>fz_server := Finished\<rparr>)"
| serve_fails: "fz_server s = Serving \<Longrightarrow> falco_step parse s (s\<lparr>fz_server := Finished, fz_failed := True\<rparr>)"
| request: "fz_server s = Serving \<Longrightarrow> \<not> fz_shutdown s \<Longrightarrow> falco_step parse s (accept_request body s)"
| deliver: "(n, output) \<in> set (fz_waiting s) \<Longrightarrow> fz_client s = Looping \<Longrightarrow> \<not> events_closed s \<Longrightarrow> fz_server s \<noteq> Killed \<Longrightarrow>
    falco_step parse s
      (client_turn parse (FalcoEventText output r) (answer n 200 (leave n (s\<lparr>fz_accepted := fz_accepted s @ [output]\<rparr>))))"
| give_up: "(n, output) \<in> set (fz_waiting s) \<Longrightarrow> fz_server s \<noteq> Killed \<Longrightarrow> falco_step parse s (answer n 503 (leave n s))"
| send_on_closed: "(n, output) \<in> set (fz_waiting s) \<Longrightarrow> events_closed s \<Longrightarrow>
    falco_step parse s ((leave n s)\<lparr>fz_panicked := fz_panicked s @ [n]\<rparr>)"
| client_done: "fz_client s = Looping \<Longrightarrow> fz_cancelled s \<Longrightarrow> fz_server s \<noteq> Killed \<Longrightarrow>
    falco_step parse s (client_turn parse FalcoDone s)"
| client_closed: "fz_client s = Looping \<Longrightarrow> events_closed s \<Longrightarrow> falco_step parse s (client_turn parse FalcoClosed s)"
| shutdown: "fz_client s = Ended e \<Longrightarrow> fz_server s \<noteq> Killed \<Longrightarrow> falco_step parse s (s\<lparr>fz_shutdown := True\<rparr>)"

section \<open>Requests are accounted for\<close>

definition request_ids :: "falco_system \<Rightarrow> nat list" where
  "request_ids s = map fst (fz_waiting s) @ map fst (fz_answered s) @ fz_panicked s"

definition requests_ok :: "falco_system \<Rightarrow> bool" where
  "requests_ok s \<longleftrightarrow> mset (request_ids s) = mset [0..<fz_next s]"

text \<open>The events a list of turns took.\<close>

fun turn_events :: "falco_turn list \<Rightarrow> string list" where
  "turn_events [] = []"
| "turn_events (FalcoEventText t _ # ts) = t # turn_events ts"
| "turn_events (_ # ts) = turn_events ts"

lemma turn_events_append [simp]: "turn_events (xs @ ys) = turn_events xs @ turn_events ys"
  by (induction xs rule: turn_events.induct) auto

definition client_result :: "falco_client \<Rightarrow> falco_end option" where
  "client_result c = (case c of Looping \<Rightarrow> None | Ended e \<Rightarrow> Some e)"

definition client_ok :: "(string \<Rightarrow> int option) \<Rightarrow> collector_sink \<Rightarrow> falco_system \<Rightarrow> bool" where
  "client_ok parse sink0 s \<longleftrightarrow>
     falco_Run parse (fz_turns s) sink0 = (client_result (fz_client s), fz_sink s) \<and> fz_accepted s = turn_events (fz_turns s)"

text \<open>Handlers exist only once the server serves, and a shutdown comes only from a client that has ended.\<close>

definition causes_ok :: "falco_system \<Rightarrow> bool" where
  "causes_ok s \<longleftrightarrow> (fz_shutdown s \<longrightarrow> fz_client s \<noteq> Looping) \<and>
     (fz_next s > 0 \<longrightarrow> fz_server s \<in> {Serving, Finished}) \<and>
     (fz_server s = Finished \<and> fz_next s > 0 \<longrightarrow> fz_failed s \<or> fz_shutdown s) \<and>
     (fz_panicked s \<noteq> [] \<longrightarrow> fz_server s = Finished \<and> fz_next s > 0)"

lemma falco_Run_snoc:
  assumes "falco_Run parse ts sink = (None, sink1)"
  shows "falco_Run parse (ts @ [t]) sink = falco_Run parse [t] sink1"
  using assms
proof (induction parse ts sink rule: falco_Run.induct)
  case (4 parse x a ts sink)
  then show ?case by (cases a) (auto split: option.splits)
qed simp_all

lemma client_turn_ok:
  assumes "client_ok parse sink0 s" and "fz_client s = Looping" and "fz_accepted s' = fz_accepted s @ turn_events [t]"
    and "fz_turns s' = fz_turns s" and "fz_sink s' = fz_sink s"
  shows "client_ok parse sink0 (client_turn parse t s')"
proof -
  have "falco_Run parse (fz_turns s) sink0 = (None, fz_sink s)" using assms(1,2) by (simp add: client_ok_def client_result_def)
  from falco_Run_snoc [OF this] show ?thesis
    using assms by (simp add: client_ok_def client_turn_def client_result_def split: prod.splits option.splits)
qed

lemma client_turn_frame [simp]:
  "fz_waiting (client_turn parse t s) = fz_waiting s" "fz_answered (client_turn parse t s) = fz_answered s"
  "fz_panicked (client_turn parse t s) = fz_panicked s" "fz_next (client_turn parse t s) = fz_next s"
  "fz_server (client_turn parse t s) = fz_server s" "fz_shutdown (client_turn parse t s) = fz_shutdown s"
  "fz_failed (client_turn parse t s) = fz_failed s"
  by (simp_all add: client_turn_def split: prod.splits)

lemma handler_frame [simp]:
  "fz_answered (leave n s) = fz_answered s" "fz_panicked (leave n s) = fz_panicked s" "fz_next (leave n s) = fz_next s"
  "fz_server (leave n s) = fz_server s" "fz_shutdown (leave n s) = fz_shutdown s" "fz_failed (leave n s) = fz_failed s"
  "fz_client (leave n s) = fz_client s" "fz_turns (leave n s) = fz_turns s" "fz_sink (leave n s) = fz_sink s"
  "fz_accepted (leave n s) = fz_accepted s"
  "fz_waiting (answer n k s) = fz_waiting s" "fz_panicked (answer n k s) = fz_panicked s" "fz_next (answer n k s) = fz_next s"
  "fz_server (answer n k s) = fz_server s" "fz_shutdown (answer n k s) = fz_shutdown s" "fz_failed (answer n k s) = fz_failed s"
  "fz_client (answer n k s) = fz_client s" "fz_turns (answer n k s) = fz_turns s" "fz_sink (answer n k s) = fz_sink s"
  "fz_accepted (answer n k s) = fz_accepted s" "fz_answered (answer n k s) = fz_answered s @ [(n, k)]"
  by (simp_all add: leave_def answer_def)

lemma accept_request_frame [simp]:
  "fz_server (accept_request body s) = fz_server s" "fz_shutdown (accept_request body s) = fz_shutdown s"
  "fz_failed (accept_request body s) = fz_failed s" "fz_client (accept_request body s) = fz_client s"
  "fz_turns (accept_request body s) = fz_turns s" "fz_sink (accept_request body s) = fz_sink s"
  "fz_accepted (accept_request body s) = fz_accepted s" "fz_panicked (accept_request body s) = fz_panicked s"
  "fz_next (accept_request body s) = Suc (fz_next s)"
  by (simp_all add: accept_request_def Let_def split: sum.splits)

text \<open>A handler that leaves the select goes from the waiting requests to the answered or the panicked ones.\<close>

lemma mset_leave:
  "distinct (map fst xs) \<Longrightarrow> (n, v) \<in> set xs \<Longrightarrow>
   add_mset n (mset (map fst (filter (\<lambda>h. fst h \<noteq> n) xs))) = mset (map fst xs)"
proof (induction xs)
  case (Cons x xs)
  show ?case
  proof (cases "fst x = n")
    case True
    then have "filter (\<lambda>h. fst h \<noteq> n) xs = xs" using Cons.prems(1) by (auto simp: filter_id_conv image_iff)
    then show ?thesis using True by simp
  qed (use Cons in auto)
qed simp

lemma requests_move:
  assumes "requests_ok s" and "(n, ev) \<in> set (fz_waiting s)" and "fz_next t = fz_next s"
    and "fz_waiting t = filter (\<lambda>h. fst h \<noteq> n) (fz_waiting s)"
    and "mset (map fst (fz_answered t) @ fz_panicked t) = add_mset n (mset (map fst (fz_answered s) @ fz_panicked s))"
  shows "requests_ok t"
proof -
  have "distinct (request_ids s)"
    using assms(1) unfolding requests_ok_def by (metis distinct_upt mset_eq_imp_distinct_iff)
  then have "distinct (map fst (fz_waiting s))" by (simp add: request_ids_def)
  note left = mset_leave [OF this assms(2)]
  have "mset (request_ids t) = mset (map fst (fz_waiting t)) + mset (map fst (fz_answered t) @ fz_panicked t)"
    by (simp add: request_ids_def)
  also have "\<dots> = add_mset n (mset (map fst (fz_waiting t))) + mset (map fst (fz_answered s) @ fz_panicked s)"
    unfolding assms(5) by simp
  also have "\<dots> = mset (request_ids s)" unfolding assms(4) left by (simp add: request_ids_def)
  finally show ?thesis using assms(1,3) by (simp del: mset_upt add: requests_ok_def)
qed

lemma leave_waiting [simp]: "fz_waiting (leave n s) = filter (\<lambda>h. fst h \<noteq> n) (fz_waiting s)"
  by (simp add: leave_def)

lemma requests_step: "falco_step parse s t \<Longrightarrow> requests_ok s \<Longrightarrow> requests_ok t"
proof (induction rule: falco_step.induct)
  case (request s body)
  then show ?case
    by (auto simp del: mset_upt simp: requests_ok_def request_ids_def accept_request_def Let_def answer_def split: sum.splits)
next
  case (deliver n ev s r)
  then show ?case by - (rule requests_move [of s n ev], simp_all)
next
  case (give_up n ev s)
  then show ?case by - (rule requests_move [of s n ev], simp_all)
next
  case (send_on_closed n ev s)
  then show ?case by - (rule requests_move [of s n ev], simp_all)
qed (simp_all add: requests_ok_def request_ids_def)

lemma client_ok_frame: "client_ok parse sink0 s \<Longrightarrow> fz_turns t = fz_turns s \<Longrightarrow> fz_sink t = fz_sink s \<Longrightarrow>
    fz_client t = fz_client s \<Longrightarrow> fz_accepted t = fz_accepted s \<Longrightarrow> client_ok parse sink0 t"
  by (simp add: client_ok_def)

lemma client_step: "falco_step parse s t \<Longrightarrow> client_ok parse sink0 s \<Longrightarrow> client_ok parse sink0 t"
proof (induction rule: falco_step.induct)
  case (deliver n ev s r)
  then show ?case by - (rule client_turn_ok [of parse sink0 s], simp_all)
next
  case (client_done s)
  then show ?case by - (rule client_turn_ok [of parse sink0 s], simp_all)
next
  case (client_closed s)
  then show ?case by - (rule client_turn_ok [of parse sink0 s], simp_all)
qed (erule client_ok_frame; simp)+

lemma waiting_next: "requests_ok s \<Longrightarrow> (n, ev) \<in> set (fz_waiting s) \<Longrightarrow> fz_next s > 0"
  by (cases "fz_next s") (auto simp: requests_ok_def request_ids_def)

lemma causes_step: "falco_step parse s t \<Longrightarrow> requests_ok s \<Longrightarrow> causes_ok s \<Longrightarrow> causes_ok t"
proof (induction rule: falco_step.induct)
  case (send_on_closed n ev s)
  then show ?case using waiting_next [of s n ev] by (auto simp: causes_ok_def events_closed_def)
next
  case (client_done s)
  then show ?case by (auto simp: causes_ok_def)
next
  case (client_closed s)
  then show ?case by (auto simp: causes_ok_def)
qed (auto simp: causes_ok_def)

definition falco_ok :: "(string \<Rightarrow> int option) \<Rightarrow> collector_sink \<Rightarrow> falco_system \<Rightarrow> bool" where
  "falco_ok parse sink0 s \<longleftrightarrow> requests_ok s \<and> client_ok parse sink0 s \<and> causes_ok s"

lemma falco_reachable: "(falco_step parse)\<^sup>*\<^sup>* (StartServer sink) s \<Longrightarrow> falco_ok parse sink s"
proof (induction rule: rtranclp_induct)
  case base
  show ?case
    by (simp add: falco_ok_def requests_ok_def request_ids_def client_ok_def client_result_def causes_ok_def StartServer_def)
next
  case (step s t)
  then show ?case using requests_step client_step causes_step by (auto simp: falco_ok_def)
qed

section \<open>Properties\<close>


section \<open>A handler can be cut off by the client's error\<close>

text \<open>
  Two events wait; the flow cache refuses the first one, so the client's loop ends, its deferred \<open>Shutdown\<close> makes \<open>Serve\<close>
  return, and the goroutine closes the channel under the second handler.
\<close>

definition flow_event :: string where
  "flow_event = sample_event"

definition serving :: "collector_sink \<Rightarrow> falco_system" where
  "serving sink = (StartServer sink)\<lparr>fz_server := Serving\<rparr>"

definition two_waiting :: "collector_sink \<Rightarrow> falco_system" where
  "two_waiting sink = accept_request (Inr flow_event) (accept_request (Inr flow_event) (serving sink))"

definition refused :: "(string \<Rightarrow> int option) \<Rightarrow> collector_sink \<Rightarrow> falco_system" where
  "refused parse sink =
     client_turn parse (FalcoEventText flow_event (Some (ErrMsg ''cache'')))
       (answer 0 200 (leave 0 ((two_waiting sink)\<lparr>fz_accepted := [flow_event]\<rparr>)))"

definition cut_off :: "(string \<Rightarrow> int option) \<Rightarrow> collector_sink \<Rightarrow> falco_system" where
  "cut_off parse sink =
     (leave 1 ((refused parse sink)\<lparr>fz_shutdown := True, fz_server := Finished\<rparr>))\<lparr>fz_panicked := [1]\<rparr>"

lemmas falco_run_eval = two_waiting_def accept_request_def Let_def serving_def StartServer_def leave_def answer_def
  refused_def client_turn_def events_closed_def

lemma serving_reachable: "(falco_step parse)\<^sup>*\<^sup>* (StartServer sink) (serving sink)"
proof -
  have "falco_step parse (StartServer sink) ((StartServer sink)\<lparr>fz_server := Listened\<rparr>)"
    by (rule falco_step.listen) (simp add: StartServer_def)
  moreover have "falco_step parse ((StartServer sink)\<lparr>fz_server := Listened\<rparr>) (serving sink)"
    using falco_step.serve [of "(StartServer sink)\<lparr>fz_server := Listened\<rparr>" parse] by (simp add: serving_def StartServer_def)
  ultimately show ?thesis by simp
qed

lemma two_waiting_reachable: "(falco_step parse)\<^sup>*\<^sup>* (StartServer sink) (two_waiting sink)"
proof -
  have "falco_step parse (serving sink) (accept_request (Inr flow_event) (serving sink))"
    by (rule falco_step.request) (simp_all add: serving_def StartServer_def)
  moreover have "falco_step parse (accept_request (Inr flow_event) (serving sink)) (two_waiting sink)"
    unfolding two_waiting_def by (rule falco_step.request) (simp_all add: serving_def StartServer_def)
  ultimately show ?thesis using serving_reachable [of parse sink] by (meson rtranclp.rtrancl_into_rtrancl)
qed

lemma refused_reachable: "(falco_step parse)\<^sup>*\<^sup>* (StartServer sink) (refused parse sink)"
proof -
  have "falco_step parse (two_waiting sink) (refused parse sink)"
    using falco_step.deliver [of 0 flow_event "two_waiting sink" parse "Some (ErrMsg ''cache'')"]
    by (simp add: falco_run_eval)
  then show ?thesis using two_waiting_reachable [of parse sink] by (meson rtranclp.rtrancl_into_rtrancl)
qed

lemma falco_handler_cut_off:
  assumes "event_flow parse flow_event \<noteq> None"
  shows "(falco_step parse)\<^sup>*\<^sup>* (StartServer sink) (cut_off parse sink)" and "fz_panicked (cut_off parse sink) = [1]"
    and "\<not> fz_failed (cut_off parse sink)"
proof -
  let ?s = "refused parse sink" and ?e = "FalcoErr (ErrMsg ''cache'')"
  have ended: "fz_client ?s = Ended ?e" "fz_server ?s = Serving" "(1, flow_event) \<in> set (fz_waiting ?s)" "fz_panicked ?s = []"
    using assms by (auto simp: falco_run_eval)
  have "falco_step parse ?s (?s\<lparr>fz_shutdown := True\<rparr>)" using ended by (intro falco_step.shutdown [of _ ?e]) simp_all
  moreover have "falco_step parse (?s\<lparr>fz_shutdown := True\<rparr>) (?s\<lparr>fz_shutdown := True, fz_server := Finished\<rparr>)"
    using falco_step.serve_closed [of "?s\<lparr>fz_shutdown := True\<rparr>" parse] ended by simp
  moreover have "falco_step parse (?s\<lparr>fz_shutdown := True, fz_server := Finished\<rparr>) (cut_off parse sink)"
    using falco_step.send_on_closed [of 1 flow_event "?s\<lparr>fz_shutdown := True, fz_server := Finished\<rparr>" parse] ended
    by (simp add: cut_off_def events_closed_def)
  ultimately show "(falco_step parse)\<^sup>*\<^sup>* (StartServer sink) (cut_off parse sink)"
    using refused_reachable [of parse sink] by (meson rtranclp.rtrancl_into_rtrancl)
  show "fz_panicked (cut_off parse sink) = [1]" "\<not> fz_failed (cut_off parse sink)"
    by (auto simp: cut_off_def falco_run_eval split: prod.splits)
qed


end
