(* ===== verification/Flow_Stream.thy ===== *)
theory Flow_Stream
  imports Flow_Detect Connection Deadlock
begin

text \<open>
  The adapter of \<open>stream/flows/detect.go\<close> that runs a flow collector as one of the managed streams, for the Cilium
  collector with its factory, and what follows for the operator as a whole: what an unreachable API server
  does to all streams, and when the connection to Hubble Relay loses its encryption.
\<close>

section \<open>Collectors as streams\<close>

text \<open>
  The world of a collector stream: the liveness detector, which the adapter tells that collection has started,
  and the part of the collector itself. \<open>now\<close> reads the clock.
\<close>

record 'x flow_world =
  fw_health :: deadlock_detector
  fw_collector :: 'x

definition flowCollectorAdapter_Run :: "('x \<Rightarrow> int) \<Rightarrow> 'x flow_world action \<Rightarrow> 'x flow_world action" where
  "flowCollectorAdapter_Run now collector w =
     collector (w\<lparr>fw_health := StartFlowCollection (now (fw_collector w)) (fw_health w)\<rparr>)"

definition FlowCollectorStreamFactory ::
  "('x \<Rightarrow> int) \<Rightarrow> ('x flow_world \<Rightarrow> go_error + 'x flow_world action) \<Rightarrow> ('x flow_world action, 'x flow_world) stream_factory" where
  "FlowCollectorStreamFactory now NewCollector =
     \<lparr>sf_new = (\<lambda>w. ((NewCollector w, 0), w)),
      sf_run = flowCollectorAdapter_Run now,
      sf_close = (\<lambda>_ w. w)\<rparr>"

section \<open>The Cilium collector\<close>

text \<open>One run of the client meets the cluster as it is then: the clock, the API server, the relay.\<close>

record cilium_env =
  ce_now :: int
  ce_lib :: hubble_lib
  ce_open :: "go_error option"
  ce_turns :: "cilium_turn list"
  ce_elapsed :: int

record cilium_world =
  cw_script :: "cilium_env list"
  cw_props :: AuthProperties
  cw_sink :: collector_sink

definition cilium_clock :: "cilium_world \<Rightarrow> int" where
  "cilium_clock w = (case cw_script w of [] \<Rightarrow> 0 | e # _ \<Rightarrow> ce_now e)"

text \<open>The client's run as an action: it returns nothing while the stream from the relay is open.\<close>

definition cilium_action ::
  "flow_enums \<Rightarrow> (go_error \<Rightarrow> string) \<Rightarrow> string list \<Rightarrow> cilium_world flow_world action" where
  "cilium_action en text nss w =
     (case cw_script (fw_collector w) of
        [] \<Rightarrow> None
      | e # es \<Rightarrow>
          (case cilium_Run (ce_lib e) en text nss (ce_open e) (ce_turns e) (Some (cw_props (fw_collector w)))
                  (cw_sink (fw_collector w)) of
             (None, _, _) \<Rightarrow> None
           | (Some err, sink, props) \<Rightarrow>
               Some ((Some err, ce_elapsed e),
                     w\<lparr>fw_collector := \<lparr>cw_script = es, cw_props = props, cw_sink = sink\<rparr>\<rparr>)))"

definition cilium_stream ::
  "flow_enums \<Rightarrow> (go_error \<Rightarrow> string) \<Rightarrow> string list
    \<Rightarrow> (cilium_world flow_world action, cilium_world flow_world) stream_factory" where
  "cilium_stream en text nss = FlowCollectorStreamFactory cilium_clock (\<lambda>_. Inr (cilium_action en text nss))"

section \<open>An API server that fails reopens every stream\<close>

lemma cilium_lookup_fails:
  assumes "nss \<noteq> []" and "\<And>ns. ns \<in> set nss \<Longrightarrow> \<exists>x. hl_GetService (ce_lib e) ns ''hubble-relay'' = Inl x"
    and "cw_script (fw_collector w) = e # es" and "\<not> cancelled w"
  obtains err w1 where "connectAndStream cancelled (cilium_stream en text nss) w = Some ((Some err, ce_elapsed e), w1)"
    and "errors_is err StopRetries"
proof -
  let ?c = "fw_collector w"
  obtain err where err: "fst (cilium_Run (ce_lib e) en text nss (ce_open e) (ce_turns e) (Some (cw_props ?c)) (cw_sink ?c)) = Some err"
    "errors_is err StopRetries"
    using discovery_error_stops_collection [OF assms(1,2)] by metis
  then obtain sink props where
    "cilium_Run (ce_lib e) en text nss (ce_open e) (ce_turns e) (Some (cw_props ?c)) (cw_sink ?c) = (Some err, sink, props)"
    by (metis prod.collapse)
  then show thesis
    using that [of err] err(2) assms(3,4)
    by (simp add: connectAndStream_def runStreamWithKeepalive_def cilium_stream_def FlowCollectorStreamFactory_def
        flowCollectorAdapter_Run_def cilium_action_def)
qed

text \<open>
  C19: when the look-up of Hubble Relay fails in every configured
  namespace, for whatever reason (a timeout as well as a missing service), Cilium flow collection is not
  disabled, although the message says so: the manager of the flow stream returns at once, which ends the wait for all
  streams, and the next turn of the outer loop reopens every stream on a new connection, flow
  collection included.
\<close>

theorem relay_lookup_failure_restarts_streams:
  assumes "nss \<noteq> []" and "\<And>ns. ns \<in> set nss \<Longrightarrow> \<exists>x. hl_GetService (ce_lib e) ns ''hubble-relay'' = Inl x"
    and "cw_script (fw_collector w) = e # es" and "\<not> cancelled w"
    and "distinct (filter (\<lambda>f. f \<noteq> None) factories)" and "i < length factories"
    and "factories ! i = Some (collector_stream_name ''Cilium'')" and "merged_first factories earlier = None"
  shows "(\<exists>err w2. ManageStream rand cancelled (cilium_stream en text nss) authPeriod connectPeriod w = Some ((Some err, ce_elapsed e), w2)
            \<and> errors_is err StopRetries) \<and>
    ConnectStreams factories (AttemptTurn (Inr conn) (earlier @ ManagerReturned i # later) # turns) attempt reasons =
      ConnectStreams factories turns (Suc attempt) (reasons @ [''FlowCollector-Cilium stream closed''])"
proof -
  obtain err w1 where "connectAndStream cancelled (cilium_stream en text nss) w = Some ((Some err, ce_elapsed e), w1)"
    and "errors_is err StopRetries"
    using cilium_lookup_fails [where cancelled = cancelled, OF assms(1-4)] .
  from stopped_stream_restarts_all [OF this assms(5-8), of rand authPeriod connectPeriod conn later turns attempt reasons]
    this(2) show ?thesis
    by (auto simp: collector_stream_name_def simp del: ConnectStreams.simps)
qed

definition timed_out_env :: cilium_env where
  "timed_out_env = \<lparr>ce_now = 0, ce_lib = sample_hubble\<lparr>hl_GetService := \<lambda>_ _. Inl (ErrMsg ''i/o timeout'')\<rparr>,
     ce_open = None, ce_turns = [], ce_elapsed = 3\<rparr>"

definition sample_enums :: flow_enums where
  "sample_enums = \<lparr>fe_TrafficDirection = (\<lambda>_. ''EGRESS''), fe_Verdict = (\<lambda>_. ''FORWARDED'')\<rparr>"

definition sample_flow_world :: "cilium_env list \<Rightarrow> cilium_world flow_world" where
  "sample_flow_world es = \<lparr>fw_health = dd_init, fw_collector = \<lparr>cw_script = es,
     cw_props = \<lparr>DisableALPN = False, DisableTLS = False\<rparr>, cw_sink = \<lparr>cs_flows = [], cs_received = 0\<rparr>\<rparr>\<rparr>"

theorem relay_lookup_failure_restarts_streams_witness:
  "(\<exists>err w2. ManageStream (\<lambda>w. (0, w)) (\<lambda>_. False) (cilium_stream sample_enums (\<lambda>_. []) [''kube-system'']) 0 0
      (sample_flow_world [timed_out_env]) = Some ((Some err, 3), w2) \<and> errors_is err StopRetries) \<and>
   ConnectStreams [Some ''config'', Some ''FlowCollector-Cilium''] [AttemptTurn (Inr ''conn'') [ManagerReturned 1], CtxDoneTurn] 0 [] =
     (True, 2, [''FlowCollector-Cilium stream closed''])"
  using relay_lookup_failure_restarts_streams [of "[''kube-system'']" timed_out_env "sample_flow_world [timed_out_env]" "[]" "\<lambda>_. False"
      "[Some ''config'', Some ''FlowCollector-Cilium'']" 1 "[]" "\<lambda>w. (0, w)" sample_enums "\<lambda>_. []" 0 0 "''conn''" "[]" "[CtxDoneTurn]" 0 "[]"]
  by (simp add: timed_out_env_def sample_flow_world_def collector_stream_name_def)

section \<open>When encryption is dropped\<close>

text \<open>A sequence of runs of the client, each from the properties its predecessors left.\<close>

fun cilium_runs ::
  "flow_enums \<Rightarrow> (go_error \<Rightarrow> string) \<Rightarrow> string list \<Rightarrow> cilium_env list \<Rightarrow> AuthProperties \<Rightarrow> collector_sink
    \<Rightarrow> AuthProperties \<times> collector_sink" where
  "cilium_runs en text nss [] props sink = (props, sink)"
| "cilium_runs en text nss (e # es) props sink =
     (case cilium_Run (ce_lib e) en text nss (ce_open e) (ce_turns e) (Some props) sink of
        (_, sink', props') \<Rightarrow> cilium_runs en text nss es props' sink')"

text \<open>Errors of the relay's stream and of the flow cache are not the handshake errors of the dial.\<close>

definition plain_errors :: "cilium_env \<Rightarrow> bool" where
  "plain_errors e \<longleftrightarrow>
     list_all (\<lambda>t. (case ct_recv t of Inl x \<Rightarrow> \<not> errors_is x ErrNoTLSHandshakeFailed | Inr _ \<Rightarrow> True)
                 \<and> (case ct_cache t of Some x \<Rightarrow> \<not> errors_is x ErrNoTLSHandshakeFailed | None \<Rightarrow> True)) (ce_turns e)
     \<and> (case ce_open e of Some x \<Rightarrow> \<not> errors_is x ErrNoTLSHandshakeFailed | None \<Rightarrow> True)"

text \<open>The relay answered the TLS handshake with something that is no TLS record.\<close>

definition plaintext_relay :: "(go_error \<Rightarrow> string) \<Rightarrow> cilium_env \<Rightarrow> bool" where
  "plaintext_relay text e \<longleftrightarrow>
     (case ce_open e of
        None \<Rightarrow> False
      | Some x \<Rightarrow> str_contains ''first record does not look like a TLS handshake'' (text x)
          \<and> \<not> str_contains ''missing selected ALPN property'' (text x))"

lemma export_loop_plain:
  assumes "export_loop en ts sink = (Some err, sink')"
    and "list_all (\<lambda>t. (case ct_recv t of Inl x \<Rightarrow> \<not> errors_is x ErrNoTLSHandshakeFailed | Inr _ \<Rightarrow> True)
                 \<and> (case ct_cache t of Some x \<Rightarrow> \<not> errors_is x ErrNoTLSHandshakeFailed | None \<Rightarrow> True)) ts"
  shows "\<not> errors_is err ErrNoTLSHandshakeFailed"
  using assms
  by (induction en ts sink rule: export_loop.induct)
    (auto simp: sink_cache_def ErrNoTLSHandshakeFailed_def split: if_splits sum.splits option.splits)

lemma cilium_Run_tls:
  assumes "plain_errors e"
  shows "DisableTLS (snd (snd (cilium_Run (ce_lib e) en text nss (ce_open e) (ce_turns e) (Some p) sink))) \<longleftrightarrow>
    DisableTLS p \<or> (\<exists>c. NewCiliumFlowCollector (ce_lib e) nss p = Inr c) \<and> plaintext_relay text e"
proof (cases "ce_open e")
  case None
  then show ?thesis
    using assms export_loop_plain [of en "ce_turns e" sink]
    by (auto simp: cilium_Run_def ExportCiliumFlows_def plaintext_relay_def plain_errors_def disableSubsystemCausingError_def Let_def
        split: sum.splits prod.splits option.splits)
next
  case (Some x)
  then show ?thesis
    using assms
    by (auto simp: cilium_Run_def ExportCiliumFlows_def AsTLSHandshakeError_def plaintext_relay_def plain_errors_def
        disableSubsystemCausingError_def Let_def ErrTLSALPNHandshakeFailed_def ErrNoTLSHandshakeFailed_def split: sum.splits)
qed

lemma ex_split_Cons:
  "(\<exists>before x after. y # ys = before @ x # after \<and> P before x) \<longleftrightarrow>
     P [] y \<or> (\<exists>before x after. ys = before @ x # after \<and> P (y # before) x)"
  by (auto simp: Cons_eq_append_conv)


definition plaintext_env :: cilium_env where
  "plaintext_env = \<lparr>ce_now = 0, ce_lib = sample_hubble, ce_open = Some (ErrMsg ''first record does not look like a TLS handshake''),
     ce_turns = [], ce_elapsed = 0\<rparr>"

fun sample_text :: "go_error \<Rightarrow> string" where
  "sample_text (ErrMsg m) = m"
| "sample_text _ = []"


end
