(* ===== verification/Startup.thy ===== *)
theory Startup
  imports Flow_Stream
begin

text \<open>
  \<open>src/cmd/main.go\<close>: the streams the operator registers, the flow watchdog it configures and the health endpoint.
  What \<open>viper\<close> answers for a setting is a field of \<open>settings\<close>; \<open>default_settings\<close> are the defaults the code sets.
\<close>

section \<open>Settings\<close>

record settings =
  se_flow_cache_active_timeout :: int
  se_flow_cache_max_size :: int
  se_flow_cache_channel_buffer_size :: int
  se_keepalive_configuration :: int
  se_keepalive_logs :: int
  se_keepalive_resources :: int
  se_keepalive_flows :: int
  se_success_auth :: int
  se_success_connect :: int
  se_cilium_namespaces :: "string list"
  se_ovnk_namespace :: string
  se_aws_vpc_cni_polling_interval :: int
  se_eks_auto_mode_poll_interval :: int
  se_cluster_creds :: string
  se_pod_namespace :: string
  se_onboarding_client_id :: string
  se_onboarding_client_secret :: string
  se_onboarding_endpoint :: string

definition default_settings :: settings where
  "default_settings =
     \<lparr>se_flow_cache_active_timeout = 20 * second, se_flow_cache_max_size = 1000, se_flow_cache_channel_buffer_size = 100,
      se_keepalive_configuration = 10 * second, se_keepalive_logs = 10 * second, se_keepalive_resources = 10 * second,
      se_keepalive_flows = 10 * second, se_success_auth = 2 * 60 * minute, se_success_connect = 60 * minute,
      se_cilium_namespaces = [''kube-system'', ''gke-managed-dpv2-observability''],
      se_ovnk_namespace = ''openshift-ovn-kubernetes'', se_aws_vpc_cni_polling_interval = second,
      se_eks_auto_mode_poll_interval = 10 * second, se_cluster_creds = ''clustercreds'', se_pod_namespace = ''illumio-cloud'',
      se_onboarding_client_id = [], se_onboarding_client_secret = [],
      se_onboarding_endpoint = ''https://dev.cloud.ilabs.io/api/v1/k8s_cluster/onboard''\<rparr>"

text \<open>The TLS properties exist once, all flags off, and outlive every connection.\<close>

definition collector_config :: "settings \<Rightarrow> CollectorConfig" where
  "collector_config se =
     \<lparr>cg_CiliumNamespaces = se_cilium_namespaces se, cg_TlsAuthProps = Some \<lparr>DisableALPN = False, DisableTLS = False\<rparr>,
      cg_OVNKNamespace = se_ovnk_namespace se, cg_AWSVPCCNIPollingInterval = se_aws_vpc_cni_polling_interval se,
      cg_AutoModePollInterval = se_eks_auto_mode_poll_interval se\<rparr>"

definition authConfig :: "settings \<Rightarrow> auth_config" where
  "authConfig se =
     \<lparr>ag_ClusterCreds = se_cluster_creds se, ag_PodNamespace = se_pod_namespace se,
      ag_OnboardingClientID = se_onboarding_client_id se, ag_OnboardingClientSecret = se_onboarding_client_secret se,
      ag_OnboardingEndpoint = se_onboarding_endpoint se\<rparr>"

section \<open>The streams\<close>

text \<open>A managed factory: the name of its stream and its keepalive period.\<close>

definition main_factories :: "settings \<Rightarrow> (string \<times> int) list" where
  "main_factories se =
     [(''GetConfigurationUpdates'', se_keepalive_configuration se), (''SendLogs'', se_keepalive_logs se),
      (''SendKubernetesResources'', se_keepalive_resources se), (''SendKubernetesNetworkFlows'', se_keepalive_flows se)]"

record startup =
  su_factories :: "(string \<times> int) list"
  su_flowCollector :: FlowCollector
  su_health :: deadlock_detector
  su_created :: "json_obj list"
  su_stats :: stats

definition main_setup :: "detect_lib \<Rightarrow> settings \<Rightarrow> stats \<Rightarrow> deadlock_detector \<Rightarrow> startup" where
  "main_setup lib se st d =
     (case DetectFlowCollector lib (collector_config se) st of
        ((flowCollectorType, flowCollectorName, flowCollectorFactory), created, st') \<Rightarrow>
          let factories = main_factories se in
          (case flowCollectorFactory of
             None \<Rightarrow>
               \<lparr>su_factories = factories, su_flowCollector = flowCollectorType, su_health = d, su_created = created, su_stats = st'\<rparr>
           | Some factory \<Rightarrow>
               let flowTimeout = FlowInactivityTimeout (se_flow_cache_active_timeout se) (PollingInterval factory) (map snd factories)
               in \<lparr>su_factories = factories @ [(collector_stream_name flowCollectorName, se_keepalive_flows se)],
                   su_flowCollector = flowCollectorType, su_health = ConfigureFlowLiveness flowTimeout d,
                   su_created = created, su_stats = st'\<rparr>))"

text \<open>The health endpoint: the status code, with the reason as its body.\<close>

definition newHealthHandler :: "unhealthy option \<Rightarrow> nat \<times> unhealthy option" where
  "newHealthHandler reason = (case reason of None \<Rightarrow> (200, None) | Some r \<Rightarrow> (500, Some r))"

section \<open>Every registered stream is waited for\<close>

lemma detect_names:
  assumes "DetectFlowCollector lib config st = ((ty, name, factory), created, st')"
  shows "name \<in> {''Cilium'', ''OVN-K'', ''AWS-VPC-CNI'', ''EKS-Auto-Mode'', ''None''}
    \<and> (factory = None \<longleftrightarrow> ty = FLOW_COLLECTOR_DISABLED)"
  using assms by (auto simp: DetectFlowCollector_def Let_def split: if_splits)

lemma main_setup_cases:
  obtains (none) "su_factories (main_setup lib se st d) = main_factories se" "su_health (main_setup lib se st d) = d"
      "su_flowCollector (main_setup lib se st d) = FLOW_COLLECTOR_DISABLED"
  | (collector) name iv where "name \<in> {''Cilium'', ''OVN-K'', ''AWS-VPC-CNI'', ''EKS-Auto-Mode'', ''None''}"
      "su_factories (main_setup lib se st d) = main_factories se @ [(''FlowCollector-'' @ name, se_keepalive_flows se)]"
      "su_health (main_setup lib se st d) =
         ConfigureFlowLiveness (FlowInactivityTimeout (se_flow_cache_active_timeout se) iv (map snd (main_factories se))) d"
      "su_flowCollector (main_setup lib se st d) \<noteq> FLOW_COLLECTOR_DISABLED"
proof -
  obtain ty name factory created st' where
    det: "DetectFlowCollector lib (collector_config se) st = ((ty, name, factory), created, st')"
    by (metis prod.exhaust)
  note names = detect_names [OF det]
  show thesis
  proof (cases factory)
    case None
    then show ?thesis using none names det by (simp add: main_setup_def Let_def)
  next
    case (Some f)
    then show ?thesis
      using collector [of name "PollingInterval f"] names det
      by (auto simp: main_setup_def Let_def collector_stream_name_def)
  qed
qed

lemma startup_names_distinct: "distinct (map fst (su_factories (main_setup lib se st d)))"
  by (rule main_setup_cases [of lib se st d]) (auto simp: main_factories_def)

text \<open>
  Whatever collector is detected, the streams the operator registers have distinct names, so the
  outer loop waits for each of them: the first manager to return, of whichever stream, closes the
  connection and the next turn reopens all of them under a new one. The resource, configuration, logs
  and flow streams are always among them, a collector's stream exactly when one was detected.
\<close>

theorem startup_streams:
  assumes "i < length (su_factories (main_setup lib se st d))"
  shows "ConnectStreams (map (Some \<circ> fst) (su_factories (main_setup lib se st d)))
      (AttemptTurn (Inr conn) (ManagerReturned i # later) # turns) attempt reasons =
    ConnectStreams (map (Some \<circ> fst) (su_factories (main_setup lib se st d))) turns (Suc attempt)
      (reasons @ [fst (su_factories (main_setup lib se st d) ! i) @ '' stream closed''])
  \<and> set (map fst (main_factories se)) \<subseteq> set (map fst (su_factories (main_setup lib se st d)))
  \<and> (length (su_factories (main_setup lib se st d)) = 5 \<longleftrightarrow> su_flowCollector (main_setup lib se st d) \<noteq> FLOW_COLLECTOR_DISABLED)"
proof -
  let ?fs = "su_factories (main_setup lib se st d)"
  have "filter (\<lambda>f. f \<noteq> None) (map (Some \<circ> fst) ?fs) = map Some (map fst ?fs)"
    by (simp add: filter_map comp_def)
  then have "distinct (filter (\<lambda>f. f \<noteq> None) (map (Some \<circ> fst) ?fs))"
    using startup_names_distinct [of lib se st d] distinct_map [of Some "map fst ?fs"] by simp
  from watched_distinct [OF this, of i] assms have "watched (map (Some \<circ> fst) ?fs) i" by simp
  moreover have "set (map fst (main_factories se)) \<subseteq> set (map fst ?fs)
      \<and> (length ?fs = 5 \<longleftrightarrow> su_flowCollector (main_setup lib se st d) \<noteq> FLOW_COLLECTOR_DISABLED)"
    by (rule main_setup_cases [of lib se st d]) (auto simp: main_factories_def)
  ultimately show ?thesis using assms by (simp add: runStreamsOnce_def)
qed

section \<open>The health endpoint\<close>

lemma FlowInactivityTimeout_lower:
  "activeTimeout + max iv 0 + FlowInactivityMargin \<le> FlowInactivityTimeout activeTimeout iv ps"
  using min_keepalive_source [of 0 ps] by (auto simp: FlowInactivityTimeout_def FlowInactivityKeepaliveMultiplier_def)

lemma no_watchdog:
  assumes "dd_flowInactivityTimeout d \<le> 0" and "dd_flowCollectionStarted d = None"
  shows "dd_flowInactivityTimeout (fold dd_apply es d) \<le> 0 \<and> dd_flowCollectionStarted (fold dd_apply es d) = None"
  using assms
proof (induction es arbitrary: d)
  case (Cons e es)
  have "dd_flowInactivityTimeout (dd_apply e d) \<le> 0 \<and> dd_flowCollectionStarted (dd_apply e d) = None"
    using Cons.prems by (cases e) (auto simp: SetProcessingResources_def StartFlowCollection_def RecordFlowSent_def Let_def)
  with Cons.IH show ?case by simp
qed simp


definition ovnk_cluster :: detect_lib where
  "ovnk_cluster = \<lparr>dl_hubble = sample_hubble\<lparr>hl_GetService := \<lambda>_ _. Inl NotFoundErr\<rparr>, dl_GetNamespace = (\<lambda>_. None),
     dl_ListPods = (\<lambda>_ _. Inr []), dl_ListNodes = (\<lambda>_. Inr []), dl_ServerResources = (\<lambda>_. Some NotFoundErr),
     dl_Create = (\<lambda>_. None), dl_IsAlreadyExists = (\<lambda>_. False)\<rparr>"

lemma ovnk_detected:
  "DetectFlowCollector ovnk_cluster (collector_config default_settings) st = ((FLOW_COLLECTOR_OVNK, ''OVN-K'', Some OVNKFactory), [], st)"
  by (simp add: DetectFlowCollector_def ovnk_cluster_def IsOVNKDeployed_def IsCiliumAvailable_def collector_config_def
      default_settings_def NewCiliumFlowCollector_def DiscoverCiliumHubbleRelay_def Let_def)

theorem startup_streams_witness:
  "ConnectStreams (map (Some \<circ> fst) (su_factories (main_setup ovnk_cluster default_settings NewStats dd_init)))
      [AttemptTurn (Inr ''conn'') [ManagerReturned 4], CtxDoneTurn] 0 [] = (True, 2, [''FlowCollector-OVN-K stream closed''])"
  using startup_streams [of 4 ovnk_cluster default_settings NewStats dd_init "''conn''" "[]" "[CtxDoneTurn]" 0 "[]"]
  by (simp add: main_setup_def ovnk_detected main_factories_def collector_stream_name_def)

lemma ovnk_health: "su_health (main_setup ovnk_cluster default_settings st d) = ConfigureFlowLiveness (110 * second) d"
proof -
  have "su_health (main_setup ovnk_cluster default_settings st d) = ConfigureFlowLiveness (FlowInactivityTimeout
      (se_flow_cache_active_timeout default_settings) 0 (map snd (main_factories default_settings))) d"
    by (simp add: main_setup_def ovnk_detected PollingInterval_def Let_def)
  also have "FlowInactivityTimeout (se_flow_cache_active_timeout default_settings) 0 (map snd (main_factories default_settings)) = 110 * second"
    by (simp add: main_factories_def default_settings_def FlowInactivityTimeout_def FlowInactivityKeepaliveMultiplier_def
        FlowInactivityMargin_def second_def minute_def)
  finally show ?thesis .
qed


end
