(* ===== verification/Settings.thy ===== *)
theory Settings
  imports Startup Log_Fetcher
begin

text \<open>
  The configuration of \<open>src/cmd/main.go\<close>: which environment variable is bound to which setting, the defaults, how the settings are
  read, and what is written to the log at start. \<open>viper\<close> itself is an argument, the value it answers for a key; what
  is relied on is that it answers with the default of a key for which no variable is set.
\<close>

section \<open>Bindings and defaults\<close>

definition env_bindings :: "(string \<times> string) list" where
  "env_bindings =
     [(''aws_vpc_cni_logs_polling_interval'', ''AWS_VPC_CNI_LOGS_POLLING_INTERVAL''),
      (''cilium_namespaces'', ''CILIUM_NAMESPACES''),
      (''cluster_creds'', ''CLUSTER_CREDS_SECRET''),
      (''cluster_name'', ''CLUSTER_NAME''),
      (''eks_auto_mode_log_path'', ''EKS_AUTO_MODE_LOG_PATH''),
      (''eks_auto_mode_max_concurrent_node_polls'', ''EKS_AUTO_MODE_MAX_CONCURRENT_NODE_POLLS''),
      (''eks_auto_mode_poll_interval'', ''EKS_AUTO_MODE_POLL_INTERVAL''),
      (''flow_cache_active_timeout'', ''FLOW_CACHE_ACTIVE_TIMEOUT''),
      (''flow_cache_channel_buffer_size'', ''FLOW_CACHE_CHANNEL_BUFFER_SIZE''),
      (''flow_cache_max_size'', ''FLOW_CACHE_MAX_SIZE''),
      (''grpc_internal_logging'', ''GRPC_INTERNAL_LOGGING''),
      (''https_proxy'', ''HTTPS_PROXY''),
      (''ipfix_collector_port'', ''IPFIX_COLLECTOR_PORT''),
      (''onboarding_client_id'', ''ONBOARDING_CLIENT_ID''),
      (''onboarding_client_secret'', ''ONBOARDING_CLIENT_SECRET''),
      (''onboarding_endpoint'', ''ONBOARDING_ENDPOINT''),
      (''ovnk_namespace'', ''OVNK_NAMESPACE''),
      (''pod_namespace'', ''POD_NAMESPACE''),
      (''stats_log_period'', ''STATS_LOG_PERIOD''),
      (''stream_keepalive_period_configuration'', ''STREAM_KEEPALIVE_PERIOD_CONFIGURATION''),
      (''stream_keepalive_period_kubernetes_network_flows'', ''STREAM_KEEPALIVE_PERIOD_KUBERNETES_NETWORK_FLOWS''),
      (''stream_keepalive_period_kubernetes_resources'', ''STREAM_KEEPALIVE_PERIOD_KUBERNETES_RESOURCES''),
      (''stream_keepalive_period_logs'', ''STREAM_KEEPALIVE_PERIOD_LOGS''),
      (''stream_success_period_auth'', ''STREAM_SUCCESS_PERIOD_AUTH''),
      (''stream_success_period_connect'', ''STREAM_SUCCESS_PERIOD_CONNECT''),
      (''tls_skip_verify'', ''TLS_SKIP_VERIFY''),
      (''token_endpoint'', ''TOKEN_ENDPOINT''),
      (''verbose_debugging'', ''VERBOSE_DEBUGGING'')]"

datatype setting = SText string | SInt int | SBool bool | SList "string list"

definition setting_defaults :: "(string \<times> setting) list" where
  "setting_defaults =
     [(''aws_vpc_cni_logs_polling_interval'', SText ''1s''),
      (''cilium_namespaces'', SList [''kube-system'', ''gke-managed-dpv2-observability'']),
      (''cluster_creds'', SText ''clustercreds''),
      (''eks_auto_mode_log_path'', SText DefaultNetworkPolicyAgentLogPath),
      (''eks_auto_mode_max_concurrent_node_polls'', SInt 10),
      (''eks_auto_mode_poll_interval'', SText ''10s''),
      (''flow_cache_active_timeout'', SText ''20s''),
      (''flow_cache_channel_buffer_size'', SInt 100),
      (''flow_cache_max_size'', SInt 1000),
      (''grpc_internal_logging'', SBool False),
      (''https_proxy'', SText []),
      (''ipfix_collector_port'', SText ''4739''),
      (''onboarding_endpoint'', SText ''https://dev.cloud.ilabs.io/api/v1/k8s_cluster/onboard''),
      (''ovnk_namespace'', SText ''openshift-ovn-kubernetes''),
      (''pod_namespace'', SText ''illumio-cloud''),
      (''stats_log_period'', SText ''30m''),
      (''stream_keepalive_period_configuration'', SText ''10s''),
      (''stream_keepalive_period_kubernetes_network_flows'', SText ''10s''),
      (''stream_keepalive_period_kubernetes_resources'', SText ''10s''),
      (''stream_keepalive_period_logs'', SText ''10s''),
      (''stream_success_period_auth'', SText ''2h''),
      (''stream_success_period_connect'', SText ''1h''),
      (''tls_skip_verify'', SBool False),
      (''token_endpoint'', SText ''https://dev.cloud.ilabs.io/api/v1/k8s_cluster/authenticate''),
      (''verbose_debugging'', SBool False)]"

section \<open>Reading the settings\<close>

text \<open>
  A value is a text, a number, a flag or a list, converted by \<open>viper\<close> to the kind the code asks for; a duration is a text read by
  the argument \<open>dur\<close>, of which only the reading of a number with one unit is relied on.
\<close>

definition duration_contract :: "(string \<Rightarrow> int) \<Rightarrow> bool" where
  "duration_contract dur \<longleftrightarrow>
     (\<forall>n. dur (string_of_nat n @ ''s'') = int n * second \<and> dur (string_of_nat n @ ''m'') = int n * minute \<and>
          dur (string_of_nat n @ ''h'') = int n * 60 * minute)"

definition GetString :: "(string \<Rightarrow> setting option) \<Rightarrow> string \<Rightarrow> string" where
  "GetString viper key = (case viper key of Some (SText s) \<Rightarrow> s | _ \<Rightarrow> [])"

definition GetDuration :: "(string \<Rightarrow> int) \<Rightarrow> (string \<Rightarrow> setting option) \<Rightarrow> string \<Rightarrow> int" where
  "GetDuration dur viper key = (case viper key of Some (SText s) \<Rightarrow> dur s | _ \<Rightarrow> 0)"

definition GetInt :: "(string \<Rightarrow> setting option) \<Rightarrow> string \<Rightarrow> int" where
  "GetInt viper key = (case viper key of Some (SInt n) \<Rightarrow> n | _ \<Rightarrow> 0)"

definition GetStringSlice :: "(string \<Rightarrow> setting option) \<Rightarrow> string \<Rightarrow> string list" where
  "GetStringSlice viper key = (case viper key of Some (SList ss) \<Rightarrow> ss | _ \<Rightarrow> [])"

definition read_settings :: "(string \<Rightarrow> int) \<Rightarrow> (string \<Rightarrow> setting option) \<Rightarrow> settings" where
  "read_settings dur viper =
     \<lparr>se_flow_cache_active_timeout = GetDuration dur viper ''flow_cache_active_timeout'',
      se_flow_cache_max_size = GetInt viper ''flow_cache_max_size'',
      se_flow_cache_channel_buffer_size = GetInt viper ''flow_cache_channel_buffer_size'',
      se_keepalive_configuration = GetDuration dur viper ''stream_keepalive_period_configuration'',
      se_keepalive_logs = GetDuration dur viper ''stream_keepalive_period_logs'',
      se_keepalive_resources = GetDuration dur viper ''stream_keepalive_period_kubernetes_resources'',
      se_keepalive_flows = GetDuration dur viper ''stream_keepalive_period_kubernetes_network_flows'',
      se_success_auth = GetDuration dur viper ''stream_success_period_auth'',
      se_success_connect = GetDuration dur viper ''stream_success_period_connect'',
      se_cilium_namespaces = GetStringSlice viper ''cilium_namespaces'',
      se_ovnk_namespace = GetString viper ''ovnk_namespace'',
      se_aws_vpc_cni_polling_interval = GetDuration dur viper ''aws_vpc_cni_logs_polling_interval'',
      se_eks_auto_mode_poll_interval = GetDuration dur viper ''eks_auto_mode_poll_interval'',
      se_cluster_creds = GetString viper ''cluster_creds'',
      se_pod_namespace = GetString viper ''pod_namespace'',
      se_onboarding_client_id = GetString viper ''onboarding_client_id'',
      se_onboarding_client_secret = GetString viper ''onboarding_client_secret'',
      se_onboarding_endpoint = GetString viper ''onboarding_endpoint''\<rparr>"

section \<open>The log line at start\<close>

text \<open>The settings \<open>logStartupConfig\<close> writes, by key.\<close>

definition logStartupConfig :: "string list" where
  "logStartupConfig =
     [''aws_vpc_cni_logs_polling_interval'', ''cilium_namespaces'', ''cluster_creds'', ''cluster_name'', ''eks_auto_mode_log_path'',
      ''eks_auto_mode_max_concurrent_node_polls'', ''eks_auto_mode_poll_interval'', ''https_proxy'', ''ipfix_collector_port'',
      ''onboarding_client_id'', ''onboarding_endpoint'', ''ovnk_namespace'', ''pod_namespace'', ''stats_log_period'',
      ''stream_keepalive_period_configuration'', ''stream_keepalive_period_kubernetes_network_flows'',
      ''stream_keepalive_period_kubernetes_resources'', ''stream_keepalive_period_logs'', ''stream_success_period_auth'',
      ''stream_success_period_connect'', ''tls_skip_verify'', ''token_endpoint'', ''verbose_debugging'']"

section \<open>Properties\<close>

text \<open>Without an environment the operator runs with the settings its theorems are stated for.\<close>

lemma duration_texts:
  assumes "duration_contract dur"
  shows "dur ''1s'' = second" "dur ''10s'' = 10 * second" "dur ''20s'' = 20 * second" "dur ''30m'' = 30 * minute"
    "dur ''1h'' = 60 * minute" "dur ''2h'' = 2 * 60 * minute"
proof -
  have "string_of_nat 1 = ''1''" "string_of_nat 10 = ''10''" "string_of_nat 20 = ''20''" "string_of_nat 30 = ''30''" "string_of_nat 2 = ''2''"
    by code_simp+
  then show "dur ''1s'' = second" "dur ''10s'' = 10 * second" "dur ''20s'' = 20 * second" "dur ''30m'' = 30 * minute"
    "dur ''1h'' = 60 * minute" "dur ''2h'' = 2 * 60 * minute"
    using assms [unfolded duration_contract_def, rule_format, of 1] assms [unfolded duration_contract_def, rule_format, of 10]
      assms [unfolded duration_contract_def, rule_format, of 20] assms [unfolded duration_contract_def, rule_format, of 30]
      assms [unfolded duration_contract_def, rule_format, of 2]
    by simp_all
qed

lemma defaults_are_default_settings:
  assumes "duration_contract dur" and "\<forall>key. viper key = map_of setting_defaults key"
  shows "read_settings dur viper = default_settings"
  using assms(2) duration_texts [OF assms(1)]
  by (simp add: read_settings_def default_settings_def GetDuration_def GetInt_def GetStringSlice_def GetString_def setting_defaults_def)

text \<open>Every setting has one variable and every default a variable; what has no default is the cluster's name and the credentials.\<close>

lemma bindings_unique: "distinct (map fst env_bindings)" "distinct (map snd env_bindings)"
  by (code_simp, code_simp)

lemma undefaulted_settings:
  "filter (\<lambda>k. k \<notin> fst ` set setting_defaults) (map fst env_bindings) = [''cluster_name'', ''onboarding_client_id'', ''onboarding_client_secret'']"
  "list_all (\<lambda>k. k \<in> fst ` set env_bindings) (map fst setting_defaults)"
  by (simp_all add: env_bindings_def setting_defaults_def)

text \<open>The log of the start has only bound settings, and not the onboarding secret.\<close>

lemma start_log_has_no_secret:
  "''onboarding_client_secret'' \<notin> set logStartupConfig" "list_all (\<lambda>k. k \<in> fst ` set env_bindings) logStartupConfig"
  by (simp_all add: logStartupConfig_def env_bindings_def)

end
