(* ===== verification/K8s_Client.thy ===== *)
theory K8s_Client
  imports Reconciler IP_Text
begin

text \<open>
  \<open>k8sclient/client.go\<close>: how the operator's Kubernetes client is built, and the calls it passes on. Applying and
  deleting an object are in \<open>Reconciler\<close>. The environment, the home directory and the constructors of the
  client library are arguments.
\<close>

section \<open>Paths\<close>

text \<open>\<open>filepath.Clean\<close> on Unix: elements are pushed on a stack, latest first.\<close>

fun join_slash :: "string list \<Rightarrow> string" where
  "join_slash [] = []"
| "join_slash [x] = x"
| "join_slash (x # xs) = x @ ''/'' @ join_slash xs"

definition clean_push :: "bool \<Rightarrow> string \<Rightarrow> string list \<Rightarrow> string list" where
  "clean_push rooted e st =
     (if e = [] \<or> e = ''.'' then st
      else if e = ''..'' then
        (if st \<noteq> [] \<and> hd st \<noteq> ''..'' then tl st else if rooted then st else e # st)
      else e # st)"

definition filepath_Clean :: "string \<Rightarrow> string" where
  "filepath_Clean path =
     (let rooted = (path \<noteq> [] \<and> hd path = CHR ''/'');
          elems = rev (fold (clean_push rooted) (split_at (CHR ''/'') path) [])
      in if rooted then ''/'' @ join_slash elems else if elems = [] then ''.'' else join_slash elems)"

definition filepath_Join :: "string list \<Rightarrow> string" where
  "filepath_Join elems =
     (let xs = filter (\<lambda>e. e \<noteq> []) elems in if xs = [] then [] else filepath_Clean (join_slash xs))"

section \<open>Building the client\<close>

record ('c, 't, 'd) kube_lib =
  kl_Getenv :: "string \<Rightarrow> string"
  kl_HomeDir :: string
  kl_BuildConfigFromFlags :: "string \<Rightarrow> string \<Rightarrow> 'c result"
  kl_InClusterConfig :: "'c result"
  kl_Clientset :: "'c \<Rightarrow> 't result"
  kl_Dynamic :: "'c \<Rightarrow> 'd result"
  kl_disableProxy :: "'c \<Rightarrow> 'c"

definition IsRunningInCluster :: "('c, 't, 'd) kube_lib \<Rightarrow> bool" where
  "IsRunningInCluster lib = (kl_Getenv lib ''KUBERNETES_SERVICE_HOST'' \<noteq> [])"

definition getKubeConfig :: "('c, 't, 'd) kube_lib \<Rightarrow> 'c result" where
  "getKubeConfig lib =
     (if kl_Getenv lib ''KUBECONFIG'' \<noteq> [] \<or> \<not> IsRunningInCluster lib
      then let home = kl_HomeDir lib;
               kubeconfig = (if home \<noteq> [] then filepath_Join [home, ''.kube'', ''config''] else [])
           in kl_BuildConfigFromFlags lib [] kubeconfig
      else kl_InClusterConfig lib)"

record ('c, 't, 'd) real_client =
  rk_clientset :: 't
  rk_dynamicClient :: 'd
  rk_config :: "'c option"

definition NewClientFromConfig :: "('c, 't, 'd) kube_lib \<Rightarrow> 'c \<Rightarrow> ('c, 't, 'd) real_client result" where
  "NewClientFromConfig lib config =
     (let config' = kl_disableProxy lib config in
      case kl_Clientset lib config' of
        Inl e \<Rightarrow> Inl e
      | Inr clientset \<Rightarrow>
          (case kl_Dynamic lib config' of
             Inl e \<Rightarrow> Inl e
           | Inr dynamicClient \<Rightarrow> Inr \<lparr>rk_clientset = clientset, rk_dynamicClient = dynamicClient, rk_config = Some config'\<rparr>))"

definition NewClient :: "('c, 't, 'd) kube_lib \<Rightarrow> ('c, 't, 'd) real_client result" where
  "NewClient lib = (case getKubeConfig lib of Inl e \<Rightarrow> Inl e | Inr config \<Rightarrow> NewClientFromConfig lib config)"

text \<open>A transport, as far as the wrapper looks at it: its proxy, or another kind of round tripper.\<close>

datatype round_tripper = HttpTransport "string option" | OtherTripper

definition disableProxyTransport :: "round_tripper \<Rightarrow> round_tripper" where
  "disableProxyTransport rt = (case rt of HttpTransport _ \<Rightarrow> HttpTransport None | OtherTripper \<Rightarrow> rt)"

section \<open>Calls passed on\<close>

text \<open>The namespace of a call is \<open>None\<close> for the whole cluster.\<close>

definition ListResources :: "(gvr \<Rightarrow> string option \<Rightarrow> 'a) \<Rightarrow> gvr \<Rightarrow> string \<Rightarrow> 'a" where
  "ListResources list gvr namespace = (if namespace = [] then list gvr None else list gvr (Some namespace))"

definition WatchResources :: "(gvr \<Rightarrow> string option \<Rightarrow> string \<Rightarrow> 'a) \<Rightarrow> gvr \<Rightarrow> string \<Rightarrow> string \<Rightarrow> 'a" where
  "WatchResources watch gvr namespace resourceVersion =
     (if namespace = [] then watch gvr None resourceVersion else watch gvr (Some namespace) resourceVersion)"

definition GetResource :: "(gvr \<Rightarrow> string option \<Rightarrow> string \<Rightarrow> 'a) \<Rightarrow> gvr \<Rightarrow> string \<Rightarrow> string \<Rightarrow> 'a" where
  "GetResource get gvr namespace name =
     (if namespace = [] then get gvr None name else get gvr (Some namespace) name)"

section \<open>Which configuration is used\<close>

text \<open>
  The variable \<open>KUBECONFIG\<close> is only tested for being set: whatever path it names, the file read is the one in the
  home directory.
\<close>

lemma kubeconfig_path_ignored:
  assumes "a \<noteq> []" and "b \<noteq> []"
  shows "getKubeConfig (lib\<lparr>kl_Getenv := (kl_Getenv lib)(''KUBECONFIG'' := a)\<rparr>) =
    getKubeConfig (lib\<lparr>kl_Getenv := (kl_Getenv lib)(''KUBECONFIG'' := b)\<rparr>)"
  using assms by (simp add: getKubeConfig_def IsRunningInCluster_def)

text \<open>
  In a cluster, and with \<open>KUBECONFIG\<close> unset, the in-cluster configuration is used and no file is read; every client
  built goes to the API server without the HTTP proxy.
\<close>

lemma NewClient_in_cluster:
  assumes "kl_Getenv lib ''KUBECONFIG'' = []" and "kl_Getenv lib ''KUBERNETES_SERVICE_HOST'' \<noteq> []"
    and "kl_disableProxy lib = f" and "NewClient lib = Inr c"
  shows "\<exists>config. kl_InClusterConfig lib = Inr config \<and> rk_config c = Some (f config)"
  using assms
  by (auto simp: NewClient_def getKubeConfig_def IsRunningInCluster_def NewClientFromConfig_def Let_def split: sum.splits)

lemma home_config_path: "filepath_Join [''/root'', ''.kube'', ''config''] = ''/root/.kube/config''"
  by code_simp

end
