(* ===== verification/Flow_Pipeline.thy ===== *)
theory Flow_Pipeline
  imports Collector_Cilium Fake_Server
begin

text \<open>
  The way of a flow through the operator: from a collector (\<open>collector/cilium.go\<close>) through the sink and the flow cache
  (\<open>stream/flows/cache/cache.go\<close>) and the flow stream (\<open>stream/flows/client.go\<close>) to the handler of the server. The
  channels between the parts keep the order: what one puts in is what the next takes out.
\<close>

section \<open>A cache whose context stays alive\<close>

fun received :: "flow_event list \<Rightarrow> flow list" where
  "received [] = []"
| "received (FlowReceived f _ # es) = f # received es"
| "received (_ # es) = received es"

text \<open>No select of the cache takes the branch of a cancelled context.\<close>

fun live :: "flow_event \<Rightarrow> bool" where
  "live FlowCtxDone = False"
| "live (FlowTimer _ sends) = list_all (\<lambda>b. b) sends"
| "live (FlowReceived _ sent) = sent"

lemma evict_loop_live: "list_all (\<lambda>b. b) sends \<Longrightarrow> fo_dropped (fst (evict_loop cutoff sends c)) = []"
proof (induction sends arbitrary: c)
  case (Cons b bs)
  have "fo_dropped (fst (evict_loop cutoff bs (remove_front f c))) = []" for f
    using Cons by simp
  with Cons.prems show ?case by (cases "fc_queue c") (auto simp: Let_def prod.case_eq_if)
qed simp

lemma live_step:
  assumes "live e" and "Run_select e c = (r, out, c')"
  shows "(\<exists>x. r = Again x) \<and> fo_dropped out = []"
proof (cases e)
  case (FlowTimer now sends)
  then show ?thesis
    using assms evict_loop_live [of sends "now - fc_activeTimeout c" "c\<lparr>fc_timer := None\<rparr>"]
    by (auto simp: Run_timer_def evictExpiredFlows_def split: prod.splits)
next
  case (FlowReceived f sent)
  then show ?thesis
    using assms by (auto simp: Run_received_def evictOldestFlow_def Let_def split: if_splits list.splits prod.splits sum.splits)
qed (use assms in simp)

text \<open>A flow that is skipped has a representative in the cache.\<close>

lemma skipped_represented:
  assumes "flow_inv c" and "shouldSkipFlow f c"
  shows "Key f \<in> Key ` set (fc_queue c)"
  using assms map_of_keyed_None [of "fc_queue c" "Key f"] by (simp add: flow_inv_def shouldSkipFlow_def)

lemma live_step_flows:
  assumes "flow_inv c" and "live e" and "Run_select e c = (r, out, c')"
  shows "flow_inv c' \<and> set (fo_sent out) \<union> set (fc_queue c') \<subseteq> set (fc_queue c) \<union> set (received [e])
    \<and> Key ` (set (fo_sent out) \<union> set (fc_queue c')) = Key ` (set (fc_queue c) \<union> set (received [e]))
    \<and> length (fo_sent out) + length (fc_queue c') \<le> length (fc_queue c) + length (received [e])"
proof -
  have conserved: "mset (fo_sent out) + mset (fc_queue c') = mset (fc_queue c) + mset (taken e c)" and inv: "flow_inv c'"
    using Run_select_step [OF assms(1,3)] live_step [OF assms(2,3)] by (simp_all add: out_mset_def)
  then have sets: "set (fo_sent out) \<union> set (fc_queue c') = set (fc_queue c) \<union> set (taken e c)"
    by (metis set_mset_mset set_mset_union)
  have len: "length (fo_sent out) + length (fc_queue c') = length (fc_queue c) + length (taken e c)"
    using arg_cong [OF conserved, of size] by simp
  show ?thesis
    unfolding sets using inv len skipped_represented [OF assms(1)] by (cases e) auto
qed

lemma live_loop_flows:
  assumes "flow_inv c" and "list_all live es" and "FlowCache_loop es c = (out, c')"
  shows "fo_dropped out = [] \<and> set (fo_sent out) \<union> set (fc_queue c') \<subseteq> set (fc_queue c) \<union> set (received es)
    \<and> Key ` (set (fo_sent out) \<union> set (fc_queue c')) = Key ` (set (fc_queue c) \<union> set (received es))
    \<and> length (fo_sent out) + length (fc_queue c') \<le> length (fc_queue c) + length (received es)"
  using assms
proof (induction es arbitrary: c out c')
  case (Cons e es)
  obtain r out1 c1 where st: "Run_select e c = (r, out1, c1)" by (metis surj_pair)
  obtain out2 c2 where rest: "FlowCache_loop es c1 = (out2, c2)" by (metis surj_pair)
  have split: "set (received (e # es)) = set (received [e]) \<union> set (received es)"
    "length (received (e # es)) = length (received [e]) + length (received es)"
    by (cases e; simp)+
  have live: "live e" "list_all live es" using Cons.prems(2) by simp_all
  obtain x where again: "r = Again x" and drop1: "fo_dropped out1 = []"
    using live_step [OF live(1) st] by blast
  note head = live_step_flows [OF Cons.prems(1) live(1) st]
  have inv: "flow_inv c1" using head by simp
  note tail = Cons.IH [OF inv live(2) rest]
  have out: "out = join_output out1 out2" "c' = c2"
    using Cons.prems(3) st rest again by simp_all
  have keys: "Key ` (set (fo_sent out) \<union> set (fc_queue c')) = Key ` set (fo_sent out1) \<union> Key ` (set (fc_queue c1) \<union> set (received es))"
    using tail by (simp add: out image_Un Un_assoc)
  also have "\<dots> = Key ` (set (fo_sent out1) \<union> set (fc_queue c1)) \<union> Key ` set (received es)" by (simp add: image_Un Un_assoc)
  also have "\<dots> = Key ` (set (fc_queue c) \<union> set (received (e # es)))"
    using head unfolding split(1) by (simp add: image_Un Un_assoc)
  finally have "Key ` (set (fo_sent out) \<union> set (fc_queue c')) = Key ` (set (fc_queue c) \<union> set (received (e # es)))" .
  moreover have "set (fo_sent out) \<union> set (fc_queue c') \<subseteq> set (fc_queue c) \<union> set (received (e # es))"
    using head tail unfolding split(1) out output_simps set_append by blast
  moreover have "length (fo_sent out) + length (fc_queue c') \<le> length (fc_queue c) + length (received (e # es))"
    using head tail unfolding split(2) out by simp
  ultimately show ?case using tail drop1 by (simp add: out)
qed simp

section \<open>The flow stream\<close>

lemma Flows_Run_sends:
  "\<not> fl_closed c \<Longrightarrow> snd (fst (Flows_Run (map (\<lambda>f. FlFlow f (clock f) None) fs) c)) = map flow_request_of fs"
proof (induction fs arbitrary: c)
  case (Cons f fs)
  let ?c = "c\<lparr>fl_liveness := RecordFlowSent (clock f) (fl_liveness c), fl_stats := IncrementFlowsSentToClusterSync (fl_stats c)\<rparr>"
  have "snd (fst (Flows_Run (map (\<lambda>f. FlFlow f (clock f) None) fs) ?c)) = map flow_request_of fs"
    using Cons.IH [of ?c] Cons.prems by simp
  then show ?case
    using Cons.prems by (simp add: sendNetworkFlowRequest_def Flows_send_def send_result_def prod.case_eq_if)
qed simp

section \<open>From the relay to the server\<close>

lemma cilium_only: "f \<in> set (cs_flows (snd (export_loop en turns sink))) \<Longrightarrow> f \<in> set (cs_flows sink) \<or> (\<exists>x. f = CiliumFlow x)"
  by (auto simp: cilium_export.loop_flows turn_flow_def List.map_filter_def split: sum.splits)


definition relay_turn :: cilium_turn where
  "relay_turn = \<lparr>ct_done = False, ct_recv = Inr (Some \<lparr>hf_time = Some 5, hf_node_name = ''n'', hf_verdict = 1, hf_traffic_direction = 2,
     hf_IP = Some \<lparr>ip_source = ''10.0.0.1'', ip_destination = ''10.0.0.2'', ip_ip_version = IPV4\<rparr>, hf_l4 = Some (Some (L4Udp 1 2)),
     hf_source = None, hf_destination = None, hf_destination_service = None, hf_is_reply = None, hf_egress_allowed_by = [],
     hf_ingress_allowed_by = [], hf_egress_denied_by = [], hf_ingress_denied_by = []\<rparr>), ct_cache = None\<rparr>"

definition relayed :: flow where
  "relayed = the (turn_flow \<lparr>fe_TrafficDirection = (\<lambda>_. ''EGRESS''), fe_Verdict = (\<lambda>_. ''FORWARDED'')\<rparr> relay_turn)"


end
