(* ===== verification/Spec2Isabelle.thy ===== *)
theory Spec2Isabelle
  imports Runtime_Mirror Proxy_Tunnel Poll_Pool Config_Client Reconciler Resources_Client Flow_Cache Log_Core Retry Stream_Factories Node_Proxy
    Convert_Core Convert_CRD Convert_Cilium Policy_Read_Back Cilium_Apply
    Collector_OVNK Falco_Server Settings K8s_Client Flow_Pipeline Fake_Lifecycle
begin

text \<open>
  A verification library of the Illumio cloud operator, a Kubernetes operator written in Go that
  connects a cluster to the CloudSecure service over four gRPC streams. The operator reports the
  cluster's objects (resource stream), its network flows (flow stream) and its own logs (logs
  stream), receives the objects the service wants in the cluster (configuration stream), and a
  reconciler applies the difference between what is wanted and what is there.

  \<^bold>\<open>The parts and the theories that model them\<close> (paths under \<open>src/internal/controller\<close> unless they say
  otherwise)

  \<^item> \<open>Prelude\<close>: the types all theories share. Go values become errors as \<open>go_error + 'a\<close>
    (\<open>Inl\<close> the error, wrapped errors as \<open>WrapErr\<close>), maps as association lists with \<open>gm_get\<close>, optional
    pointers as \<open>option\<close>, buffered channels as the record \<open>chan\<close>, and a call that may block or
    panic as the list of its outcomes. \<open>Go_Strings\<close>: the functions of \<open>strings\<close>, \<open>strconv\<close> and
    \<open>time\<close> the sources call. \<open>Float64\<close>: the float64 product of the back-off, rounded as IEEE 754
    does.
  \<^item> \<open>Object_Cache\<close> (\<open>stream/config/cache/cache.go\<close>): the cache of configured objects and of runtime
    objects, one definition per method, split where the method gives up its lock; \<open>cache_step\<close> is the
    interleaving of producers, channel and consumer. The locale \<open>object_store\<close> states what its
    clients rely on and is interpreted on it; the locale \<open>message_equality\<close> holds what the cache
    needs of the comparison it is given, and is interpreted on \<open>proto.Equal\<close>.
  \<^item> \<open>Proto_Types\<close> (\<open>src/api\<close>, \<open>k8s_info.proto\<close>) and \<open>Objects\<close> (\<open>src/internal/convert/policy.go\<close>): the
    messages, the kind table, cache keys and the object that is applied.
  \<^item> \<open>Config_Client\<close> (\<open>stream/config/client.go\<close>): the configuration stream; \<open>Discovery\<close>
    (\<open>stream/resources/resources.go\<close>): which API version serves which resource; \<open>Reconciler\<close>
    (\<open>reconciler/reconciler.go\<close>, \<open>k8sclient/client.go\<close>).
  \<^item> \<open>Watcher\<close> (\<open>stream/resources/watcher.go\<close>) and \<open>Resources_Client\<close> (\<open>stream/resources/client.go\<close>,
    \<open>gke_metadata.go\<close>): the resource stream and the runtime cache it feeds.
  \<^item> \<open>Kube_Types\<close> (the types of the Kubernetes libraries the converters read), \<open>Convert_Shared\<close>,
    \<open>Convert_Policy\<close>, \<open>Convert_Entry\<close>, \<open>Convert_Core\<close>, \<open>Convert_CRD\<close>, \<open>Convert_AWS\<close> and \<open>Convert_Cilium\<close>
    (\<open>src/internal/convert\<close>): the conversion of every kind of object into its message;
    \<open>Json_Decode\<close>: how \<open>encoding/json\<close> fills a struct; \<open>Policy_Read_Back\<close>: applying a
    ClusterNetworkPolicy and converting the stored object again.
  \<^item> \<open>Flow_Keys\<close> (\<open>src/api\<close>, \<open>cilium_flow.go\<close>, \<open>five_tuple_flow.go\<close>) and \<open>Flow_Cache\<close>
    (\<open>stream/flows/cache/cache.go\<close>, \<open>stream/flows/client.go\<close>): the aggregation of flows and the
    stream that sends them.
  \<^item> \<open>Log_Rotation\<close>, \<open>Log_Reader\<close>, \<open>Log_Fetcher\<close>, \<open>Auto_Mode\<close> (\<open>stream/flows/awsautomode\<close>) and
    \<open>AWS_Flow_Log\<close> (\<open>collector/awsvpccni.go\<close>, \<open>collector/types.go\<close>): flows of EKS Auto Mode nodes,
    read from a log file on each node through the kubelet.
  \<^item> \<open>Collector_Sink\<close> (\<open>stream/flows/flows.go\<close>): what collectors hand flows to, and the locale
    \<open>collector_loop\<close> of their loops, interpreted by \<open>Collector_Cilium\<close> (\<open>collector/cilium.go\<close>,
    \<open>collector/hubble_watchdog.go\<close>, \<open>hubble/hubble.go\<close>, \<open>stream/flows/cilium\<close>), \<open>Collector_OVNK\<close>
    (\<open>collector/ovnk.go\<close>) and \<open>Collector_Falco\<close> (\<open>collector/falco.go\<close>, \<open>stream/flows/falco\<close>);
    \<open>VPCCNI_Client\<close> (\<open>stream/flows/awsvpccni\<close>). \<open>IP_Text\<close> is the text of an address.
  \<^item> \<open>Flow_Detect\<close> (\<open>stream/flows/detect.go\<close>): the choice of a collector; \<open>Connection\<close> (\<open>auth\<close>,
    \<open>stream/manager.go\<close>): credentials, the connection and the loop that reopens the streams;
    \<open>Flow_Stream\<close>: a collector as one of those streams; \<open>TLS_Creds\<close> (\<open>src/internal/pkg/tls\<close>): the
    credentials for Hubble Relay; \<open>K8s_Client\<close> (\<open>k8sclient/client.go\<close>); \<open>Settings\<close> and \<open>Startup\<close> (\<open>src/cmd/main.go\<close>): which
    settings, streams and which watchdog the operator starts with.
  \<^item> \<open>Log_Core\<close> (\<open>logging\<close>): the logger in front of the writer of \<open>Logging\<close>; \<open>Stream_Factories\<close> (the four
    \<open>factory.go\<close> files): what a session shares with the one before it; \<open>Node_Proxy\<close>
    (\<open>stream/flows/awsautomode/fetcher.go\<close>): the requests behind the kubelet of \<open>Auto_Mode\<close>; \<open>Falco_Server\<close>
    (\<open>stream/flows/falco/server.go\<close>): server, handlers and client over one channel;
    \<open>Poll_Pool\<close>: the goroutines that poll the nodes of \<open>Auto_Mode\<close>; \<open>Config_Delivery\<close>: the way of the configuration from
    the service to the cluster over reconnections; \<open>Runtime_Mirror\<close>: the way back, from the cluster's objects to the runtime
    cache, and the operator as a whole.
  \<^item> \<open>Fake_Server\<close>, \<open>Fake_Lifecycle\<close> and \<open>Proxy_Tunnel\<close> (\<open>src/fakeserver\<close>): the server the operator is tested against; \<open>Flow_Pipeline\<close>: the way of a
    flow from the collector to that server.
  \<^item> \<open>Retry\<close> (\<open>stream/retry.go\<close>, \<open>stream/manager.go\<close>), \<open>Deadlock\<close> (\<open>stream/deadlock.go\<close>), \<open>Stats\<close>
    (\<open>stream/stats.go\<close>), \<open>Stream_Client\<close> (the send every client shares) and \<open>Logging\<close>
    (\<open>logging/grpc_logger.go\<close>, \<open>stream/logs\<close>).

  \<^bold>\<open>What the lemmas show\<close>

  \<^item> Configuration: \<open>Run_loop\<close>, the receive loop with the reconciler taking announcements in between,
    refines an abstract protocol of a snapshot followed by mutations; an interrupted stream keeps
    the previous state; handler errors are protocol violations or a cancelled context. Over any number of
    sessions, a reconciliation leaves in the cluster what the messages describe (\<open>Config_Delivery\<close>). The runtime
    cache mirrors what lists and watches report of the cluster, and with it the operator as a whole leaves what the service
    describes, removes what it no longer names and touches nothing else (\<open>Runtime_Mirror\<close>).
  \<^item> Caches: in every interleaving the consumer's view agrees with the cache once nothing is in
    flight, so the reconciler misses no change (this theory). Runtime caches hold only objects
    the operator owns, under the key the configuration uses.
  \<^item> Reconciliation converges for every order of the keys, isolates failures, and does nothing when the
    caches agree. The API server is a parameter whose contract (\<open>k8s_contract\<close>) is that an accepted
    apply or delete takes effect on the named object only and a refused one does nothing.
  \<^item> Watches deliver every change once and in order over restarts, so that what they report is the cluster at the
    version they have reached; requests of the resource stream follow its protocol.
  \<^item> Conversion: a NetworkPolicy and an AdminNetworkPolicy decide every connection as their message
    does; the core converter returns for every object and attaches data only to its own kind
    and group; route verdicts are current; an applied AWS policy reads back as it was sent (locale
    \<open>selector_codec\<close>), so that the reconciler sees no difference; an applied Cilium policy is in the form of Cilium's
    resource definitions (\<open>Cilium_Apply\<close>).
  \<^item> Flows: nothing is lost or sent twice, the queue is ordered, the timer is armed, the insertion from
    the back equals the reference insertion.
  \<^item> Auto Mode: each complete record of a node's log is handed on once and in order whatever is
    appended, rotated, compressed or deleted between polls; a failed poll loses nothing; the goroutines that poll
    do what polling one node after the other does, within their bound (\<open>Poll_Pool\<close>).
  \<^item> Collectors cache every flow they are sent, in order and once; windows of log requests leave no gap;
    IPFIX records and Falco events are decoded as they were written; the encryption to Hubble Relay
    is dropped for one reason only; detection changes no traffic.
  \<^item> A cluster is onboarded once; a stream that asks to stop reopens all streams. The streams the
    operator registers are all waited for, its health endpoint fails for two reasons only, credentials
    without ALPN check what others check, and an operator joins the fake server end to end.
  \<^item> Retries stay within their bounds and return, the health check gives its verdict over every
    history, counters lose nothing, and every line of the console is shipped once, buffered or counted as lost
    (\<open>Log_Core\<close>). However Falco's server, handlers and client interleave, each request is answered once,
    waits, or is aborted after the client has ended. A server that honours Range is the kubelet of the Auto Mode
    theorems (\<open>Node_Proxy\<close>).

  \<^bold>\<open>Parameters and bounds\<close>

  Code that is not in the repository is an argument: the API server, discovery client and kubelet, the
  JSON and protojson libraries, the hash of the log reader, the order in which Go ranges over a map,
  time, random numbers, and the answers of a gRPC stream. Where a property relies on such code
  the reliance is a hypothesis, and a witness instantiates it. Atomic counters and ports are words
  of their width; file offsets and times are unbounded (a log file below \<open>2^63\<close> bytes), and strings
  are lists of 8-bit characters with \<open>ToLower\<close> on ASCII. Loops that need not end (the back-off, the
  receive loops) are either \<open>partial_function (option)\<close>, with a lemma that they return, or step over
  a finite sequence of events, one list element per iteration, so no fuel bounds them. The records
  of the Auto Mode theorems are shorter than the overlap of one mebibyte that the reader validates.

  \<^bold>\<open>Not modelled\<close>

  The TLS handshake itself, the construction of loggers, listeners
  and HTTP servers in \<open>src/cmd\<close> (calls of libraries), and generated protobuf code.
\<close>

section \<open>The reconciler misses no change\<close>

text \<open>
  C2: the configuration and runtime caches tell the reconciler everything: in every
  interleaving of inserts, deletes, snapshot replacements, channel sends and receives, once no
  producer has a notification outstanding, the channel is empty and no producer gave up on a
  cancelled context, the reconciler's view of every key agrees with the cache.
\<close>

theorem no_lost_update:
  assumes "cache_start s0" and "(cache_step proto_equal)\<^sup>*\<^sup>* s0 s"
    and "\<not> cs_lost s" and "cs_pend s = []" and "chan_buf (oc_changed (cs_cache s)) = []"
  shows "in_sync proto_equal s k"
  by (rule configured_eq.quiescent_in_sync [OF assms])

definition empty_cache_sys :: "configured_object cache_sys" where
  "empty_cache_sys = \<lparr>cs_cache = NewObjectCache, cs_pend = [], cs_view = (\<lambda>_. None), cs_lost = False\<rparr>"

definition cache_with :: "string list \<Rightarrow> configured_object object_cache" where
  "cache_with signals = NewObjectCache\<lparr>oc_objects := [(''k'', sample_policy ''a'')],
     oc_changed := (oc_changed (NewObjectCache :: configured_object object_cache))\<lparr>chan_buf := signals\<rparr>\<rparr>"

definition told_cache_sys :: "configured_object cache_sys" where
  "told_cache_sys = \<lparr>cs_cache = cache_with [], cs_pend = [],
     cs_view = (\<lambda>_. None)(''k'' := Some (sample_policy ''a'')), cs_lost = False\<rparr>"

lemma told_reachable: "(cache_step proto_equal)\<^sup>*\<^sup>* empty_cache_sys told_cache_sys"
proof -
  let ?s1 = "\<lparr>cs_cache = cache_with [], cs_pend = [''k''], cs_view = (\<lambda>_. None), cs_lost = False\<rparr>"
  let ?s2 = "\<lparr>cs_cache = cache_with [''k''], cs_pend = [], cs_view = (\<lambda>_. None), cs_lost = False\<rparr>"
  have "cache_step proto_equal empty_cache_sys ?s1"
    using cache_step.insert_step [of proto_equal "''k''" "sample_policy ''a''" empty_cache_sys "cache_with []" True]
    by (simp add: empty_cache_sys_def Insert_locked_def cache_with_def NewObjectCache_def make_chan_def)
  moreover have "cache_step proto_equal ?s1 ?s2"
    using cache_step.send_step [of "''k''" ?s1 "cache_with [''k'']" False proto_equal]
    by (simp add: notify_select_def cache_with_def NewObjectCache_def chan_simps)
  moreover have "cache_step proto_equal ?s2 told_cache_sys"
    using cache_step.receive_step [of ?s2 "''k''" "[]" proto_equal]
    by (simp add: told_cache_sys_def cache_with_def NewObjectCache_def chan_simps SnapshotReplaced_def)
  ultimately show ?thesis by (meson converse_rtranclp_into_rtranclp rtranclp.rtrancl_refl)
qed

theorem no_lost_update_witness: "in_sync proto_equal told_cache_sys ''k''"
  by (rule no_lost_update [OF _ told_reachable])
     (simp_all add: cache_start_def empty_cache_sys_def told_cache_sys_def cache_with_def)

section \<open>Retrying the logs stream\<close>

text \<open>
  The logs client under the retry loops. A session of the stream is what its receive loop sees, a
  message or a cancelled context at a time, and the error that ends it; the context is cancelled when
  the sessions are used up.
\<close>

type_synonym logs_session = "(bool \<times> unit result) list \<times> go_error"

definition session_error :: "logs_session \<Rightarrow> unit result option" where
  "session_error s = Logs_Run_loop (fst s @ [(False, Inl (snd s))])"

definition logs_sessions :: "(unit, logs_session list) stream_factory" where
  "logs_sessions =
     \<lparr>sf_new = (\<lambda>w. ((Inr (), 0), w)),
      sf_run = (\<lambda>_ w. case w of
         [] \<Rightarrow> None
       | s # ss \<Rightarrow> map_option (\<lambda>r. ((case r of Inl e \<Rightarrow> Some e | Inr _ \<Rightarrow> None, 1), ss)) (session_error s)),
      sf_close = (\<lambda>_ w. w)\<rparr>"

lemma session_ends: "\<exists>r. session_error (rs, e) = Some r"
  by (induction rs) (auto simp: session_error_def split: sum.splits)

lemma logs_session_runs:
  "w \<noteq> [] \<Longrightarrow> \<exists>err elapsed w1. runStreamWithKeepalive logs_sessions w = Some ((err, elapsed), w1) \<and> length w1 < length w"
proof (cases w)
  case (Cons s ss)
  obtain r where "session_error s = Some r" using session_ends [of "fst s" "snd s"] by auto
  with Cons show ?thesis by (simp add: runStreamWithKeepalive_def logs_sessions_def)
qed simp

interpretation logs_retry: progressing_action "connectAndStream (\<lambda>w. w = []) logs_sessions" "\<lambda>w. (0, w)" length
  by (rule connect_progress) (simp_all add: logs_session_runs)

text \<open>The logs stream's retry loop ends however its sessions end.\<close>

lemma logs_retry_ends: "\<exists>e elapsed w1. exponentialBackoff opts (\<lambda>w. (0, w)) (connectAndStream (\<lambda>w. w = []) logs_sessions) w
    = Some ((Some e, elapsed), w1)"
  unfolding exponentialBackoff_def using logs_retry.loop_progress by blast

end
